(* ===== verification/GRC_Prelude.thy ===== *)
theory GRC_Prelude
  imports Main "HOL-Library.Sublist"
begin

text \<open>
  What every component of the development shares: the names of the model's basic types, the
  error monad in which a request handler either refuses or answers, tables of rows as the ORM
  reads and writes them, and the invariant rule of a transition system.

  A Python \<^verbatim>\<open>uuid\<close> is a natural number, an aware \<^verbatim>\<open>datetime\<close> an integer (microseconds since the
  epoch), a \<^verbatim>\<open>date\<close> an integer (its ordinal), a Python \<^verbatim>\<open>str\<close> a \<open>string\<close>.  An exception is the left
  injection of a sum; \<open>ebind\<close> is "run this and go on unless it raised".
\<close>

type_synonym uuid = nat
type_synonym instant = int
type_synonym day = int

named_theorems inr_simps \<open>when a step of a handler answers\<close>
named_theorems frame_simps \<open>which tables an operation leaves alone\<close>

section \<open>Handlers that refuse or answer\<close>

definition ebind :: "'e + 'a \<Rightarrow> ('a \<Rightarrow> 'e + 'b) \<Rightarrow> 'e + 'b" where
  "ebind m f = (case m of Inl e \<Rightarrow> Inl e | Inr x \<Rightarrow> f x)"

definition ensure :: "bool \<Rightarrow> 'e \<Rightarrow> 'e + unit" where
  "ensure b e = (if b then Inr () else Inl e)"

definition or_else :: "'a option \<Rightarrow> 'e \<Rightarrow> 'e + 'a" where
  "or_else m e = (case m of None \<Rightarrow> Inl e | Some x \<Rightarrow> Inr x)"

definition map_err :: "('e \<Rightarrow> 'f) \<Rightarrow> 'e + 'a \<Rightarrow> 'f + 'a" where
  "map_err g m = (case m of Inl e \<Rightarrow> Inl (g e) | Inr x \<Rightarrow> Inr x)"

lemma map_err_simps [simp]: "map_err g (Inl e) = Inl (g e)" "map_err g (Inr x) = Inr x"
  by (simp_all add: map_err_def)

lemma map_err_eq_Inr [inr_simps]: "map_err g m = Inr x \<longleftrightarrow> m = Inr x"
  by (cases m) auto

lemma ebind_Inl [simp]: "ebind (Inl e) f = Inl e"
  by (simp add: ebind_def)

lemma ebind_Inr [simp]: "ebind (Inr x) f = f x"
  by (simp add: ebind_def)

lemma ebind_eq_Inr [inr_simps]: "ebind m f = Inr y \<longleftrightarrow> (\<exists>x. m = Inr x \<and> f x = Inr y)"
  by (cases m) auto

lemma ebind_eq_Inl: "ebind m f = Inl e \<longleftrightarrow> m = Inl e \<or> (\<exists>x. m = Inr x \<and> f x = Inl e)"
  by (cases m) auto

lemma ensure_True [simp]: "ensure True e = Inr ()"
  by (simp add: ensure_def)

lemma ensure_False [simp]: "ensure False e = Inl e"
  by (simp add: ensure_def)

lemma ensure_eq_Inr [inr_simps]: "ensure b e = Inr u \<longleftrightarrow> b"
  by (simp add: ensure_def)

lemma ensure_eq_Inl: "ensure b e = Inl e' \<longleftrightarrow> \<not> b \<and> e' = e"
  by (auto simp: ensure_def)

lemma or_else_Some [simp]: "or_else (Some x) e = Inr x"
  by (simp add: or_else_def)

lemma or_else_None [simp]: "or_else None e = Inl e"
  by (simp add: or_else_def)

lemma or_else_eq_Inr [inr_simps]: "or_else m e = Inr x \<longleftrightarrow> m = Some x"
  by (simp add: or_else_def split: option.splits)

lemma or_else_eq_Inl: "or_else m e = Inl e' \<longleftrightarrow> m = None \<and> e' = e"
  by (auto simp: or_else_def split: option.splits)

section \<open>Rows and tables\<close>

text \<open>\<open>put_row\<close> is an UPDATE of the row with the same primary key, \<open>find\<close> is
  \<^verbatim>\<open>.filter(...).first()\<close>, appending is an INSERT.\<close>

definition put_row :: "('r \<Rightarrow> 'k) \<Rightarrow> 'r \<Rightarrow> 'r list \<Rightarrow> 'r list" where
  "put_row key row rows = map (\<lambda>r. if key r = key row then row else r) rows"

definition count_rows :: "('r \<Rightarrow> bool) \<Rightarrow> 'r list \<Rightarrow> nat" where
  "count_rows P rows = length (filter P rows)"

lemma map_key_put_row [simp]: "map key (put_row key row rows) = map key rows"
  by (auto simp: put_row_def)

lemma length_put_row [simp]: "length (put_row key row rows) = length rows"
  by (simp add: put_row_def)

lemma put_row_Nil [simp]: "put_row key row [] = []"
  by (simp add: put_row_def)

lemma put_row_Cons [simp]:
  "put_row key row (r # rs) = (if key r = key row then row else r) # put_row key row rs"
  by (simp add: put_row_def)

lemma in_set_put_row:
  "r \<in> set (put_row key row rows) \<longleftrightarrow>
    (r \<in> set rows \<and> key r \<noteq> key row) \<or> (r = row \<and> key row \<in> key ` set rows)"
proof (induction rows)
  case Nil
  then show ?case by simp
next
  case (Cons x xs)
  then show ?case by (cases "key x = key row") auto
qed

lemma put_row_absent: "key row \<notin> key ` set rows \<Longrightarrow> put_row key row rows = rows"
  by (induction rows) auto

lemma find_Some_in: "find P xs = Some x \<Longrightarrow> x \<in> set xs \<and> P x"
  by (induction xs) (auto split: if_splits)

lemma find_None_all: "find P xs = None \<longleftrightarrow> (\<forall>x\<in>set xs. \<not> P x)"
  by (induction xs) auto

lemma find_by_key:
  assumes "distinct (map key rows)" and "r \<in> set rows"
  shows "find (\<lambda>x. key x = key r) rows = Some r"
  using assms by (induction rows) (auto simp: image_iff)

lemma count_rows_append [simp]: "count_rows P (xs @ ys) = count_rows P xs + count_rows P ys"
  by (simp add: count_rows_def)

lemma count_rows_simps [simp]:
  "count_rows P [] = 0" "count_rows P (x # xs) = (if P x then Suc (count_rows P xs) else count_rows P xs)"
  by (simp_all add: count_rows_def)

lemma count_rows_0: "count_rows P xs = 0 \<longleftrightarrow> (\<forall>x\<in>set xs. \<not> P x)"
  by (simp add: count_rows_def filter_empty_conv)

lemma count_rows_pos: "0 < count_rows P xs \<longleftrightarrow> (\<exists>x\<in>set xs. P x)"
  using count_rows_0 [of P xs] by auto

text \<open>An UPDATE that sets the predicate never lowers a count, one that clears it never raises it.\<close>

lemma count_rows_put_le:
  assumes "\<And>r. r \<in> set rows \<Longrightarrow> key r = key row \<Longrightarrow> P r \<Longrightarrow> P row"
  shows "count_rows P rows \<le> count_rows P (put_row key row rows)"
  using assms by (induction rows) (auto intro: le_SucI)

lemma count_rows_put_ge:
  assumes "\<And>r. r \<in> set rows \<Longrightarrow> key r = key row \<Longrightarrow> P row \<Longrightarrow> P r"
  shows "count_rows P (put_row key row rows) \<le> count_rows P rows"
  using assms by (induction rows) (auto intro: le_SucI)

lemma count_rows_put_same:
  assumes "\<And>r. r \<in> set rows \<Longrightarrow> key r = key row \<Longrightarrow> P row = P r"
  shows "count_rows P (put_row key row rows) = count_rows P rows"
  using assms by (induction rows) auto

text \<open>A table of a store: how its rows are read and replaced, and the key each row carries.
  What an UPDATE and an INSERT do to a later lookup is proved once for every such table.\<close>

locale keyed_table =
  fixes rows :: "'s \<Rightarrow> 'r list"
    and set_rows :: "'r list \<Rightarrow> 's \<Rightarrow> 's"
    and key :: "'r \<Rightarrow> uuid"
  assumes rows_set_rows: "rows (set_rows rs s) = rs"
begin

lemma rows_after_put: "rows (set_rows (put_row key r (rows s)) s) = put_row key r (rows s)"
  by (rule rows_set_rows)

lemma put_keeps_keys:
  "distinct (map key (rows s)) \<Longrightarrow> distinct (map key (rows (set_rows (put_row key r (rows s)) s)))"
  by (simp add: rows_set_rows)

lemma find_after_put:
  assumes "distinct (map key (rows s))" and "old \<in> set (rows s)" and "key old = key r"
  shows "find (\<lambda>x. key x = key r) (rows (set_rows (put_row key r (rows s)) s)) = Some r"
proof -
  have "r \<in> set (put_row key r (rows s))"
    using assms(2,3) by (metis imageI in_set_put_row)
  then show ?thesis
    using find_by_key [of key "put_row key r (rows s)" r] assms(1) by (simp add: rows_set_rows)
qed

lemma find_other_after_put:
  assumes "k \<noteq> key r"
  shows "find (\<lambda>x. key x = k) (rows (set_rows (put_row key r (rows s)) s)) =
    find (\<lambda>x. key x = k) (rows s)"
proof -
  have "find (\<lambda>x. key x = k) (put_row key r rs) = find (\<lambda>x. key x = k) rs" for rs
    using assms by (induction rs) auto
  then show ?thesis by (simp add: rows_set_rows)
qed

lemma insert_keeps_keys:
  assumes "distinct (map key (rows s))" and "\<forall>x\<in>set (rows s). key x < n" and "key r = n"
  shows "distinct (map key (rows (set_rows (rows s @ [r]) s)))"
    and "\<forall>x\<in>set (rows (set_rows (rows s @ [r]) s)). key x < Suc n"
  using assms by (auto simp: rows_set_rows less_Suc_eq)

end

section \<open>Transition systems and their invariants\<close>

text \<open>A component with state offers its initial states, its steps and a candidate invariant that
  holds initially and that every step keeps; whatever runs, the invariant then holds.\<close>

locale invariant_system =
  fixes init :: "'s \<Rightarrow> bool"
    and step :: "'s \<Rightarrow> 's \<Rightarrow> bool"
    and inv :: "'s \<Rightarrow> bool"
  assumes inv_init: "init s \<Longrightarrow> inv s"
    and inv_step: "step s t \<Longrightarrow> inv s \<Longrightarrow> inv t"
begin

lemma inv_run: "step\<^sup>*\<^sup>* s t \<Longrightarrow> inv s \<Longrightarrow> inv t"
  by (induction rule: rtranclp_induct) (auto intro: inv_step)

lemma inv_reachable: "init s \<Longrightarrow> step\<^sup>*\<^sup>* s t \<Longrightarrow> inv t"
  by (blast intro: inv_run inv_init)

text \<open>A fact about one row that no step can undo holds in every later state.\<close>

lemma stable_run:
  assumes "step\<^sup>*\<^sup>* s t" and "inv s" and "Q s"
    and stable: "\<And>u v. step u v \<Longrightarrow> inv u \<Longrightarrow> Q u \<Longrightarrow> Q v"
  shows "Q t"
proof -
  from assms(1,2,3) have "inv t \<and> Q t"
    by (induction rule: rtranclp_induct) (auto intro: inv_step stable)
  then show ?thesis ..
qed

end

section \<open>Small facts on lists and maps\<close>

lemma map_of_map_eq: "map_of (map (\<lambda>x. (f x, g x)) xs) k =
    map_option g (find (\<lambda>x. f x = k) xs)"
  by (induction xs) auto

end
