(* ===== verification/Case_State.thy ===== *)
theory Case_State
  imports GRC_Prelude
begin

text \<open>
  The case state machine, \<^verbatim>\<open>backend/apps/cases/state.py\<close>, over the fixed categories of
  \<^verbatim>\<open>backend/apps/shared/kinds.py\<close>.  \<open>TRANSITIONS\<close> and \<open>GUARDS\<close> are the two tables of the module,
  \<open>check_transition\<close> the one check before every move, \<open>allowed_transitions\<close> what a read offers.
\<close>

section \<open>Kinds (shared/kinds.py)\<close>

datatype case_category = NEW | ASSIGNED | ASSESSING | IMPLEMENTING | SIGNOFF | CLOSED | DISMISSED

fun category_value :: "case_category \<Rightarrow> string" where
  "category_value NEW = ''new''"
| "category_value ASSIGNED = ''assigned''"
| "category_value ASSESSING = ''assessing''"
| "category_value IMPLEMENTING = ''implementing''"
| "category_value SIGNOFF = ''signoff''"
| "category_value CLOSED = ''closed''"
| "category_value DISMISSED = ''dismissed''"

datatype close_reason = SIGNED_OFF | NOT_APPLICABLE | NO_ACTION

fun close_reason_value :: "close_reason \<Rightarrow> string" where
  "close_reason_value SIGNED_OFF = ''signed_off''"
| "close_reason_value NOT_APPLICABLE = ''not_applicable''"
| "close_reason_value NO_ACTION = ''no_action''"

text \<open>\<^verbatim>\<open>CloseReason(value)\<close>: the member with this value; a value of none raises.\<close>

definition close_reason_of :: "string \<Rightarrow> close_reason option" where
  "close_reason_of v = find (\<lambda>r. close_reason_value r = v) [SIGNED_OFF, NOT_APPLICABLE, NO_ACTION]"

lemma close_reason_of_value [simp]: "close_reason_of (close_reason_value r) = Some r"
  by (cases r) (simp_all add: close_reason_of_def)

lemma category_value_inj [simp]: "category_value a = category_value b \<longleftrightarrow> a = b"
  by (cases a; cases b) simp_all

section \<open>The tables\<close>

fun TRANSITIONS :: "case_category \<Rightarrow> case_category list" where
  "TRANSITIONS NEW = [ASSIGNED, DISMISSED]"
| "TRANSITIONS DISMISSED = [NEW]"
| "TRANSITIONS ASSIGNED = [ASSESSING, CLOSED]"
| "TRANSITIONS ASSESSING = [IMPLEMENTING, CLOSED]"
| "TRANSITIONS IMPLEMENTING = [SIGNOFF]"
| "TRANSITIONS SIGNOFF = [IMPLEMENTING, CLOSED]"
| "TRANSITIONS CLOSED = [NEW]"

definition ONE_PERSON_CLOSE :: "close_reason list" where
  "ONE_PERSON_CLOSE = [NO_ACTION, NOT_APPLICABLE]"

datatype refusal =
  invalid_transition | open_actions | evidence_missing | four_eyes_violation
| owner_required | reason_required | why_required

definition REFUSAL_CODES :: "refusal list" where
  "REFUSAL_CODES = [invalid_transition, open_actions, evidence_missing, four_eyes_violation,
     owner_required, reason_required, why_required]"

text \<open>\<^verbatim>\<open>CaseFacts\<close>: what the guards read about a case, the move and the person making it.\<close>

record case_facts =
  owner_set :: bool
  reason_given :: bool
  why_saved :: bool
  open_action_count :: nat
  clean_evidence_count :: nat
  signoff_requester :: "uuid option"
  actor :: "uuid option"
  close_reason_kind :: "close_reason option"

text \<open>\<^verbatim>\<open>Guard\<close>: a named predicate on one edge; \<open>on_request\<close> guards test what the move supplies.\<close>

record guard =
  g_name :: string
  g_code :: refusal
  g_holds :: "case_facts \<Rightarrow> bool"
  g_on_request :: bool

definition kind_restorable :: "close_reason option \<Rightarrow> bool" where
  "kind_restorable k = (case k of None \<Rightarrow> False | Some r \<Rightarrow> r \<in> set ONE_PERSON_CLOSE)"

definition ONE_PERSON_CLOSE_GUARDS :: "guard list" where
  "ONE_PERSON_CLOSE_GUARDS =
    [\<lparr>g_name = ''close_reason_given'', g_code = reason_required,
       g_holds = (\<lambda>f. close_reason_kind f \<noteq> None), g_on_request = True\<rparr>,
     \<lparr>g_name = ''one_person_close'', g_code = four_eyes_violation,
       g_holds = (\<lambda>f. kind_restorable (close_reason_kind f)), g_on_request = True\<rparr>]"

fun GUARDS :: "case_category \<Rightarrow> case_category \<Rightarrow> guard list" where
  "GUARDS NEW ASSIGNED =
    [\<lparr>g_name = ''owner_on_triage'', g_code = owner_required, g_holds = owner_set, g_on_request = True\<rparr>]"
| "GUARDS NEW DISMISSED =
    [\<lparr>g_name = ''reason_on_dismissal'', g_code = reason_required, g_holds = reason_given,
       g_on_request = True\<rparr>]"
| "GUARDS ASSIGNED CLOSED = ONE_PERSON_CLOSE_GUARDS"
| "GUARDS ASSESSING IMPLEMENTING =
    [\<lparr>g_name = ''why_saved'', g_code = why_required, g_holds = why_saved, g_on_request = False\<rparr>]"
| "GUARDS ASSESSING CLOSED = ONE_PERSON_CLOSE_GUARDS"
| "GUARDS IMPLEMENTING SIGNOFF =
    [\<lparr>g_name = ''no_open_action'', g_code = open_actions, g_holds = (\<lambda>f. open_action_count f = 0),
       g_on_request = False\<rparr>,
     \<lparr>g_name = ''clean_evidence'', g_code = evidence_missing,
       g_holds = (\<lambda>f. clean_evidence_count f \<ge> 1), g_on_request = False\<rparr>]"
| "GUARDS SIGNOFF CLOSED =
    [\<lparr>g_name = ''second_person'', g_code = four_eyes_violation,
       g_holds = (\<lambda>f. signoff_requester f \<noteq> None \<and> actor f \<noteq> None \<and> actor f \<noteq> signoff_requester f),
       g_on_request = False\<rparr>]"
| "GUARDS CLOSED NEW =
    [\<lparr>g_name = ''restorable_close'', g_code = invalid_transition,
       g_holds = (\<lambda>f. kind_restorable (close_reason_kind f)), g_on_request = False\<rparr>]"
| "GUARDS _ _ = []"

text \<open>\<^verbatim>\<open>_DETAIL\<close>: what a refusal says.\<close>

fun refusal_detail :: "refusal \<Rightarrow> string" where
  "refusal_detail invalid_transition = ''This case cannot move there from where it is now.''"
| "refusal_detail owner_required = ''Choose an owner to triage the case.''"
| "refusal_detail reason_required = ''Choose a reason.''"
| "refusal_detail why_required = ''Save why the change matters before starting the work.''"
| "refusal_detail open_actions = ''Every action must be done before sign-off can be requested.''"
| "refusal_detail evidence_missing =
    ''Attach at least one piece of evidence before requesting sign-off.''"
| "refusal_detail four_eyes_violation = ''A second person must sign off.''"

section \<open>The check and the offer\<close>

text \<open>The loop over the guards: the first one that does not hold raises its own code.\<close>

fun first_failing :: "guard list \<Rightarrow> case_facts \<Rightarrow> refusal + unit" where
  "first_failing [] f = Inr ()"
| "first_failing (g # gs) f = (if \<not> g_holds g f then Inl (g_code g) else first_failing gs f)"

definition check_transition :: "case_category \<Rightarrow> case_category \<Rightarrow> case_facts \<Rightarrow> refusal + unit" where
  "check_transition from_status to_status facts =
    (if to_status \<notin> set (TRANSITIONS from_status) then Inl invalid_transition
     else first_failing (GUARDS from_status to_status) facts)"

definition allowed_transitions :: "case_category \<Rightarrow> case_facts \<Rightarrow> case_category list" where
  "allowed_transitions category facts =
    filter (\<lambda>to_status. \<forall>g\<in>set (GUARDS category to_status). g_on_request g \<or> g_holds g facts)
      (TRANSITIONS category)"

definition is_open :: "case_category \<Rightarrow> bool" where
  "is_open category \<longleftrightarrow> category \<notin> set [CLOSED, DISMISSED]"

section \<open>What the check decides\<close>

lemma first_failing_Inr: "first_failing gs f = Inr u \<longleftrightarrow> (\<forall>g\<in>set gs. g_holds g f)"
  by (induction gs) auto

lemma first_failing_Inl:
  "first_failing gs f = Inl e \<Longrightarrow> \<exists>g\<in>set gs. g_code g = e \<and> \<not> g_holds g f"
  by (induction gs) (auto split: if_splits)

lemma check_transition_Inr [inr_simps]:
  "check_transition a b f = Inr u \<longleftrightarrow>
    b \<in> set (TRANSITIONS a) \<and> (\<forall>g\<in>set (GUARDS a b). g_holds g f)"
  by (simp add: check_transition_def first_failing_Inr)

lemmas guard_simps = ONE_PERSON_CLOSE_GUARDS_def kind_restorable_def ONE_PERSON_CLOSE_def

text \<open>The machine written out edge by edge: what each move needs.\<close>

lemma check_to_assigned [inr_simps]:
  "check_transition a ASSIGNED f = Inr u \<longleftrightarrow> a = NEW \<and> owner_set f"
  by (cases a) (simp_all add: inr_simps guard_simps)

lemma check_to_dismissed [inr_simps]:
  "check_transition a DISMISSED f = Inr u \<longleftrightarrow> a = NEW \<and> reason_given f"
  by (cases a) (simp_all add: inr_simps guard_simps)

lemma check_to_assessing [inr_simps]:
  "check_transition a ASSESSING f = Inr u \<longleftrightarrow> a = ASSIGNED"
  by (cases a) (simp_all add: inr_simps guard_simps)

lemma check_to_implementing [inr_simps]:
  "check_transition a IMPLEMENTING f = Inr u \<longleftrightarrow> a = SIGNOFF \<or> (a = ASSESSING \<and> why_saved f)"
  by (cases a) (simp_all add: inr_simps guard_simps)

lemma check_to_signoff [inr_simps]:
  "check_transition a SIGNOFF f = Inr u \<longleftrightarrow>
    a = IMPLEMENTING \<and> open_action_count f = 0 \<and> 1 \<le> clean_evidence_count f"
  by (cases a) (simp_all add: inr_simps guard_simps)

lemma check_to_closed [inr_simps]:
  "check_transition a CLOSED f = Inr u \<longleftrightarrow>
    (a \<in> {ASSIGNED, ASSESSING} \<and> kind_restorable (close_reason_kind f)) \<or>
    (a = SIGNOFF \<and> signoff_requester f \<noteq> None \<and> actor f \<noteq> None \<and> actor f \<noteq> signoff_requester f)"
  by (cases a) (auto simp: inr_simps guard_simps split: option.splits)

lemma check_to_new [inr_simps]:
  "check_transition a NEW f = Inr u \<longleftrightarrow>
    a = DISMISSED \<or> (a = CLOSED \<and> kind_restorable (close_reason_kind f))"
  by (cases a) (simp_all add: inr_simps guard_simps)

end
