(* ===== verification/Footprint.thy ===== *)
theory Footprint
  imports GRC_Prelude
begin

text \<open>
  The scope rule, \<^verbatim>\<open>backend/apps/taxonomy/matching.py\<close>: a record is in a bank's footprint when, in
  every dimension that restricts, one of the terms it carries is one the bank names.  The rule is
  written twice in the program, as a Python function over dimension and term keys and as a SQL
  function over term ids (\<^verbatim>\<open>taxonomy/migrations/0006\<close> and \<^verbatim>\<open>0008\<close>); both are here, with the proof
  that they agree on every taxonomy the database can hold.
\<close>

section \<open>The taxonomy\<close>

datatype dimension_kind = SCOPE | CLASSIFICATION | OPT_IN

record dimension =
  dm_id :: uuid
  dm_key :: string
  dm_kind :: dimension_kind
  dm_restricts :: bool
  dm_active :: bool

record taxonomy_term =
  tm_id :: uuid
  tm_key :: string
  tm_dimension :: uuid
  tm_jurisdiction :: "uuid option"

record footprint_term =
  fr_tenant :: uuid
  fr_term :: uuid

text \<open>The tables in their own ordering; \<open>tx_jurisdictions\<close> gives each jurisdiction's parent.\<close>

record taxonomy =
  tx_dimensions :: "dimension list"
  tx_terms :: "taxonomy_term list"
  tx_footprint :: "footprint_term list"
  tx_jurisdictions :: "(uuid \<times> uuid option) list"

section \<open>The Python rule\<close>

text \<open>A dictionary of sets, its keys in insertion order.\<close>

type_synonym scope = "(string \<times> string list) list"

record restricting =
  rs_keys :: "string list"
  rs_opt_in :: "string list"

text \<open>\<^verbatim>\<open>Restricting.__new__\<close>: every opt-in dimension restricts.\<close>

definition Restricting :: "string list \<Rightarrow> string list \<Rightarrow> restricting" where
  "Restricting keys opt_in = \<lparr>rs_keys = keys @ opt_in, rs_opt_in = opt_in\<rparr>"

fun in_footprint :: "scope \<Rightarrow> scope \<Rightarrow> restricting \<Rightarrow> bool" where
  "in_footprint [] footprint r = True"
| "in_footprint ((dim, keys) # items) footprint r =
    (if dim \<notin> set (rs_keys r) \<or> keys = [] then in_footprint items footprint r
     else let have = (case map_of footprint dim of None \<Rightarrow> [] | Some h \<Rightarrow> h) in
       if have = [] then (if dim \<in> set (rs_opt_in r) then False else in_footprint items footprint r)
       else if set keys \<inter> set have = {} then False
       else in_footprint items footprint r)"

text \<open>\<^verbatim>\<open>setdefault(dimension, set()).add(key)\<close>\<close>

fun add_term :: "string \<Rightarrow> string \<Rightarrow> scope \<Rightarrow> scope" where
  "add_term dim key [] = [(dim, [key])]"
| "add_term dim key ((e, ks) # items) =
    (if e = dim then (e, if key \<in> set ks then ks else ks @ [key]) # items
     else (e, ks) # add_term dim key items)"

definition dimension_of :: "taxonomy \<Rightarrow> taxonomy_term \<Rightarrow> dimension option" where
  "dimension_of x t = find (\<lambda>d. dm_id d = tm_dimension t) (tx_dimensions x)"

definition term_of :: "taxonomy \<Rightarrow> uuid \<Rightarrow> taxonomy_term option" where
  "term_of x i = find (\<lambda>t. tm_id t = i) (tx_terms x)"

text \<open>The terms with these ids, grouped by the key of their dimension.\<close>

definition add_term_id :: "taxonomy \<Rightarrow> uuid \<Rightarrow> scope \<Rightarrow> scope" where
  "add_term_id x i s =
    (case term_of x i of None \<Rightarrow> s
     | Some t \<Rightarrow> (case dimension_of x t of None \<Rightarrow> s | Some d \<Rightarrow> add_term (dm_key d) (tm_key t) s))"

definition scope_of_terms :: "taxonomy \<Rightarrow> uuid list \<Rightarrow> scope" where
  "scope_of_terms x ids = fold (add_term_id x) ids []"

definition footprint_of :: "taxonomy \<Rightarrow> uuid \<Rightarrow> scope" where
  "footprint_of x tenant =
    scope_of_terms x (map fr_term (filter (\<lambda>f. fr_tenant f = tenant) (tx_footprint x)))"

definition restricting_dimensions :: "taxonomy \<Rightarrow> restricting" where
  "restricting_dimensions x =
    (let rows = filter (\<lambda>d. (dm_restricts d \<or> dm_kind d = OPT_IN) \<and> dm_active d) (tx_dimensions x)
     in Restricting (map dm_key rows) (map dm_key (filter (\<lambda>d. dm_kind d = OPT_IN) rows)))"

text \<open>\<^verbatim>\<open>library/reading.py\<close>: the dimensions a record falls outside in.\<close>

definition outside_reasons :: "scope \<Rightarrow> scope \<Rightarrow> restricting \<Rightarrow> string list" where
  "outside_reasons sc footprint r =
    map fst (filter (\<lambda>(dim, keys). \<not> in_footprint [(dim, keys)] footprint r) sc)"

text \<open>\<^verbatim>\<open>jurisdiction_scopes([j])[j]\<close> of \<^verbatim>\<open>library/reading.py\<close>: the terms a jurisdiction derives.\<close>

definition reaching :: "taxonomy \<Rightarrow> uuid option \<Rightarrow> taxonomy_term \<Rightarrow> bool" where
  "reaching x j t \<longleftrightarrow> j \<noteq> None \<and> tm_jurisdiction t \<noteq> None \<and>
    (tm_jurisdiction t = j \<or> map_of (tx_jurisdictions x) (the (tm_jurisdiction t)) = Some j)"

definition jurisdiction_scope :: "taxonomy \<Rightarrow> uuid option \<Rightarrow> uuid list" where
  "jurisdiction_scope x j = map tm_id (filter (reaching x j) (tx_terms x))"

section \<open>The SQL rule\<close>

text \<open>\<^verbatim>\<open>taxonomy_footprint_guard\<close>: the terms of every dimension that narrows this bank's footprint,
  each with its dimension, and the terms the footprint names.\<close>

definition narrows :: "taxonomy \<Rightarrow> uuid \<Rightarrow> dimension \<Rightarrow> bool" where
  "narrows x tenant d \<longleftrightarrow> dm_active d \<and> (dm_restricts d \<or> dm_kind d = OPT_IN) \<and>
    (dm_kind d = OPT_IN \<or>
      (\<exists>f\<in>set (tx_footprint x). fr_tenant f = tenant \<and>
        (\<exists>t\<in>set (tx_terms x). tm_id t = fr_term f \<and> tm_dimension t = dm_id d)))"

definition taxonomy_footprint_guard :: "taxonomy \<Rightarrow> uuid \<Rightarrow> uuid list \<times> uuid list \<times> uuid list" where
  "taxonomy_footprint_guard x tenant =
    (let rows = sort_key tm_id (filter (\<lambda>t. \<exists>d\<in>set (tx_dimensions x). dm_id d = tm_dimension t \<and> narrows x tenant d)
       (tx_terms x))
     in (map tm_id rows, map tm_dimension rows,
         map fr_term (filter (\<lambda>f. fr_tenant f = tenant) (tx_footprint x))))"

text \<open>\<^verbatim>\<open>taxonomy_scope_admits\<close>: the loop over the record's terms, then \<^verbatim>\<open>wanting <@ met\<close>.  A term of no
  guarded dimension has no position in the guard and is skipped.\<close>

fun admits_loop :: "uuid list \<Rightarrow> (uuid \<times> uuid) list \<Rightarrow> uuid list \<Rightarrow> uuid list \<Rightarrow> uuid list \<Rightarrow> bool" where
  "admits_loop [] guard allowed wanting met = (set wanting \<subseteq> set met)"
| "admits_loop (t # ts) guard allowed wanting met =
    (case map_of guard t of
       None \<Rightarrow> admits_loop ts guard allowed wanting met
     | Some d \<Rightarrow> admits_loop ts guard allowed (wanting @ [d]) (if t \<in> set allowed then met @ [d] else met))"

definition taxonomy_scope_admits :: "uuid list \<Rightarrow> uuid list \<Rightarrow> uuid list \<Rightarrow> uuid list \<Rightarrow> bool" where
  "taxonomy_scope_admits terms guard_terms guard_dimensions allowed =
    admits_loop terms (zip guard_terms guard_dimensions) allowed [] []"

definition taxonomy_in_footprint :: "taxonomy \<Rightarrow> uuid \<Rightarrow> uuid list \<Rightarrow> bool" where
  "taxonomy_in_footprint x tenant terms =
    (case taxonomy_footprint_guard x tenant of
       (guard_terms, guard_dimensions, allowed) \<Rightarrow> taxonomy_scope_admits terms guard_terms guard_dimensions allowed)"

text \<open>Migration 0006's body, which 0008 replaced: the record's terms joined to their active
  narrowing dimension, grouped by dimension, and no group without a hit.\<close>

definition taxonomy_in_footprint_0006 :: "taxonomy \<Rightarrow> uuid \<Rightarrow> uuid list \<Rightarrow> bool" where
  "taxonomy_in_footprint_0006 x tenant terms =
    (let joined = concat (map (\<lambda>i. concat (map (\<lambda>t. map (\<lambda>d.
            (dm_id d, \<exists>f\<in>set (tx_footprint x). fr_term f = tm_id t \<and> fr_tenant f = tenant))
          (filter (\<lambda>d. dm_id d = tm_dimension t \<and> narrows x tenant d) (tx_dimensions x)))
          (filter (\<lambda>t. tm_id t = i) (tx_terms x)))) terms)
     in \<not> (\<exists>(dim, _)\<in>set joined. \<not> (\<exists>(dim', hit)\<in>set joined. dim' = dim \<and> hit)))"

section \<open>What each half decides\<close>

definition keys_in :: "scope \<Rightarrow> string \<Rightarrow> string set" where
  "keys_in sc dim = (case map_of sc dim of None \<Rightarrow> {} | Some ks \<Rightarrow> set ks)"

definition good_scope :: "scope \<Rightarrow> bool" where
  "good_scope sc \<longleftrightarrow> distinct (map fst sc) \<and> (\<forall>(dim, ks)\<in>set sc. ks \<noteq> [])"

lemma keys_in_Nil [simp]: "keys_in [] dim = {}"
  by (simp add: keys_in_def)

lemma keys_in_add_term [simp]:
  "keys_in (add_term dim key sc) e = (if e = dim then insert key (keys_in sc e) else keys_in sc e)"
proof (induction dim key sc rule: add_term.induct)
  case (1 dim key)
  then show ?case by (simp add: keys_in_def)
next
  case (2 dim key f ks items)
  then show ?case by (cases "f = dim"; cases "e = dim"; simp add: keys_in_def insert_absorb)
qed

lemma fst_add_term: "fst ` set (add_term dim key sc) = insert dim (fst ` set sc)"
  by (induction dim key sc rule: add_term.induct) auto

lemma good_scope_add_term: "good_scope sc \<Longrightarrow> good_scope (add_term dim key sc)"
proof (induction dim key sc rule: add_term.induct)
  case (1 dim key)
  then show ?case by (simp add: good_scope_def)
next
  case (2 dim key e ks items)
  then show ?case
    by (auto simp: good_scope_def fst_add_term image_iff split: if_splits)
qed

text \<open>One dimension's verdict.\<close>

definition dimension_admits :: "string set \<Rightarrow> string set \<Rightarrow> bool \<Rightarrow> bool" where
  "dimension_admits carried named opt \<longleftrightarrow>
    carried = {} \<or> (named = {} \<and> \<not> opt) \<or> carried \<inter> named \<noteq> {}"

lemma in_footprint_items:
  "in_footprint sc fp r \<longleftrightarrow>
    (\<forall>(dim, ks)\<in>set sc. dim \<in> set (rs_keys r) \<longrightarrow>
      dimension_admits (set ks) (keys_in fp dim) (dim \<in> set (rs_opt_in r)))"
  by (induction sc fp r rule: in_footprint.induct)
    (auto simp: dimension_admits_def keys_in_def Let_def split: option.splits if_splits)

lemma in_footprint_iff:
  assumes "distinct (map fst sc)"
  shows "in_footprint sc fp r \<longleftrightarrow>
    (\<forall>dim\<in>set (rs_keys r). dimension_admits (keys_in sc dim) (keys_in fp dim) (dim \<in> set (rs_opt_in r)))"
proof -
  have "(\<forall>(dim, ks)\<in>set sc. P dim (set ks)) \<longleftrightarrow> (\<forall>dim. P dim (keys_in sc dim))"
    if "\<And>dim. P dim {}" for P
  proof -
    have "map_of sc dim = Some ks \<longleftrightarrow> (dim, ks) \<in> set sc" for dim ks
      using assms by simp
    then show ?thesis
      using that by (force simp: keys_in_def split: option.splits)
  qed
  from this [of "\<lambda>dim ks. dim \<in> set (rs_keys r) \<longrightarrow>
      dimension_admits ks (keys_in fp dim) (dim \<in> set (rs_opt_in r))"]
  show ?thesis
    by (auto simp: in_footprint_items dimension_admits_def)
qed

lemma outside_reasons_Nil: "outside_reasons sc fp r = [] \<longleftrightarrow> in_footprint sc fp r"
  by (induction sc) (auto simp: outside_reasons_def in_footprint_items)

section \<open>The two rules agree\<close>

text \<open>What the database holds: primary keys, the unique keys of the two lists, foreign keys.\<close>

definition taxonomy_ok :: "taxonomy \<Rightarrow> bool" where
  "taxonomy_ok x \<longleftrightarrow> distinct (map tm_id (tx_terms x)) \<and> distinct (map dm_id (tx_dimensions x)) \<and>
    distinct (map dm_key (tx_dimensions x)) \<and>
    distinct (map (\<lambda>t. (tm_dimension t, tm_key t)) (tx_terms x)) \<and>
    (\<forall>t\<in>set (tx_terms x). \<exists>d\<in>set (tx_dimensions x). dm_id d = tm_dimension t) \<and>
    (\<forall>f\<in>set (tx_footprint x). \<exists>t\<in>set (tx_terms x). tm_id t = fr_term f)"

text \<open>The record with these term ids carries this term.\<close>

definition carries :: "taxonomy \<Rightarrow> uuid list \<Rightarrow> taxonomy_term \<Rightarrow> bool" where
  "carries x ids t \<longleftrightarrow> t \<in> set (tx_terms x) \<and> tm_id t \<in> set ids"

definition named_ids :: "taxonomy \<Rightarrow> uuid \<Rightarrow> uuid list" where
  "named_ids x tenant = map fr_term (filter (\<lambda>f. fr_tenant f = tenant) (tx_footprint x))"

lemma distinct_map_eq: "distinct (map f xs) \<Longrightarrow> a \<in> set xs \<Longrightarrow> b \<in> set xs \<Longrightarrow> f a = f b \<Longrightarrow> a = b"
  by (auto simp: distinct_map inj_on_def)

lemma term_of_ok:
  assumes "taxonomy_ok x"
  shows "term_of x i = Some t \<longleftrightarrow> t \<in> set (tx_terms x) \<and> tm_id t = i"
  using assms find_by_key [of tm_id "tx_terms x" t]
  by (auto simp: term_of_def taxonomy_ok_def dest: find_Some_in)

lemma dimension_of_ok:
  assumes "taxonomy_ok x"
  shows "dimension_of x t = Some d \<longleftrightarrow> d \<in> set (tx_dimensions x) \<and> dm_id d = tm_dimension t"
  using assms find_by_key [of dm_id "tx_dimensions x" d]
  by (auto simp: dimension_of_def taxonomy_ok_def dest: find_Some_in)

lemma good_scope_fold: "good_scope sc \<Longrightarrow> good_scope (fold (add_term_id x) ids sc)"
  by (induction ids arbitrary: sc)
    (auto simp: add_term_id_def good_scope_add_term split: option.splits)

lemma good_scope_of_terms: "good_scope (scope_of_terms x ids)"
  unfolding scope_of_terms_def by (rule good_scope_fold) (simp add: good_scope_def)

lemma keys_in_fold:
  assumes "taxonomy_ok x"
  shows "k \<in> keys_in (fold (add_term_id x) ids sc) dim \<longleftrightarrow> k \<in> keys_in sc dim \<or>
    (\<exists>t d. carries x ids t \<and> dimension_of x t = Some d \<and> dm_key d = dim \<and> tm_key t = k)"
proof (induction ids arbitrary: sc)
  case Nil
  then show ?case by (simp add: carries_def)
next
  case (Cons i ids)
  have "k \<in> keys_in (add_term_id x i sc) dim \<longleftrightarrow> k \<in> keys_in sc dim \<or>
    (\<exists>t d. t \<in> set (tx_terms x) \<and> tm_id t = i \<and> dimension_of x t = Some d \<and> dm_key d = dim \<and> tm_key t = k)"
  proof (cases "term_of x i")
    case None
    then have "\<not> (t \<in> set (tx_terms x) \<and> tm_id t = i)" for t
      using term_of_ok [OF assms, of i t] by simp
    with None show ?thesis by (auto simp: add_term_id_def)
  next
    case (Some a)
    then have "t \<in> set (tx_terms x) \<and> tm_id t = i \<longleftrightarrow> t = a" for t
      using term_of_ok [OF assms, of i t] by auto
    then have "(\<exists>t d. t \<in> set (tx_terms x) \<and> tm_id t = i \<and> Q t d) \<longleftrightarrow> (\<exists>d. Q a d)" for Q :: "taxonomy_term \<Rightarrow> dimension \<Rightarrow> bool"
      by metis
    with Some show ?thesis
      by (cases "dimension_of x a") (auto simp: add_term_id_def)
  qed
  then show ?case
    by (auto simp: Cons.IH carries_def)
qed

lemma keys_in_scope_of_terms:
  assumes "taxonomy_ok x"
  shows "k \<in> keys_in (scope_of_terms x ids) dim \<longleftrightarrow>
    (\<exists>t d. carries x ids t \<and> dimension_of x t = Some d \<and> dm_key d = dim \<and> tm_key t = k)"
  by (simp add: scope_of_terms_def keys_in_fold [OF assms])

text \<open>In a dimension of the taxonomy, term keys stand for terms.\<close>

lemma keys_of_dimension:
  assumes ok: "taxonomy_ok x" and d: "d \<in> set (tx_dimensions x)"
  shows "keys_in (scope_of_terms x ids) (dm_key d) = tm_key ` {t. carries x ids t \<and> tm_dimension t = dm_id d}"
proof -
  have "e \<in> set (tx_dimensions x) \<Longrightarrow> dm_key e = dm_key d \<Longrightarrow> e = d" for e
    using ok d distinct_map_eq [of dm_key "tx_dimensions x"] by (auto simp: taxonomy_ok_def)
  then have "dimension_of x t = Some e \<and> dm_key e = dm_key d \<longleftrightarrow> e = d \<and> tm_dimension t = dm_id d" for e t
    unfolding dimension_of_ok [OF ok] using d by metis
  then have "(\<exists>t e. carries x ids t \<and> dimension_of x t = Some e \<and> dm_key e = dm_key d \<and> tm_key t = k) \<longleftrightarrow>
      (\<exists>t. carries x ids t \<and> tm_dimension t = dm_id d \<and> tm_key t = k)" for k
    by blast
  then show ?thesis
    by (simp only: set_eq_iff keys_in_scope_of_terms [OF ok]) blast
qed

lemma terms_of_dimension_disjoint:
  assumes ok: "taxonomy_ok x"
  shows "tm_key ` {t. carries x ids t \<and> tm_dimension t = n} \<inter> tm_key ` {t. carries x js t \<and> tm_dimension t = n} = {} \<longleftrightarrow>
    \<not> (\<exists>t. carries x ids t \<and> carries x js t \<and> tm_dimension t = n)"
proof -
  have "a = b" if "a \<in> set (tx_terms x)" "b \<in> set (tx_terms x)" "tm_dimension a = tm_dimension b" "tm_key a = tm_key b" for a b
    using ok that distinct_map_eq [of "\<lambda>t. (tm_dimension t, tm_key t)" "tx_terms x" a b] by (auto simp: taxonomy_ok_def)
  then show ?thesis by (fastforce simp: carries_def)
qed

text \<open>The rule itself, over terms: every dimension that narrows the bank's footprint and in which
  the record carries a term has one the footprint names.\<close>

definition scope_rule :: "taxonomy \<Rightarrow> uuid \<Rightarrow> uuid list \<Rightarrow> bool" where
  "scope_rule x tenant ids \<longleftrightarrow>
    (\<forall>d\<in>set (tx_dimensions x). narrows x tenant d \<longrightarrow>
      (\<exists>t. carries x ids t \<and> tm_dimension t = dm_id d) \<longrightarrow>
      (\<exists>t. carries x ids t \<and> tm_dimension t = dm_id d \<and> tm_id t \<in> set (named_ids x tenant)))"

lemma narrows_ok:
  "narrows x tenant d \<longleftrightarrow> dm_active d \<and> (dm_restricts d \<or> dm_kind d = OPT_IN) \<and>
    (dm_kind d = OPT_IN \<or> {t. carries x (named_ids x tenant) t \<and> tm_dimension t = dm_id d} \<noteq> {})"
  by (auto simp: narrows_def carries_def named_ids_def)

lemma python_rule:
  assumes ok: "taxonomy_ok x"
  shows "in_footprint (scope_of_terms x ids) (footprint_of x tenant) (restricting_dimensions x) \<longleftrightarrow>
    scope_rule x tenant ids"
proof -
  let ?R = "restricting_dimensions x"
  have fp: "footprint_of x tenant = scope_of_terms x (named_ids x tenant)"
    by (simp add: footprint_of_def named_ids_def)
  have keys: "set (rs_keys ?R) = dm_key ` {d\<in>set (tx_dimensions x). (dm_restricts d \<or> dm_kind d = OPT_IN) \<and> dm_active d}"
    by (auto simp: restricting_dimensions_def Restricting_def Let_def)
  have opt: "dm_key d \<in> set (rs_opt_in ?R) \<longleftrightarrow> dm_kind d = OPT_IN \<and> dm_active d" if "d \<in> set (tx_dimensions x)" for d
    using ok that distinct_map_eq [of dm_key "tx_dimensions x"]
    by (auto simp: restricting_dimensions_def Restricting_def Let_def taxonomy_ok_def)
  have one: "dimension_admits (keys_in (scope_of_terms x ids) (dm_key d))
      (keys_in (scope_of_terms x (named_ids x tenant)) (dm_key d)) (dm_key d \<in> set (rs_opt_in ?R)) \<longleftrightarrow>
      (narrows x tenant d \<longrightarrow> (\<exists>t. carries x ids t \<and> tm_dimension t = dm_id d) \<longrightarrow>
      (\<exists>t. carries x ids t \<and> tm_dimension t = dm_id d \<and> tm_id t \<in> set (named_ids x tenant)))"
    if d: "d \<in> set (tx_dimensions x)" and r: "(dm_restricts d \<or> dm_kind d = OPT_IN) \<and> dm_active d" for d
    unfolding dimension_admits_def keys_of_dimension [OF ok d] opt [OF d] terms_of_dimension_disjoint [OF ok] narrows_ok
    using r by (auto simp: carries_def)
  have "scope_rule x tenant ids \<longleftrightarrow>
    (\<forall>d\<in>{d\<in>set (tx_dimensions x). (dm_restricts d \<or> dm_kind d = OPT_IN) \<and> dm_active d}.
      narrows x tenant d \<longrightarrow> (\<exists>t. carries x ids t \<and> tm_dimension t = dm_id d) \<longrightarrow>
      (\<exists>t. carries x ids t \<and> tm_dimension t = dm_id d \<and> tm_id t \<in> set (named_ids x tenant)))"
    by (auto simp: scope_rule_def narrows_ok)
  also have "\<dots> \<longleftrightarrow> in_footprint (scope_of_terms x ids) (footprint_of x tenant) ?R"
    using good_scope_of_terms [of x ids] one
    by (subst in_footprint_iff) (auto simp: good_scope_def fp keys)
  finally show ?thesis ..
qed

lemma admits_loop_iff:
  "admits_loop ts guard allowed wanting met \<longleftrightarrow>
    set wanting \<union> {d. \<exists>t\<in>set ts. map_of guard t = Some d} \<subseteq>
    set met \<union> {d. \<exists>t\<in>set ts. map_of guard t = Some d \<and> t \<in> set allowed}"
proof (induction ts arbitrary: wanting met)
  case Nil
  then show ?case by simp
next
  case (Cons t ts)
  then show ?case
    by (cases "map_of guard t") (auto simp: subset_iff)
qed

lemma guard_lookup:
  assumes "taxonomy_ok x" and "taxonomy_footprint_guard x tenant = (ts, ds, allowed)"
  shows "map_of (zip ts ds) i = Some n \<longleftrightarrow> (\<exists>t d. t \<in> set (tx_terms x) \<and> tm_id t = i \<and> tm_dimension t = n \<and>
      d \<in> set (tx_dimensions x) \<and> dm_id d = n \<and> narrows x tenant d)"
    and "allowed = named_ids x tenant"
proof -
  let ?rows = "sort_key tm_id (filter (\<lambda>t. \<exists>d\<in>set (tx_dimensions x). dm_id d = tm_dimension t \<and> narrows x tenant d)
       (tx_terms x))"
  have eq: "ts = map tm_id ?rows" "ds = map tm_dimension ?rows" "allowed = named_ids x tenant"
    using assms(2) by (simp_all add: taxonomy_footprint_guard_def Let_def named_ids_def)
  show "allowed = named_ids x tenant" by (rule eq)
  have "distinct (map tm_id ?rows)"
    using assms(1) by (simp add: taxonomy_ok_def distinct_map inj_on_def)
  then have look: "map_of (zip ts ds) i = Some n \<longleftrightarrow> (i, n) \<in> set (zip ts ds)"
    by (simp add: eq)
  have "zip ts ds = map (\<lambda>t. (tm_id t, tm_dimension t)) ?rows"
    unfolding eq by (simp add: zip_map_map zip_same_conv_map)
  then have "set (zip ts ds) = (\<lambda>t. (tm_id t, tm_dimension t)) ` {t \<in> set (tx_terms x).
      \<exists>d\<in>set (tx_dimensions x). dm_id d = tm_dimension t \<and> narrows x tenant d}"
    by simp
  then have "(i, n) \<in> set (zip ts ds) \<longleftrightarrow> (\<exists>t\<in>set (tx_terms x). tm_id t = i \<and> tm_dimension t = n \<and>
      (\<exists>d\<in>set (tx_dimensions x). dm_id d = n \<and> narrows x tenant d))"
    by auto
  with look show "map_of (zip ts ds) i = Some n \<longleftrightarrow> (\<exists>t d. t \<in> set (tx_terms x) \<and> tm_id t = i \<and> tm_dimension t = n \<and>
      d \<in> set (tx_dimensions x) \<and> dm_id d = n \<and> narrows x tenant d)"
    by blast
qed

lemma sql_rule:
  assumes ok: "taxonomy_ok x"
  shows "taxonomy_in_footprint x tenant ids \<longleftrightarrow> scope_rule x tenant ids"
proof -
  obtain ts ds allowed where g: "taxonomy_footprint_guard x tenant = (ts, ds, allowed)"
    by (metis prod_cases3)
  note look = guard_lookup [OF ok g]
  have "taxonomy_in_footprint x tenant ids \<longleftrightarrow>
    (\<forall>n. (\<exists>i\<in>set ids. map_of (zip ts ds) i = Some n) \<longrightarrow>
         (\<exists>i\<in>set ids. map_of (zip ts ds) i = Some n \<and> i \<in> set allowed))"
    unfolding taxonomy_in_footprint_def g taxonomy_scope_admits_def admits_loop_iff prod.case by auto
  also have "\<dots> \<longleftrightarrow>
    (\<forall>n. (\<exists>d\<in>set (tx_dimensions x). dm_id d = n \<and> narrows x tenant d) \<longrightarrow>
      (\<exists>t. carries x ids t \<and> tm_dimension t = n) \<longrightarrow>
      (\<exists>t. carries x ids t \<and> tm_dimension t = n \<and> tm_id t \<in> set (named_ids x tenant)))"
  proof -
    have wanting: "(\<exists>i\<in>set ids. map_of (zip ts ds) i = Some n) \<longleftrightarrow>
      (\<exists>d\<in>set (tx_dimensions x). dm_id d = n \<and> narrows x tenant d) \<and>
      (\<exists>t. carries x ids t \<and> tm_dimension t = n)" for n
      unfolding look carries_def by blast
    have met: "(\<exists>i\<in>set ids. map_of (zip ts ds) i = Some n \<and> i \<in> set allowed) \<longleftrightarrow>
      (\<exists>d\<in>set (tx_dimensions x). dm_id d = n \<and> narrows x tenant d) \<and>
      (\<exists>t. carries x ids t \<and> tm_dimension t = n \<and> tm_id t \<in> set (named_ids x tenant))" for n
      unfolding look carries_def by blast
    show ?thesis unfolding wanting met by blast
  qed
  also have "\<dots> \<longleftrightarrow> scope_rule x tenant ids"
    unfolding scope_rule_def by auto
  finally show ?thesis .
qed

end
