(* ===== verification/Case_Store.thy ===== *)
theory Case_Store
  imports Case_State Footprint
begin

text \<open>
  The rows the case workflow reads and writes (\<^verbatim>\<open>backend/apps/cases/models.py\<close>, and of
  \<^verbatim>\<open>identity/models.py\<close>, \<^verbatim>\<open>taxonomy/models.py\<close>, \<^verbatim>\<open>watch/models.py\<close> the columns the workflow reads),
  the database as a record of tables, the CHECK constraints a save runs into, and the audit and
  outbox rows every write leaves (\<^verbatim>\<open>shared/audit.py\<close>, \<open>record_event\<close> for \<^verbatim>\<open>record()\<close>).

  A fresh primary key (\<^verbatim>\<open>uuid.uuid4()\<close>) is the next value of a counter: that it was never used
  is all the code relies on.  The clock is a field of the database record: a request reads one
  moment.  The local day of a bank, which the code computes with \<^verbatim>\<open>zoneinfo\<close>, is a column of its row.
\<close>

section \<open>Rows\<close>

text \<open>A value of the JSON columns of an audit or outbox row; ids, dates and times are written as
  strings by the code and kept apart here.\<close>

datatype jval = JNull | JBool bool | JInt int | JStr string | JId uuid | JDay day | JTime instant
  | JList "jval list" | JObj "(string \<times> jval) list"

type_synonym jobj = "(string \<times> jval) list"

definition jopt :: "('a \<Rightarrow> jval) \<Rightarrow> 'a option \<Rightarrow> jval" where
  "jopt f x = (case x of None \<Rightarrow> JNull | Some y \<Rightarrow> f y)"

datatype user_status = INVITED | ACTIVE | DEACTIVATED

text \<open>A membership with the columns of its person and the permissions of its roles.\<close>

record membership =
  m_id :: uuid
  m_tenant :: uuid
  m_user :: uuid
  m_user_name :: string
  m_user_status :: user_status
  m_deactivated_at :: "instant option"
  m_roles :: "string list list"
  m_prefs :: "string list" \<comment> \<open>the switches the person turned off\<close>
  m_languages :: "string list" \<comment> \<open>the person's language order\<close>
  m_out_of_office_until :: "day option"
  m_delegate :: "uuid option"

text \<open>A row of a vocabulary list; a bank's own list has a tenant, a library list has none.  An
  empty kind is a row without one.\<close>

record vocab_row =
  v_id :: uuid
  v_list :: string
  v_tenant :: "uuid option"
  v_key :: string
  v_kind :: string
  v_active :: bool
  v_default :: bool

record change_row =
  ch_id :: uuid
  ch_title :: string
  ch_suggested_urgency :: "uuid option"
  ch_so_what_draft :: string
  ch_terms :: "uuid list" \<comment> \<open>its own scope terms; a flag row is none\<close>
  ch_jurisdiction :: "uuid option" \<comment> \<open>its authority's\<close>

record change_case =
  c_id :: uuid
  c_tenant :: uuid
  c_change :: uuid
  c_status :: case_category
  c_urgency :: uuid
  c_urgency_confirmed :: bool
  c_footprint_match :: bool
  c_owner :: "uuid option"
  c_owner_team :: "uuid option"
  c_so_what_text :: string
  c_so_what_confirmed :: bool
  c_so_what_confirmed_by :: "uuid option"
  c_so_what_confirmed_at :: "instant option"
  c_briefing_week :: "day option"
  c_sub_status :: "uuid option"
  c_triaged_by :: "uuid option"
  c_triaged_at :: "instant option"
  c_dismissed_reason :: "uuid option"
  c_dismissed_by :: "uuid option"
  c_dismissed_at :: "instant option"
  c_signoff_requested_by :: "uuid option"
  c_signoff_requested_at :: "instant option"
  c_signed_off_by :: "uuid option"
  c_close_reason :: "uuid option"
  c_closed_note :: string
  c_closed_at :: "instant option"
  c_triage_due_at :: "instant option"
  c_version :: nat
  c_created_at :: instant
  c_updated_at :: instant

datatype link_decision = ACCEPTED | LINK_REMOVED

record case_link =
  l_id :: uuid
  l_tenant :: uuid
  l_case :: uuid
  l_obligation :: uuid
  l_decision :: link_decision
  l_decided_by :: "uuid option"
  l_decided_at :: instant

datatype applies = YES | PARTLY | NO

record impact_assessment =
  ia_id :: uuid
  ia_tenant :: uuid
  ia_case :: uuid
  ia_applies :: applies
  ia_why :: string
  ia_what_must_change :: string
  ia_internal_deadline :: "day option"
  ia_effort :: "uuid option"
  ia_saved :: bool
  ia_saved_by :: "uuid option"
  ia_saved_at :: "instant option"
  ia_version :: nat

record case_action =
  a_id :: uuid
  a_tenant :: uuid
  a_case :: uuid
  a_title :: string
  a_owner :: uuid
  a_due_date :: day
  a_done_at :: "instant option"
  a_done_by :: "uuid option"
  a_created_by :: uuid
  a_created_at :: instant
  a_removed_at :: "instant option"
  a_removed_by :: "uuid option"
  a_version :: nat

record case_transition =
  t_id :: uuid
  t_tenant :: uuid
  t_case :: uuid
  t_from :: case_category
  t_to :: case_category
  t_at :: instant
  t_by_user :: "uuid option"
  t_note :: string

datatype evidence_kind = FILE | LINK | REFERENCE
datatype scan_state = PENDING | CLEAN | INFECTED | SCAN_ERROR

fun evidence_kind_value :: "evidence_kind \<Rightarrow> string" where
  "evidence_kind_value FILE = ''file''"
| "evidence_kind_value LINK = ''link''"
| "evidence_kind_value REFERENCE = ''reference''"

fun scan_state_value :: "scan_state \<Rightarrow> string" where
  "scan_state_value PENDING = ''pending''"
| "scan_state_value CLEAN = ''clean''"
| "scan_state_value INFECTED = ''infected''"
| "scan_state_value SCAN_ERROR = ''error''"

record evidence =
  e_id :: uuid
  e_tenant :: uuid
  e_case :: uuid
  e_kind :: evidence_kind
  e_name :: string
  e_storage_key :: string
  e_url :: string
  e_content_hash :: string
  e_size_bytes :: "nat option"
  e_mime_type :: string
  e_uploaded_by :: uuid
  e_uploaded_at :: instant
  e_removed_at :: "instant option"
  e_scan_state :: scan_state
  e_scanned_at :: "instant option"

record notification =
  n_id :: uuid
  n_tenant :: uuid
  n_user :: uuid
  n_kind :: string
  n_subject_type :: string
  n_subject_id :: uuid
  n_title :: string
  n_on_behalf_of :: "uuid option"

datatype actor_type = USER | AGENT | SYSTEM

record actor_ref =
  ac_kind :: actor_type
  ac_id :: "uuid option"
  ac_label :: string

definition system_actor :: "string \<Rightarrow> actor_ref" where
  "system_actor label = \<lparr>ac_kind = SYSTEM, ac_id = None, ac_label = label\<rparr>"

record audit_event =
  au_id :: uuid
  au_tenant :: "uuid option"
  au_actor :: actor_ref
  au_action :: string
  au_subject_type :: string
  au_subject_id :: "uuid option"
  au_subject_title :: string
  au_summary :: string
  au_before :: jobj
  au_after :: jobj
  au_step_up :: "uuid option"

record outbox_row =
  ob_id :: uuid
  ob_tenant :: "uuid option"
  ob_audit :: uuid
  ob_topic :: string
  ob_payload :: jobj

record tenant_row =
  tn_id :: uuid
  tn_active :: bool
  tn_triage_target_hours :: nat
  tn_today :: day \<comment> \<open>the local day where the bank is\<close>

text \<open>An obligation of the library with its titles, as the workflow names it.\<close>

record translation =
  tr_language :: string
  tr_text :: string
  tr_original :: bool

record obligation_row =
  lo_id :: uuid
  lo_key :: string
  lo_active :: bool
  lo_titles :: "translation list"

section \<open>The database\<close>

record db =
  db_next :: uuid
  db_now :: instant
  db_tenants :: "tenant_row list"
  db_members :: "membership list"
  db_vocab :: "vocab_row list"
  db_taxonomy :: taxonomy
  db_changes :: "change_row list"
  db_obligations :: "obligation_row list"
  db_tenant_obligations :: "(uuid \<times> uuid \<times> uuid) list" \<comment> \<open>register entries: id, tenant, obligation\<close>
  db_tenant_agents :: "(uuid \<times> uuid \<times> string) list" \<comment> \<open>a bank's agents: id, tenant, definition key\<close>
  db_cases :: "change_case list"
  db_links :: "case_link list"
  db_assessments :: "impact_assessment list"
  db_actions :: "case_action list"
  db_transitions :: "case_transition list"
  db_evidence :: "evidence list"
  db_notifications :: "notification list"
  db_storage :: "(string \<times> string) list" \<comment> \<open>stored objects: key and content\<close>
  db_scan_queue :: "(uuid \<times> uuid) list" \<comment> \<open>queued scans: tenant and evidence\<close>
  db_audit :: "audit_event list"
  db_outbox :: "outbox_row list"

text \<open>\<^verbatim>\<open>today_for\<close>; a bank that is asked about has its row.\<close>

definition today_for :: "uuid \<Rightarrow> db \<Rightarrow> day" where
  "today_for tenant d = (case find (\<lambda>t. tn_id t = tenant) (db_tenants d) of None \<Rightarrow> 0 | Some t \<Rightarrow> tn_today t)"

text \<open>\<^verbatim>\<open>localized\<close>: the text in the first language of the reader's order that has one, then the original,
  then any.  A dict keeps a key where it first came and the value that came last.\<close>

fun put_translation :: "translation \<Rightarrow> translation list \<Rightarrow> translation list" where
  "put_translation r [] = [r]"
| "put_translation r (x # xs) = (if tr_language x = tr_language r then r # xs else x # put_translation r xs)"

fun first_language :: "string list \<Rightarrow> translation list \<Rightarrow> translation option" where
  "first_language [] by_language = None"
| "first_language (c # cs) by_language =
    (case find (\<lambda>r. tr_language r = c) by_language of Some r \<Rightarrow> Some r | None \<Rightarrow> first_language cs by_language)"

definition localized :: "translation list \<Rightarrow> string list \<Rightarrow> translation option" where
  "localized rows order =
    (let by_language = fold put_translation rows [] in
     case first_language order by_language of
       Some r \<Rightarrow> Some r
     | None \<Rightarrow> (case find tr_original by_language of
         Some r \<Rightarrow> Some r
       | None \<Rightarrow> (case by_language of [] \<Rightarrow> None | r # _ \<Rightarrow> Some r)))"

definition obligation_title :: "obligation_row \<Rightarrow> string list \<Rightarrow> string" where
  "obligation_title row order = (case localized (lo_titles row) order of None \<Rightarrow> lo_key row | Some t \<Rightarrow> tr_text t)"

text \<open>The tables, as the ORM reads and replaces their rows.\<close>

interpretation case_tbl: keyed_table db_cases "\<lambda>rs. db_cases_update (\<lambda>_. rs)" c_id
  by unfold_locales simp

interpretation action_tbl: keyed_table db_actions "\<lambda>rs. db_actions_update (\<lambda>_. rs)" a_id
  by unfold_locales simp

interpretation evidence_tbl: keyed_table db_evidence "\<lambda>rs. db_evidence_update (\<lambda>_. rs)" e_id
  by unfold_locales simp

interpretation assessment_tbl:
  keyed_table db_assessments "\<lambda>rs. db_assessments_update (\<lambda>_. rs)" ia_id
  by unfold_locales simp

section \<open>Refusals\<close>

text \<open>What a handler raises.  \<open>Invalid_transition\<close> is \<^verbatim>\<open>state.InvalidTransition\<close>, \<open>Stale_write\<close>
  carries the current version, \<open>Problem\<close> is a \<^verbatim>\<open>ProblemError\<close> with its status and code,
  \<open>Validation\<close> a \<^verbatim>\<open>ValidationError\<close> with its code, \<open>Unknown_key\<close> a \<^verbatim>\<open>VocabularyProblem\<close> with the
  list and its valid keys.  \<open>Signoff_refused\<close> is the sign-off request's refusal with its counts.
  \<open>Integrity_error\<close> is a CHECK the database refused, \<open>Server_error\<close> any other uncaught exception
  (a 500).\<close>

datatype error =
  Invalid_transition refusal
| Signoff_refused refusal nat nat
| Stale_write nat
| Problem nat string
| Validation string
| Unknown_key string "string list"
| Integrity_error
| Server_error

abbreviation not_found :: error where
  "not_found \<equiv> Problem 404 ''not_found''"

section \<open>CHECK constraints (cases/models.py)\<close>

definition OWNED_CATEGORIES :: "case_category list" where
  "OWNED_CATEGORIES = [ASSIGNED, ASSESSING, IMPLEMENTING, SIGNOFF]"

definition so_what_check :: "change_case \<Rightarrow> bool" where
  "so_what_check c \<longleftrightarrow>
    (\<not> c_so_what_confirmed c \<and> c_so_what_confirmed_by c = None \<and> c_so_what_confirmed_at c = None) \<or>
    (c_so_what_confirmed c \<and> c_so_what_confirmed_by c \<noteq> None \<and> c_so_what_confirmed_at c \<noteq> None)"

definition dismissal_check :: "change_case \<Rightarrow> bool" where
  "dismissal_check c \<longleftrightarrow> c_status c \<noteq> DISMISSED \<or> c_dismissed_reason c \<noteq> None"

definition owner_check :: "change_case \<Rightarrow> bool" where
  "owner_check c \<longleftrightarrow> c_status c \<notin> set OWNED_CATEGORIES \<or> c_owner c \<noteq> None"

definition four_eyes_check :: "change_case \<Rightarrow> bool" where
  "four_eyes_check c \<longleftrightarrow> c_signed_off_by c = None \<or>
    (c_signoff_requested_by c \<noteq> None \<and> c_signed_off_by c \<noteq> c_signoff_requested_by c)"

definition case_checks :: "change_case \<Rightarrow> bool" where
  "case_checks c \<longleftrightarrow> so_what_check c \<and> dismissal_check c \<and> owner_check c \<and> four_eyes_check c"

lemmas case_check_defs = case_checks_def so_what_check_def dismissal_check_def owner_check_def
  four_eyes_check_def OWNED_CATEGORIES_def

definition assessment_checks :: "impact_assessment \<Rightarrow> bool" where
  "assessment_checks a \<longleftrightarrow> (\<not> ia_saved a \<or> ia_why a \<noteq> []) \<and>
    ((\<not> ia_saved a \<and> ia_saved_by a = None \<and> ia_saved_at a = None) \<or>
     (ia_saved a \<and> ia_saved_by a \<noteq> None \<and> ia_saved_at a \<noteq> None))"

definition action_checks :: "case_action \<Rightarrow> bool" where
  "action_checks a \<longleftrightarrow> a_title a \<noteq> [] \<and> (a_done_at a = None) = (a_done_by a = None) \<and>
    (a_removed_at a = None) = (a_removed_by a = None)"

definition evidence_checks :: "evidence \<Rightarrow> bool" where
  "evidence_checks e \<longleftrightarrow> e_name e \<noteq> [] \<and>
    (e_kind e \<noteq> FILE \<or> (e_storage_key e \<noteq> [] \<and> e_content_hash e \<noteq> [] \<and> e_size_bytes e \<noteq> None \<and>
       e_mime_type e \<noteq> [])) \<and>
    (e_kind e \<noteq> LINK \<or> (e_url e \<noteq> [] \<and> e_storage_key e = [])) \<and>
    (e_kind e \<noteq> REFERENCE \<or> e_storage_key e = []) \<and>
    (e_scan_state e = PENDING \<or> e_scanned_at e \<noteq> None)"

section \<open>Saving\<close>

text \<open>\<^verbatim>\<open>case.save()\<close>: every column, \<^verbatim>\<open>updated_at\<close> stamped, refused by the first CHECK that fails.\<close>

definition save_case :: "change_case \<Rightarrow> db \<Rightarrow> error + db" where
  "save_case c d = (if case_checks c
     then Inr (d\<lparr>db_cases := put_row c_id (c\<lparr>c_updated_at := db_now d\<rparr>) (db_cases d)\<rparr>)
     else Inl Integrity_error)"

definition save_assessment_row :: "impact_assessment \<Rightarrow> db \<Rightarrow> error + db" where
  "save_assessment_row a d = (if assessment_checks a
     then Inr (d\<lparr>db_assessments := put_row ia_id a (db_assessments d)\<rparr>) else Inl Integrity_error)"

definition save_action :: "case_action \<Rightarrow> db \<Rightarrow> error + db" where
  "save_action a d = (if action_checks a
     then Inr (d\<lparr>db_actions := put_row a_id a (db_actions d)\<rparr>) else Inl Integrity_error)"

definition save_evidence :: "evidence \<Rightarrow> db \<Rightarrow> error + db" where
  "save_evidence e d = (if evidence_checks e
     then Inr (d\<lparr>db_evidence := put_row e_id e (db_evidence d)\<rparr>) else Inl Integrity_error)"

lemma save_case_Inr [inr_simps]:
  "save_case c d = Inr d' \<longleftrightarrow>
    case_checks c \<and> d' = d\<lparr>db_cases := put_row c_id (c\<lparr>c_updated_at := db_now d\<rparr>) (db_cases d)\<rparr>"
  by (auto simp: save_case_def)

lemma save_assessment_row_Inr [inr_simps]:
  "save_assessment_row a d = Inr d' \<longleftrightarrow>
    assessment_checks a \<and> d' = d\<lparr>db_assessments := put_row ia_id a (db_assessments d)\<rparr>"
  by (auto simp: save_assessment_row_def)

lemma save_action_Inr [inr_simps]:
  "save_action a d = Inr d' \<longleftrightarrow> action_checks a \<and> d' = d\<lparr>db_actions := put_row a_id a (db_actions d)\<rparr>"
  by (auto simp: save_action_def)

lemma save_evidence_Inr [inr_simps]:
  "save_evidence e d = Inr d' \<longleftrightarrow>
    evidence_checks e \<and> d' = d\<lparr>db_evidence := put_row e_id e (db_evidence d)\<rparr>"
  by (auto simp: save_evidence_def)

section \<open>Audit and outbox (shared/audit.py)\<close>

text \<open>What one \<^verbatim>\<open>record()\<close> call is given; \<^verbatim>\<open>topic\<close> and \<^verbatim>\<open>payload\<close> take their defaults when absent.\<close>

record audit_entry =
  r_action :: string
  r_actor :: actor_ref
  r_subject_type :: string
  r_subject_id :: "uuid option"
  r_subject_title :: string
  r_summary :: string
  r_tenant :: "uuid option"
  r_before :: jobj
  r_after :: jobj
  r_step_up :: "uuid option"
  r_topic :: "string option"
  r_payload :: jobj

definition record_event :: "audit_entry \<Rightarrow> db \<Rightarrow> db" where
  "record_event r d =
    (let audit_id = db_next d; outbox_id = Suc (db_next d) in
     d\<lparr>db_next := Suc outbox_id,
       db_audit := db_audit d @
         [\<lparr>au_id = audit_id, au_tenant = r_tenant r, au_actor = r_actor r, au_action = r_action r,
           au_subject_type = r_subject_type r, au_subject_id = r_subject_id r,
           au_subject_title = r_subject_title r, au_summary = r_summary r, au_before = r_before r,
           au_after = r_after r, au_step_up = r_step_up r\<rparr>],
       db_outbox := db_outbox d @
         [\<lparr>ob_id = outbox_id, ob_tenant = r_tenant r, ob_audit = audit_id,
           ob_topic = (case r_topic r of None \<Rightarrow> r_action r | Some t \<Rightarrow> t),
           ob_payload = (if r_payload r = []
             then [(''auditEventId'', JId audit_id), (''subjectId'', jopt JId (r_subject_id r))]
             else r_payload r)\<rparr>]\<rparr>)"

lemma record_event_frame [frame_simps]:
  "db_now (record_event r d) = db_now d"
  "db_tenants (record_event r d) = db_tenants d"
  "db_members (record_event r d) = db_members d"
  "db_vocab (record_event r d) = db_vocab d"
  "db_taxonomy (record_event r d) = db_taxonomy d"
  "db_changes (record_event r d) = db_changes d"
  "db_obligations (record_event r d) = db_obligations d"
  "db_tenant_obligations (record_event r d) = db_tenant_obligations d"
  "db_tenant_agents (record_event r d) = db_tenant_agents d"
  "db_cases (record_event r d) = db_cases d"
  "db_links (record_event r d) = db_links d"
  "db_assessments (record_event r d) = db_assessments d"
  "db_actions (record_event r d) = db_actions d"
  "db_transitions (record_event r d) = db_transitions d"
  "db_evidence (record_event r d) = db_evidence d"
  "db_notifications (record_event r d) = db_notifications d"
  "db_storage (record_event r d) = db_storage d"
  "db_scan_queue (record_event r d) = db_scan_queue d"
  "db_next (record_event r d) = Suc (Suc (db_next d))"
  by (simp_all add: record_event_def Let_def)

text \<open>The person behind a request, the bank it runs in and the actor its audit rows name.\<close>

record request =
  rq_tenant :: uuid
  rq_user :: uuid
  rq_user_name :: string
  rq_actor :: actor_ref

text \<open>A person's request: \<^verbatim>\<open>actor_of(user)\<close> names that person.\<close>

definition change_title :: "db \<Rightarrow> uuid \<Rightarrow> string" where
  "change_title d change = (case find (\<lambda>ch. ch_id ch = change) (db_changes d) of
     None \<Rightarrow> [] | Some ch \<Rightarrow> ch_title ch)"

definition entry :: "string \<Rightarrow> actor_ref \<Rightarrow> string \<Rightarrow> uuid option \<Rightarrow> string \<Rightarrow> string \<Rightarrow> uuid option \<Rightarrow>
    jobj \<Rightarrow> jobj \<Rightarrow> audit_entry" where
  "entry action actr subject_type subject_id title summary tenant bef aft =
    \<lparr>r_action = action, r_actor = actr, r_subject_type = subject_type, r_subject_id = subject_id,
     r_subject_title = title, r_summary = summary, r_tenant = tenant, r_before = bef,
     r_after = aft, r_step_up = None, r_topic = None, r_payload = []\<rparr>"

end
