(* ===== verification/Notify.thy ===== *)
theory Notify
  imports Case_Store
begin

text \<open>
  Who is told about a record: the subject registry (\<^verbatim>\<open>backend/apps/collab/subjects.py\<close>) and
  \<^verbatim>\<open>notify()\<close> with its recipient check and delegation hop (\<^verbatim>\<open>backend/apps/collab/logic.py\<close>).
  A lookup runs under the row-level security of the bank that notifies.
\<close>

section \<open>Subjects\<close>

abbreviation "LIBRARY_READ \<equiv> ''library.read''"
abbreviation "CASES_READ \<equiv> ''cases.read''"
abbreviation "REGISTER_READ \<equiv> ''register.read''"
abbreviation "AGENTS_MANAGE \<equiv> ''agents.manage''"

text \<open>A subject: the permission that reads it, and its lookup, which finds the title of a record
  by the reader's language order.\<close>

type_synonym title_of = "string list \<Rightarrow> string"

definition obligation_lookup :: "db \<Rightarrow> uuid \<Rightarrow> uuid \<Rightarrow> title_of option" where
  "obligation_lookup d zone i = map_option obligation_title (find (\<lambda>r. lo_id r = i) (db_obligations d))"

definition change_case_lookup :: "db \<Rightarrow> uuid \<Rightarrow> uuid \<Rightarrow> title_of option" where
  "change_case_lookup d zone i =
    map_option (\<lambda>c order. change_title d (c_change c))
      (find (\<lambda>c. c_id c = i \<and> c_tenant c = zone) (db_cases d))"

definition action_lookup :: "db \<Rightarrow> uuid \<Rightarrow> uuid \<Rightarrow> title_of option" where
  "action_lookup d zone i =
    (case find (\<lambda>a. a_id a = i \<and> a_tenant a = zone) (db_actions d) of
       None \<Rightarrow> None
     | Some a \<Rightarrow> change_case_lookup d zone (a_case a))"

definition tenant_obligation_lookup :: "db \<Rightarrow> uuid \<Rightarrow> uuid \<Rightarrow> title_of option" where
  "tenant_obligation_lookup d zone i =
    (case find (\<lambda>(k, t, ob). k = i \<and> t = zone) (db_tenant_obligations d) of
       None \<Rightarrow> None
     | Some (k, t, ob) \<Rightarrow> obligation_lookup d zone ob)"

definition tenant_agent_lookup :: "db \<Rightarrow> uuid \<Rightarrow> uuid \<Rightarrow> title_of option" where
  "tenant_agent_lookup d zone i =
    map_option (\<lambda>(k, t, key) order. key)
      (find (\<lambda>(k, t, key). k = i \<and> t = zone) (db_tenant_agents d))"

definition SUBJECTS :: "(string \<times> string \<times> (db \<Rightarrow> uuid \<Rightarrow> uuid \<Rightarrow> title_of option)) list" where
  "SUBJECTS =
    [(''obligation'', LIBRARY_READ, obligation_lookup),
     (''change_case'', CASES_READ, change_case_lookup),
     (''action'', CASES_READ, action_lookup),
     (''tenant_obligation'', REGISTER_READ, tenant_obligation_lookup),
     (''tenant_agent'', AGENTS_MANAGE, tenant_agent_lookup)]"

definition subject :: "string \<Rightarrow> error + string \<times> (db \<Rightarrow> uuid \<Rightarrow> uuid \<Rightarrow> title_of option)" where
  "subject kind = or_else (map_of SUBJECTS kind) (Validation ''unsupported_subject'')"

section \<open>Kinds\<close>

datatype notification_kind =
  N_ASSIGNED | MENTION | SIGNOFF_REQUESTED | APPROVAL_REQUESTED | DUE_SOON | OVERDUE | ESCALATION
| PROPOSAL_WAITING | SAVED_SEARCH_HIT | PARTICIPANT_ADDED | INVOLVED_ITEM_CHANGED | REVIEW_DUE

fun kind_value :: "notification_kind \<Rightarrow> string" where
  "kind_value N_ASSIGNED = ''assigned''"
| "kind_value MENTION = ''mention''"
| "kind_value SIGNOFF_REQUESTED = ''signoff_requested''"
| "kind_value APPROVAL_REQUESTED = ''approval_requested''"
| "kind_value DUE_SOON = ''due_soon''"
| "kind_value OVERDUE = ''overdue''"
| "kind_value ESCALATION = ''escalation''"
| "kind_value PROPOSAL_WAITING = ''proposal_waiting''"
| "kind_value SAVED_SEARCH_HIT = ''saved_search_hit''"
| "kind_value PARTICIPANT_ADDED = ''participant_added''"
| "kind_value INVOLVED_ITEM_CHANGED = ''involved_item_changed''"
| "kind_value REVIEW_DUE = ''review_due''"

fun MUTABLE_KINDS :: "notification_kind \<Rightarrow> string option" where
  "MUTABLE_KINDS MENTION = Some ''mentions''"
| "MUTABLE_KINDS DUE_SOON = Some ''reminders''"
| "MUTABLE_KINDS OVERDUE = Some ''reminders''"
| "MUTABLE_KINDS REVIEW_DUE = Some ''reminders''"
| "MUTABLE_KINDS N_ASSIGNED = Some ''assignments''"
| "MUTABLE_KINDS _ = None"

definition DELEGATED_KINDS :: "notification_kind list" where
  "DELEGATED_KINDS = [DUE_SOON, OVERDUE, REVIEW_DUE, ESCALATION, N_ASSIGNED, SIGNOFF_REQUESTED]"

section \<open>Recipients\<close>

text \<open>\<^verbatim>\<open>roles__permissions__contains=[p]\<close>: one of the membership's roles holds the permission.\<close>

definition holds_permission :: "membership \<Rightarrow> string \<Rightarrow> bool" where
  "holds_permission m p \<longleftrightarrow> (\<exists>r\<in>set (m_roles m). p \<in> set r)"

definition active_member :: "membership \<Rightarrow> bool" where
  "active_member m \<longleftrightarrow> m_deactivated_at m = None \<and> m_user_status m = ACTIVE"

definition readers :: "uuid \<Rightarrow> uuid list \<Rightarrow> string \<Rightarrow> db \<Rightarrow> membership list" where
  "readers tenant user_ids read_permission d =
    sort_key m_user (filter (\<lambda>m. m_tenant m = tenant \<and> m_user m \<in> set user_ids \<and>
      active_member m \<and> holds_permission m read_permission) (db_members d))"

type_synonym recipients = "(uuid \<times> membership \<times> uuid option) list"

text \<open>\<^verbatim>\<open>dict.setdefault\<close>: the first value for a key stays.\<close>

definition setdefault :: "uuid \<Rightarrow> membership \<times> uuid option \<Rightarrow> recipients \<Rightarrow> recipients" where
  "setdefault k v ds = (if k \<in> fst ` set ds then ds else ds @ [(k, v)])"

text \<open>Who is away, with their delegate; \<open>actor\<close> caused the notice and is no delegate of it.\<close>

definition away_of :: "day \<Rightarrow> membership list \<Rightarrow> uuid option \<Rightarrow> (uuid \<times> uuid) list" where
  "away_of today passing actr = map (\<lambda>m. (m_user m, the (m_delegate m)))
     (filter (\<lambda>m. m_delegate m \<noteq> None \<and> m_delegate m \<noteq> Some (m_user m) \<and> m_delegate m \<noteq> actr \<and>
        (case m_out_of_office_until m of None \<Rightarrow> False | Some u \<Rightarrow> today \<le> u)) passing)"

definition delegate_step :: "(uuid \<times> uuid) list \<Rightarrow> membership list \<Rightarrow> membership \<Rightarrow> recipients \<Rightarrow> recipients" where
  "delegate_step away delegates m ds =
    (case (case map_of away (m_user m) of None \<Rightarrow> None
           | Some u \<Rightarrow> find (\<lambda>x. m_user x = u) delegates) of
       None \<Rightarrow> setdefault (m_user m) (m, None) ds
     | Some dl \<Rightarrow> setdefault (m_user dl) (dl, Some (m_user m)) ds)"

definition delegated :: "uuid \<Rightarrow> membership list \<Rightarrow> string \<Rightarrow> uuid option \<Rightarrow> db \<Rightarrow> recipients" where
  "delegated tenant passing read_permission actr d =
    (let away = away_of (today_for tenant d) passing actr;
         delegates = (if away = [] then [] else readers tenant (map snd away) read_permission d);
         present = fold (\<lambda>m ds. setdefault (m_user m) (m, None) ds)
           (filter (\<lambda>m. m_user m \<notin> fst ` set away) passing) []
     in fold (delegate_step away delegates) passing present)"

definition recipients_of ::
    "uuid \<Rightarrow> notification_kind \<Rightarrow> string \<Rightarrow> uuid list \<Rightarrow> uuid option \<Rightarrow> db \<Rightarrow> recipients" where
  "recipients_of tenant kind read_permission wanted actr d =
    (let switch = MUTABLE_KINDS kind;
         passing = filter (\<lambda>m. case switch of None \<Rightarrow> True | Some s \<Rightarrow> s \<notin> set (m_prefs m))
           (readers tenant wanted read_permission d)
     in if kind \<in> set DELEGATED_KINDS then delegated tenant passing read_permission actr d
        else fold (\<lambda>m ds. setdefault (m_user m) (m, None) ds) passing [])"

text \<open>One row per recipient, in user order; the fresh ids in that order.\<close>

definition notification_row ::
    "uuid \<Rightarrow> notification_kind \<Rightarrow> string \<Rightarrow> uuid \<Rightarrow> title_of \<Rightarrow> uuid \<Rightarrow>
     uuid \<times> membership \<times> uuid option \<Rightarrow> notification" where
  "notification_row tenant kind subject_type subject_id title i r =
    (case r of (user, m, absent) \<Rightarrow>
      \<lparr>n_id = i, n_tenant = tenant, n_user = user, n_kind = kind_value kind,
       n_subject_type = subject_type, n_subject_id = subject_id, n_title = title (m_languages m),
       n_on_behalf_of = absent\<rparr>)"

definition notify ::
    "uuid \<Rightarrow> notification_kind \<Rightarrow> string \<Rightarrow> uuid \<Rightarrow> (uuid \<times> string) list \<Rightarrow> uuid option \<Rightarrow> db \<Rightarrow>
     error + db \<times> notification list" where
  "notify tenant kind subject_type subject_id candidates actr d =
    ebind (subject subject_type) (\<lambda>(read_permission, lookup).
      let wanted = remdups (map fst candidates) in
      case (if wanted = [] then None else lookup d tenant subject_id) of
        None \<Rightarrow> Inr (d, [])
      | Some title \<Rightarrow>
          ebind (or_else (find (\<lambda>t. tn_id t = tenant) (db_tenants d)) Server_error) (\<lambda>_.
            let rs = sort_key fst (recipients_of tenant kind read_permission wanted actr d);
                rows = map2 (notification_row tenant kind subject_type subject_id title)
                  [db_next d..<db_next d + length rs] rs
            in Inr (d\<lparr>db_next := db_next d + length rs,
                       db_notifications := db_notifications d @ rows\<rparr>, rows)))"

section \<open>What notify() leaves alone\<close>

lemma notify_Inr_frame:
  assumes "notify t k st si cs ac d = Inr (d', rows)"
  shows "\<exists>n ns. d' = d\<lparr>db_next := db_next d + n, db_notifications := db_notifications d @ ns\<rparr>"
proof -
  from assms have "d' = d \<or> (\<exists>n ns. d' = d\<lparr>db_next := db_next d + n, db_notifications := db_notifications d @ ns\<rparr>)"
    by (auto simp: notify_def Let_def inr_simps split: option.splits if_splits prod.splits)
  moreover have "d = d\<lparr>db_next := db_next d + 0, db_notifications := db_notifications d @ []\<rparr>"
    by simp
  ultimately show ?thesis by metis
qed

lemma notify_frame:
  assumes "notify t k st si cs ac d = Inr (d', rows)"
  shows "db_now d' = db_now d" "db_tenants d' = db_tenants d"
    "db_members d' = db_members d" "db_vocab d' = db_vocab d" "db_changes d' = db_changes d"
    "db_taxonomy d' = db_taxonomy d"
    "db_obligations d' = db_obligations d" "db_cases d' = db_cases d" "db_links d' = db_links d"
    "db_assessments d' = db_assessments d" "db_actions d' = db_actions d"
    "db_transitions d' = db_transitions d" "db_evidence d' = db_evidence d"
    "db_storage d' = db_storage d" "db_scan_queue d' = db_scan_queue d" "db_audit d' = db_audit d"
    "db_outbox d' = db_outbox d" "db_next d \<le> db_next d'"
  using notify_Inr_frame [OF assms] by auto

section \<open>Who is told\<close>

lemma readers_are: "m \<in> set (readers t us p d) \<longleftrightarrow>
    m \<in> set (db_members d) \<and> m_tenant m = t \<and> m_user m \<in> set us \<and> active_member m \<and> holds_permission m p"
  by (auto simp: readers_def)

text \<open>A recipient map is well formed: keyed by the member told, every key once, and every member
  in it passed the recipient check.\<close>

definition told_ok :: "(membership \<Rightarrow> bool) \<Rightarrow> recipients \<Rightarrow> bool" where
  "told_ok ok ds \<longleftrightarrow> distinct (map fst ds) \<and> (\<forall>(u, m, ab)\<in>set ds. u = m_user m \<and> ok m)"

lemma told_ok_Nil [simp]: "told_ok ok []"
  by (simp add: told_ok_def)

lemma told_ok_setdefault:
  assumes "told_ok ok ds" and "ok m"
  shows "told_ok ok (setdefault (m_user m) (m, ab) ds)"
  using assms by (auto simp: told_ok_def setdefault_def)

lemma told_ok_fold:
  assumes "told_ok ok ds" and "\<And>m. m \<in> set ms \<Longrightarrow> ok m"
  shows "told_ok ok (fold (\<lambda>m ds. setdefault (m_user m) (m, None) ds) ms ds)"
  using assms
proof (induction ms arbitrary: ds)
  case Nil
  then show ?case by simp
next
  case (Cons m ms)
  then show ?case by (simp add: told_ok_setdefault)
qed

lemma told_ok_delegate_step:
  assumes "told_ok ok ds" and "ok m" and "\<And>x. x \<in> set dels \<Longrightarrow> ok x"
  shows "told_ok ok (delegate_step away dels m ds)"
  using assms told_ok_setdefault [OF assms(1)]
  by (auto simp: delegate_step_def split: option.splits dest: find_Some_in)

lemma told_ok_delegate_fold:
  assumes "told_ok ok ds" and "\<And>m. m \<in> set ms \<Longrightarrow> ok m" and "\<And>x. x \<in> set dels \<Longrightarrow> ok x"
  shows "told_ok ok (fold (delegate_step away dels) ms ds)"
  using assms
proof (induction ms arbitrary: ds)
  case Nil
  then show ?case by simp
next
  case (Cons m ms)
  then show ?case by (simp add: told_ok_delegate_step)
qed

lemma recipients_ok:
  "told_ok (\<lambda>m. m \<in> set (db_members d) \<and> m_tenant m = t \<and> active_member m \<and> holds_permission m p)
    (recipients_of t k p us ac d)"
  unfolding recipients_of_def delegated_def Let_def
  by (auto intro!: told_ok_fold told_ok_delegate_fold simp: readers_are split: if_splits)

text \<open>A row written for somebody away names them and lands with their delegate, never with the
  person whose write caused the notice.\<close>

definition hop_ok :: "(uuid \<times> uuid) list \<Rightarrow> recipients \<Rightarrow> bool" where
  "hop_ok away ds \<longleftrightarrow> (\<forall>(u, m, ab)\<in>set ds. \<forall>a. ab = Some a \<longrightarrow> map_of away a = Some u)"

lemma hop_ok_setdefault_None: "hop_ok away ds \<Longrightarrow> hop_ok away (setdefault u (m, None) ds)"
  by (auto simp: hop_ok_def setdefault_def)

lemma hop_ok_fold: "hop_ok away ds \<Longrightarrow> hop_ok away (fold (\<lambda>m ds. setdefault (m_user m) (m, None) ds) ms ds)"
proof (induction ms arbitrary: ds)
  case Nil
  then show ?case by simp
next
  case (Cons m ms)
  then show ?case by (simp add: hop_ok_setdefault_None)
qed

lemma hop_ok_delegate_fold:
  "hop_ok away ds \<Longrightarrow> hop_ok away (fold (delegate_step away dels) ms ds)"
proof (induction ms arbitrary: ds)
  case Nil
  then show ?case by simp
next
  case (Cons m ms)
  have "hop_ok away (delegate_step away dels m ds)"
    using Cons.prems hop_ok_setdefault_None [OF Cons.prems]
    by (auto simp: delegate_step_def hop_ok_def setdefault_def split: option.splits dest: find_Some_in)
  then show ?case by (simp add: Cons.IH)
qed

lemma away_of_delegate:
  "map_of (away_of today ms ac) a = Some u \<Longrightarrow> Some u \<noteq> ac \<and>
    (\<exists>m\<in>set ms. m_user m = a \<and> m_delegate m = Some u)"
  unfolding away_of_def by (drule map_of_SomeD) force

lemma recipients_hop:
  assumes "(u, m, Some a) \<in> set (recipients_of t k p us ac d)"
  shows "Some u \<noteq> ac \<and> k \<in> set DELEGATED_KINDS \<and>
    (\<exists>x\<in>set (db_members d). m_user x = a \<and> m_delegate x = Some u \<and> a \<in> set us)"
proof (cases "k \<in> set DELEGATED_KINDS")
  case False
  have "hop_ok [] (fold (\<lambda>m ds. setdefault (m_user m) (m, None) ds) ms [])" for ms
    by (rule hop_ok_fold) (simp add: hop_ok_def)
  with assms False show ?thesis
    by (fastforce simp: recipients_of_def Let_def hop_ok_def)
next
  case True
  let ?passing = "filter (\<lambda>m. case MUTABLE_KINDS k of None \<Rightarrow> True | Some s \<Rightarrow> s \<notin> set (m_prefs m)) (readers t us p d)"
  let ?away = "away_of (today_for t d) ?passing ac"
  have "hop_ok ?away (delegated t ?passing p ac d)"
    unfolding delegated_def Let_def
    by (intro hop_ok_delegate_fold hop_ok_fold) (simp add: hop_ok_def)
  with assms True have "map_of ?away a = Some u"
    by (fastforce simp: recipients_of_def Let_def hop_ok_def)
  from away_of_delegate [OF this] True show ?thesis
    by (auto simp: readers_are)
qed

text \<open>Nobody is dropped: a candidate who passes is told, or their delegate is.\<close>

lemma setdefault_keys: "fst ` set (setdefault k v ds) = insert k (fst ` set ds)"
  by (auto simp: setdefault_def image_iff)

lemma fold_keys:
  "fst ` set (fold (\<lambda>m ds. setdefault (m_user m) (m, None) ds) ms ds) = m_user ` set ms \<union> fst ` set ds"
proof (induction ms arbitrary: ds)
  case Nil
  then show ?case by simp
next
  case (Cons m ms)
  then show ?case by (auto simp: setdefault_keys)
qed

definition told_for :: "(uuid \<times> uuid) list \<Rightarrow> membership \<Rightarrow> recipients \<Rightarrow> bool" where
  "told_for away m ds \<longleftrightarrow> m_user m \<in> fst ` set ds \<or>
    (\<exists>u. map_of away (m_user m) = Some u \<and> u \<in> fst ` set ds)"

lemma delegate_step_keys: "fst ` set ds \<subseteq> fst ` set (delegate_step away dels m ds)"
  by (auto simp: delegate_step_def setdefault_keys split: option.splits)

lemma delegate_fold_keys: "fst ` set ds \<subseteq> fst ` set (fold (delegate_step away dels) ms ds)"
proof (induction ms arbitrary: ds)
  case Nil
  then show ?case by simp
next
  case (Cons m ms)
  have "fst ` set ds \<subseteq> fst ` set (delegate_step away dels m ds)"
    by (rule delegate_step_keys)
  also have "\<dots> \<subseteq> fst ` set (fold (delegate_step away dels) ms (delegate_step away dels m ds))"
    by (rule Cons.IH)
  finally show ?case by simp
qed

lemma told_for_step: "told_for away m (delegate_step away dels m ds)"
  by (auto simp: told_for_def delegate_step_def setdefault_keys split: option.splits dest!: find_Some_in)

lemma told_for_mono: "told_for away m ds \<Longrightarrow> fst ` set ds \<subseteq> fst ` set es \<Longrightarrow> told_for away m es"
  by (auto simp: told_for_def)

lemma told_for_fold: "m \<in> set ms \<Longrightarrow> told_for away m (fold (delegate_step away dels) ms ds)"
proof (induction ms arbitrary: ds)
  case Nil
  then show ?case by simp
next
  case (Cons x ms)
  show ?case
  proof (cases "m \<in> set ms")
    case True
    then show ?thesis by (simp add: Cons.IH)
  next
    case False
    with Cons.prems have "told_for away m (delegate_step away dels x ds)"
      by (simp add: told_for_step)
    then show ?thesis by (simp add: told_for_mono [OF _ delegate_fold_keys])
  qed
qed

lemma recipients_complete:
  assumes "m \<in> set (readers t us p d)"
    and "case MUTABLE_KINDS k of None \<Rightarrow> True | Some s \<Rightarrow> s \<notin> set (m_prefs m)"
  shows "m_user m \<in> fst ` set (recipients_of t k p us ac d) \<or>
    (\<exists>x\<in>set (db_members d). \<exists>u. m_user x = m_user m \<and> m_delegate x = Some u \<and>
      u \<in> fst ` set (recipients_of t k p us ac d))"
proof (cases "k \<in> set DELEGATED_KINDS")
  case False
  with assms show ?thesis
    by (auto simp: recipients_of_def Let_def fold_keys)
next
  case True
  let ?passing = "filter (\<lambda>m. case MUTABLE_KINDS k of None \<Rightarrow> True | Some s \<Rightarrow> s \<notin> set (m_prefs m)) (readers t us p d)"
  let ?away = "away_of (today_for t d) ?passing ac"
  have "told_for ?away m (delegated t ?passing p ac d)"
    unfolding delegated_def Let_def using assms by (intro told_for_fold) simp
  with True have "told_for ?away m (recipients_of t k p us ac d)"
    by (simp add: recipients_of_def Let_def)
  then show ?thesis
  proof (unfold told_for_def, elim disjE exE conjE)
    fix u
    assume "map_of ?away (m_user m) = Some u" and told: "u \<in> fst ` set (recipients_of t k p us ac d)"
    from away_of_delegate [OF this(1)] obtain x where "x \<in> set (db_members d)" "m_user x = m_user m"
      "m_delegate x = Some u"
      by (auto simp: readers_are)
    with told show ?thesis by blast
  qed simp
qed

end
