(* ===== verification/Case_Logic.thy ===== *)
theory Case_Logic
  imports Notify
begin

text \<open>
  What every case workflow module shares, \<^verbatim>\<open>backend/apps/cases/logic.py\<close>: the loaders, the version
  check, the facts the guards read, \<open>transition\<close>, which is the one way a case changes category,
  and the answer of a move (\<^verbatim>\<open>backend/apps/cases/responses.py\<close>).
\<close>

abbreviation "SUBJECT_TYPE \<equiv> ''change_case''"
abbreviation "MOVED \<equiv> ''case.moved''"

section \<open>Loaders\<close>

definition load_case :: "uuid \<Rightarrow> uuid \<Rightarrow> db \<Rightarrow> error + change_case" where
  "load_case tenant change_id d =
    or_else (find (\<lambda>c. c_tenant c = tenant \<and> c_change c = change_id) (db_cases d)) not_found"

definition load_action :: "uuid \<Rightarrow> uuid \<Rightarrow> db \<Rightarrow> error + case_action" where
  "load_action tenant action_id d =
    or_else (find (\<lambda>a. a_tenant a = tenant \<and> a_id a = action_id \<and> a_removed_at a = None) (db_actions d))
      not_found"

definition load_evidence :: "uuid \<Rightarrow> uuid \<Rightarrow> db \<Rightarrow> error + evidence" where
  "load_evidence tenant evidence_id d =
    or_else (find (\<lambda>e. e_tenant e = tenant \<and> e_id e = evidence_id \<and> e_removed_at e = None) (db_evidence d))
      not_found"

text \<open>\<^verbatim>\<open>action.case\<close>, \<^verbatim>\<open>evidence.case\<close>: the joined row; a foreign key always finds it.\<close>

definition joined_case :: "uuid \<Rightarrow> db \<Rightarrow> error + change_case" where
  "joined_case case_id d = or_else (find (\<lambda>c. c_id c = case_id) (db_cases d)) Server_error"

section \<open>If-Match\<close>

definition check_version :: "change_case \<Rightarrow> nat option \<Rightarrow> error + unit" where
  "check_version c expected =
    (if expected = None \<or> expected \<noteq> Some (c_version c) then Inl (Stale_write (c_version c)) else Inr ())"

lemma check_version_Inr [inr_simps]: "check_version c e = Inr u \<longleftrightarrow> e = Some (c_version c)"
  by (auto simp: check_version_def)

section \<open>What the guards read\<close>

text \<open>Live actions not yet done, live evidence the scanner passed, a saved assessment.\<close>

definition open_action :: "uuid \<Rightarrow> case_action \<Rightarrow> bool" where
  "open_action cid a \<longleftrightarrow> a_case a = cid \<and> a_done_at a = None \<and> a_removed_at a = None"

definition clean_evidence :: "uuid \<Rightarrow> evidence \<Rightarrow> bool" where
  "clean_evidence cid e \<longleftrightarrow> e_case e = cid \<and> e_removed_at e = None \<and> e_scan_state e = CLEAN"

definition open_count :: "db \<Rightarrow> uuid \<Rightarrow> nat" where
  "open_count d cid = count_rows (open_action cid) (db_actions d)"

definition clean_count :: "db \<Rightarrow> uuid \<Rightarrow> nat" where
  "clean_count d cid = count_rows (clean_evidence cid) (db_evidence d)"

definition assessment_saved :: "db \<Rightarrow> uuid \<Rightarrow> bool" where
  "assessment_saved d cid \<longleftrightarrow> (\<exists>a\<in>set (db_assessments d). ia_case a = cid \<and> ia_saved a)"

text \<open>\<^verbatim>\<open>_close_reason_kind\<close>: the outer option is a raise (a kind that is no member).\<close>

definition close_reason_kind_of :: "db \<Rightarrow> change_case \<Rightarrow> close_reason option option" where
  "close_reason_kind_of d c =
    (case c_close_reason c of
       None \<Rightarrow> Some None
     | Some r \<Rightarrow>
         (case find (\<lambda>v. v_id v = r) (db_vocab d) of
            None \<Rightarrow> None
          | Some v \<Rightarrow> if v_kind v = [] then Some None else map_option Some (close_reason_of (v_kind v))))"

text \<open>The facts of any number of cases, keyed by case id, from the counts the one query reads.
  \<^verbatim>\<open>counted[case.id]\<close> raises for a case the database does not hold.\<close>

definition counted :: "db \<Rightarrow> uuid list \<Rightarrow> (uuid \<times> nat \<times> nat \<times> bool) list" where
  "counted d ids = map (\<lambda>c. (c_id c, open_count d (c_id c), clean_count d (c_id c), assessment_saved d (c_id c)))
    (filter (\<lambda>c. c_id c \<in> set ids) (db_cases d))"

definition facts_of_case ::
    "db \<Rightarrow> (uuid \<times> nat \<times> nat \<times> bool) list \<Rightarrow> uuid option \<Rightarrow> change_case \<Rightarrow> (uuid \<times> case_facts) option" where
  "facts_of_case d counts who c =
    (case (map_of counts (c_id c), close_reason_kind_of d c) of
       (Some (opens, cleans, saved), Some kind) \<Rightarrow>
         Some (c_id c, \<lparr>owner_set = c_owner c \<noteq> None, reason_given = c_dismissed_reason c \<noteq> None,
           why_saved = saved, open_action_count = opens, clean_evidence_count = cleans,
           signoff_requester = c_signoff_requested_by c, actor = who, close_reason_kind = kind\<rparr>)
     | _ \<Rightarrow> None)"

definition case_facts_for :: "change_case list \<Rightarrow> uuid option \<Rightarrow> db \<Rightarrow> (uuid \<times> case_facts) list option" where
  "case_facts_for cases who d =
    (if cases = [] then Some []
     else those (map (facts_of_case d (counted d (map c_id cases)) who) cases))"

definition case_facts_of :: "change_case \<Rightarrow> uuid option \<Rightarrow> db \<Rightarrow> case_facts option" where
  "case_facts_of c who d =
    (case case_facts_for [c] who d of None \<Rightarrow> None | Some fs \<Rightarrow> map_of fs (c_id c))"

text \<open>The facts of one case, written out.\<close>

lemma counted_one:
  "c_id c \<in> c_id ` set (db_cases d) \<Longrightarrow>
    map_of (counted d [c_id c]) (c_id c) =
      Some (open_count d (c_id c), clean_count d (c_id c), assessment_saved d (c_id c))"
proof -
  have "c_id c \<in> c_id ` set cs \<Longrightarrow> map_of (map (\<lambda>c. (c_id c, f (c_id c)))
      (filter (\<lambda>x. c_id x \<in> set [c_id c]) cs)) (c_id c) = Some (f (c_id c))" for f cs
    by (induction cs) auto
  then show "c_id c \<in> c_id ` set (db_cases d) \<Longrightarrow> ?thesis"
    by (simp add: counted_def)
qed

lemma counted_none:
  "c_id c \<notin> c_id ` set (db_cases d) \<Longrightarrow> map_of (counted d [c_id c]) (c_id c) = None"
  by (force simp: counted_def map_of_eq_None_iff)

lemma case_facts_of_Some [inr_simps]:
  "case_facts_of c who d = Some f \<longleftrightarrow>
    c_id c \<in> c_id ` set (db_cases d) \<and>
    (\<exists>kind. close_reason_kind_of d c = Some kind \<and>
      f = \<lparr>owner_set = c_owner c \<noteq> None, reason_given = c_dismissed_reason c \<noteq> None,
           why_saved = assessment_saved d (c_id c), open_action_count = open_count d (c_id c),
           clean_evidence_count = clean_count d (c_id c), signoff_requester = c_signoff_requested_by c,
           actor = who, close_reason_kind = kind\<rparr>)"
proof (cases "c_id c \<in> c_id ` set (db_cases d)")
  case True
  then show ?thesis
    by (auto simp: case_facts_of_def case_facts_for_def facts_of_case_def counted_one split: option.splits)
next
  case False
  then show ?thesis
    by (simp add: case_facts_of_def case_facts_for_def facts_of_case_def counted_none)
qed

section \<open>The one way a case changes category\<close>

definition moved_case :: "change_case \<Rightarrow> case_category \<Rightarrow> db \<Rightarrow> change_case" where
  "moved_case c to_status d =
    c\<lparr>c_status := to_status, c_version := Suc (c_version c), c_updated_at := db_now d\<rparr>"

definition ledger_row :: "change_case \<Rightarrow> case_category \<Rightarrow> uuid option \<Rightarrow> string \<Rightarrow> db \<Rightarrow> case_transition" where
  "ledger_row c to_status who note d =
    \<lparr>t_id = db_next d, t_tenant = c_tenant c, t_case = c_id c, t_from = c_status c, t_to = to_status,
     t_at = db_now d, t_by_user = who, t_note = note\<rparr>"

definition moved_entry ::
    "change_case \<Rightarrow> case_category \<Rightarrow> actor_ref \<Rightarrow> jobj \<Rightarrow> uuid option \<Rightarrow> uuid list \<Rightarrow> db \<Rightarrow> audit_entry" where
  "moved_entry c to_status actr audit step_up behalf d =
    (entry MOVED actr SUBJECT_TYPE (Some (c_id c)) (change_title d (c_change c))
      (ac_label actr @ '' moved a case from '' @ category_value (c_status c) @ '' to '' @
        category_value to_status @ ''.'')
      (Some (c_tenant c))
      [(''status'', JStr (category_value (c_status c)))]
      ([(''status'', JStr (category_value to_status)), (''version'', JInt (int (Suc (c_version c))))] @ audit @
        (if behalf = [] then [] else [(''onBehalfOf'', JList (map JId behalf))])))
     \<lparr>r_step_up := step_up\<rparr>"

definition transition ::
    "change_case \<Rightarrow> case_category \<Rightarrow> actor_ref \<Rightarrow> uuid option \<Rightarrow> string \<Rightarrow> jobj \<Rightarrow> uuid option \<Rightarrow> uuid list \<Rightarrow>
     db \<Rightarrow> error + change_case \<times> db" where
  "transition c to_status actr who note audit step_up behalf d =
    ebind (or_else (case_facts_of c who d) Server_error) (\<lambda>facts.
    ebind (map_err Invalid_transition (check_transition (c_status c) to_status facts)) (\<lambda>_.
    ebind (save_case (moved_case c to_status d) d) (\<lambda>d1.
      let d2 = d1\<lparr>db_next := Suc (db_next d1),
                  db_transitions := db_transitions d1 @ [ledger_row c to_status who note d1]\<rparr>
      in Inr (moved_case c to_status d,
              record_event (moved_entry c to_status actr audit step_up behalf d2) d2))))"

text \<open>What a move that is answered did, and what it needed.\<close>

lemma transition_Inr:
  assumes "transition c to_status actr who note audit step_up behalf d = Inr (c', d')"
  obtains facts where
    "case_facts_of c who d = Some facts"
    "check_transition (c_status c) to_status facts = Inr ()"
    "case_checks (moved_case c to_status d)"
    "c' = moved_case c to_status d"
    "db_cases d' = put_row c_id c' (db_cases d)"
    "db_transitions d' = db_transitions d @ [ledger_row c to_status who note d]"
    "db_actions d' = db_actions d" "db_evidence d' = db_evidence d"
    "db_assessments d' = db_assessments d" "db_vocab d' = db_vocab d" "db_taxonomy d' = db_taxonomy d"
    "db_obligations d' = db_obligations d" "db_tenant_obligations d' = db_tenant_obligations d"
    "db_tenant_agents d' = db_tenant_agents d"
    "db_members d' = db_members d" "db_changes d' = db_changes d" "db_tenants d' = db_tenants d"
    "db_now d' = db_now d" "db_links d' = db_links d"
    "db_notifications d' = db_notifications d"
    "db_storage d' = db_storage d" "db_scan_queue d' = db_scan_queue d"
    "db_next d' = db_next d + 3"
  using assms by (fastforce simp: transition_def Let_def inr_simps frame_simps moved_case_def ledger_row_def)

text \<open>A move rests on its facts, its edge and nothing else: without a raise the answer is the moved
  case, and a refusal of the machine is the refusal of the move.\<close>

lemma transition_refused:
  assumes "case_facts_of c who d = Some facts"
    and "check_transition (c_status c) to_status facts = Inl e"
  shows "transition c to_status actr who note audit step_up behalf d = Inl (Invalid_transition e)"
  using assms by (simp add: transition_def)

section \<open>The answer of a move (cases/responses.py)\<close>

text \<open>The case as its reader sees it: the columns of the case, the assessment's, and the moves the
  machine allows that reader.  People and vocabulary rows are given by id; the labels in the
  reader's language are left out.\<close>

record case_response =
  o_case :: change_case
  o_assessment :: "impact_assessment option"
  o_open_action_count :: nat
  o_can_request_signoff :: bool
  o_allowed_transitions :: "case_category list"

definition case_response_of :: "change_case \<Rightarrow> uuid option \<Rightarrow> db \<Rightarrow> error + case_response" where
  "case_response_of c reader d =
    ebind (or_else (case_facts_of c reader d) Server_error) (\<lambda>facts.
      let allowed = allowed_transitions (c_status c) facts in
      Inr \<lparr>o_case = c, o_assessment = find (\<lambda>a. ia_case a = c_id c) (db_assessments d),
           o_open_action_count = open_action_count facts,
           o_can_request_signoff = SIGNOFF \<in> set allowed,
           o_allowed_transitions = allowed\<rparr>)"

lemma case_response_Inr [inr_simps]:
  "case_response_of c reader d = Inr out \<longleftrightarrow>
    (\<exists>facts. case_facts_of c reader d = Some facts \<and>
      out = \<lparr>o_case = c, o_assessment = find (\<lambda>a. ia_case a = c_id c) (db_assessments d),
        o_open_action_count = open_action_count facts,
        o_can_request_signoff = SIGNOFF \<in> set (allowed_transitions (c_status c) facts),
        o_allowed_transitions = allowed_transitions (c_status c) facts\<rparr>)"
  by (auto simp: case_response_of_def Let_def ebind_eq_Inr or_else_eq_Inr)

end
