(* ===== verification/Case_Triage.thy ===== *)
theory Case_Triage
  imports Case_Logic
begin

text \<open>
  Triage, dismissal, restore and the one-person close, \<^verbatim>\<open>backend/apps/cases/triage.py\<close>.  Each move
  loads the caller's case, checks the version it was read at, resolves what it is given, sets what
  it supplies on the case and goes through \<open>transition\<close>.
\<close>

section \<open>What a move is given\<close>

text \<open>The library lists of the registry (tier 2); every other list is a bank's own.\<close>

definition LIBRARY_LISTS :: "string list" where
  "LIBRARY_LISTS = [''term_dimension'', ''instrument_level'', ''provision_kind'', ''change_type'',
     ''duty_type'', ''relation_type'', ''source_kind'', ''urgency'', ''library_tag'', ''flag'',
     ''rejection_reason'', ''jurisdiction'']"

text \<open>\<^verbatim>\<open>_row\<close>: the active row a key names in a list, or the list's valid keys.  The rows of a list
  stand in the table in the list's own ordering.\<close>

definition vocab_rows :: "string \<Rightarrow> uuid \<Rightarrow> case_category option \<Rightarrow> db \<Rightarrow> vocab_row list" where
  "vocab_rows list_name tenant kind d =
    filter (\<lambda>v. v_list v = list_name \<and> v_active v \<and>
      (list_name \<in> set LIBRARY_LISTS \<or> v_tenant v = Some tenant) \<and>
      (case kind of None \<Rightarrow> True | Some k \<Rightarrow> v_kind v = category_value k)) (db_vocab d)"

definition vocab_row_of :: "string \<Rightarrow> string \<Rightarrow> uuid \<Rightarrow> case_category option \<Rightarrow> db \<Rightarrow> error + vocab_row" where
  "vocab_row_of list_name key tenant kind d =
    or_else (find (\<lambda>v. v_key v = key) (vocab_rows list_name tenant kind d))
      (Unknown_key list_name (map v_key (vocab_rows list_name tenant kind d)))"

definition vocab_row_option ::
    "string \<Rightarrow> string option \<Rightarrow> uuid \<Rightarrow> case_category option \<Rightarrow> db \<Rightarrow> error + vocab_row option" where
  "vocab_row_option list_name key tenant kind d =
    (case key of None \<Rightarrow> Inr None
     | Some k \<Rightarrow> ebind (vocab_row_of list_name k tenant kind d) (\<lambda>v. Inr (Some v)))"

abbreviation "CASES_WORK \<equiv> ''cases.work''"

definition case_owner :: "uuid \<Rightarrow> uuid \<Rightarrow> db \<Rightarrow> error + membership" where
  "case_owner tenant owner_id d =
    or_else (find (\<lambda>m. m_tenant m = tenant \<and> m_user m = owner_id \<and> active_member m \<and>
        holds_permission m CASES_WORK) (db_members d))
      (Invalid_transition owner_required)"

section \<open>The moves\<close>

record triage_body =
  tb_urgency :: string
  tb_owner_id :: uuid
  tb_owner_team :: "string option"
  tb_sub_status :: "string option"

definition triaged_case ::
    "change_case \<Rightarrow> vocab_row \<Rightarrow> membership \<Rightarrow> vocab_row option \<Rightarrow> vocab_row option \<Rightarrow> uuid \<Rightarrow> db \<Rightarrow> change_case" where
  "triaged_case c urg own team sub user d =
    c\<lparr>c_urgency := v_id urg, c_urgency_confirmed := True, c_owner := Some (m_user own),
      c_owner_team := map_option v_id team, c_sub_status := map_option v_id sub,
      c_triaged_by := Some user, c_triaged_at := Some (db_now d)\<rparr>"

definition triage_change ::
    "request \<Rightarrow> uuid \<Rightarrow> nat option \<Rightarrow> triage_body \<Rightarrow> db \<Rightarrow> error + case_response \<times> db" where
  "triage_change rq change_id expected body d =
    ebind (load_case (rq_tenant rq) change_id d) (\<lambda>c.
    ebind (check_version c expected) (\<lambda>_.
    ebind (vocab_row_of ''urgency'' (tb_urgency body) (rq_tenant rq) None d) (\<lambda>urg.
    ebind (case_owner (rq_tenant rq) (tb_owner_id body) d) (\<lambda>own.
    ebind (vocab_row_option ''team'' (tb_owner_team body) (rq_tenant rq) None d) (\<lambda>team.
    ebind (vocab_row_option ''case_sub_status'' (tb_sub_status body) (rq_tenant rq) (Some ASSIGNED) d) (\<lambda>sub.
      let c1 = triaged_case c urg own team sub (rq_user rq) d;
          audit = [(''ownerId'', JId (m_user own)), (''urgency'', JStr (v_key urg))] @
            (case team of None \<Rightarrow> [] | Some t \<Rightarrow> [(''ownerTeam'', JStr (v_key t))])
      in ebind (transition c1 ASSIGNED (rq_actor rq) (Some (rq_user rq)) [] audit None [] d) (\<lambda>(c2, d2).
         ebind (notify (rq_tenant rq) N_ASSIGNED SUBJECT_TYPE (c_id c2) [(m_user own, ''owner'')]
                  (Some (rq_user rq)) d2) (\<lambda>(d3, _).
         ebind (case_response_of c2 (Some (rq_user rq)) d3) (\<lambda>out. Inr (out, d3))))))))))"

definition dismissed_case :: "change_case \<Rightarrow> vocab_row \<Rightarrow> uuid \<Rightarrow> db \<Rightarrow> change_case" where
  "dismissed_case c reason user d =
    c\<lparr>c_dismissed_reason := Some (v_id reason), c_dismissed_by := Some user,
      c_dismissed_at := Some (db_now d), c_sub_status := None\<rparr>"

definition dismiss_change ::
    "request \<Rightarrow> uuid \<Rightarrow> nat option \<Rightarrow> string \<Rightarrow> db \<Rightarrow> error + case_response \<times> db" where
  "dismiss_change rq change_id expected reason_key d =
    ebind (load_case (rq_tenant rq) change_id d) (\<lambda>c.
    ebind (check_version c expected) (\<lambda>_.
    ebind (vocab_row_of ''dismissal_reason'' reason_key (rq_tenant rq) None d) (\<lambda>reason.
    ebind (transition (dismissed_case c reason (rq_user rq) d) DISMISSED (rq_actor rq) (Some (rq_user rq)) []
             [(''reasonKey'', JStr (v_key reason))] None [] d) (\<lambda>(c2, d2).
    ebind (case_response_of c2 (Some (rq_user rq)) d2) (\<lambda>out. Inr (out, d2))))))"

definition restored_case :: "change_case \<Rightarrow> change_case" where
  "restored_case c =
    c\<lparr>c_dismissed_reason := None, c_dismissed_by := None, c_dismissed_at := None,
      c_close_reason := None, c_closed_at := None, c_sub_status := None, c_closed_note := []\<rparr>"

definition restore_change ::
    "request \<Rightarrow> uuid \<Rightarrow> nat option \<Rightarrow> db \<Rightarrow> error + case_response \<times> db" where
  "restore_change rq change_id expected d =
    ebind (load_case (rq_tenant rq) change_id d) (\<lambda>c.
    ebind (check_version c expected) (\<lambda>_.
    ebind (transition c NEW (rq_actor rq) (Some (rq_user rq)) [] [] None [] d) (\<lambda>(c1, d1).
      let c2 = restored_case c1 in
      ebind (save_case c2 d1) (\<lambda>d2.
      ebind (case_response_of c2 (Some (rq_user rq)) d2) (\<lambda>out. Inr (out, d2))))))"

definition ONE_PERSON_CLOSE_FROM :: "case_category list" where
  "ONE_PERSON_CLOSE_FROM = [ASSIGNED, ASSESSING]"

definition closed_case :: "change_case \<Rightarrow> vocab_row \<Rightarrow> string \<Rightarrow> db \<Rightarrow> change_case" where
  "closed_case c reason note d =
    c\<lparr>c_close_reason := Some (v_id reason), c_closed_note := note, c_closed_at := Some (db_now d),
      c_sub_status := None\<rparr>"

definition close_without_action ::
    "request \<Rightarrow> uuid \<Rightarrow> nat option \<Rightarrow> string \<Rightarrow> string \<Rightarrow> db \<Rightarrow> error + case_response \<times> db" where
  "close_without_action rq change_id expected reason_key note d =
    ebind (load_case (rq_tenant rq) change_id d) (\<lambda>c.
    ebind (check_version c expected) (\<lambda>_.
    ebind (ensure (c_status c \<in> set ONE_PERSON_CLOSE_FROM) (Invalid_transition invalid_transition)) (\<lambda>_.
    ebind (vocab_row_of ''close_reason'' reason_key (rq_tenant rq) None d) (\<lambda>reason.
    ebind (transition (closed_case c reason note d) CLOSED (rq_actor rq) (Some (rq_user rq)) note
             [(''reasonKey'', JStr (v_key reason))] None [] d) (\<lambda>(c2, d2).
    ebind (case_response_of c2 (Some (rq_user rq)) d2) (\<lambda>out. Inr (out, d2)))))))"

section \<open>Resolving keys\<close>

lemma load_case_Inr [inr_simps]:
  "load_case t ch d = Inr c \<longleftrightarrow> find (\<lambda>c. c_tenant c = t \<and> c_change c = ch) (db_cases d) = Some c"
  by (simp add: load_case_def or_else_eq_Inr)

lemma load_caseD:
  "load_case t ch d = Inr c \<Longrightarrow> c \<in> set (db_cases d) \<and> c_tenant c = t \<and> c_change c = ch"
  by (auto simp: inr_simps dest: find_Some_in)

lemma vocab_row_of_Inr:
  "vocab_row_of l k t kd d = Inr v \<Longrightarrow> v \<in> set (db_vocab d) \<and> v_list v = l \<and> v_key v = k \<and> v_active v \<and>
    (l \<in> set LIBRARY_LISTS \<or> v_tenant v = Some t) \<and> (\<forall>c. kd = Some c \<longrightarrow> v_kind v = category_value c)"
  by (auto simp: vocab_row_of_def vocab_rows_def or_else_eq_Inr dest!: find_Some_in split: option.splits)

lemma case_owner_Inr:
  "case_owner t u d = Inr m \<Longrightarrow> m \<in> set (db_members d) \<and> m_tenant m = t \<and> m_user m = u \<and>
    active_member m \<and> holds_permission m CASES_WORK"
  by (auto simp: case_owner_def or_else_eq_Inr dest: find_Some_in)

end
