(* ===== verification/Case_Assessment.thy ===== *)
theory Case_Assessment
  imports Case_Triage
begin

text \<open>
  The impact assessment, \<^verbatim>\<open>backend/apps/cases/assessment.py\<close>: opening it moves the case, saving it
  replaces the answer and moves the case only when the change does not apply, which closes it on
  one person's word.
\<close>

definition SAVABLE :: "case_category list" where
  "SAVABLE = [ASSESSING, IMPLEMENTING]"

text \<open>\<^verbatim>\<open>get_or_create(case=case)\<close>: the assessment the case already has, or an empty one.\<close>

definition get_or_create_assessment :: "change_case \<Rightarrow> db \<Rightarrow> db" where
  "get_or_create_assessment c d =
    (if \<exists>a\<in>set (db_assessments d). ia_case a = c_id c then d
     else d\<lparr>db_next := Suc (db_next d), db_assessments := db_assessments d @
       [\<lparr>ia_id = db_next d, ia_tenant = c_tenant c, ia_case = c_id c, ia_applies = YES, ia_why = [],
         ia_what_must_change = [], ia_internal_deadline = None, ia_effort = None, ia_saved = False,
         ia_saved_by = None, ia_saved_at = None, ia_version = 1\<rparr>]\<rparr>)"

definition start_assessment ::
    "request \<Rightarrow> uuid \<Rightarrow> nat option \<Rightarrow> db \<Rightarrow> error + case_response \<times> db" where
  "start_assessment rq change_id expected d =
    ebind (load_case (rq_tenant rq) change_id d) (\<lambda>c.
    ebind (check_version c expected) (\<lambda>_.
    ebind (transition (c\<lparr>c_sub_status := None\<rparr>) ASSESSING (rq_actor rq) (Some (rq_user rq)) [] [] None [] d)
      (\<lambda>(c1, d1).
      let d2 = get_or_create_assessment c1 d1 in
      ebind (case_response_of c1 (Some (rq_user rq)) d2) (\<lambda>out. Inr (out, d2)))))"

record assessment_body =
  ab_applies :: applies
  ab_why :: string
  ab_what_must_change :: string
  ab_internal_deadline :: "day option"
  ab_effort :: "string option"
  ab_sub_status :: "string option"

fun applies_value :: "applies \<Rightarrow> string" where
  "applies_value YES = ''yes''"
| "applies_value PARTLY = ''partly''"
| "applies_value NO = ''no''"

text \<open>\<^verbatim>\<open>resolve_keys\<close> for one key of a list, under the row-level security of the bank.\<close>

definition visible_rows :: "string \<Rightarrow> uuid \<Rightarrow> db \<Rightarrow> vocab_row list" where
  "visible_rows list_name tenant d =
    filter (\<lambda>v. v_list v = list_name \<and> v_active v \<and> (v_tenant v = None \<or> v_tenant v = Some tenant)) (db_vocab d)"

definition resolve_key :: "string \<Rightarrow> string \<Rightarrow> uuid \<Rightarrow> db \<Rightarrow> error + vocab_row" where
  "resolve_key list_name key tenant d =
    or_else (find (\<lambda>v. v_key v = key) (visible_rows list_name tenant d))
      (Unknown_key list_name (map v_key (visible_rows list_name tenant d)))"

text \<open>\<^verbatim>\<open>_sub_status\<close>: the bank's active sub-status inside the category the case ends in.\<close>

definition sub_status_of :: "string \<Rightarrow> case_category \<Rightarrow> uuid \<Rightarrow> db \<Rightarrow> error + vocab_row" where
  "sub_status_of key category tenant d =
    (let rows = filter (\<lambda>v. v_kind v = category_value category) (visible_rows ''case_sub_status'' tenant d)
     in or_else (find (\<lambda>v. v_key v = key) rows) (Unknown_key ''case_sub_status'' (map v_key rows)))"

text \<open>An optional key: \<^verbatim>\<open>if body.effort\<close> is false for an absent and for an empty key.\<close>

definition optional_key :: "string option \<Rightarrow> (string \<Rightarrow> error + vocab_row) \<Rightarrow> error + vocab_row option" where
  "optional_key key resolve =
    (case key of None \<Rightarrow> Inr None
     | Some k \<Rightarrow> if k = [] then Inr None else ebind (resolve k) (\<lambda>v. Inr (Some v)))"

definition saved_assessment ::
    "impact_assessment \<Rightarrow> assessment_body \<Rightarrow> vocab_row option \<Rightarrow> uuid \<Rightarrow> db \<Rightarrow> impact_assessment" where
  "saved_assessment a body effort user d =
    a\<lparr>ia_applies := ab_applies body, ia_why := ab_why body, ia_what_must_change := ab_what_must_change body,
      ia_internal_deadline := ab_internal_deadline body, ia_effort := map_option v_id effort,
      ia_saved := True, ia_saved_by := Some user, ia_saved_at := Some (db_now d),
      ia_version := Suc (ia_version a)\<rparr>"

text \<open>The bank's first active reason of the \<^verbatim>\<open>not_applicable\<close> kind, if it keeps one.\<close>

definition not_applicable_reason :: "uuid \<Rightarrow> db \<Rightarrow> vocab_row option" where
  "not_applicable_reason tenant d =
    find (\<lambda>v. v_list v = ''close_reason'' \<and> v_tenant v = Some tenant \<and>
      v_kind v = close_reason_value NOT_APPLICABLE \<and> v_active v) (db_vocab d)"

definition saved_entry ::
    "request \<Rightarrow> change_case \<Rightarrow> assessment_body \<Rightarrow> vocab_row option \<Rightarrow> vocab_row option \<Rightarrow> vocab_row option \<Rightarrow>
     db \<Rightarrow> audit_entry" where
  "saved_entry rq c body effort sub reason d =
    entry ''case.assessment_saved'' (rq_actor rq) ''change_case'' (Some (c_id c)) (change_title d (c_change c))
      (ac_label (rq_actor rq) @ '' saved the impact assessment.'') (Some (c_tenant c)) []
      [(''applies'', JStr (applies_value (ab_applies body))),
       (''internalDeadline'', jopt JDay (ab_internal_deadline body)),
       (''effort'', jopt (\<lambda>v. JStr (v_key v)) effort),
       (''subStatus'', jopt (\<lambda>v. JStr (v_key v)) sub),
       (''closeReason'', jopt (\<lambda>v. JStr (v_key v)) reason),
       (''version'', JInt (int (c_version c)))]"

definition save_assessment ::
    "request \<Rightarrow> uuid \<Rightarrow> nat option \<Rightarrow> assessment_body \<Rightarrow> bool \<Rightarrow> db \<Rightarrow> error + case_response \<times> db" where
  "save_assessment rq change_id expected body may_close d =
    ebind (load_case (rq_tenant rq) change_id d) (\<lambda>c.
    let closes = (ab_applies body = NO) in
    ebind (ensure (\<not> (closes \<and> \<not> may_close)) (Problem 403 ''permission_denied'')) (\<lambda>_.
    ebind (check_version c expected) (\<lambda>_.
    ebind (ensure (c_status c \<in> set SAVABLE) (Invalid_transition invalid_transition)) (\<lambda>_.
    let ending_in = (if closes then CLOSED else c_status c) in
    ebind (optional_key (ab_effort body) (\<lambda>k. resolve_key ''effort_size'' k (rq_tenant rq) d)) (\<lambda>effort.
    ebind (optional_key (ab_sub_status body) (\<lambda>k. sub_status_of k ending_in (rq_tenant rq) d)) (\<lambda>sub.
    let c1 = c\<lparr>c_sub_status := map_option v_id sub\<rparr> in
    ebind (or_else (find (\<lambda>a. ia_case a = c_id c) (db_assessments d)) Server_error) (\<lambda>a.
    ebind (save_assessment_row (saved_assessment a body effort (rq_user rq) d) d) (\<lambda>d1.
    let reason = (if closes then not_applicable_reason (rq_tenant rq) d1 else None) in
    ebind (if closes
           then transition (c1\<lparr>c_close_reason := map_option v_id reason, c_closed_at := Some (db_now d1)\<rparr>) CLOSED
                  (rq_actor rq) (Some (rq_user rq)) [] [] None [] d1
           else let c2 = c1\<lparr>c_version := Suc (c_version c1)\<rparr> in
                ebind (save_case c2 d1) (\<lambda>d2. Inr (c2\<lparr>c_updated_at := db_now d1\<rparr>, d2))) (\<lambda>(c3, d3).
    let d4 = record_event (saved_entry rq c3 body effort sub reason d3) d3 in
    ebind (case_response_of c3 (Some (rq_user rq)) d4) (\<lambda>out. Inr (out, d4)))))))))))"

end
