(* ===== verification/Case_Actions.thy ===== *)
theory Case_Actions
  imports Case_Assessment
begin

text \<open>
  Actions with an owner and a due date, \<^verbatim>\<open>backend/apps/cases/actions.py\<close>: added while the case is
  worked, the first one moving it on, and locked from the sign-off category on.
\<close>

abbreviation "ADDED \<equiv> ''case.action_added''"
abbreviation "CHANGED \<equiv> ''case.action_changed''"
abbreviation "REMOVED \<equiv> ''case.action_removed''"

definition LOCKED :: "case_category list" where
  "LOCKED = [SIGNOFF, CLOSED]"

definition WORKED :: "case_category list" where
  "WORKED = [ASSESSING, IMPLEMENTING]"

definition check_open_to_work :: "change_case \<Rightarrow> error + unit" where
  "check_open_to_work c =
    (if c_status c \<in> set LOCKED then Inl (Problem 409 ''actions_locked'')
     else if c_status c \<notin> set WORKED then Inl (Validation ''invalid_transition'')
     else Inr ())"

lemma check_open_to_work_Inr [inr_simps]:
  "check_open_to_work c = Inr u \<longleftrightarrow> c_status c = ASSESSING \<or> c_status c = IMPLEMENTING"
  by (cases "c_status c") (simp_all add: check_open_to_work_def LOCKED_def WORKED_def)

text \<open>\<^verbatim>\<open>_locked_action\<close>: the live action, read again under its case's row lock.\<close>

definition locked_action :: "uuid \<Rightarrow> uuid \<Rightarrow> nat option \<Rightarrow> db \<Rightarrow> error + change_case \<times> case_action" where
  "locked_action tenant action_id expected d =
    ebind (load_action tenant action_id d) (\<lambda>a.
    ebind (joined_case (a_case a) d) (\<lambda>jc.
    ebind (load_case tenant (c_change jc) d) (\<lambda>c.
    ebind (or_else (find (\<lambda>x. a_id x = a_id a \<and> a_removed_at x = None) (db_actions d)) not_found) (\<lambda>row.
    ebind (check_open_to_work c) (\<lambda>_.
    if expected = None \<or> expected \<noteq> Some (a_version row) then Inl (Stale_write (a_version row))
    else Inr (c, row))))))"

text \<open>\<^verbatim>\<open>_member\<close>: the user when they are an active member of the bank.\<close>

definition member_of :: "uuid \<Rightarrow> uuid option \<Rightarrow> db \<Rightarrow> error + uuid" where
  "member_of tenant user_id d =
    (case user_id of None \<Rightarrow> Inl (Validation ''unknown_member'')
     | Some u \<Rightarrow> if \<exists>m\<in>set (db_members d). m_tenant m = tenant \<and> m_user m = u \<and> active_member m
                 then Inr u else Inl (Validation ''unknown_member''))"

definition action_values :: "case_action \<Rightarrow> jobj" where
  "action_values a =
    [(''ownerId'', JId (a_owner a)), (''dueDate'', JDay (a_due_date a)),
     (''done'', JBool (a_done_at a \<noteq> None)), (''removed'', JBool (a_removed_at a \<noteq> None)),
     (''version'', JInt (int (a_version a)))]"

definition record_action :: "string \<Rightarrow> case_action \<Rightarrow> change_case \<Rightarrow> actor_ref \<Rightarrow> jobj \<Rightarrow> string \<Rightarrow> db \<Rightarrow> db" where
  "record_action act a c actr bef summary d =
    record_event (entry act actr ''action'' (Some (a_id a)) (change_title d (c_change c)) summary
      (Some (a_tenant a)) bef (action_values a @ [(''caseId'', JId (a_case a))])) d"

record action_body =
  xb_title :: string
  xb_owner_id :: "uuid option"
  xb_due_date :: day

text \<open>The INSERT of an action, refused by a CHECK as any save is.\<close>

definition create_action :: "case_action \<Rightarrow> db \<Rightarrow> error + db" where
  "create_action a d = (if action_checks a
     then Inr (d\<lparr>db_next := Suc (db_next d), db_actions := db_actions d @ [a]\<rparr>) else Inl Integrity_error)"

lemma create_action_Inr [inr_simps]:
  "create_action a d = Inr d' \<longleftrightarrow> action_checks a \<and>
    d' = d\<lparr>db_next := Suc (db_next d), db_actions := db_actions d @ [a]\<rparr>"
  by (auto simp: create_action_def)

definition add_action ::
    "nat \<Rightarrow> request \<Rightarrow> uuid \<Rightarrow> nat option \<Rightarrow> action_body \<Rightarrow> db \<Rightarrow> error + case_action \<times> db" where
  "add_action actions_max rq change_id expected body d =
    ebind (load_case (rq_tenant rq) change_id d) (\<lambda>c.
    ebind (check_open_to_work c) (\<lambda>_.
    ebind (check_version c expected) (\<lambda>_.
    ebind (ensure (count_rows (\<lambda>a. a_case a = c_id c \<and> a_removed_at a = None) (db_actions d) < actions_max)
             (Problem 409 ''too_many_actions'')) (\<lambda>_.
    ebind (member_of (rq_tenant rq) (case xb_owner_id body of None \<Rightarrow> c_owner c | Some u \<Rightarrow> Some u) d) (\<lambda>own.
    ebind (if c_status c = ASSESSING
           then transition c IMPLEMENTING (rq_actor rq) (Some (rq_user rq)) [] [] None [] d
           else Inr (c, d)) (\<lambda>(c1, d1).
      let a = \<lparr>a_id = db_next d1, a_tenant = rq_tenant rq, a_case = c_id c1, a_title = xb_title body,
               a_owner = own, a_due_date = xb_due_date body, a_done_at = None, a_done_by = None,
               a_created_by = rq_user rq, a_created_at = db_now d1, a_removed_at = None, a_removed_by = None,
               a_version = 1\<rparr>
      in ebind (create_action a d1) (\<lambda>d2.
         Inr (a, record_action ADDED a c1 (rq_actor rq) []
           (ac_label (rq_actor rq) @ '' added an action to a case.'') d2))))))))"

record action_patch =
  xp_title :: "string option"
  xp_owner_id :: "uuid option"
  xp_due_date :: "day option"
  xp_done :: "bool option"

definition patched_action :: "case_action \<Rightarrow> action_patch \<Rightarrow> uuid \<Rightarrow> uuid \<Rightarrow> db \<Rightarrow> case_action" where
  "patched_action a body own user d =
    (let a1 = (case xp_title body of None \<Rightarrow> a | Some t \<Rightarrow> a\<lparr>a_title := t\<rparr>);
         a2 = a1\<lparr>a_owner := own\<rparr>;
         a3 = (case xp_due_date body of None \<Rightarrow> a2 | Some x \<Rightarrow> a2\<lparr>a_due_date := x\<rparr>);
         a4 = (if xp_done body = Some True \<and> a_done_at a3 = None
               then a3\<lparr>a_done_at := Some (db_now d), a_done_by := Some user\<rparr>
               else if xp_done body = Some False then a3\<lparr>a_done_at := None, a_done_by := None\<rparr>
               else a3)
     in a4\<lparr>a_version := Suc (a_version a4)\<rparr>)"

definition update_action ::
    "request \<Rightarrow> uuid \<Rightarrow> nat option \<Rightarrow> action_patch \<Rightarrow> db \<Rightarrow> error + case_action \<times> db" where
  "update_action rq action_id expected body d =
    ebind (locked_action (rq_tenant rq) action_id expected d) (\<lambda>(c, row).
    ebind (case xp_owner_id body of None \<Rightarrow> Inr (a_owner row)
           | Some u \<Rightarrow> member_of (rq_tenant rq) (Some u) d) (\<lambda>own.
      let row' = patched_action row body own (rq_user rq) d in
      ebind (save_action row' d) (\<lambda>d1.
      Inr (row', record_action CHANGED row' c (rq_actor rq) (action_values row)
        (ac_label (rq_actor rq) @ '' changed an action on a case.'') d1))))"

definition delete_action :: "request \<Rightarrow> uuid \<Rightarrow> nat option \<Rightarrow> db \<Rightarrow> error + db" where
  "delete_action rq action_id expected d =
    ebind (locked_action (rq_tenant rq) action_id expected d) (\<lambda>(c, row).
      let row' = row\<lparr>a_removed_at := Some (db_now d), a_removed_by := Some (rq_user rq),
                     a_version := Suc (a_version row)\<rparr> in
      ebind (save_action row' d) (\<lambda>d1.
      Inr (record_action REMOVED row' c (rq_actor rq) (action_values row)
        (ac_label (rq_actor rq) @ '' removed an action from a case.'') d1)))"

text \<open>\<^verbatim>\<open>list_actions\<close>: one page of the case's live actions, earliest due date first, with their
  number.\<close>

definition action_order :: "case_action \<Rightarrow> case_action \<Rightarrow> bool" where
  "action_order a b \<longleftrightarrow> a_due_date a < a_due_date b \<or> (a_due_date a = a_due_date b \<and>
    (a_created_at a < a_created_at b \<or> (a_created_at a = a_created_at b \<and> a_id a \<le> a_id b)))"

fun insert_action :: "case_action \<Rightarrow> case_action list \<Rightarrow> case_action list" where
  "insert_action a [] = [a]"
| "insert_action a (b # bs) = (if action_order a b then a # b # bs else b # insert_action a bs)"

definition list_actions :: "uuid \<Rightarrow> uuid \<Rightarrow> nat \<Rightarrow> nat \<Rightarrow> db \<Rightarrow> error + case_action list \<times> nat" where
  "list_actions tenant change_id limit offset d =
    ebind (load_case tenant change_id d) (\<lambda>c.
      let live = filter (\<lambda>a. a_case a = c_id c \<and> a_removed_at a = None) (db_actions d)
      in Inr (take limit (drop offset (foldr insert_action live [])), length live))"

end
