(* ===== verification/Case_Signoff.thy ===== *)
theory Case_Signoff
  imports Case_Actions
begin

text \<open>
  Sign-off, \<^verbatim>\<open>backend/apps/cases/signoff.py\<close>: requested by one person, approved by a second or sent
  back, with the absent members an approval was made for (\<^verbatim>\<open>backend/apps/tenants/out_of_office.py\<close>).
\<close>

abbreviation "CASES_SIGNOFF \<equiv> ''cases.signoff''"

definition approvers :: "change_case \<Rightarrow> uuid \<Rightarrow> db \<Rightarrow> (uuid \<times> string) list" where
  "approvers c requester d =
    map (\<lambda>u. (u, ''approver''))
      (remdups (map m_user (filter (\<lambda>m. m_tenant m = c_tenant c \<and> active_member m \<and>
        holds_permission m CASES_SIGNOFF \<and> m_user m \<noteq> requester) (db_members d))))"

text \<open>The refusals of a sign-off request that carry the counts.\<close>

definition with_counts :: "change_case \<Rightarrow> uuid option \<Rightarrow> db \<Rightarrow> error \<Rightarrow> error" where
  "with_counts c who d e =
    (case e of
       Invalid_transition r \<Rightarrow>
         if r \<in> set [open_actions, evidence_missing]
         then (case case_facts_of c who d of
                 None \<Rightarrow> Server_error
               | Some f \<Rightarrow> Signoff_refused r (open_action_count f) (clean_evidence_count f))
         else e
     | _ \<Rightarrow> e)"

definition request_signoff ::
    "request \<Rightarrow> uuid \<Rightarrow> nat option \<Rightarrow> db \<Rightarrow> error + case_response \<times> db" where
  "request_signoff rq change_id expected d =
    ebind (load_case (rq_tenant rq) change_id d) (\<lambda>c.
    ebind (check_version c expected) (\<lambda>_.
    let c1 = c\<lparr>c_signoff_requested_by := Some (rq_user rq), c_signoff_requested_at := Some (db_now d)\<rparr> in
    ebind (map_err (with_counts c1 (Some (rq_user rq)) d)
             (transition c1 SIGNOFF (rq_actor rq) (Some (rq_user rq)) [] [] None [] d)) (\<lambda>(c2, d2).
    ebind (notify (c_tenant c2) SIGNOFF_REQUESTED SUBJECT_TYPE (c_id c2) (approvers c2 (rq_user rq) d2)
             (Some (rq_user rq)) d2) (\<lambda>(d3, _).
    ebind (case_response_of c2 (Some (rq_user rq)) d3) (\<lambda>out. Inr (out, d3))))))"

text \<open>\<^verbatim>\<open>out_of_office.on_behalf_of\<close>.\<close>

definition on_behalf_of :: "uuid \<Rightarrow> uuid \<Rightarrow> string \<Rightarrow> uuid option \<Rightarrow> db \<Rightarrow> uuid list" where
  "on_behalf_of tenant delegate_id permission exclude d =
    sort (remdups (map m_user (filter (\<lambda>m. m_tenant m = tenant \<and> m_delegate m = Some delegate_id \<and>
      (case m_out_of_office_until m of None \<Rightarrow> False | Some u \<Rightarrow> today_for tenant d \<le> u) \<and>
      m_deactivated_at m = None \<and> holds_permission m permission \<and>
      (case exclude of None \<Rightarrow> True | Some x \<Rightarrow> m_user m \<noteq> x)) (db_members d))))"

text \<open>\<^verbatim>\<open>ClosureReason.objects.get(tenant=tenant, key="signed_off")\<close>; no such row raises.\<close>

definition signed_off_reason :: "uuid \<Rightarrow> db \<Rightarrow> error + vocab_row" where
  "signed_off_reason tenant d =
    or_else (find (\<lambda>v. v_list v = ''close_reason'' \<and> v_tenant v = Some tenant \<and>
        v_key v = close_reason_value SIGNED_OFF) (db_vocab d)) Server_error"

definition approve_signoff ::
    "request \<Rightarrow> uuid \<Rightarrow> nat option \<Rightarrow> string \<Rightarrow> uuid \<Rightarrow> db \<Rightarrow> error + case_response \<times> db" where
  "approve_signoff rq change_id expected note step_up d =
    ebind (load_case (rq_tenant rq) change_id d) (\<lambda>c.
    ebind (check_version c expected) (\<lambda>_.
    ebind (ensure (c_status c = SIGNOFF) (Invalid_transition invalid_transition)) (\<lambda>_.
    ebind (signed_off_reason (rq_tenant rq) d) (\<lambda>reason.
    let c1 = c\<lparr>c_signed_off_by := Some (rq_user rq), c_close_reason := Some (v_id reason),
               c_closed_note := note, c_closed_at := Some (db_now d)\<rparr>;
        behalf = on_behalf_of (rq_tenant rq) (rq_user rq) CASES_SIGNOFF (c_signoff_requested_by c1) d
    in ebind (transition c1 CLOSED (rq_actor rq) (Some (rq_user rq)) note [] (Some step_up) behalf d) (\<lambda>(c2, d2).
       ebind (case_response_of c2 (Some (rq_user rq)) d2) (\<lambda>out. Inr (out, d2)))))))"

definition send_back_signoff ::
    "request \<Rightarrow> uuid \<Rightarrow> nat option \<Rightarrow> string \<Rightarrow> db \<Rightarrow> error + case_response \<times> db" where
  "send_back_signoff rq change_id expected note d =
    ebind (load_case (rq_tenant rq) change_id d) (\<lambda>c.
    ebind (check_version c expected) (\<lambda>_.
    let c1 = c\<lparr>c_signoff_requested_by := None, c_signoff_requested_at := None\<rparr> in
    ebind (transition c1 IMPLEMENTING (rq_actor rq) (Some (rq_user rq)) note [] None [] d) (\<lambda>(c2, d2).
    ebind (case_response_of c2 (Some (rq_user rq)) d2) (\<lambda>out. Inr (out, d2)))))"

lemma on_behalf_of_iff:
  "u \<in> set (on_behalf_of t dl p ex d) \<longleftrightarrow>
    (\<exists>m\<in>set (db_members d). m_user m = u \<and> m_tenant m = t \<and> m_delegate m = Some dl \<and>
      (\<exists>x. m_out_of_office_until m = Some x \<and> today_for t d \<le> x) \<and> m_deactivated_at m = None \<and>
      holds_permission m p \<and> ex \<noteq> Some u)"
  unfolding on_behalf_of_def by (cases ex) (force split: option.splits)+

end
