(* ===== verification/GRC_Text.thy ===== *)
theory GRC_Text
  imports GRC_Prelude
begin

text \<open>
  The string operations of the Python standard library the program uses, on strings whose
  characters are below 256: \<^verbatim>\<open>str.lower\<close>, \<^verbatim>\<open>str.strip\<close>, \<^verbatim>\<open>str.split\<close>, \<^verbatim>\<open>PurePath(...).suffix\<close>, the
  strict UTF-8 decoder, and the text of an id, which is one-to-one.
\<close>

definition code :: "char \<Rightarrow> int" where
  "code c = of_char c"

definition lower_char :: "char \<Rightarrow> char" where
  "lower_char c = (if (65 \<le> code c \<and> code c \<le> 90) \<or> (192 \<le> code c \<and> code c \<le> 222 \<and> code c \<noteq> 215)
     then char_of (code c + 32) else c)"

definition lower :: "string \<Rightarrow> string" where
  "lower s = map lower_char s"

definition is_space :: "int \<Rightarrow> bool" where
  "is_space n \<longleftrightarrow> (9 \<le> n \<and> n \<le> 13) \<or> (28 \<le> n \<and> n \<le> 32) \<or> n = 133 \<or> n = 160 \<or> n = 5760 \<or>
    (8192 \<le> n \<and> n \<le> 8202) \<or> n = 8232 \<or> n = 8233 \<or> n = 8239 \<or> n = 8287 \<or> n = 12288"

text \<open>\<^verbatim>\<open>unicodedata.category(c) in ("Cc", "Cf")\<close> and \<^verbatim>\<open>str.isprintable\<close>, below 256.\<close>

definition is_control :: "char \<Rightarrow> bool" where
  "is_control c \<longleftrightarrow> code c \<le> 31 \<or> (127 \<le> code c \<and> code c \<le> 159) \<or> code c = 173"

definition is_printable :: "char \<Rightarrow> bool" where
  "is_printable c \<longleftrightarrow> \<not> is_control c \<and> code c \<noteq> 160"

definition strip :: "string \<Rightarrow> string" where
  "strip s = rev (dropWhile (\<lambda>c. is_space (code c)) (rev (dropWhile (\<lambda>c. is_space (code c)) s)))"

fun split_on :: "char \<Rightarrow> string \<Rightarrow> string list" where
  "split_on sep [] = [[]]"
| "split_on sep (c # cs) =
    (if c = sep then [] # split_on sep cs
     else (case split_on sep cs of [] \<Rightarrow> [[c]] | w # ws \<Rightarrow> (c # w) # ws))"

text \<open>\<^verbatim>\<open>PurePath(s).name\<close>: the last segment that is neither empty nor a dot; its suffix starts at
  the last dot, which is neither its first nor its last character.\<close>

definition path_name :: "string \<Rightarrow> string" where
  "path_name s = (let parts = filter (\<lambda>p. p \<noteq> [] \<and> p \<noteq> ''.'') (split_on (CHR ''/'') s)
     in if parts = [] then [] else last parts)"

definition name_suffix :: "string \<Rightarrow> string" where
  "name_suffix name =
    (let ext = rev (takeWhile (\<lambda>c. c \<noteq> CHR ''.'') (rev name))
     in if ext = [] \<or> length name < length ext + 2 then [] else CHR ''.'' # ext)"

definition path_suffix :: "string \<Rightarrow> string" where
  "path_suffix s = name_suffix (path_name s)"

text \<open>The strict UTF-8 decoder: shortest form, no surrogate, nothing above U+10FFFF.\<close>

definition cont :: "int \<Rightarrow> bool" where
  "cont b \<longleftrightarrow> 128 \<le> b \<and> b < 192"

fun utf8_decode :: "int list \<Rightarrow> int list option" where
  "utf8_decode [] = Some []"
| "utf8_decode (b # bs) =
    (if b < 128 then map_option (\<lambda>cs. b # cs) (utf8_decode bs)
     else if 194 \<le> b \<and> b < 224 then
       (case bs of
          c1 # r \<Rightarrow> if cont c1 then map_option (\<lambda>cs. ((b - 192) * 64 + (c1 - 128)) # cs) (utf8_decode r) else None
        | _ \<Rightarrow> None)
     else if 224 \<le> b \<and> b < 240 then
       (case bs of
          c1 # c2 # r \<Rightarrow>
            (let n = (b - 224) * 4096 + (c1 - 128) * 64 + (c2 - 128) in
             if cont c1 \<and> cont c2 \<and> 2048 \<le> n \<and> \<not> (55296 \<le> n \<and> n \<le> 57343)
             then map_option (\<lambda>cs. n # cs) (utf8_decode r) else None)
        | _ \<Rightarrow> None)
     else if 240 \<le> b \<and> b < 245 then
       (case bs of
          c1 # c2 # c3 # r \<Rightarrow>
            (let n = (b - 240) * 262144 + (c1 - 128) * 4096 + (c2 - 128) * 64 + (c3 - 128) in
             if cont c1 \<and> cont c2 \<and> cont c3 \<and> 65536 \<le> n \<and> n < 1114112
             then map_option (\<lambda>cs. n # cs) (utf8_decode r) else None)
        | _ \<Rightarrow> None)
     else None)"

text \<open>\<^verbatim>\<open>decode("utf-8-sig")\<close>\<close>

definition utf8_sig_decode :: "int list \<Rightarrow> int list option" where
  "utf8_sig_decode bs =
    (if take 3 bs = [239, 187, 191] then utf8_decode (drop 3 bs) else utf8_decode bs)"

section \<open>The text of an id\<close>

definition digit :: "nat \<Rightarrow> char" where
  "digit n = char_of (48 + int n)"

fun show_nat :: "nat \<Rightarrow> string" where
  "show_nat n = (if n < 10 then [digit n] else show_nat (n div 10) @ [digit (n mod 10)])"

declare show_nat.simps [simp del]

lemma code_digit: "n < 10 \<Longrightarrow> code (digit n) = 48 + int n"
  unfolding code_def digit_def of_char_of by simp

lemma digit_inj: "m < 10 \<Longrightarrow> n < 10 \<Longrightarrow> digit m = digit n \<longleftrightarrow> m = n"
  by (metis add_left_cancel code_digit of_nat_eq_iff)

lemma show_nat_inj: "show_nat m = show_nat n \<longleftrightarrow> m = n"
proof (induction m arbitrary: n rule: show_nat.induct)
  case (1 m)
  have nonempty: "show_nat k \<noteq> []" for k
    by (subst show_nat.simps) simp
  show ?case
  proof (cases "m < 10"; cases "n < 10")
    assume "\<not> m < 10" "\<not> n < 10"
    then have "show_nat m = show_nat n \<longleftrightarrow> m div 10 = n div 10 \<and> m mod 10 = n mod 10"
      using 1 by (simp add: show_nat.simps [of m] show_nat.simps [of n] digit_inj)
    then show ?thesis by (metis div_mult_mod_eq)
  qed (auto simp: show_nat.simps [of m] show_nat.simps [of n] digit_inj nonempty nonempty [symmetric])
qed

lemma show_nat_digits: "c \<in> set (show_nat n) \<Longrightarrow> 48 \<le> code c \<and> code c \<le> 57"
proof (induction n rule: show_nat.induct)
  case (1 n)
  then show ?case
    by (subst (asm) (2) show_nat.simps) (auto simp: code_digit split: if_splits)
qed

lemma show_nat_no_slash: "CHR ''/'' \<notin> set (show_nat n)"
  using show_nat_digits [of "CHR ''/''" n] by (auto simp: code_def)

section \<open>Reading a number\<close>

text \<open>\<^verbatim>\<open>int(s)\<close>: white space around, one sign, decimal digits with single underscores between them.\<close>

definition digit_value :: "char \<Rightarrow> int option" where
  "digit_value c = (if 48 \<le> code c \<and> code c \<le> 57 then Some (code c - 48) else None)"

fun digits_value :: "int \<Rightarrow> string \<Rightarrow> int option" where
  "digits_value acc [] = Some acc"
| "digits_value acc (c # cs) =
    (case digit_value c of
       Some v \<Rightarrow> digits_value (10 * acc + v) cs
     | None \<Rightarrow>
         if c = CHR ''_''
         then (case cs of [] \<Rightarrow> None
               | e # es \<Rightarrow> (case digit_value e of None \<Rightarrow> None | Some v \<Rightarrow> digits_value (10 * acc + v) es))
         else None)"

definition unsigned_value :: "string \<Rightarrow> int option" where
  "unsigned_value s =
    (case s of [] \<Rightarrow> None
     | c # cs \<Rightarrow> (case digit_value c of None \<Rightarrow> None | Some v \<Rightarrow> digits_value v cs))"

definition py_int :: "string \<Rightarrow> int option" where
  "py_int s0 =
    (let s = strip s0 in
     case s of
       [] \<Rightarrow> None
     | c # cs \<Rightarrow>
         if c = CHR ''-'' then map_option uminus (unsigned_value cs)
         else if c = CHR ''+'' then unsigned_value cs
         else unsigned_value s)"

text \<open>\<^verbatim>\<open>s.strip(c)\<close> for one character, and \<^verbatim>\<open>s.removeprefix(p)\<close>.\<close>

definition strip_char :: "char \<Rightarrow> string \<Rightarrow> string" where
  "strip_char c s = rev (dropWhile ((=) c) (rev (dropWhile ((=) c) s)))"

definition removeprefix :: "string \<Rightarrow> string \<Rightarrow> string" where
  "removeprefix p s = (if prefix p s then drop (length p) s else s)"

end
