(* ===== verification/Case_Evidence.thy ===== *)
theory Case_Evidence
  imports Case_Signoff GRC_Text
begin

text \<open>
  Evidence, \<^verbatim>\<open>backend/apps/cases/evidence.py\<close>: attached, identified, hashed, stored and streamed; and
  its malware scan, \<^verbatim>\<open>backend/apps/cases/tasks.py\<close>.  A byte is a character.  The zip reader, SHA-256,
  the URL splitter and the scanner are not the program's: they are arguments, as are the settings.
\<close>

section \<open>Storage (shared/storage.py)\<close>

definition storage_write :: "string \<Rightarrow> string \<Rightarrow> db \<Rightarrow> db" where
  "storage_write key content d =
    d\<lparr>db_storage := (key, content) # filter (\<lambda>(k, _). k \<noteq> key) (db_storage d)\<rparr>"

definition storage_read :: "string \<Rightarrow> db \<Rightarrow> error + string" where
  "storage_read key d = or_else (map_of (db_storage d) key) Server_error"

definition storage_delete :: "string \<Rightarrow> db \<Rightarrow> db" where
  "storage_delete key d = d\<lparr>db_storage := filter (\<lambda>(k, _). k \<noteq> key) (db_storage d)\<rparr>"

section \<open>What a file is\<close>

definition pdf :: "string \<Rightarrow> bool" where
  "pdf content = prefix ''%PDF-'' content"

definition ooxml :: "(string \<Rightarrow> string list option) \<Rightarrow> string \<Rightarrow> string \<Rightarrow> bool" where
  "ooxml namelist folder content =
    (case namelist content of
       None \<Rightarrow> False
     | Some names \<Rightarrow> ''[Content_Types].xml'' \<in> set names \<and> (\<exists>name\<in>set names. prefix folder name))"

definition plain_text :: "string \<Rightarrow> bool" where
  "plain_text content =
    (case utf8_sig_decode (map code content) of
       None \<Rightarrow> False
     | Some txt \<Rightarrow> 0 \<notin> set txt \<and> take 1 (dropWhile is_space txt) \<noteq> [code CHR ''<''])"

definition png :: "string \<Rightarrow> bool" where
  "png content = prefix [137, 80, 78, 71, 13, 10, 26, 10] (map code content)"

definition jpeg :: "string \<Rightarrow> bool" where
  "jpeg content = prefix [255, 216, 255] (map code content)"

abbreviation "OOXML \<equiv> ''application/vnd.openxmlformats-officedocument.''"

definition RECOGNISED :: "(string \<Rightarrow> string list option) \<Rightarrow> (string \<times> string list \<times> (string \<Rightarrow> bool)) list" where
  "RECOGNISED namelist =
    [(''application/pdf'', [''.pdf''], pdf),
     (OOXML @ ''wordprocessingml.document'', [''.docx''], ooxml namelist ''word/''),
     (OOXML @ ''spreadsheetml.sheet'', [''.xlsx''], ooxml namelist ''xl/''),
     (OOXML @ ''presentationml.presentation'', [''.pptx''], ooxml namelist ''ppt/''),
     (''image/png'', [''.png''], png),
     (''image/jpeg'', [''.jpg'', ''.jpeg''], jpeg),
     (''text/plain'', [''.txt''], plain_text),
     (''text/csv'', [''.csv''], plain_text)]"

definition GENERIC_TYPES :: "string list" where
  "GENERIC_TYPES = ['''', ''application/octet-stream'']"

text \<open>The settings of the module and what it uses of the standard library.\<close>

record evidence_settings =
  es_allowed_types :: "string list"
  es_max_bytes :: nat
  es_evidence_max :: nat
  es_scan_retries :: nat
  es_scanner_configured :: bool
  es_namelist :: "string \<Rightarrow> string list option"
  es_sha256_hex :: "string \<Rightarrow> string"
  es_urlsplit :: "string \<Rightarrow> (string \<times> string option) option" \<comment> \<open>scheme and hostname; none when it raises\<close>

definition identify :: "evidence_settings \<Rightarrow> string \<Rightarrow> string \<Rightarrow> string \<Rightarrow> string option" where
  "identify es filename declared content =
    (let extension = lower (path_suffix filename);
         declared' = lower (strip (hd (split_on (CHR '';'') declared)))
     in map_option fst (find (\<lambda>(mime, extensions, looks_like).
          mime \<in> set (es_allowed_types es) \<and> declared' \<in> set (mime # GENERIC_TYPES) \<and>
          extension \<in> set extensions \<and> looks_like content) (RECOGNISED (es_namelist es))))"

definition CLOSED_CATEGORIES :: "case_category list" where
  "CLOSED_CATEGORIES = [CLOSED, DISMISSED]"

definition refuse_when_closed :: "change_case \<Rightarrow> error + unit" where
  "refuse_when_closed c =
    (if c_status c \<in> set CLOSED_CATEGORIES then Inl (Problem 409 ''case_closed'')
     else if c_status c = SIGNOFF then Inl (Problem 409 ''evidence_locked'')
     else Inr ())"

lemma refuse_when_closed_Inr [inr_simps]:
  "refuse_when_closed c = Inr u \<longleftrightarrow> c_status c \<notin> {CLOSED, DISMISSED, SIGNOFF}"
  by (auto simp: refuse_when_closed_def CLOSED_CATEGORIES_def)

section \<open>Attaching\<close>

record upload =
  up_name :: "string option"
  up_content_type :: "string option"
  up_content :: string

record evidence_form =
  ef_kind :: evidence_kind
  ef_name :: string
  ef_url :: string

abbreviation "invalid_form \<equiv> Problem 422 ''validation_error''"

text \<open>The length of \<^verbatim>\<open>file.size\<close> is the bytes received.  A raise of \<^verbatim>\<open>urlsplit\<close> is a 500.\<close>

definition check_address :: "evidence_settings \<Rightarrow> evidence_form \<Rightarrow> error + unit" where
  "check_address es form =
    (if ef_kind form = LINK
     then ebind (or_else (es_urlsplit es (ef_url form)) Server_error) (\<lambda>(scheme, hostname).
       ensure (\<not> (scheme \<noteq> ''https'' \<or> hostname = None \<or> hostname = Some [] \<or>
         (\<exists>ch\<in>set (ef_url form). is_space (code ch) \<or> \<not> is_printable ch))) invalid_form)
     else ensure (ef_url form = []) invalid_form)"

definition storage_key_for :: "evidence \<Rightarrow> uuid \<Rightarrow> string" where
  "storage_key_for e random = show_nat (e_tenant e) @ ''/cases/'' @ show_nat (e_case e) @ ''/evidence/'' @ show_nat random"

definition store_file :: "evidence_settings \<Rightarrow> evidence \<Rightarrow> upload \<Rightarrow> db \<Rightarrow> error + evidence \<times> db" where
  "store_file es e file d =
    ebind (ensure (es_scanner_configured es) (Problem 503 ''scanner_unavailable'')) (\<lambda>_.
    ebind (ensure (\<not> (up_content file = [] \<or> es_max_bytes es < length (up_content file))) invalid_form) (\<lambda>_.
    ebind (or_else (identify es (case up_name file of None \<Rightarrow> [] | Some n \<Rightarrow> n)
             (case up_content_type file of None \<Rightarrow> [] | Some t \<Rightarrow> t) (up_content file)) invalid_form) (\<lambda>mime.
      let key = storage_key_for e (db_next d);
          e' = e\<lparr>e_storage_key := key, e_content_hash := ''sha256:'' @ es_sha256_hex es (up_content file),
                 e_size_bytes := Some (length (up_content file)), e_mime_type := mime\<rparr>
      in Inr (e', storage_write key (up_content file) (d\<lparr>db_next := Suc (db_next d)\<rparr>)))))"

definition new_evidence :: "request \<Rightarrow> change_case \<Rightarrow> evidence_form \<Rightarrow> uuid \<Rightarrow> db \<Rightarrow> evidence" where
  "new_evidence rq c form i d =
    \<lparr>e_id = i, e_tenant = rq_tenant rq, e_case = c_id c, e_kind = ef_kind form, e_name = ef_name form,
     e_storage_key = [], e_url = [], e_content_hash = [], e_size_bytes = None, e_mime_type = [],
     e_uploaded_by = rq_user rq, e_uploaded_at = db_now d, e_removed_at = None, e_scan_state = PENDING,
     e_scanned_at = None\<rparr>"

definition create_evidence :: "evidence \<Rightarrow> db \<Rightarrow> error + db" where
  "create_evidence e d = (if evidence_checks e then Inr (d\<lparr>db_evidence := db_evidence d @ [e]\<rparr>) else Inl Integrity_error)"

lemma create_evidence_Inr [inr_simps]:
  "create_evidence e d = Inr d' \<longleftrightarrow> evidence_checks e \<and> d' = d\<lparr>db_evidence := db_evidence d @ [e]\<rparr>"
  by (auto simp: create_evidence_def)

abbreviation "ATTACHED \<equiv> ''case.evidence_attached''"
abbreviation "DOWNLOADED \<equiv> ''case.evidence_downloaded''"
abbreviation "EVIDENCE_REMOVED \<equiv> ''case.evidence_removed''"
abbreviation "SCANNED \<equiv> ''case.evidence_scanned''"

definition attached_values :: "evidence \<Rightarrow> upload option \<Rightarrow> jobj" where
  "attached_values e file =
    [(''evidenceId'', JId (e_id e)), (''caseId'', JId (e_case e)), (''kind'', JStr (evidence_kind_value (e_kind e)))] @
    (if file = None then []
     else [(''contentHash'', JStr (e_content_hash e)), (''sizeBytes'', jopt (\<lambda>n. JInt (int n)) (e_size_bytes e)),
           (''mimeType'', JStr (e_mime_type e))])"

definition add_evidence ::
    "evidence_settings \<Rightarrow> request \<Rightarrow> uuid \<Rightarrow> evidence_form \<Rightarrow> upload option \<Rightarrow> db \<Rightarrow> error + evidence \<times> db" where
  "add_evidence es rq change_id form file d =
    ebind (load_case (rq_tenant rq) change_id d) (\<lambda>c.
    ebind (refuse_when_closed c) (\<lambda>_.
    ebind (ensure ((ef_kind form = FILE) = (file \<noteq> None)) invalid_form) (\<lambda>_.
    ebind (check_address es form) (\<lambda>_.
    ebind (ensure (count_rows (\<lambda>e. e_case e = c_id c \<and> e_removed_at e = None) (db_evidence d) < es_evidence_max es)
             (Problem 409 ''evidence_limit_reached'')) (\<lambda>_.
    let e0 = new_evidence rq c form (db_next d) d;
        d0 = d\<lparr>db_next := Suc (db_next d)\<rparr>
    in ebind (case file of
                None \<Rightarrow> Inr (e0\<lparr>e_url := ef_url form, e_scan_state := CLEAN, e_scanned_at := Some (db_now d)\<rparr>, d0)
              | Some f \<Rightarrow> store_file es e0 f d0) (\<lambda>(e, d1).
       ebind (create_evidence e d1) (\<lambda>d2.
       let d3 = record_event (entry ATTACHED (rq_actor rq) ''evidence'' (Some (e_id e)) (change_title d2 (c_change c))
             (ac_label (rq_actor rq) @ '' attached a '' @ evidence_kind_value (e_kind e) @ '' to a case as evidence.'')
             (Some (rq_tenant rq)) [] (attached_values e file)) d2
       in Inr (e, if file = None then d3
                  else d3\<lparr>db_scan_queue := db_scan_queue d3 @ [(rq_tenant rq, e_id e)]\<rparr>))))))))"

section \<open>Reading\<close>

text \<open>Newest first, the id breaking ties.\<close>

definition evidence_order :: "evidence \<Rightarrow> evidence \<Rightarrow> bool" where
  "evidence_order a b \<longleftrightarrow> e_uploaded_at b < e_uploaded_at a \<or> (e_uploaded_at a = e_uploaded_at b \<and> e_id a \<le> e_id b)"

fun insert_evidence :: "evidence \<Rightarrow> evidence list \<Rightarrow> evidence list" where
  "insert_evidence a [] = [a]"
| "insert_evidence a (b # bs) = (if evidence_order a b then a # b # bs else b # insert_evidence a bs)"

definition list_evidence :: "uuid \<Rightarrow> uuid \<Rightarrow> nat \<Rightarrow> nat \<Rightarrow> db \<Rightarrow> error + evidence list \<times> nat" where
  "list_evidence tenant change_id limit offset d =
    ebind (load_case tenant change_id d) (\<lambda>c.
      let live = filter (\<lambda>e. e_tenant e = tenant \<and> e_case e = c_id c \<and> e_removed_at e = None) (db_evidence d)
      in Inr (take limit (drop offset (foldr insert_evidence live [])), length live))"

definition download_name :: "(string \<Rightarrow> string list option) \<Rightarrow> string \<Rightarrow> string \<Rightarrow> string" where
  "download_name namelist name mime =
    (let stripped = strip (filter (\<lambda>c. \<not> is_control c) name);
         visible = (if stripped = [] then ''evidence'' else stripped);
         extensions = (case map_of (RECOGNISED namelist) mime of None \<Rightarrow> [''.bin''] | Some (exts, _) \<Rightarrow> exts)
     in if lower (path_suffix visible) \<in> set extensions then visible else visible @ hd extensions)"

text \<open>The answer of a download: bytes, type, name; and its audit row.\<close>

definition download_evidence ::
    "evidence_settings \<Rightarrow> request \<Rightarrow> uuid \<Rightarrow> db \<Rightarrow> error + (string \<times> string \<times> string) \<times> db" where
  "download_evidence es rq evidence_id d =
    ebind (load_evidence (rq_tenant rq) evidence_id d) (\<lambda>e.
    ebind (ensure (e_kind e = FILE) not_found) (\<lambda>_.
    ebind (ensure (e_scan_state e \<noteq> PENDING) (Problem 409 ''scan_pending'')) (\<lambda>_.
    ebind (ensure (e_scan_state e = CLEAN) (Problem 422 ''scan_failed'')) (\<lambda>_.
    ebind (storage_read (e_storage_key e) d) (\<lambda>content.
    ebind (joined_case (e_case e) d) (\<lambda>c.
      let d1 = record_event (entry DOWNLOADED (rq_actor rq) ''evidence'' (Some (e_id e)) (change_title d (c_change c))
            (ac_label (rq_actor rq) @ '' downloaded a file attached to a case as evidence.'') (Some (rq_tenant rq)) []
            [(''evidenceId'', JId (e_id e)), (''caseId'', JId (e_case e)), (''contentHash'', JStr (e_content_hash e))]) d;
          mime = (if e_mime_type e \<in> fst ` set (RECOGNISED (es_namelist es)) then e_mime_type e
                  else ''application/octet-stream'')
      in Inr ((content, mime, download_name (es_namelist es) (e_name e) mime), d1)))))))"

section \<open>Removing\<close>

definition remove_evidence :: "request \<Rightarrow> uuid \<Rightarrow> db \<Rightarrow> error + db" where
  "remove_evidence rq evidence_id d =
    ebind (load_evidence (rq_tenant rq) evidence_id d) (\<lambda>e0.
    ebind (joined_case (e_case e0) d) (\<lambda>jc.
    ebind (load_case (rq_tenant rq) (c_change jc) d) (\<lambda>c.
    ebind (load_evidence (rq_tenant rq) evidence_id d) (\<lambda>e.
    ebind (refuse_when_closed c) (\<lambda>_.
      let e' = e\<lparr>e_removed_at := Some (db_now d)\<rparr> in
      ebind (save_evidence e' d) (\<lambda>d1.
      Inr (record_event (entry EVIDENCE_REMOVED (rq_actor rq) ''evidence'' (Some (e_id e)) (change_title d (c_change c))
            (ac_label (rq_actor rq) @ '' removed a piece of evidence from a case.'') (Some (rq_tenant rq)) []
            [(''evidenceId'', JId (e_id e)), (''caseId'', JId (e_case e)), (''removedAt'', JTime (db_now d))]) d1)))))))"

section \<open>The scan\<close>

record scan_result =
  sr_state :: scan_state
  sr_signature :: "string option"
  sr_scanned_at :: instant

text \<open>\<open>scan i\<close> is the scanner's answer to attempt \<open>i\<close>; the loop keeps the last one.\<close>

fun scan_attempts :: "nat \<Rightarrow> nat \<Rightarrow> (nat \<Rightarrow> scan_result) \<Rightarrow> scan_result" where
  "scan_attempts 0 i scan = scan i"
| "scan_attempts (Suc n) i scan =
    (if sr_state (scan i) \<noteq> SCAN_ERROR then scan i else scan_attempts n (Suc i) scan)"

definition pending_evidence :: "uuid \<Rightarrow> uuid \<Rightarrow> db \<Rightarrow> evidence option" where
  "pending_evidence tenant evidence_id d =
    find (\<lambda>e. e_tenant e = tenant \<and> e_id e = evidence_id \<and> e_scan_state e = PENDING) (db_evidence d)"

text \<open>The second half, under the row lock: the verdict, its audit row, and an infected file's bytes.\<close>

definition decide_scan :: "uuid \<Rightarrow> uuid \<Rightarrow> scan_result \<Rightarrow> db \<Rightarrow> error + db" where
  "decide_scan tenant evidence_id result d =
    (case pending_evidence tenant evidence_id d of
       None \<Rightarrow> Inr d
     | Some e \<Rightarrow>
         ebind (save_evidence (e\<lparr>e_scan_state := sr_state result, e_scanned_at := Some (sr_scanned_at result)\<rparr>) d) (\<lambda>d1.
         ebind (joined_case (e_case e) d1) (\<lambda>c.
           let d2 = record_event (entry SCANNED (system_actor ''malware scan'') ''evidence'' (Some (e_id e))
                 (change_title d (c_change c))
                 (''The malware scan of a file attached to a case answered '' @ scan_state_value (sr_state result) @ ''.'')
                 (Some tenant) []
                 [(''evidenceId'', JId (e_id e)), (''scanState'', JStr (scan_state_value (sr_state result))),
                  (''signature'', jopt JStr (sr_signature result))]) d1
           in Inr (if sr_state result = INFECTED then storage_delete (e_storage_key e) d2 else d2))))"

definition scan_evidence ::
    "evidence_settings \<Rightarrow> (string \<Rightarrow> string \<Rightarrow> nat \<Rightarrow> scan_result) \<Rightarrow> uuid \<Rightarrow> uuid \<Rightarrow> db \<Rightarrow> error + db" where
  "scan_evidence es scanner tenant evidence_id d =
    (case pending_evidence tenant evidence_id d of
       None \<Rightarrow> Inr d
     | Some e \<Rightarrow>
         ebind (storage_read (e_storage_key e) d) (\<lambda>content.
         ebind (ensure (es_scanner_configured es) Server_error) (\<lambda>_.
         decide_scan tenant evidence_id (scan_attempts (es_scan_retries es) 0 (scanner content (e_name e))) d)))"

end
