(* ===== verification/Case_Library.thy ===== *)
theory Case_Library
  imports Case_Evidence
begin

text \<open>
  What reaches a bank's cases from the shared library: a case opened for every active bank when a
  change is registered (\<^verbatim>\<open>backend/apps/cases/creation.py\<close>), the cached footprint verdict recomputed
  when a scope moves (\<^verbatim>\<open>cases/matching.py\<close>), the drafted "So what?" and a bank's own answer to it
  (\<^verbatim>\<open>cases/so_what.py\<close>), and a bank's decision on a suggested obligation link (\<^verbatim>\<open>cases/links.py\<close>).
  The reads of the library are \<^verbatim>\<open>cases/reading.py\<close>.
\<close>

section \<open>Reading the library (cases/reading.py)\<close>

record change_facts =
  cf_id :: uuid
  cf_title :: string
  cf_scope :: scope
  cf_urgency :: uuid
  cf_so_what_draft :: string

text \<open>The change's own terms and the jurisdictions its authority reaches, by dimension; the SQL
  half joins the same two lists of ids.\<close>

definition scope_term_ids :: "taxonomy \<Rightarrow> change_row \<Rightarrow> uuid list" where
  "scope_term_ids x ch = ch_terms ch @ jurisdiction_scope x (ch_jurisdiction ch)"

definition scope_of :: "taxonomy \<Rightarrow> change_row \<Rightarrow> scope" where
  "scope_of x ch = fold (add_term_id x) (jurisdiction_scope x (ch_jurisdiction ch))
     (fold (add_term_id x) (ch_terms ch) [])"

definition urgency_for :: "change_row \<Rightarrow> db \<Rightarrow> error + uuid" where
  "urgency_for ch d =
    (case ch_suggested_urgency ch of
       Some u \<Rightarrow> Inr u
     | None \<Rightarrow> map_sum id v_id
         (or_else (find (\<lambda>v. v_list v = ''urgency'' \<and> v_default v) (db_vocab d)) Server_error))"

definition change_facts_of :: "uuid \<Rightarrow> db \<Rightarrow> error + change_facts option" where
  "change_facts_of change_id d =
    (case find (\<lambda>ch. ch_id ch = change_id) (db_changes d) of
       None \<Rightarrow> Inr None
     | Some ch \<Rightarrow>
         ebind (urgency_for ch d) (\<lambda>urg.
         Inr (Some \<lparr>cf_id = ch_id ch, cf_title = ch_title ch, cf_scope = scope_of (db_taxonomy d) ch,
           cf_urgency = urg, cf_so_what_draft = ch_so_what_draft ch\<rparr>)))"

text \<open>Every active bank, in the order of the table (its slug).\<close>

definition active_tenants :: "db \<Rightarrow> tenant_row list" where
  "active_tenants d = filter tn_active (db_tenants d)"

section \<open>A case for every bank (cases/creation.py)\<close>

definition hour :: instant where
  "hour = 3600000000"

definition fresh_case :: "tenant_row \<Rightarrow> change_facts \<Rightarrow> bool \<Rightarrow> db \<Rightarrow> change_case" where
  "fresh_case t facts matches d =
    \<lparr>c_id = db_next d, c_tenant = tn_id t, c_change = cf_id facts, c_status = NEW, c_urgency = cf_urgency facts,
     c_urgency_confirmed = False, c_footprint_match = matches, c_owner = None, c_owner_team = None,
     c_so_what_text = cf_so_what_draft facts, c_so_what_confirmed = False, c_so_what_confirmed_by = None,
     c_so_what_confirmed_at = None, c_briefing_week = None, c_sub_status = None, c_triaged_by = None,
     c_triaged_at = None, c_dismissed_reason = None, c_dismissed_by = None, c_dismissed_at = None,
     c_signoff_requested_by = None, c_signoff_requested_at = None, c_signed_off_by = None, c_close_reason = None,
     c_closed_note = [], c_closed_at = None,
     c_triage_due_at = Some (db_now d + int (tn_triage_target_hours t) * hour), c_version = 1,
     c_created_at = db_now d, c_updated_at = db_now d\<rparr>"

text \<open>The INSERT: refused by a CHECK and by \<^verbatim>\<open>UNIQUE (tenant, change)\<close>.\<close>

definition insert_case :: "change_case \<Rightarrow> db \<Rightarrow> error + db" where
  "insert_case c d =
    (if (\<exists>x\<in>set (db_cases d). c_tenant x = c_tenant c \<and> c_change x = c_change c) \<or> \<not> case_checks c
     then Inl Integrity_error
     else Inr (d\<lparr>db_next := Suc (db_next d), db_cases := db_cases d @ [c]\<rparr>))"

definition create_case :: "tenant_row \<Rightarrow> change_facts \<Rightarrow> restricting \<Rightarrow> db \<Rightarrow> db" where
  "create_case t facts restr d =
    (let matches = (outside_reasons (cf_scope facts) (footprint_of (db_taxonomy d) (tn_id t)) restr = []);
         c = fresh_case t facts matches d
     in case insert_case c d of
          Inl _ \<Rightarrow> d
        | Inr d1 \<Rightarrow> record_event (entry ''case.created'' (system_actor ''change-registered'') ''change_case''
            (Some (c_id c)) (cf_title facts) ''A registered change opened a case that needs triage.'' (Some (tn_id t)) []
            [(''status'', JStr (category_value (c_status c))), (''footprintMatch'', JBool matches),
             (''urgencyConfirmed'', JBool False)]) d1)"

definition create_cases :: "uuid option \<Rightarrow> db \<Rightarrow> error + db" where
  "create_cases subject_id d =
    ebind (case subject_id of None \<Rightarrow> Inr None | Some i \<Rightarrow> change_facts_of i d) (\<lambda>facts.
      case facts of
        None \<Rightarrow> Inr d
      | Some f \<Rightarrow> Inr (fold (\<lambda>t d. create_case t f (restricting_dimensions (db_taxonomy d)) d) (active_tenants d) d))"

section \<open>The cached verdict (cases/matching.py)\<close>

text \<open>The database's rule over the scope of the case's change; a case's change is always there.\<close>

definition verdict :: "db \<Rightarrow> change_case \<Rightarrow> bool" where
  "verdict d c = taxonomy_in_footprint (db_taxonomy d) (c_tenant c)
     (case find (\<lambda>ch. ch_id ch = c_change c) (db_changes d) of
        None \<Rightarrow> [] | Some ch \<Rightarrow> scope_term_ids (db_taxonomy d) ch)"

definition recompute_hits :: "uuid \<Rightarrow> uuid option \<Rightarrow> db \<Rightarrow> change_case \<Rightarrow> bool" where
  "recompute_hits tenant change d c \<longleftrightarrow> c_status c \<notin> {CLOSED, DISMISSED} \<and> c_tenant c = tenant \<and>
    (case change of None \<Rightarrow> True | Some i \<Rightarrow> c_change c = i) \<and> c_footprint_match c \<noteq> verdict d c"

definition recompute :: "uuid \<Rightarrow> uuid option \<Rightarrow> db \<Rightarrow> db" where
  "recompute tenant change d =
    (let moved = count_rows (recompute_hits tenant change d) (db_cases d);
         d1 = d\<lparr>db_cases := map (\<lambda>c. if recompute_hits tenant change d c
               then c\<lparr>c_footprint_match := verdict d c\<rparr> else c) (db_cases d)\<rparr>
     in if moved = 0 then d1
        else record_event (entry ''case.footprint_match_recomputed'' (system_actor ''footprint-recompute'') ''footprint''
          (Some tenant) ''Regulatory scope'' ''The regulatory scope moved, so open cases were re-checked against it.''
          (Some tenant) [] [(''casesMoved'', JInt (int moved)), (''changeId'', jopt JId change)]) d1)"

definition after_footprint_change :: "uuid option \<Rightarrow> db \<Rightarrow> db" where
  "after_footprint_change tenant d = (case tenant of None \<Rightarrow> d | Some t \<Rightarrow> recompute t None d)"

definition after_change_scope_change :: "uuid option \<Rightarrow> db \<Rightarrow> db" where
  "after_change_scope_change subject_id d =
    (case subject_id of None \<Rightarrow> d
     | Some i \<Rightarrow> fold (\<lambda>t d. recompute (tn_id t) (Some i) d) (active_tenants d) d)"

section \<open>So what? (cases/so_what.py)\<close>

text \<open>An UPDATE of some columns of one row, in terms of the row as it stands.\<close>

definition update_case_row :: "uuid \<Rightarrow> (change_case \<Rightarrow> change_case) \<Rightarrow> db \<Rightarrow> error + db" where
  "update_case_row cid f d =
    (if \<forall>c\<in>set (db_cases d). c_id c = cid \<longrightarrow> case_checks (f c)
     then Inr (d\<lparr>db_cases := map (\<lambda>c. if c_id c = cid then f c else c) (db_cases d)\<rparr>) else Inl Integrity_error)"

lemma update_case_row_Inr [inr_simps]:
  "update_case_row cid f d = Inr d' \<longleftrightarrow> (\<forall>c\<in>set (db_cases d). c_id c = cid \<longrightarrow> case_checks (f c)) \<and>
    d' = d\<lparr>db_cases := map (\<lambda>c. if c_id c = cid then f c else c) (db_cases d)\<rparr>"
  by (auto simp: update_case_row_def)

definition so_what_columns :: "string \<Rightarrow> uuid \<Rightarrow> instant \<Rightarrow> change_case \<Rightarrow> change_case" where
  "so_what_columns txt user at c =
    c\<lparr>c_so_what_text := txt, c_so_what_confirmed := True, c_so_what_confirmed_by := Some user,
      c_so_what_confirmed_at := Some at, c_version := Suc (c_version c)\<rparr>"

text \<open>What the bank's "So what?" answers: text, confirmed, by whom and when, and whether it is a draft.\<close>

record so_what_view =
  sv_case :: uuid
  sv_text :: "string option"
  sv_confirmed :: bool
  sv_confirmed_by :: "uuid option"
  sv_confirmed_at :: "instant option"
  sv_is_ai_draft :: bool

definition so_what_of :: "change_case \<Rightarrow> so_what_view" where
  "so_what_of c =
    \<lparr>sv_case = c_id c, sv_text = (if c_so_what_text c = [] then None else Some (c_so_what_text c)),
     sv_confirmed = c_so_what_confirmed c, sv_confirmed_by = c_so_what_confirmed_by c,
     sv_confirmed_at = c_so_what_confirmed_at c,
     sv_is_ai_draft = c_so_what_text c \<noteq> [] \<and> \<not> c_so_what_confirmed c\<rparr>"

definition write_so_what :: "change_case \<Rightarrow> request \<Rightarrow> string \<Rightarrow> string \<Rightarrow> db \<Rightarrow> error + so_what_view \<times> db" where
  "write_so_what c rq txt act d =
    ebind (update_case_row (c_id c) (so_what_columns txt (rq_user rq) (db_now d)) d) (\<lambda>d1.
    Inr (so_what_of (so_what_columns txt (rq_user rq) (db_now d) c),
      record_event (entry act (rq_actor rq) ''change_case'' (Some (c_id c)) (change_title d (c_change c))
        (ac_label (rq_actor rq) @ '' settled what a change means for this company.'') (Some (c_tenant c))
        [(''soWhatConfirmed'', JBool (c_so_what_confirmed c))]
        [(''soWhatConfirmed'', JBool True), (''characters'', JInt (int (length txt)))]) d1))"

abbreviation "SO_WHAT_SAVED \<equiv> ''case.so_what_saved''"
abbreviation "SO_WHAT_CONFIRMED \<equiv> ''case.so_what_confirmed''"

definition save_so_what :: "request \<Rightarrow> uuid \<Rightarrow> string \<Rightarrow> db \<Rightarrow> error + so_what_view \<times> db" where
  "save_so_what rq change_id txt d =
    ebind (load_case (rq_tenant rq) change_id d) (\<lambda>c. write_so_what c rq txt SO_WHAT_SAVED d)"

definition confirm_so_what :: "request \<Rightarrow> uuid \<Rightarrow> db \<Rightarrow> error + so_what_view \<times> db" where
  "confirm_so_what rq change_id d =
    ebind (load_case (rq_tenant rq) change_id d) (\<lambda>c.
    ebind (ensure (c_so_what_text c \<noteq> []) not_found) (\<lambda>_.
    write_so_what c rq (c_so_what_text c) SO_WHAT_CONFIRMED d))"

text \<open>The library's draft: every untouched copy of one bank brought up to it.  (The summary of the audit
  row has typographic quotes, which a character below 256 cannot hold.)\<close>

definition draft_hits :: "uuid \<Rightarrow> change_facts \<Rightarrow> change_case \<Rightarrow> bool" where
  "draft_hits tenant facts c \<longleftrightarrow> c_tenant c = tenant \<and> c_change c = cf_id facts \<and> \<not> c_so_what_confirmed c \<and>
    c_so_what_text c \<noteq> cf_so_what_draft facts"

definition apply_draft_in_tenant :: "uuid \<Rightarrow> change_facts \<Rightarrow> db \<Rightarrow> db" where
  "apply_draft_in_tenant tenant facts d =
    (let moved = count_rows (draft_hits tenant facts) (db_cases d);
         d1 = d\<lparr>db_cases := map (\<lambda>c. if draft_hits tenant facts c
               then c\<lparr>c_so_what_text := cf_so_what_draft facts\<rparr> else c) (db_cases d)\<rparr>
     in if moved = 0 then d1
        else record_event (entry ''case.so_what_draft_applied'' (system_actor ''so-what-drafted'') ''regulatory_change''
          (Some (cf_id facts)) (cf_title facts) ''A drafted answer to So what? arrived for a change.'' (Some tenant) []
          [(''casesUpdated'', JInt (int moved))]) d1)"

definition apply_draft :: "uuid option \<Rightarrow> db \<Rightarrow> error + db" where
  "apply_draft subject_id d =
    ebind (case subject_id of None \<Rightarrow> Inr None | Some i \<Rightarrow> change_facts_of i d) (\<lambda>facts.
      case facts of
        None \<Rightarrow> Inr d
      | Some f \<Rightarrow> Inr (fold (\<lambda>t d. apply_draft_in_tenant (tn_id t) f d) (active_tenants d) d))"

section \<open>A bank's own links (cases/links.py)\<close>

fun link_decision_value :: "link_decision \<Rightarrow> string" where
  "link_decision_value ACCEPTED = ''accepted''"
| "link_decision_value LINK_REMOVED = ''removed''"

text \<open>\<^verbatim>\<open>update_or_create\<close> on the unique (tenant, case, obligation).\<close>

definition same_link :: "uuid \<Rightarrow> uuid \<Rightarrow> uuid \<Rightarrow> case_link \<Rightarrow> bool" where
  "same_link tenant cid obligation l \<longleftrightarrow> l_tenant l = tenant \<and> l_case l = cid \<and> l_obligation l = obligation"

definition decide_link :: "request \<Rightarrow> string list \<Rightarrow> uuid \<Rightarrow> uuid \<Rightarrow> link_decision \<Rightarrow> db \<Rightarrow> error + case_link \<times> db" where
  "decide_link rq order change_id obligation decision d =
    ebind (load_case (rq_tenant rq) change_id d) (\<lambda>c.
    ebind (or_else (find (\<lambda>r. lo_id r = obligation \<and> lo_active r) (db_obligations d)) not_found) (\<lambda>ob.
      let stored = find (same_link (c_tenant c) (c_id c) obligation) (db_links d);
          row = (case stored of
              Some l \<Rightarrow> l\<lparr>l_decision := decision, l_decided_by := Some (rq_user rq), l_decided_at := db_now d\<rparr>
            | None \<Rightarrow> \<lparr>l_id = db_next d, l_tenant = c_tenant c, l_case = c_id c, l_obligation = obligation,
                l_decision = decision, l_decided_by = Some (rq_user rq), l_decided_at = db_now d\<rparr>);
          d1 = (case stored of
              Some l \<Rightarrow> d\<lparr>db_links := put_row l_id row (db_links d)\<rparr>
            | None \<Rightarrow> d\<lparr>db_next := Suc (db_next d), db_links := db_links d @ [row]\<rparr>)
      in Inr (row, record_event (entry ''case.obligation_link_decided'' (rq_actor rq) ''case_obligation_link''
           (Some (l_id row)) (obligation_title ob order)
           (ac_label (rq_actor rq) @ '' decided whether an obligation is affected for this company.'') (Some (c_tenant c))
           (case stored of None \<Rightarrow> [] | Some l \<Rightarrow> [(''decision'', JStr (link_decision_value (l_decision l)))])
           [(''decision'', JStr (link_decision_value decision)), (''obligationId'', JId obligation),
            (''changeId'', JId change_id)]) d1)))"

definition accept_obligation_link :: "request \<Rightarrow> string list \<Rightarrow> uuid \<Rightarrow> uuid \<Rightarrow> db \<Rightarrow> error + case_link \<times> db" where
  "accept_obligation_link rq order change_id obligation d = decide_link rq order change_id obligation ACCEPTED d"

definition remove_obligation_link :: "request \<Rightarrow> string list \<Rightarrow> uuid \<Rightarrow> uuid \<Rightarrow> db \<Rightarrow> error + case_link \<times> db" where
  "remove_obligation_link rq order change_id obligation d = decide_link rq order change_id obligation LINK_REMOVED d"

end
