(* ===== verification/Case_Board.thy ===== *)
theory Case_Board
  imports Case_Logic
begin

text \<open>
  What the case workflow promises, as a machine over the tables it keeps: the cases, the ledger of
  their moves, their actions, evidence and assessments, and the kinds of the close reasons.  A step
  is one move along a drawn edge whose guards hold, or one edit that is allowed where the case
  stands.  \<^verbatim>\<open>Case_System\<close> shows that every handler of the program is a run of this machine; the
  invariant of the machine is proved here, one step at a time.
\<close>

record board =
  b_cases :: "change_case list"
  b_ledger :: "case_transition list"
  b_actions :: "case_action list"
  b_evidence :: "evidence list"
  b_assessments :: "impact_assessment list"
  b_vocab :: "vocab_row list"
  b_next :: uuid

definition board_of :: "db \<Rightarrow> board" where
  "board_of d = \<lparr>b_cases = db_cases d, b_ledger = db_transitions d, b_actions = db_actions d,
     b_evidence = db_evidence d, b_assessments = db_assessments d, b_vocab = db_vocab d, b_next = db_next d\<rparr>"

lemma board_of_sel [simp]:
  "b_cases (board_of d) = db_cases d" "b_ledger (board_of d) = db_transitions d"
  "b_actions (board_of d) = db_actions d" "b_evidence (board_of d) = db_evidence d"
  "b_assessments (board_of d) = db_assessments d" "b_vocab (board_of d) = db_vocab d"
  "b_next (board_of d) = db_next d"
  by (simp_all add: board_of_def)

section \<open>What the guards read\<close>

definition b_open :: "board \<Rightarrow> uuid \<Rightarrow> nat" where
  "b_open b cid = count_rows (open_action cid) (b_actions b)"

definition b_clean :: "board \<Rightarrow> uuid \<Rightarrow> nat" where
  "b_clean b cid = count_rows (clean_evidence cid) (b_evidence b)"

definition b_saved :: "board \<Rightarrow> uuid \<Rightarrow> bool" where
  "b_saved b cid \<longleftrightarrow> (\<exists>a\<in>set (b_assessments b). ia_case a = cid \<and> ia_saved a)"

definition kind_in :: "vocab_row list \<Rightarrow> uuid option \<Rightarrow> close_reason option option" where
  "kind_in vs r =
    (case r of None \<Rightarrow> Some None
     | Some i \<Rightarrow> (case find (\<lambda>v. v_id v = i) vs of None \<Rightarrow> None
         | Some v \<Rightarrow> if v_kind v = [] then Some None else map_option Some (close_reason_of (v_kind v))))"

definition board_facts :: "board \<Rightarrow> change_case \<Rightarrow> uuid option \<Rightarrow> close_reason option \<Rightarrow> case_facts" where
  "board_facts b c who kind =
    \<lparr>owner_set = c_owner c \<noteq> None, reason_given = c_dismissed_reason c \<noteq> None, why_saved = b_saved b (c_id c),
     open_action_count = b_open b (c_id c), clean_evidence_count = b_clean b (c_id c),
     signoff_requester = c_signoff_requested_by c, actor = who, close_reason_kind = kind\<rparr>"

lemma b_counts [simp]:
  "b_open (board_of d) cid = open_count d cid" "b_clean (board_of d) cid = clean_count d cid"
  "b_saved (board_of d) cid = assessment_saved d cid"
  by (simp_all add: b_open_def b_clean_def b_saved_def open_count_def clean_count_def assessment_saved_def)

lemma kind_in_db: "close_reason_kind_of d c = kind_in (db_vocab d) (c_close_reason c)"
  by (simp add: close_reason_kind_of_def kind_in_def)

lemma case_facts_of_board:
  "case_facts_of c who d = Some f \<longleftrightarrow> c_id c \<in> c_id ` set (db_cases d) \<and>
    (\<exists>kind. kind_in (db_vocab d) (c_close_reason c) = Some kind \<and> f = board_facts (board_of d) c who kind)"
  by (simp add: case_facts_of_Some kind_in_db board_facts_def)

section \<open>The steps\<close>

text \<open>What no move touches before it is checked.\<close>

definition same_identity :: "change_case \<Rightarrow> change_case \<Rightarrow> bool" where
  "same_identity c c1 \<longleftrightarrow> c_id c1 = c_id c \<and> c_tenant c1 = c_tenant c \<and> c_change c1 = c_change c \<and>
    c_status c1 = c_status c"

text \<open>Who asked for sign-off and who signed, before and after the columns of a move are set.\<close>

definition mover :: "board \<Rightarrow> change_case \<Rightarrow> change_case \<Rightarrow> case_category \<Rightarrow> uuid option \<Rightarrow> bool" where
  "mover b c c1 to_status who \<longleftrightarrow>
    (case to_status of
       SIGNOFF \<Rightarrow> c_signoff_requested_by c1 = who \<and> who \<noteq> None \<and> c_signed_off_by c1 = c_signed_off_by c
     | IMPLEMENTING \<Rightarrow> (c_signoff_requested_by c1 = None \<or>
           (c_signoff_requested_by c1 = c_signoff_requested_by c \<and> c_status c \<noteq> SIGNOFF)) \<and>
         c_signed_off_by c1 = c_signed_off_by c
     | CLOSED \<Rightarrow> c_signoff_requested_by c1 = c_signoff_requested_by c \<and>
         (if c_status c = SIGNOFF
          then c_signed_off_by c1 = who \<and> kind_in (b_vocab b) (c_close_reason c1) = Some (Some SIGNED_OFF)
          else c_signed_off_by c1 = c_signed_off_by c)
     | NEW \<Rightarrow> c_signoff_requested_by c1 = c_signoff_requested_by c \<and> c_signed_off_by c1 = c_signed_off_by c \<and>
         c_close_reason c1 = c_close_reason c
     | _ \<Rightarrow> c_signoff_requested_by c1 = c_signoff_requested_by c \<and> c_signed_off_by c1 = c_signed_off_by c)"

lemma mover_simps [simp]:
  "mover b c c1 SIGNOFF who \<longleftrightarrow> c_signoff_requested_by c1 = who \<and> who \<noteq> None \<and> c_signed_off_by c1 = c_signed_off_by c"
  "mover b c c1 IMPLEMENTING who \<longleftrightarrow> (c_signoff_requested_by c1 = None \<or>
      (c_signoff_requested_by c1 = c_signoff_requested_by c \<and> c_status c \<noteq> SIGNOFF)) \<and> c_signed_off_by c1 = c_signed_off_by c"
  "mover b c c1 CLOSED who \<longleftrightarrow> c_signoff_requested_by c1 = c_signoff_requested_by c \<and>
      (if c_status c = SIGNOFF
       then c_signed_off_by c1 = who \<and> kind_in (b_vocab b) (c_close_reason c1) = Some (Some SIGNED_OFF)
       else c_signed_off_by c1 = c_signed_off_by c)"
  "mover b c c1 NEW who \<longleftrightarrow> c_signoff_requested_by c1 = c_signoff_requested_by c \<and> c_signed_off_by c1 = c_signed_off_by c \<and>
      c_close_reason c1 = c_close_reason c"
  "mover b c c1 ASSIGNED who \<longleftrightarrow> c_signoff_requested_by c1 = c_signoff_requested_by c \<and> c_signed_off_by c1 = c_signed_off_by c"
  "mover b c c1 ASSESSING who \<longleftrightarrow> c_signoff_requested_by c1 = c_signoff_requested_by c \<and> c_signed_off_by c1 = c_signed_off_by c"
  "mover b c c1 DISMISSED who \<longleftrightarrow> c_signoff_requested_by c1 = c_signoff_requested_by c \<and> c_signed_off_by c1 = c_signed_off_by c"
  by (simp_all add: mover_def)

text \<open>An edit of a case that is no move.\<close>

definition edit_of :: "change_case \<Rightarrow> change_case \<Rightarrow> bool" where
  "edit_of c c' \<longleftrightarrow> same_identity c c' \<and> c_signoff_requested_by c' = c_signoff_requested_by c \<and>
    c_signed_off_by c' = c_signed_off_by c \<and> c_version c \<le> c_version c' \<and>
    (c_close_reason c' = c_close_reason c \<or> c_status c = NEW)"

definition vocab_ok :: "vocab_row list \<Rightarrow> bool" where
  "vocab_ok vs \<longleftrightarrow> (\<forall>v\<in>set vs. v_list v = ''close_reason'' \<and> v_key v = close_reason_value SIGNED_OFF \<longrightarrow>
    kind_in vs (Some (v_id v)) = Some (Some SIGNED_OFF))"

definition vocab_keeps :: "vocab_row list \<Rightarrow> vocab_row list \<Rightarrow> bool" where
  "vocab_keeps vs vs' \<longleftrightarrow> vocab_ok vs' \<and>
    (\<forall>v\<in>set vs. \<forall>k. kind_in vs (Some (v_id v)) = Some k \<longrightarrow> kind_in vs' (Some (v_id v)) = Some k)"

inductive board_step :: "board \<Rightarrow> board \<Rightarrow> bool" where
  Move: "\<lbrakk>c \<in> set (b_cases b); same_identity c c1; c_version c1 = c_version c;
    kind_in (b_vocab b) (c_close_reason c1) = Some kind;
    check_transition (c_status c1) to_status (board_facts b c1 who kind) = Inr ();
    mover b c c1 to_status who; case_checks c2;
    c2 = c1\<lparr>c_status := to_status, c_version := Suc (c_version c1), c_updated_at := at\<rparr>;
    t_case t = c_id c; t_tenant t = c_tenant c; t_from t = c_status c; t_to t = to_status; b_next b \<le> n\<rbrakk> \<Longrightarrow>
    board_step b (b\<lparr>b_cases := put_row c_id c2 (b_cases b), b_ledger := b_ledger b @ [t], b_next := n\<rparr>)"
| Edit: "\<lbrakk>\<forall>c\<in>set (b_cases b). f c = c \<or> (edit_of c (f c) \<and> case_checks (f c)); b_next b \<le> n\<rbrakk> \<Longrightarrow>
    board_step b (b\<lparr>b_cases := map f (b_cases b), b_next := n\<rparr>)"
| Open: "\<lbrakk>c_id c = b_next b; c_status c = NEW; c_signoff_requested_by c = None; c_signed_off_by c = None;
    case_checks c; \<forall>x\<in>set (b_cases b). \<not> (c_tenant x = c_tenant c \<and> c_change x = c_change c); b_next b < n\<rbrakk> \<Longrightarrow>
    board_step b (b\<lparr>b_cases := b_cases b @ [c], b_next := n\<rparr>)"
| Assess: "\<lbrakk>c \<in> set (b_cases b); ia_case a = c_id c; ia_tenant a = c_tenant c; ia_id a = b_next b; b_next b < n;
    \<forall>x\<in>set (b_assessments b). ia_case x \<noteq> c_id c\<rbrakk> \<Longrightarrow>
    board_step b (b\<lparr>b_assessments := b_assessments b @ [a], b_next := n\<rparr>)"
| Save: "\<lbrakk>a \<in> set (b_assessments b); ia_id a' = ia_id a; ia_case a' = ia_case a; ia_tenant a' = ia_tenant a; ia_saved a'\<rbrakk> \<Longrightarrow>
    board_step b (b\<lparr>b_assessments := put_row ia_id a' (b_assessments b)\<rparr>)"
| Add_action: "\<lbrakk>c \<in> set (b_cases b); c_status c = IMPLEMENTING; a_case a = c_id c; a_tenant a = c_tenant c;
    a_id a = b_next b; b_next b < n\<rbrakk> \<Longrightarrow>
    board_step b (b\<lparr>b_actions := b_actions b @ [a], b_next := n\<rparr>)"
| Edit_action: "\<lbrakk>c \<in> set (b_cases b); c_status c \<in> {ASSESSING, IMPLEMENTING}; a \<in> set (b_actions b); a_case a = c_id c;
    a_id a' = a_id a; a_case a' = a_case a; a_tenant a' = a_tenant a\<rbrakk> \<Longrightarrow>
    board_step b (b\<lparr>b_actions := put_row a_id a' (b_actions b)\<rparr>)"
| Attach: "\<lbrakk>c \<in> set (b_cases b); c_status c \<notin> {CLOSED, DISMISSED, SIGNOFF}; e_case e = c_id c; e_tenant e = c_tenant c;
    e_id e = b_next b; b_next b < n\<rbrakk> \<Longrightarrow>
    board_step b (b\<lparr>b_evidence := b_evidence b @ [e], b_next := n\<rparr>)"
| Detach: "\<lbrakk>c \<in> set (b_cases b); c_status c \<notin> {CLOSED, DISMISSED, SIGNOFF}; e \<in> set (b_evidence b); e_case e = c_id c;
    e' = e\<lparr>e_removed_at := at\<rparr>\<rbrakk> \<Longrightarrow>
    board_step b (b\<lparr>b_evidence := put_row e_id e' (b_evidence b)\<rparr>)"
| Scan: "\<lbrakk>e \<in> set (b_evidence b); e_scan_state e = PENDING; e' = e\<lparr>e_scan_state := st, e_scanned_at := at\<rparr>\<rbrakk> \<Longrightarrow>
    board_step b (b\<lparr>b_evidence := put_row e_id e' (b_evidence b)\<rparr>)"
| Elsewhere: "\<lbrakk>vocab_keeps (b_vocab b) vs; b_next b \<le> n\<rbrakk> \<Longrightarrow> board_step b (b\<lparr>b_vocab := vs, b_next := n\<rparr>)"

section \<open>The invariant\<close>

text \<open>A ledger is a path of drawn edges from one category to another.\<close>

fun chain :: "case_category \<Rightarrow> case_transition list \<Rightarrow> case_category \<Rightarrow> bool" where
  "chain s [] e = (s = e)"
| "chain s (t # ts) e = (t_from t = s \<and> t_to t \<in> set (TRANSITIONS s) \<and> chain (t_to t) ts e)"

definition moves_of :: "board \<Rightarrow> uuid \<Rightarrow> case_transition list" where
  "moves_of b cid = filter (\<lambda>t. t_case t = cid) (b_ledger b)"

definition good_case :: "board \<Rightarrow> change_case \<Rightarrow> bool" where
  "good_case b c \<longleftrightarrow> case_checks c \<and>
    (c_status c = SIGNOFF \<longrightarrow> c_signoff_requested_by c \<noteq> None) \<and>
    (c_status c = SIGNOFF \<or> c_signed_off_by c \<noteq> None \<longrightarrow> b_open b (c_id c) = 0 \<and> 1 \<le> b_clean b (c_id c)) \<and>
    (c_status c \<in> {IMPLEMENTING, SIGNOFF} \<or> c_signed_off_by c \<noteq> None \<longrightarrow> b_saved b (c_id c)) \<and>
    (c_signoff_requested_by c \<noteq> None \<longrightarrow> c_status c = SIGNOFF \<or> c_signed_off_by c \<noteq> None) \<and>
    (c_signed_off_by c \<noteq> None \<longrightarrow> c_status c = CLOSED \<and>
       kind_in (b_vocab b) (c_close_reason c) = Some (Some SIGNED_OFF)) \<and>
    (c_status c = CLOSED \<and> c_signed_off_by c = None \<longrightarrow>
       (\<exists>k. kind_in (b_vocab b) (c_close_reason c) = Some k \<and> kind_restorable k)) \<and>
    chain NEW (moves_of b (c_id c)) (c_status c)"

text \<open>No id of a table was ever given to come.\<close>

definition below :: "uuid \<Rightarrow> uuid list \<Rightarrow> bool" where
  "below n ids \<longleftrightarrow> (\<forall>i\<in>set ids. i < n)"

definition keys_ok :: "board \<Rightarrow> bool" where
  "keys_ok b \<longleftrightarrow>
    distinct (map c_id (b_cases b)) \<and> distinct (map (\<lambda>c. (c_tenant c, c_change c)) (b_cases b)) \<and>
    distinct (map a_id (b_actions b)) \<and> distinct (map e_id (b_evidence b)) \<and>
    distinct (map ia_id (b_assessments b)) \<and> distinct (map ia_case (b_assessments b)) \<and>
    below (b_next b) (map c_id (b_cases b)) \<and> below (b_next b) (map a_id (b_actions b)) \<and>
    below (b_next b) (map e_id (b_evidence b)) \<and> below (b_next b) (map ia_id (b_assessments b))"

text \<open>A child row stands in the zone of its case.\<close>

definition zones_ok :: "board \<Rightarrow> bool" where
  "zones_ok b \<longleftrightarrow>
    (\<forall>a\<in>set (b_actions b). \<exists>c\<in>set (b_cases b). c_id c = a_case a \<and> c_tenant c = a_tenant a) \<and>
    (\<forall>e\<in>set (b_evidence b). \<exists>c\<in>set (b_cases b). c_id c = e_case e \<and> c_tenant c = e_tenant e) \<and>
    (\<forall>a\<in>set (b_assessments b). \<exists>c\<in>set (b_cases b). c_id c = ia_case a \<and> c_tenant c = ia_tenant a) \<and>
    (\<forall>t\<in>set (b_ledger b). \<exists>c\<in>set (b_cases b). c_id c = t_case t \<and> c_tenant c = t_tenant t)"

definition board_ok :: "board \<Rightarrow> bool" where
  "board_ok b \<longleftrightarrow> keys_ok b \<and> zones_ok b \<and> vocab_ok (b_vocab b) \<and> (\<forall>c\<in>set (b_cases b). good_case b c)"

definition board_init :: "board \<Rightarrow> bool" where
  "board_init b \<longleftrightarrow> b_cases b = [] \<and> b_ledger b = [] \<and> b_actions b = [] \<and> b_evidence b = [] \<and>
    b_assessments b = [] \<and> vocab_ok (b_vocab b)"

section \<open>Every step keeps it\<close>

lemma kind_in_keeps:
  assumes "vocab_keeps vs vs'" and "kind_in vs r = Some k"
  shows "kind_in vs' r = Some k"
proof (cases r)
  case None
  then show ?thesis using assms(2) by (simp add: kind_in_def)
next
  case (Some i)
  with assms(2) obtain v where "v \<in> set vs" "v_id v = i"
    by (auto simp: kind_in_def dest: find_Some_in split: option.splits)
  with assms Some show ?thesis by (auto simp: vocab_keeps_def)
qed

text \<open>A case stays good when what its conditions read only grows.\<close>

lemma good_case_mono:
  assumes "good_case b c"
    and "c_status c = SIGNOFF \<or> c_signed_off_by c \<noteq> None \<Longrightarrow> b_open b' (c_id c) = b_open b (c_id c)"
    and "c_status c = SIGNOFF \<or> c_signed_off_by c \<noteq> None \<Longrightarrow> b_clean b (c_id c) \<le> b_clean b' (c_id c)"
    and "b_saved b (c_id c) \<Longrightarrow> b_saved b' (c_id c)"
    and "\<And>k. kind_in (b_vocab b) (c_close_reason c) = Some k \<Longrightarrow> kind_in (b_vocab b') (c_close_reason c) = Some k"
    and "moves_of b' (c_id c) = moves_of b (c_id c)"
  shows "good_case b' c"
  using assms unfolding good_case_def by (auto intro: order_trans)

lemma good_case_edit:
  assumes "good_case b c" and "edit_of c c'" and "case_checks c'"
  shows "good_case b c'"
  using assms by (auto simp: good_case_def edit_of_def same_identity_def)

lemma chain_append:
  "chain s (ts @ us) e \<longleftrightarrow> (\<exists>m. chain s ts m \<and> chain m us e)"
  by (induction ts arbitrary: s) auto

lemma chain_snoc:
  assumes "chain s ts m" and "t_from t = m" and "t_to t \<in> set (TRANSITIONS m)"
  shows "chain s (ts @ [t]) (t_to t)"
  using assms unfolding chain_append by auto

text \<open>The moved case, whatever the edge.\<close>

lemma good_case_move:
  assumes c: "good_case b c" and id: "same_identity c c1"
    and kind: "kind_in (b_vocab b) (c_close_reason c1) = Some kind"
    and guard: "check_transition (c_status c1) to_status (board_facts b c1 who kind) = Inr ()"
    and mv: "mover b c c1 to_status who" and chk: "case_checks c2"
    and c2: "c2 = c1\<lparr>c_status := to_status, c_version := Suc (c_version c1), c_updated_at := at\<rparr>"
    and t: "t_case t = c_id c" "t_from t = c_status c" "t_to t = to_status"
  shows "good_case (b\<lparr>b_cases := cs, b_ledger := b_ledger b @ [t], b_next := n\<rparr>) c2"
proof -
  let ?b = "b\<lparr>b_cases := cs, b_ledger := b_ledger b @ [t], b_next := n\<rparr>"
  have st: "c_status c1 = c_status c" and cid: "c_id c1 = c_id c"
    using id by (auto simp: same_identity_def)
  have counts: "b_open ?b = b_open b" "b_clean ?b = b_clean b" "b_saved ?b = b_saved b"
    by (auto simp: b_open_def b_clean_def b_saved_def)
  have edge: "to_status \<in> set (TRANSITIONS (c_status c))"
    using guard st by (simp add: check_transition_Inr)
  have path: "chain NEW (moves_of ?b (c_id c2)) (c_status c2)"
    using c t edge chain_snoc [of NEW "moves_of b (c_id c)" "c_status c" t] cid
    by (simp add: good_case_def c2 moves_of_def)
  have open_signer: "c_status c \<noteq> CLOSED \<Longrightarrow> c_signed_off_by c = None"
    and asked: "c_status c \<noteq> CLOSED \<Longrightarrow> c_status c \<noteq> SIGNOFF \<Longrightarrow> c_signoff_requested_by c = None"
    and waiting: "c_status c = SIGNOFF \<Longrightarrow> c_signoff_requested_by c \<noteq> None \<and> b_open b (c_id c) = 0 \<and>
      1 \<le> b_clean b (c_id c) \<and> b_saved b (c_id c)"
    and implementing: "c_status c = IMPLEMENTING \<Longrightarrow> b_saved b (c_id c)"
    and closed: "c_status c = CLOSED \<Longrightarrow> c_signed_off_by c \<noteq> None \<Longrightarrow>
      kind_in (b_vocab b) (c_close_reason c) = Some (Some SIGNED_OFF)"
    and unsigned: "c_signed_off_by c = None \<Longrightarrow> c_status c = CLOSED \<Longrightarrow> c_signoff_requested_by c = None"
    using c by (auto simp: good_case_def)
  show ?thesis
  proof (cases to_status)
    case NEW
    with guard st have src: "c_status c = DISMISSED \<or> (c_status c = CLOSED \<and> kind_restorable kind)"
      by (simp add: check_to_new board_facts_def)
    moreover have "kind = Some SIGNED_OFF" if "c_status c = CLOSED" "c_signed_off_by c \<noteq> None"
      using closed [OF that] kind mv NEW by (simp add: mover_def)
    moreover have "\<not> kind_restorable (Some SIGNED_OFF)"
      by (simp add: guard_simps)
    moreover have "kind_restorable kind" if "c_status c = CLOSED"
      using src that by simp
    ultimately have "c_signed_off_by c = None"
      using open_signer by metis
    moreover from this have "c_signoff_requested_by c = None"
      using src asked unsigned by auto
    ultimately show ?thesis
      using chk path mv NEW by (simp add: good_case_def c2 mover_def)
  next
    case ASSIGNED
    with guard st have "c_status c = NEW" by (simp add: check_to_assigned)
    with ASSIGNED show ?thesis
      using chk path mv open_signer asked by (simp add: good_case_def c2 mover_def)
  next
    case ASSESSING
    with guard st have "c_status c = ASSIGNED" by (simp add: check_to_assessing)
    with ASSESSING show ?thesis
      using chk path mv open_signer asked by (simp add: good_case_def c2 mover_def)
  next
    case IMPLEMENTING
    with guard st have src: "c_status c = SIGNOFF \<or> (c_status c = ASSESSING \<and> b_saved b (c_id c1))"
      by (simp add: check_to_implementing board_facts_def)
    then have "c_signed_off_by c = None" using open_signer by auto
    with src IMPLEMENTING show ?thesis
      using chk path mv asked waiting cid by (auto simp: good_case_def c2 mover_def counts)
  next
    case SIGNOFF
    with guard st have "c_status c = IMPLEMENTING \<and> b_open b (c_id c) = 0 \<and> 1 \<le> b_clean b (c_id c)"
      by (simp add: check_to_signoff board_facts_def cid)
    with SIGNOFF show ?thesis
      using chk path mv open_signer implementing cid by (simp add: good_case_def c2 mover_def counts)
  next
    case CLOSED
    with guard st have src: "(c_status c \<in> {ASSIGNED, ASSESSING} \<and> kind_restorable kind) \<or> c_status c = SIGNOFF"
      and who: "c_status c = SIGNOFF \<Longrightarrow> who \<noteq> None"
      by (auto simp: check_to_closed board_facts_def)
    show ?thesis
    proof (cases "c_status c = SIGNOFF")
      case True
      with CLOSED show ?thesis
        using chk path mv who waiting cid by (auto simp: good_case_def c2 mover_def counts)
    next
      case False
      with src have "c_status c \<in> {ASSIGNED, ASSESSING}" "kind_restorable kind" by auto
      moreover from this have "c_signed_off_by c = None" "c_signoff_requested_by c = None"
        using open_signer asked by auto
      ultimately show ?thesis
        using chk path mv CLOSED kind by (auto simp: good_case_def c2 mover_def)
    qed
  next
    case DISMISSED
    with guard st have "c_status c = NEW" by (simp add: check_to_dismissed)
    with DISMISSED show ?thesis
      using chk path mv open_signer asked by (simp add: good_case_def c2 mover_def)
  qed
qed

text \<open>The keys and the zones, step by step.\<close>

lemma distinct_put_proj:
  assumes "distinct (map key rows)" and "r \<in> set rows" and "key r' = key r" and "g r' = g r"
  shows "map g (put_row key r' rows) = map g rows"
  using assms distinct_map_eq [of key rows] by (auto simp: put_row_def)

lemma in_put_row_cases:
  assumes "x \<in> set (put_row key r' rows)"
  shows "x = r' \<or> (x \<in> set rows \<and> key x \<noteq> key r')"
  using assms by (auto simp: in_set_put_row)

text \<open>What is read of a table that an update keeps column by column.\<close>

lemma ball_put_row:
  assumes "\<forall>x\<in>set rows. P x" and "P r'"
  shows "\<forall>x\<in>set (put_row key r' rows). P x"
  using assms by (auto simp: in_set_put_row)

lemma bex_put_row:
  assumes "distinct (map key rows)" "r \<in> set rows" "key r' = key r" and "\<And>x. x = r \<Longrightarrow> P x \<Longrightarrow> P r'"
    and "\<exists>x\<in>set rows. P x"
  shows "\<exists>x\<in>set (put_row key r' rows). P x"
proof -
  from assms(5) obtain x where x: "x \<in> set rows" "P x" by blast
  show ?thesis
  proof (cases "key x = key r'")
    case True
    with assms x have "x = r" using distinct_map_eq [of key rows x r] by auto
    with assms x show ?thesis by (auto simp: in_set_put_row)
  next
    case False
    with x show ?thesis by (auto simp: in_set_put_row)
  qed
qed

lemma bex_map:
  assumes "\<exists>x\<in>set rows. P x" and "\<And>x. x \<in> set rows \<Longrightarrow> P x \<Longrightarrow> P (f x)"
  shows "\<exists>x\<in>set (map f rows). P x"
  using assms by auto

lemma below_mono: "below n ids \<Longrightarrow> n \<le> m \<Longrightarrow> below m ids"
  by (auto simp: below_def)

lemma below_snoc [simp]: "below n (ids @ [i]) \<longleftrightarrow> below n ids \<and> i < n"
  by (auto simp: below_def)

lemma below_fresh: "below n ids \<Longrightarrow> n \<notin> set ids"
  by (auto simp: below_def)

lemma board_step_keys:
  assumes "board_step b b'" and "keys_ok b"
  shows "keys_ok b'"
  using assms
proof (cases rule: board_step.cases)
  case (Move c c1 kind to_status who c2 at t n)
  have "map (\<lambda>c. (c_tenant c, c_change c)) (put_row c_id c2 (b_cases b)) = map (\<lambda>c. (c_tenant c, c_change c)) (b_cases b)"
    using Move assms(2) by (intro distinct_put_proj) (auto simp: keys_ok_def same_identity_def)
  then show ?thesis
    using assms(2) Move(1) below_mono [OF _ \<open>b_next b \<le> n\<close>] by (simp add: keys_ok_def)
next
  case (Edit f n)
  have "map g (map f (b_cases b)) = map g (b_cases b)" if "\<And>c c'. edit_of c c' \<Longrightarrow> g c' = g c" for g :: "change_case \<Rightarrow> 'z"
    using Edit(2) that by auto
  from this [of c_id] this [of "\<lambda>c. (c_tenant c, c_change c)"]
  have "map c_id (map f (b_cases b)) = map c_id (b_cases b)"
    and "map (\<lambda>c. (c_tenant c, c_change c)) (map f (b_cases b)) = map (\<lambda>c. (c_tenant c, c_change c)) (b_cases b)"
    by (auto simp: edit_of_def same_identity_def)
  then show ?thesis
    using assms(2) Edit(1) below_mono [OF _ \<open>b_next b \<le> n\<close>] by (simp add: keys_ok_def del: map_map)
next
  case (Open c n)
  have new: "(c_tenant c, c_change c) \<notin> (\<lambda>c. (c_tenant c, c_change c)) ` set (b_cases b)"
    using Open by auto
  have le: "b_next b \<le> n" using Open by simp
  have fr: "b_next b \<notin> set (map c_id (b_cases b))"
    using assms(2) by (intro below_fresh) (simp add: keys_ok_def)
  show ?thesis
    using assms(2) Open(1,2,8) new below_mono [OF _ le] fr by (auto simp: keys_ok_def)
next
  case (Assess c a n)
  have new: "ia_case a \<notin> ia_case ` set (b_assessments b)"
    using Assess by auto
  have le: "b_next b \<le> n" using Assess by simp
  have fr: "b_next b \<notin> set (map ia_id (b_assessments b))"
    using assms(2) by (intro below_fresh) (simp add: keys_ok_def)
  show ?thesis
    using assms(2) Assess(1,5,6) new below_mono [OF _ le] fr by (auto simp: keys_ok_def)
next
  case (Save a a')
  have "map ia_case (put_row ia_id a' (b_assessments b)) = map ia_case (b_assessments b)"
    using Save assms(2) by (intro distinct_put_proj) (auto simp: keys_ok_def)
  then show ?thesis
    using assms(2) Save(1) by (simp add: keys_ok_def)
next
  case (Add_action c a n)
  have le: "b_next b \<le> n" using Add_action by simp
  have fr: "b_next b \<notin> set (map a_id (b_actions b))"
    using assms(2) by (intro below_fresh) (simp add: keys_ok_def)
  show ?thesis
    using assms(2) Add_action(1,6,7) below_mono [OF _ le] fr by (auto simp: keys_ok_def)
next
  case (Edit_action c a a')
  then show ?thesis using assms(2) by (simp add: keys_ok_def)
next
  case (Attach c e n)
  have le: "b_next b \<le> n" using Attach by simp
  have fr: "b_next b \<notin> set (map e_id (b_evidence b))"
    using assms(2) by (intro below_fresh) (simp add: keys_ok_def)
  show ?thesis
    using assms(2) Attach(1,6,7) below_mono [OF _ le] fr by (auto simp: keys_ok_def)
next
  case (Detach c e e' at)
  then show ?thesis using assms(2) by (simp add: keys_ok_def)
next
  case (Scan e e' st at)
  then show ?thesis using assms(2) by (simp add: keys_ok_def)
next
  case (Elsewhere vs n)
  then show ?thesis
    using assms(2) below_mono [OF _ \<open>b_next b \<le> n\<close>] by (simp add: keys_ok_def)
qed

definition zone_of :: "change_case list \<Rightarrow> uuid \<Rightarrow> uuid \<Rightarrow> bool" where
  "zone_of cs cid tenant \<longleftrightarrow> (\<exists>c\<in>set cs. c_id c = cid \<and> c_tenant c = tenant)"

lemma zones_ok_alt:
  "zones_ok b \<longleftrightarrow>
    (\<forall>a\<in>set (b_actions b). zone_of (b_cases b) (a_case a) (a_tenant a)) \<and>
    (\<forall>e\<in>set (b_evidence b). zone_of (b_cases b) (e_case e) (e_tenant e)) \<and>
    (\<forall>a\<in>set (b_assessments b). zone_of (b_cases b) (ia_case a) (ia_tenant a)) \<and>
    (\<forall>t\<in>set (b_ledger b). zone_of (b_cases b) (t_case t) (t_tenant t))"
  by (simp add: zones_ok_def zone_of_def)

lemma zone_of_put:
  assumes "c \<in> set cs" and "distinct (map c_id cs)" and "c_id c2 = c_id c" and "c_tenant c2 = c_tenant c"
    and "zone_of cs cid tenant"
  shows "zone_of (put_row c_id c2 cs) cid tenant"
  using assms unfolding zone_of_def by (intro bex_put_row) auto

lemma board_step_zones:
  assumes "board_step b b'" and "keys_ok b" and "zones_ok b"
  shows "zones_ok b'"
  using assms
proof (cases rule: board_step.cases)
  case (Move c c1 kind to_status who c2 at t n)
  have z: "zone_of (b_cases b) cid tn \<Longrightarrow> zone_of (put_row c_id c2 (b_cases b)) cid tn" for cid tn
    using Move assms(2) by (intro zone_of_put) (auto simp: same_identity_def keys_ok_def)
  have "zone_of (b_cases b) (t_case t) (t_tenant t)"
    using Move by (auto simp: zone_of_def)
  with z show ?thesis
    using assms(3) Move(1) by (auto simp: zones_ok_alt)
next
  case (Edit f n)
  have "zone_of (b_cases b) cid tn \<Longrightarrow> zone_of (map f (b_cases b)) cid tn" for cid tn
    unfolding zone_of_def by (rule bex_map) (use Edit(2) in \<open>auto simp: edit_of_def same_identity_def\<close>)
  then show ?thesis
    using assms(3) Edit(1) by (auto simp: zones_ok_alt)
next
  case (Open c n)
  have "zone_of (b_cases b) cid tn \<Longrightarrow> zone_of (b_cases b @ [c]) cid tn" for cid tn
    by (auto simp: zone_of_def)
  then show ?thesis
    using assms(3) Open(1) by (auto simp: zones_ok_alt)
next
  case (Assess c a n)
  then show ?thesis using assms(3) by (auto simp: zones_ok_alt zone_of_def)
next
  case (Save a a')
  have "zone_of (b_cases b) (ia_case a) (ia_tenant a)"
    using assms(3) Save(2) by (simp add: zones_ok_alt)
  with Save show ?thesis
    using assms(3) by (auto simp: zones_ok_alt in_set_put_row)
next
  case (Add_action c a n)
  then show ?thesis using assms(3) by (auto simp: zones_ok_alt zone_of_def)
next
  case (Edit_action c a a')
  have "zone_of (b_cases b) (a_case a) (a_tenant a)"
    using assms(3) Edit_action(4) by (simp add: zones_ok_alt)
  with Edit_action show ?thesis
    using assms(3) by (auto simp: zones_ok_alt in_set_put_row)
next
  case (Attach c e n)
  then show ?thesis using assms(3) by (auto simp: zones_ok_alt zone_of_def)
next
  case (Detach c e e' at)
  have "zone_of (b_cases b) (e_case e) (e_tenant e)"
    using assms(3) Detach(4) by (simp add: zones_ok_alt)
  with Detach show ?thesis
    using assms(3) by (auto simp: zones_ok_alt in_set_put_row)
next
  case (Scan e e' st at)
  have "zone_of (b_cases b) (e_case e) (e_tenant e)"
    using assms(3) Scan(2) by (simp add: zones_ok_alt)
  with Scan show ?thesis
    using assms(3) by (auto simp: zones_ok_alt in_set_put_row)
next
  case (Elsewhere vs n)
  then show ?thesis using assms(3) by (simp add: zones_ok_alt)
qed

text \<open>The cases stay good.\<close>

lemma moves_of_other: "t_case t \<noteq> cid \<Longrightarrow> moves_of (b\<lparr>b_cases := cs, b_ledger := b_ledger b @ [t], b_next := n\<rparr>) cid = moves_of b cid"
  by (simp add: moves_of_def)

text \<open>An update judged by the one row it replaces.\<close>

lemma count_put_distinct:
  assumes "distinct (map key rows)" and "r \<in> set rows" and "key r' = key r"
  shows "(P r \<Longrightarrow> P r') \<Longrightarrow> count_rows P rows \<le> count_rows P (put_row key r' rows)"
    and "P r' = P r \<Longrightarrow> count_rows P (put_row key r' rows) = count_rows P rows"
proof -
  have "x = r" if "x \<in> set rows" "key x = key r'" for x
    using assms that distinct_map_eq [of key rows x r] by simp
  then show "(P r \<Longrightarrow> P r') \<Longrightarrow> count_rows P rows \<le> count_rows P (put_row key r' rows)"
    and "P r' = P r \<Longrightarrow> count_rows P (put_row key r' rows) = count_rows P rows"
    by (metis count_rows_put_le, metis count_rows_put_same)
qed

lemma board_step_good:
  assumes "board_step b b'" and ok: "board_ok b"
  shows "\<forall>c\<in>set (b_cases b'). good_case b' c"
proof -
  have good: "good_case b c" if "c \<in> set (b_cases b)" for c
    using ok that by (simp add: board_ok_def)
  have keys: "keys_ok b" and zones: "zones_ok b"
    using ok by (auto simp: board_ok_def)
  have same: "x = c" if "x \<in> set (b_cases b)" "c \<in> set (b_cases b)" "c_id x = c_id c" for x c
    using keys that distinct_map_eq [of c_id "b_cases b" x c] by (simp add: keys_ok_def)
  from assms(1) show ?thesis
  proof (cases rule: board_step.cases)
    case (Move c c1 kind to_status who c2 at t n)
    have "good_case b' c2"
      using Move good [of c] unfolding Move(1) by (intro good_case_move [of b c c1 kind to_status who]) auto
    moreover have "good_case b' x" if "x \<in> set (b_cases b)" "c_id x \<noteq> c_id c" for x
      using good [OF that(1)] by (rule good_case_mono)
        (use that(2) Move(1,10) in \<open>auto simp: b_open_def b_clean_def b_saved_def moves_of_def\<close>)
    ultimately show ?thesis
      using Move(1,3) Move(9) by (auto simp: in_set_put_row same_identity_def)
  next
    case (Edit f n)
    have "good_case b' (f c)" if "c \<in> set (b_cases b)" for c
    proof (rule good_case_mono)
      show "good_case b (f c)"
        using Edit(2) that good [OF that] good_case_edit by metis
    qed (use Edit(1) in \<open>auto simp: b_open_def b_clean_def b_saved_def moves_of_def\<close>)
    then show ?thesis using Edit(1) by simp
  next
    case (Open c n)
    have fr: "c_id x \<noteq> c_id c" if "x \<in> set (b_cases b)" for x
      using keys that Open(2) by (auto simp: keys_ok_def below_def)
    have none: "moves_of b (c_id c) = []"
      using zones fr by (fastforce simp: moves_of_def zones_ok_def filter_empty_conv)
    have "good_case b' c"
      using Open none by (simp add: good_case_def moves_of_def)
    moreover have "good_case b' x" if "x \<in> set (b_cases b)" for x
      using good [OF that] by (rule good_case_mono)
        (use Open(1) in \<open>auto simp: b_open_def b_clean_def b_saved_def moves_of_def\<close>)
    ultimately show ?thesis using Open(1) by auto
  next
    case (Assess c a n)
    have "good_case b' x" if "x \<in> set (b_cases b)" for x
      using good [OF that] by (rule good_case_mono)
        (use Assess(1) in \<open>auto simp: b_open_def b_clean_def b_saved_def moves_of_def\<close>)
    then show ?thesis using Assess(1) by simp
  next
    case (Save a a')
    have saved: "b_saved b cid \<Longrightarrow> b_saved b' cid" for cid
      unfolding b_saved_def Save(1)
      using bex_put_row [of ia_id "b_assessments b" a a' "\<lambda>x. ia_case x = cid \<and> ia_saved x"] Save keys
      by (auto simp: keys_ok_def)
    have "good_case b' x" if "x \<in> set (b_cases b)" for x
      using good [OF that] by (rule good_case_mono)
        (use Save(1) saved in \<open>auto simp: b_open_def b_clean_def moves_of_def\<close>)
    then show ?thesis using Save(1) by simp
  next
    case (Add_action c a n)
    have opens: "b_open b' (c_id x) = b_open b (c_id x)" if "x \<in> set (b_cases b)" "c_status x \<noteq> IMPLEMENTING" for x
    proof -
      have "c_id x \<noteq> c_id c"
        using same [OF that(1) Add_action(2)] that(2) Add_action(3) by auto
      then show ?thesis
        using Add_action(1,4) by (simp add: b_open_def open_action_def)
    qed
    have "good_case b' x" if x: "x \<in> set (b_cases b)" for x
      using good [OF x]
    proof (rule good_case_mono)
      assume "c_status x = SIGNOFF \<or> c_signed_off_by x \<noteq> None"
      then have "c_status x \<noteq> IMPLEMENTING"
        using good [OF x] by (auto simp: good_case_def)
      then show "b_open b' (c_id x) = b_open b (c_id x)" by (rule opens [OF x])
    qed (use Add_action(1) in \<open>auto simp: b_clean_def b_saved_def moves_of_def\<close>)
    then show ?thesis using Add_action(1) by simp
  next
    case (Edit_action c a a')
    have opens: "b_open b' (c_id x) = b_open b (c_id x)" if "c_id x \<noteq> c_id c" for x
      unfolding b_open_def Edit_action(1)
      by (simp, rule count_put_distinct(2) [OF _ Edit_action(4)])
        (use that Edit_action(5,6,7) keys in \<open>auto simp: open_action_def keys_ok_def\<close>)
    have "good_case b' x" if x: "x \<in> set (b_cases b)" for x
      using good [OF x]
    proof (rule good_case_mono)
      assume "c_status x = SIGNOFF \<or> c_signed_off_by x \<noteq> None"
      then have "c_id x \<noteq> c_id c"
        using good [OF x] same [OF x Edit_action(2)] Edit_action(3) by (auto simp: good_case_def)
      then show "b_open b' (c_id x) = b_open b (c_id x)" by (rule opens)
    qed (use Edit_action(1) in \<open>auto simp: b_clean_def b_saved_def moves_of_def\<close>)
    then show ?thesis using Edit_action(1) by simp
  next
    case (Attach c e n)
    have "good_case b' x" if "x \<in> set (b_cases b)" for x
      using good [OF that] by (rule good_case_mono)
        (use Attach(1) in \<open>auto simp: b_open_def b_clean_def b_saved_def moves_of_def\<close>)
    then show ?thesis using Attach(1) by simp
  next
    case (Detach c e e' at)
    have cleans: "b_clean b' (c_id x) = b_clean b (c_id x)" if "c_id x \<noteq> c_id c" for x
      unfolding b_clean_def Detach(1)
      by (simp, rule count_put_distinct(2) [OF _ Detach(4)])
        (use that Detach(5,6) keys in \<open>auto simp: clean_evidence_def keys_ok_def\<close>)
    have "good_case b' x" if x: "x \<in> set (b_cases b)" for x
      using good [OF x]
    proof (rule good_case_mono)
      assume "c_status x = SIGNOFF \<or> c_signed_off_by x \<noteq> None"
      then have "c_id x \<noteq> c_id c"
        using good [OF x] same [OF x Detach(2)] Detach(3) by (auto simp: good_case_def)
      then show "b_clean b (c_id x) \<le> b_clean b' (c_id x)" by (simp add: cleans)
    qed (use Detach(1) in \<open>auto simp: b_open_def b_saved_def moves_of_def\<close>)
    then show ?thesis using Detach(1) by simp
  next
    case (Scan e e' st at)
    have cleans: "b_clean b cid \<le> b_clean b' cid" for cid
      unfolding b_clean_def Scan(1)
      by (simp, rule count_put_distinct(1) [OF _ Scan(2)])
        (use Scan(3,4) keys in \<open>auto simp: clean_evidence_def keys_ok_def\<close>)
    have "good_case b' x" if "x \<in> set (b_cases b)" for x
      using good [OF that] by (rule good_case_mono)
        (use Scan(1) cleans in \<open>auto simp: b_open_def b_saved_def moves_of_def\<close>)
    then show ?thesis using Scan(1) by simp
  next
    case (Elsewhere vs n)
    have "good_case b' x" if "x \<in> set (b_cases b)" for x
      using good [OF that] by (rule good_case_mono)
        (use Elsewhere(1) kind_in_keeps [OF Elsewhere(2)] in \<open>auto simp: b_open_def b_clean_def b_saved_def moves_of_def\<close>)
    then show ?thesis using Elsewhere(1) by simp
  qed
qed

lemma board_step_ok:
  assumes "board_step b b'" and "board_ok b"
  shows "board_ok b'"
proof -
  have "vocab_ok (b_vocab b')"
    using assms by (cases rule: board_step.cases) (auto simp: board_ok_def vocab_keeps_def)
  then show ?thesis
    using assms board_step_keys board_step_zones board_step_good by (simp add: board_ok_def)
qed

lemma board_init_ok: "board_init b \<Longrightarrow> board_ok b"
  by (simp add: board_init_def board_ok_def keys_ok_def zones_ok_def below_def)

interpretation board_sys: invariant_system board_init board_step board_ok
  by unfold_locales (auto intro: board_init_ok board_step_ok)

end
