(* ===== verification/Case_Runs.thy ===== *)
theory Case_Runs
  imports Case_Library Case_Board
begin

text \<open>
  Every handler of the case workflow is a run of the machine of \<^verbatim>\<open>Case_Board\<close>: one lemma per
  handler, from the request that was answered to the steps it took.
\<close>

section \<open>Runs of the machine\<close>

lemma board_next_same: "(board_of d)\<lparr>b_cases := cs, b_next := db_next d\<rparr> = (board_of d)\<lparr>b_cases := cs\<rparr>"
  by (simp add: board_of_def)

text \<open>What happens for one bank leaves the rows of every other bank as they were; \<open>None\<close> is what may
  happen for any of them.\<close>

definition same_elsewhere :: "uuid option \<Rightarrow> board \<Rightarrow> board \<Rightarrow> bool" where
  "same_elsewhere z b b' \<longleftrightarrow> (case z of None \<Rightarrow> True | Some t \<Rightarrow>
     filter (\<lambda>c. c_tenant c \<noteq> t) (b_cases b') = filter (\<lambda>c. c_tenant c \<noteq> t) (b_cases b) \<and>
     filter (\<lambda>r. t_tenant r \<noteq> t) (b_ledger b') = filter (\<lambda>r. t_tenant r \<noteq> t) (b_ledger b) \<and>
     filter (\<lambda>a. a_tenant a \<noteq> t) (b_actions b') = filter (\<lambda>a. a_tenant a \<noteq> t) (b_actions b) \<and>
     filter (\<lambda>e. e_tenant e \<noteq> t) (b_evidence b') = filter (\<lambda>e. e_tenant e \<noteq> t) (b_evidence b) \<and>
     filter (\<lambda>a. ia_tenant a \<noteq> t) (b_assessments b') = filter (\<lambda>a. ia_tenant a \<noteq> t) (b_assessments b))"

definition zone_step :: "uuid option \<Rightarrow> board \<Rightarrow> board \<Rightarrow> bool" where
  "zone_step z b b' \<longleftrightarrow> board_step b b' \<and> same_elsewhere z b b'"

definition runs :: "uuid option \<Rightarrow> db \<Rightarrow> db \<Rightarrow> bool" where
  "runs z d d' \<longleftrightarrow> (board_ok (board_of d) \<longrightarrow> (zone_step z)\<^sup>*\<^sup>* (board_of d) (board_of d'))"

lemma zone_run_board: "(zone_step z)\<^sup>*\<^sup>* b b' \<Longrightarrow> board_step\<^sup>*\<^sup>* b b'"
  by (induction rule: rtranclp_induct) (auto simp: zone_step_def intro: rtranclp.rtrancl_into_rtrancl)

lemma zone_run_elsewhere: "(zone_step z)\<^sup>*\<^sup>* b b' \<Longrightarrow> same_elsewhere z b b'"
  by (induction rule: rtranclp_induct) (auto simp: zone_step_def same_elsewhere_def split: option.splits)

lemma zone_run_ok: "(zone_step z)\<^sup>*\<^sup>* b b' \<Longrightarrow> board_ok b \<Longrightarrow> board_ok b'"
  by (blast intro: board_sys.inv_run zone_run_board)

lemma runs_refl [intro]: "runs z d d"
  by (simp add: runs_def)

lemma runs_trans:
  assumes "runs z d1 d2" and "runs z d2 d3"
  shows "runs z d1 d3"
  using assms zone_run_ok unfolding runs_def by (metis rtranclp_trans)

lemma runs_any: "runs z d d' \<Longrightarrow> runs None d d'"
  unfolding runs_def by (auto elim!: rtranclp_mono [THEN predicate2D, rotated] simp: zone_step_def same_elsewhere_def)

lemma runs_step:
  "(board_ok (board_of d) \<Longrightarrow> board_step (board_of d) (board_of d') \<and> same_elsewhere z (board_of d) (board_of d')) \<Longrightarrow>
    runs z d d'"
  by (auto simp: runs_def zone_step_def)

lemma runs_quiet:
  assumes "board_of d' = (board_of d)\<lparr>b_next := n\<rparr>" and "db_next d \<le> n"
  shows "runs z d d'"
proof (rule runs_step)
  assume "board_ok (board_of d)"
  then have "vocab_keeps (b_vocab (board_of d)) (b_vocab (board_of d))"
    by (simp add: vocab_keeps_def board_ok_def)
  from board_step.Elsewhere [OF this, of n] assms
  show "board_step (board_of d) (board_of d') \<and> same_elsewhere z (board_of d) (board_of d')"
    by (simp add: board_of_def same_elsewhere_def split: option.splits)
qed

lemma runs_record: "runs z d d1 \<Longrightarrow> runs z d (record_event r d1)"
  by (rule runs_trans, assumption, rule runs_quiet [where n = "Suc (Suc (db_next d1))"])
    (simp_all add: board_of_def frame_simps)

lemma runs_notify:
  assumes "notify t k st si cs ac d = Inr (d', rows)"
  shows "runs z d d'"
  using notify_frame [OF assms]
  by (intro runs_quiet [where n = "db_next d'"]) (simp_all add: board_of_def)

text \<open>An UPDATE within a bank.\<close>

lemma filter_put_row:
  assumes "T r' = t" and "\<And>r. r \<in> set rows \<Longrightarrow> key r = key r' \<Longrightarrow> T r = t"
  shows "filter (\<lambda>r. T r \<noteq> t) (put_row key r' rows) = filter (\<lambda>r. T r \<noteq> t) rows"
  using assms by (induction rows) auto

lemma elsewhere_put:
  assumes "distinct (map key rows)" and "r \<in> set rows" and "key r' = key r" and "T r = t" and "T r' = t"
  shows "filter (\<lambda>r. T r \<noteq> t) (put_row key r' rows) = filter (\<lambda>r. T r \<noteq> t) rows"
  using assms distinct_map_eq [of key rows] by (intro filter_put_row) auto

text \<open>A case that stands in the table, moved.\<close>

lemma runs_transition:
  assumes tr: "transition c1 to_status actr who note audit su behalf d = Inr (c2, d')"
    and c: "c \<in> set (db_cases d)" and id: "same_identity c c1" and v: "c_version c1 = c_version c"
    and mv: "mover (board_of d) c c1 to_status who" and tn: "c_tenant c = t"
  shows "runs (Some t) d d'"
proof (rule runs_step)
  assume ok: "board_ok (board_of d)"
  from tr obtain facts where f: "case_facts_of c1 who d = Some facts"
    "check_transition (c_status c1) to_status facts = Inr ()" "case_checks (moved_case c1 to_status d)"
    "c2 = moved_case c1 to_status d" "db_cases d' = put_row c_id c2 (db_cases d)"
    "db_transitions d' = db_transitions d @ [ledger_row c1 to_status who note d]"
    "db_actions d' = db_actions d" "db_evidence d' = db_evidence d"
    "db_assessments d' = db_assessments d" "db_vocab d' = db_vocab d" "db_next d' = db_next d + 3"
    by (rule transition_Inr) blast
  from f(1) obtain kind where k: "kind_in (db_vocab d) (c_close_reason c1) = Some kind"
    "facts = board_facts (board_of d) c1 who kind"
    by (auto simp: case_facts_of_board)
  have "board_step (board_of d) ((board_of d)\<lparr>b_cases := put_row c_id c2 (b_cases (board_of d)),
      b_ledger := b_ledger (board_of d) @ [ledger_row c1 to_status who note d], b_next := db_next d'\<rparr>)"
    using c id v mv f k
    by (intro board_step.Move [of c _ c1 kind to_status who c2 "db_now d"])
      (auto simp: moved_case_def ledger_row_def same_identity_def)
  moreover have "filter (\<lambda>c. c_tenant c \<noteq> t) (put_row c_id c2 (db_cases d)) = filter (\<lambda>c. c_tenant c \<noteq> t) (db_cases d)"
    using ok c id tn f(4) by (intro elsewhere_put) (auto simp: board_ok_def keys_ok_def same_identity_def moved_case_def)
  ultimately show "board_step (board_of d) (board_of d') \<and> same_elsewhere (Some t) (board_of d) (board_of d')"
    using f id tn by (simp add: board_of_def same_elsewhere_def ledger_row_def same_identity_def)
qed

lemma in_cases_after_transition:
  assumes "transition c1 to_status actr who note audit su behalf d = Inr (c2, d')" and "c_id c1 \<in> c_id ` set (db_cases d)"
  shows "c2 \<in> set (db_cases d')" and "c_status c2 = to_status" and "c_id c2 = c_id c1" and "c_tenant c2 = c_tenant c1"
    and "c_change c2 = c_change c1" and "c_version c2 = Suc (c_version c1)"
    and "c_signoff_requested_by c2 = c_signoff_requested_by c1" and "c_signed_off_by c2 = c_signed_off_by c1"
    and "c_close_reason c2 = c_close_reason c1"
  by (rule transition_Inr [OF assms(1)], use assms(2) in \<open>auto simp: in_set_put_row moved_case_def\<close>)+

text \<open>A case that stands in the table, edited where it stands.\<close>

lemma runs_edit_case:
  assumes "board_of d' = (board_of d)\<lparr>b_cases := put_row c_id c' (db_cases d)\<rparr>"
    and "c \<in> set (db_cases d)" and "edit_of c c'" and "case_checks c'" and "c_tenant c = t"
  shows "runs (Some t) d d'"
proof (rule runs_step)
  assume ok: "board_ok (board_of d)"
  let ?f = "\<lambda>x. if c_id x = c_id c' then c' else x"
  have "?f x = x \<or> edit_of x (?f x) \<and> case_checks (?f x)" if "x \<in> set (db_cases d)" for x
    using ok that assms(2,3,4) distinct_map_eq [of c_id "db_cases d" x c]
    by (auto simp: board_ok_def keys_ok_def edit_of_def same_identity_def)
  then have "board_step (board_of d) ((board_of d)\<lparr>b_cases := map ?f (b_cases (board_of d)), b_next := b_next (board_of d)\<rparr>)"
    by (intro board_step.Edit) auto
  moreover have "filter (\<lambda>c. c_tenant c \<noteq> t) (put_row c_id c' (db_cases d)) = filter (\<lambda>c. c_tenant c \<noteq> t) (db_cases d)"
    using ok assms(2,3,5) by (intro elsewhere_put) (auto simp: board_ok_def keys_ok_def edit_of_def same_identity_def)
  ultimately show "board_step (board_of d) (board_of d') \<and> same_elsewhere (Some t) (board_of d) (board_of d')"
    using assms(1) by (simp add: put_row_def board_next_same same_elsewhere_def)
qed

lemma runs_save_case:
  assumes "save_case c' d = Inr d'" and "c \<in> set (db_cases d)" and "edit_of c c'" and "c_tenant c = t"
  shows "runs (Some t) d d'"
  using assms
  by (intro runs_edit_case [where c' = "c'\<lparr>c_updated_at := db_now d\<rparr>" and c = c])
    (auto simp: save_case_Inr board_of_def edit_of_def same_identity_def case_check_defs)

lemma runs_edit_cases:
  assumes "board_of d' = (board_of d)\<lparr>b_cases := map f (db_cases d)\<rparr>"
    and "\<And>c. c \<in> set (db_cases d) \<Longrightarrow> board_ok (board_of d) \<Longrightarrow> good_case (board_of d) c \<Longrightarrow>
      f c = c \<or> (edit_of c (f c) \<and> case_checks (f c) \<and> (z = None \<or> z = Some (c_tenant c)))"
  shows "runs z d d'"
proof (rule runs_step)
  assume ok: "board_ok (board_of d)"
  then have same: "f c = c \<or> (edit_of c (f c) \<and> case_checks (f c) \<and> (z = None \<or> z = Some (c_tenant c)))"
    if "c \<in> set (db_cases d)" for c
    using assms(2) [OF that ok] ok that by (auto simp: board_ok_def)
  have "filter (\<lambda>c. c_tenant c \<noteq> t) (map f cs) = filter (\<lambda>c. c_tenant c \<noteq> t) cs"
    if "z = Some t" "set cs \<subseteq> set (db_cases d)" for t cs
    using that(2)
  proof (induction cs)
    case Nil
    then show ?case by simp
  next
    case (Cons c cs)
    with that(1) same [of c] show ?case by (auto simp: edit_of_def same_identity_def)
  qed
  then have elsewhere: "same_elsewhere z (board_of d) (board_of d')"
    using assms(1) by (auto simp: same_elsewhere_def split: option.splits)
  from same have "\<forall>c\<in>set (b_cases (board_of d)). f c = c \<or> (edit_of c (f c) \<and> case_checks (f c))"
    by auto
  from board_step.Edit [OF this, of "db_next d"] elsewhere
  show "board_step (board_of d) (board_of d') \<and> same_elsewhere z (board_of d) (board_of d')"
    by (simp add: assms(1) board_next_same)
qed

section \<open>Triage, dismissal, restore, close\<close>

lemma runs_triage:
  assumes "triage_change rq ch ver body d = Inr (out, d')"
  shows "runs (Some (rq_tenant rq)) d d'"
proof -
  from assms obtain c own urg team sub au c2 d2 rows where c: "load_case (rq_tenant rq) ch d = Inr c"
    and tr: "transition (triaged_case c urg own team sub (rq_user rq) d) ASSIGNED (rq_actor rq) (Some (rq_user rq)) [] au None [] d = Inr (c2, d2)"
    and nt: "notify (rq_tenant rq) N_ASSIGNED SUBJECT_TYPE (c_id c2) [(m_user own, ''owner'')] (Some (rq_user rq)) d2 = Inr (d', rows)"
    by (auto simp: triage_change_def Let_def ebind_eq_Inr)
  have "runs (Some (rq_tenant rq)) d d2"
    using load_caseD [OF c] by (intro runs_transition [OF tr, of c]) (auto simp: triaged_case_def same_identity_def)
  then show ?thesis
    using runs_notify [OF nt] by (rule runs_trans)
qed

lemma runs_dismiss:
  assumes "dismiss_change rq ch ver key d = Inr (out, d')"
  shows "runs (Some (rq_tenant rq)) d d'"
proof -
  from assms obtain c reason au c2 where c: "load_case (rq_tenant rq) ch d = Inr c"
    and tr: "transition (dismissed_case c reason (rq_user rq) d) DISMISSED (rq_actor rq) (Some (rq_user rq)) [] au None [] d = Inr (c2, d')"
    by (auto simp: dismiss_change_def ebind_eq_Inr)
  show ?thesis
    using load_caseD [OF c] by (intro runs_transition [OF tr, of c]) (auto simp: dismissed_case_def same_identity_def)
qed

lemma runs_restore:
  assumes "restore_change rq ch ver d = Inr (out, d')"
  shows "runs (Some (rq_tenant rq)) d d'"
proof -
  from assms obtain c c1 d1 where c: "load_case (rq_tenant rq) ch d = Inr c"
    and tr: "transition c NEW (rq_actor rq) (Some (rq_user rq)) [] [] None [] d = Inr (c1, d1)"
    and sv: "save_case (restored_case c1) d1 = Inr d'"
    by (auto simp: restore_change_def Let_def ebind_eq_Inr)
  have "c_id c \<in> c_id ` set (db_cases d)"
    using load_caseD [OF c] by simp
  note after = in_cases_after_transition [OF tr this]
  have "runs (Some (rq_tenant rq)) d d1"
    using load_caseD [OF c] by (intro runs_transition [OF tr, of c]) (auto simp: same_identity_def)
  moreover have "runs (Some (rq_tenant rq)) d1 d'"
    using after load_caseD [OF c] by (intro runs_save_case [OF sv]) (auto simp: edit_of_def same_identity_def restored_case_def)
  ultimately show ?thesis by (rule runs_trans)
qed

lemma runs_close:
  assumes "close_without_action rq ch ver key note d = Inr (out, d')"
  shows "runs (Some (rq_tenant rq)) d d'"
proof -
  from assms obtain c reason au c2 where c: "load_case (rq_tenant rq) ch d = Inr c"
    and st: "c_status c \<in> set ONE_PERSON_CLOSE_FROM"
    and tr: "transition (closed_case c reason note d) CLOSED (rq_actor rq) (Some (rq_user rq)) note au None [] d = Inr (c2, d')"
    by (auto simp: close_without_action_def ebind_eq_Inr ensure_eq_Inr)
  show ?thesis
    using load_caseD [OF c] st
    by (intro runs_transition [OF tr, of c]) (auto simp: closed_case_def same_identity_def ONE_PERSON_CLOSE_FROM_def)
qed

lemma runs_get_or_create:
  assumes "c \<in> set (db_cases d)" and "c_tenant c = t"
  shows "runs (Some t) d (get_or_create_assessment c d)"
proof (cases "\<exists>a\<in>set (db_assessments d). ia_case a = c_id c")
  case True
  then show ?thesis by (auto simp: get_or_create_assessment_def)
next
  case False
  then show ?thesis
    using board_step.Assess [of c "board_of d" _ "Suc (db_next d)"] assms
    by (intro runs_step) (auto simp: get_or_create_assessment_def board_of_def same_elsewhere_def)
qed

lemma runs_start_assessment:
  assumes "start_assessment rq ch ver d = Inr (out, d')"
  shows "runs (Some (rq_tenant rq)) d d'"
proof -
  from assms obtain c c1 d1 where c: "load_case (rq_tenant rq) ch d = Inr c"
    and tr: "transition (c\<lparr>c_sub_status := None\<rparr>) ASSESSING (rq_actor rq) (Some (rq_user rq)) [] [] None [] d = Inr (c1, d1)"
    and d': "d' = get_or_create_assessment c1 d1"
    by (auto simp: start_assessment_def Let_def ebind_eq_Inr)
  have "c_id (c\<lparr>c_sub_status := None\<rparr>) \<in> c_id ` set (db_cases d)"
    using load_caseD [OF c] by simp
  note after = in_cases_after_transition [OF tr this]
  have "runs (Some (rq_tenant rq)) d d1"
    using load_caseD [OF c] by (intro runs_transition [OF tr, of c]) (auto simp: same_identity_def)
  then show ?thesis
    unfolding d' using after load_caseD [OF c] by (elim runs_trans) (intro runs_get_or_create, auto)
qed

section \<open>Assessment, actions, sign-off\<close>

lemma find_assessment: "find (\<lambda>a. ia_case a = cid) as = Some a \<Longrightarrow> a \<in> set as \<and> ia_case a = cid"
  by (auto dest: find_Some_in)

lemma runs_save_row:
  assumes "save_assessment_row a' d = Inr d'" and "a \<in> set (db_assessments d)"
    and "ia_id a' = ia_id a" "ia_case a' = ia_case a" "ia_tenant a' = ia_tenant a" "ia_saved a'" and "ia_tenant a = t"
  shows "runs (Some t) d d'"
proof (rule runs_step)
  assume "board_ok (board_of d)"
  then have "filter (\<lambda>a. ia_tenant a \<noteq> t) (put_row ia_id a' (db_assessments d)) = filter (\<lambda>a. ia_tenant a \<noteq> t) (db_assessments d)"
    using assms by (intro elsewhere_put [where r = a]) (auto simp: board_ok_def keys_ok_def)
  then show "board_step (board_of d) (board_of d') \<and> same_elsewhere (Some t) (board_of d) (board_of d')"
    using assms board_step.Save [of a "board_of d" a']
    by (auto simp: save_assessment_row_Inr board_of_def same_elsewhere_def)
qed

text \<open>A child row stands in the zone of the case it names.\<close>

lemma zone_tenant:
  assumes "board_ok (board_of d)" and "c \<in> set (db_cases d)" and "zone_of (db_cases d) (c_id c) t"
  shows "c_tenant c = t"
  using assms distinct_map_eq [of c_id "db_cases d"] by (auto simp: board_ok_def keys_ok_def zone_of_def)

lemma runs_ok: "(board_ok (board_of d) \<Longrightarrow> runs z d d') \<Longrightarrow> runs z d d'"
  by (auto simp: runs_def)

lemma save_row_cases: "save_assessment_row a d = Inr d' \<Longrightarrow> db_cases d' = db_cases d"
  by (auto simp: save_assessment_row_Inr)

lemma save_assessment_Inr:
  assumes "save_assessment rq ch ver body may d = Inr (out, d')" and c: "load_case (rq_tenant rq) ch d = Inr c"
  obtains effort sub a d1 c3 d3 reason where "c_status c \<in> set SAVABLE" "ver = Some (c_version c)"
    "ab_applies body = NO \<longrightarrow> may"
    "find (\<lambda>a. ia_case a = c_id c) (db_assessments d) = Some a"
    "save_assessment_row (saved_assessment a body effort (rq_user rq) d) d = Inr d1"
    "if ab_applies body = NO
     then transition (c\<lparr>c_sub_status := map_option v_id sub, c_close_reason := map_option v_id reason,
            c_closed_at := Some (db_now d1)\<rparr>) CLOSED (rq_actor rq) (Some (rq_user rq)) [] [] None [] d1 = Inr (c3, d3)
     else save_case (c\<lparr>c_sub_status := map_option v_id sub, c_version := Suc (c_version c)\<rparr>) d1 = Inr d3 \<and>
       c3 = c\<lparr>c_sub_status := map_option v_id sub, c_version := Suc (c_version c), c_updated_at := db_now d1\<rparr>"
    "d' = record_event (saved_entry rq c3 body effort sub reason d3) d3"
    "case_response_of c3 (Some (rq_user rq)) d' = Inr out"
proof (cases "ab_applies body = NO")
  case True
  from assms show ?thesis
    by (auto simp: save_assessment_def Let_def True ebind_eq_Inr ensure_eq_Inr or_else_eq_Inr check_version_Inr intro!: that)
next
  case False
  from assms show ?thesis
    by (auto simp: save_assessment_def Let_def False ebind_eq_Inr ensure_eq_Inr or_else_eq_Inr check_version_Inr intro!: that)
qed

lemma runs_save_assessment:
  assumes "save_assessment rq ch ver body may d = Inr (out, d')"
  shows "runs (Some (rq_tenant rq)) d d'"
proof (rule runs_ok)
  assume ok: "board_ok (board_of d)"
  from assms obtain c where c: "load_case (rq_tenant rq) ch d = Inr c"
    by (auto simp: save_assessment_def ebind_eq_Inr)
  from save_assessment_Inr [OF assms c] obtain effort sub a d1 c3 d3 reason where st: "c_status c \<in> set SAVABLE"
    and a: "find (\<lambda>a. ia_case a = c_id c) (db_assessments d) = Some a"
    and sv: "save_assessment_row (saved_assessment a body effort (rq_user rq) d) d = Inr d1"
    and mv: "if ab_applies body = NO
     then transition (c\<lparr>c_sub_status := map_option v_id sub, c_close_reason := map_option v_id reason,
            c_closed_at := Some (db_now d1)\<rparr>) CLOSED (rq_actor rq) (Some (rq_user rq)) [] [] None [] d1 = Inr (c3, d3)
     else save_case (c\<lparr>c_sub_status := map_option v_id sub, c_version := Suc (c_version c)\<rparr>) d1 = Inr d3 \<and>
       c3 = c\<lparr>c_sub_status := map_option v_id sub, c_version := Suc (c_version c), c_updated_at := db_now d1\<rparr>"
    and d': "d' = record_event (saved_entry rq c3 body effort sub reason d3) d3"
    by metis
  have "zone_of (db_cases d) (c_id c) (ia_tenant a)"
    using ok find_assessment [OF a] by (auto simp: board_ok_def zones_ok_alt)
  then have tn: "ia_tenant a = rq_tenant rq"
    using zone_tenant [OF ok] load_caseD [OF c] by auto
  have r1: "runs (Some (rq_tenant rq)) d d1"
    using find_assessment [OF a] tn by (intro runs_save_row [OF sv]) (auto simp: saved_assessment_def)
  have in1: "c \<in> set (db_cases d1)"
    using load_caseD [OF c] save_row_cases [OF sv] by simp
  have "runs (Some (rq_tenant rq)) d1 d3"
  proof (cases "ab_applies body = NO")
    case True
    with mv have "transition (c\<lparr>c_sub_status := map_option v_id sub, c_close_reason := map_option v_id reason,
        c_closed_at := Some (db_now d1)\<rparr>) CLOSED (rq_actor rq) (Some (rq_user rq)) [] [] None [] d1 = Inr (c3, d3)" by simp
    from runs_transition [OF this in1] show ?thesis
      using st load_caseD [OF c] by (auto simp: same_identity_def SAVABLE_def)
  next
    case False
    with mv have "save_case (c\<lparr>c_sub_status := map_option v_id sub, c_version := Suc (c_version c)\<rparr>) d1 = Inr d3" by simp
    from runs_save_case [OF this in1] show ?thesis
      using load_caseD [OF c] by (auto simp: edit_of_def same_identity_def)
  qed
  with r1 have "runs (Some (rq_tenant rq)) d d3" by (rule runs_trans)
  then show "runs (Some (rq_tenant rq)) d d'" unfolding d' by (rule runs_record)
qed

lemma runs_record_action: "runs z d d1 \<Longrightarrow> runs z d (record_action act a c ac bf sm d1)"
  by (simp add: record_action_def runs_record)

lemma runs_create_action:
  assumes "create_action a d = Inr d'" and "a_id a = db_next d"
    and "c \<in> set (db_cases d)" "c_status c = IMPLEMENTING" "a_case a = c_id c" "a_tenant a = c_tenant c"
    and "c_tenant c = t"
  shows "runs (Some t) d d'"
  using assms board_step.Add_action [of c "board_of d" a "Suc (db_next d)"]
  by (intro runs_step) (auto simp: create_action_Inr board_of_def same_elsewhere_def)

lemma add_action_Inr:
  assumes "add_action mx rq ch ver body d = Inr (a, d')" and c: "load_case (rq_tenant rq) ch d = Inr c"
  obtains c1 d1 d2 sm where "c_status c = ASSESSING \<or> c_status c = IMPLEMENTING" "ver = Some (c_version c)"
    "if c_status c = ASSESSING
     then transition c IMPLEMENTING (rq_actor rq) (Some (rq_user rq)) [] [] None [] d = Inr (c1, d1)
     else c1 = c \<and> d1 = d"
    "a_id a = db_next d1" "a_tenant a = rq_tenant rq" "a_case a = c_id c1" "a_done_at a = None" "a_removed_at a = None"
    "create_action a d1 = Inr d2" "d' = record_action ADDED a c1 (rq_actor rq) [] sm d2"
proof (cases "c_status c = ASSESSING")
  case True
  from assms show ?thesis
    by (auto simp: add_action_def Let_def True ebind_eq_Inr check_open_to_work_Inr check_version_Inr intro!: that)
next
  case False
  from assms show ?thesis
    by (auto simp: add_action_def Let_def False ebind_eq_Inr check_open_to_work_Inr check_version_Inr intro!: that)
qed

lemma runs_add_action:
  assumes "add_action mx rq ch ver body d = Inr (a, d')"
  shows "runs (Some (rq_tenant rq)) d d'"
proof -
  from assms obtain c where c: "load_case (rq_tenant rq) ch d = Inr c"
    by (auto simp: add_action_def ebind_eq_Inr)
  from add_action_Inr [OF assms c] obtain c1 d1 d2 sm where st: "c_status c = ASSESSING \<or> c_status c = IMPLEMENTING"
    and mv: "if c_status c = ASSESSING
     then transition c IMPLEMENTING (rq_actor rq) (Some (rq_user rq)) [] [] None [] d = Inr (c1, d1)
     else c1 = c \<and> d1 = d"
    and a: "a_id a = db_next d1" "a_tenant a = rq_tenant rq" "a_case a = c_id c1"
    and cr: "create_action a d1 = Inr d2" and d': "d' = record_action ADDED a c1 (rq_actor rq) [] sm d2"
    by metis
  have cin: "c \<in> set (db_cases d)" "c_tenant c = rq_tenant rq"
    using load_caseD [OF c] by auto
  have "runs (Some (rq_tenant rq)) d d1 \<and> c1 \<in> set (db_cases d1) \<and> c_status c1 = IMPLEMENTING \<and> c_tenant c1 = rq_tenant rq"
  proof (cases "c_status c = ASSESSING")
    case True
    with mv have tr: "transition c IMPLEMENTING (rq_actor rq) (Some (rq_user rq)) [] [] None [] d = Inr (c1, d1)" by simp
    have "runs (Some (rq_tenant rq)) d d1"
      using cin True by (intro runs_transition [OF tr, of c]) (auto simp: same_identity_def)
    moreover have "c_id c \<in> c_id ` set (db_cases d)" using cin by simp
    ultimately show ?thesis
      using in_cases_after_transition [OF tr] cin by simp
  next
    case False
    with mv st cin show ?thesis by auto
  qed
  then have "runs (Some (rq_tenant rq)) d d1" "runs (Some (rq_tenant rq)) d1 d2"
    using runs_create_action [OF cr a(1), of c1] a by auto
  then show ?thesis
    unfolding d' by (intro runs_record_action) (rule runs_trans)
qed

text \<open>The live action of \<^verbatim>\<open>_locked_action\<close> is one of the case that was locked.\<close>

lemma locked_actionD:
  assumes "locked_action t i ver d = Inr (c, a)" and ok: "board_ok (board_of d)"
  shows "c \<in> set (db_cases d) \<and> a \<in> set (db_actions d) \<and> a_id a = i \<and> a_case a = c_id c \<and> c_tenant c = t \<and> a_tenant a = t \<and>
    c_status c \<in> {ASSESSING, IMPLEMENTING} \<and> a_removed_at a = None \<and> ver = Some (a_version a)"
proof -
  from assms(1) obtain a0 jc where a0: "load_action t i d = Inr a0" and jc: "joined_case (a_case a0) d = Inr jc"
    and c: "load_case t (c_change jc) d = Inr c"
    and a: "find (\<lambda>x. a_id x = a_id a0 \<and> a_removed_at x = None) (db_actions d) = Some a"
    and st: "c_status c \<in> {ASSESSING, IMPLEMENTING}" and ver: "ver = Some (a_version a)"
    by (auto simp: locked_action_def ebind_eq_Inr or_else_eq_Inr check_open_to_work_Inr split: if_splits)
  have keys: "distinct (map c_id (db_cases d))" "distinct (map a_id (db_actions d))"
    "distinct (map (\<lambda>c. (c_tenant c, c_change c)) (db_cases d))"
    using ok by (auto simp: board_ok_def keys_ok_def)
  have a0in: "a0 \<in> set (db_actions d)" "a_tenant a0 = t" "a_id a0 = i"
    using a0 by (auto simp: load_action_def or_else_eq_Inr dest: find_Some_in)
  have ain: "a \<in> set (db_actions d)" "a_id a = a_id a0" "a_removed_at a = None"
    using find_Some_in [OF a] by auto
  have eq: "a = a0"
    using distinct_map_eq [OF keys(2) ain(1) a0in(1) ain(2)] .
  have jcin: "jc \<in> set (db_cases d)" "c_id jc = a_case a0"
    using jc by (auto simp: joined_case_def or_else_eq_Inr dest: find_Some_in)
  have "zone_of (db_cases d) (a_case a0) t"
    using ok a0in by (auto simp: board_ok_def zones_ok_alt)
  then obtain c0 where "c0 \<in> set (db_cases d)" "c_id c0 = a_case a0" "c_tenant c0 = t"
    by (auto simp: zone_of_def)
  with jcin have "c_tenant jc = t"
    using distinct_map_eq [OF keys(1), of c0 jc] by simp
  moreover have cin: "c \<in> set (db_cases d)" "c_tenant c = t" "c_change c = c_change jc"
    using load_caseD [OF c] by auto
  ultimately have "c = jc"
    using distinct_map_eq [OF keys(3), of c jc] jcin by simp
  with jcin eq ain a0in cin st ver show ?thesis by auto
qed

lemma runs_save_action:
  assumes "save_action a' d = Inr d'" and "c \<in> set (db_cases d)" "c_status c \<in> {ASSESSING, IMPLEMENTING}"
    and "a \<in> set (db_actions d)" "a_case a = c_id c" "a_id a' = a_id a" "a_case a' = a_case a" "a_tenant a' = a_tenant a"
    and "a_tenant a = t"
  shows "runs (Some t) d d'"
proof (rule runs_step)
  assume "board_ok (board_of d)"
  then have "filter (\<lambda>a. a_tenant a \<noteq> t) (put_row a_id a' (db_actions d)) = filter (\<lambda>a. a_tenant a \<noteq> t) (db_actions d)"
    using assms by (intro elsewhere_put [where r = a]) (auto simp: board_ok_def keys_ok_def)
  then show "board_step (board_of d) (board_of d') \<and> same_elsewhere (Some t) (board_of d) (board_of d')"
    using assms board_step.Edit_action [of c "board_of d" a a']
    by (auto simp: save_action_Inr board_of_def same_elsewhere_def)
qed

lemma patched_action_keeps [simp]:
  "a_id (patched_action a body own u d) = a_id a" "a_case (patched_action a body own u d) = a_case a"
  "a_tenant (patched_action a body own u d) = a_tenant a"
  by (simp_all add: patched_action_def Let_def split: option.splits)

lemma runs_update_action:
  assumes "update_action rq i ver body d = Inr (out, d')"
  shows "runs (Some (rq_tenant rq)) d d'"
proof (rule runs_ok)
  assume ok: "board_ok (board_of d)"
  from assms obtain c a own d1 sm where l: "locked_action (rq_tenant rq) i ver d = Inr (c, a)"
    and sv: "save_action (patched_action a body own (rq_user rq) d) d = Inr d1"
    and d': "d' = record_action CHANGED (patched_action a body own (rq_user rq) d) c (rq_actor rq) (action_values a) sm d1"
    by (auto simp: update_action_def Let_def ebind_eq_Inr)
  show "runs (Some (rq_tenant rq)) d d'"
    unfolding d' using locked_actionD [OF l ok]
    by (intro runs_record_action runs_save_action [OF sv, of c a]) auto
qed

lemma runs_delete_action:
  assumes "delete_action rq i ver d = Inr d'"
  shows "runs (Some (rq_tenant rq)) d d'"
proof (rule runs_ok)
  assume ok: "board_ok (board_of d)"
  from assms obtain c a a' d1 sm where l: "locked_action (rq_tenant rq) i ver d = Inr (c, a)"
    and a': "a' = a\<lparr>a_removed_at := Some (db_now d), a_removed_by := Some (rq_user rq), a_version := Suc (a_version a)\<rparr>"
    and sv: "save_action a' d = Inr d1"
    and d': "d' = record_action REMOVED a' c (rq_actor rq) (action_values a) sm d1"
    by (auto simp: delete_action_def Let_def ebind_eq_Inr)
  show "runs (Some (rq_tenant rq)) d d'"
    unfolding d' using locked_actionD [OF l ok] a'
    by (intro runs_record_action runs_save_action [OF sv, of c a]) auto
qed

lemma runs_request_signoff:
  assumes "request_signoff rq ch ver d = Inr (out, d')"
  shows "runs (Some (rq_tenant rq)) d d'"
proof -
  from assms obtain c c1 c2 d2 rows where c: "load_case (rq_tenant rq) ch d = Inr c"
    and c1: "c1 = c\<lparr>c_signoff_requested_by := Some (rq_user rq), c_signoff_requested_at := Some (db_now d)\<rparr>"
    and tr: "transition c1 SIGNOFF (rq_actor rq) (Some (rq_user rq)) [] [] None [] d = Inr (c2, d2)"
    and nt: "notify (c_tenant c2) SIGNOFF_REQUESTED SUBJECT_TYPE (c_id c2) (approvers c2 (rq_user rq) d2)
             (Some (rq_user rq)) d2 = Inr (d', rows)"
    by (auto simp: request_signoff_def Let_def ebind_eq_Inr map_err_eq_Inr)
  have "runs (Some (rq_tenant rq)) d d2"
    using load_caseD [OF c] c1 by (intro runs_transition [OF tr, of c]) (auto simp: same_identity_def)
  then show ?thesis
    using runs_notify [OF nt] by (rule runs_trans)
qed

lemma signed_off_reason_kind:
  assumes "signed_off_reason t d = Inr v" and "board_ok (board_of d)"
  shows "kind_in (db_vocab d) (Some (v_id v)) = Some (Some SIGNED_OFF)"
  using assms by (auto simp: signed_off_reason_def or_else_eq_Inr board_ok_def vocab_ok_def dest!: find_Some_in)

lemma runs_approve_signoff:
  assumes "approve_signoff rq ch ver note su d = Inr (out, d')"
  shows "runs (Some (rq_tenant rq)) d d'"
proof (rule runs_ok)
  assume ok: "board_ok (board_of d)"
  from assms obtain c reason c1 behalf c2 where c: "load_case (rq_tenant rq) ch d = Inr c"
    and st: "c_status c = SIGNOFF" and r: "signed_off_reason (rq_tenant rq) d = Inr reason"
    and c1: "c1 = c\<lparr>c_signed_off_by := Some (rq_user rq), c_close_reason := Some (v_id reason),
               c_closed_note := note, c_closed_at := Some (db_now d)\<rparr>"
    and tr: "transition c1 CLOSED (rq_actor rq) (Some (rq_user rq)) note [] (Some su) behalf d = Inr (c2, d')"
    by (auto simp: approve_signoff_def Let_def ebind_eq_Inr ensure_eq_Inr)
  show "runs (Some (rq_tenant rq)) d d'"
    using load_caseD [OF c] st c1 signed_off_reason_kind [OF r ok]
    by (intro runs_transition [OF tr, of c]) (auto simp: same_identity_def)
qed

lemma runs_send_back:
  assumes "send_back_signoff rq ch ver note d = Inr (out, d')"
  shows "runs (Some (rq_tenant rq)) d d'"
proof -
  from assms obtain c c1 c2 where c: "load_case (rq_tenant rq) ch d = Inr c"
    and c1: "c1 = c\<lparr>c_signoff_requested_by := None, c_signoff_requested_at := None\<rparr>"
    and tr: "transition c1 IMPLEMENTING (rq_actor rq) (Some (rq_user rq)) note [] None [] d = Inr (c2, d')"
    by (auto simp: send_back_signoff_def Let_def ebind_eq_Inr)
  show ?thesis
    using load_caseD [OF c] c1 by (intro runs_transition [OF tr, of c]) (auto simp: same_identity_def)
qed

section \<open>Evidence and the library\<close>

lemma board_of_storage [simp]: "board_of (storage_write k v d) = board_of d" "board_of (storage_delete k d) = board_of d"
  by (simp_all add: storage_write_def storage_delete_def board_of_def)

lemma store_file_Inr:
  assumes "store_file es e f d = Inr (e', d')"
  shows "e_id e' = e_id e \<and> e_case e' = e_case e \<and> e_tenant e' = e_tenant e \<and> e_scan_state e' = e_scan_state e \<and>
    e_removed_at e' = e_removed_at e \<and> e_storage_key e' = storage_key_for e (db_next d) \<and>
    e_kind e' = e_kind e \<and> e_content_hash e' = ''sha256:'' @ es_sha256_hex es (up_content f) \<and>
    d' = storage_write (e_storage_key e') (up_content f) (d\<lparr>db_next := Suc (db_next d)\<rparr>)"
  using assms by (auto simp: store_file_def Let_def ebind_eq_Inr)

lemma runs_create_evidence:
  assumes "create_evidence e d1 = Inr d2" and "e_id e = db_next d" and "db_next d < db_next d1"
    and "board_of d1 = (board_of d)\<lparr>b_next := db_next d1\<rparr>"
    and "c \<in> set (db_cases d)" "c_status c \<notin> {CLOSED, DISMISSED, SIGNOFF}" "e_case e = c_id c" "e_tenant e = c_tenant c"
    and "c_tenant c = t"
  shows "runs (Some t) d d2"
proof (rule runs_step)
  have "board_step (board_of d) ((board_of d)\<lparr>b_evidence := b_evidence (board_of d) @ [e], b_next := db_next d1\<rparr>)"
    using assms by (intro board_step.Attach [of c]) auto
  moreover have "db_evidence d1 = db_evidence d"
    using arg_cong [OF assms(4), of b_evidence] by simp
  ultimately show "board_step (board_of d) (board_of d2) \<and> same_elsewhere (Some t) (board_of d) (board_of d2)"
    using assms(1,4,8,9) by (auto simp: create_evidence_Inr board_of_def same_elsewhere_def)
qed

lemma runs_same_board: "board_of d' = board_of d \<Longrightarrow> runs z d d'"
  by (auto simp: runs_def)

lemma add_evidence_Inr:
  assumes "add_evidence es rq ch form upl d = Inr (e, d')" and c: "load_case (rq_tenant rq) ch d = Inr c"
  obtains d1 d2 r where "c_status c \<notin> {CLOSED, DISMISSED, SIGNOFF}" "(ef_kind form = FILE) = (upl \<noteq> None)"
    "check_address es form = Inr ()"
    "(case upl of
        None \<Rightarrow> Inr (new_evidence rq c form (db_next d) d\<lparr>e_url := ef_url form, e_scan_state := CLEAN,
            e_scanned_at := Some (db_now d)\<rparr>, d\<lparr>db_next := Suc (db_next d)\<rparr>)
      | Some f \<Rightarrow> store_file es (new_evidence rq c form (db_next d) d) f (d\<lparr>db_next := Suc (db_next d)\<rparr>)) = Inr (e, d1)"
    "create_evidence e d1 = Inr d2"
    "d' = (if upl = None then record_event r d2
           else (record_event r d2)\<lparr>db_scan_queue := db_scan_queue (record_event r d2) @ [(rq_tenant rq, e_id e)]\<rparr>)"
proof (cases upl)
  case None
  from assms show ?thesis
    by (auto simp: add_evidence_def Let_def None ebind_eq_Inr refuse_when_closed_Inr ensure_eq_Inr intro!: that)
next
  case (Some f)
  from assms show ?thesis
    by (auto simp: add_evidence_def Let_def Some ebind_eq_Inr refuse_when_closed_Inr ensure_eq_Inr intro!: that)
qed

lemma runs_add_evidence:
  assumes "add_evidence es rq ch form upl d = Inr (e, d')"
  shows "runs (Some (rq_tenant rq)) d d'"
proof -
  let ?d0 = "d\<lparr>db_next := Suc (db_next d)\<rparr>"
  from assms obtain c where c: "load_case (rq_tenant rq) ch d = Inr c"
    by (auto simp: add_evidence_def ebind_eq_Inr)
  from add_evidence_Inr [OF assms c] obtain d1 d2 r where st: "c_status c \<notin> {CLOSED, DISMISSED, SIGNOFF}"
    and sf: "(case upl of
        None \<Rightarrow> Inr (new_evidence rq c form (db_next d) d\<lparr>e_url := ef_url form, e_scan_state := CLEAN,
            e_scanned_at := Some (db_now d)\<rparr>, ?d0)
      | Some f \<Rightarrow> store_file es (new_evidence rq c form (db_next d) d) f ?d0) = Inr (e, d1)"
    and cr: "create_evidence e d1 = Inr d2"
    and d': "d' = (if upl = None then record_event r d2
           else (record_event r d2)\<lparr>db_scan_queue := db_scan_queue (record_event r d2) @ [(rq_tenant rq, e_id e)]\<rparr>)"
    by metis
  have "e_id e = db_next d \<and> e_case e = c_id c \<and> e_tenant e = rq_tenant rq \<and> db_next d < db_next d1 \<and>
    board_of d1 = (board_of d)\<lparr>b_next := db_next d1\<rparr>"
  proof (cases upl)
    case None
    with sf show ?thesis by (auto simp: new_evidence_def board_of_def)
  next
    case (Some f)
    with sf have "store_file es (new_evidence rq c form (db_next d) d) f ?d0 = Inr (e, d1)" by simp
    from store_file_Inr [OF this] show ?thesis
      by (auto simp: new_evidence_def board_of_def storage_write_def)
  qed
  then have "runs (Some (rq_tenant rq)) d d2"
    using load_caseD [OF c] st by (intro runs_create_evidence [OF cr, of d c]) auto
  then have "runs (Some (rq_tenant rq)) d (record_event r d2)" by (rule runs_record)
  moreover have "runs (Some (rq_tenant rq)) (record_event r d2) d'"
    unfolding d' by (rule runs_same_board) (simp add: board_of_def)
  ultimately show ?thesis by (rule runs_trans)
qed

lemma loaded_evidence_case:
  assumes ok: "board_ok (board_of d)" and e: "load_evidence t i d = Inr e" and jc: "joined_case (e_case e) d = Inr jc"
    and c: "load_case t (c_change jc) d = Inr c"
  shows "c \<in> set (db_cases d) \<and> c_id c = e_case e \<and> c_tenant c = t \<and> e \<in> set (db_evidence d) \<and> e_tenant e = t \<and> e_id e = i \<and>
    e_removed_at e = None"
proof -
  have keys: "distinct (map c_id (db_cases d))" "distinct (map (\<lambda>c. (c_tenant c, c_change c)) (db_cases d))"
    using ok by (auto simp: board_ok_def keys_ok_def)
  have ein: "e \<in> set (db_evidence d)" "e_tenant e = t" "e_id e = i" "e_removed_at e = None"
    using e by (auto simp: load_evidence_def or_else_eq_Inr dest: find_Some_in)
  have jcin: "jc \<in> set (db_cases d)" "c_id jc = e_case e"
    using jc by (auto simp: joined_case_def or_else_eq_Inr dest: find_Some_in)
  have "zone_of (db_cases d) (e_case e) t"
    using ok ein by (auto simp: board_ok_def zones_ok_alt)
  then obtain c0 where "c0 \<in> set (db_cases d)" "c_id c0 = e_case e" "c_tenant c0 = t"
    by (auto simp: zone_of_def)
  with jcin have "c_tenant jc = t"
    using distinct_map_eq [OF keys(1), of c0 jc] by simp
  moreover have cin: "c \<in> set (db_cases d)" "c_tenant c = t" "c_change c = c_change jc"
    using load_caseD [OF c] by auto
  ultimately have "c = jc"
    using distinct_map_eq [OF keys(2), of c jc] jcin by simp
  with jcin ein cin show ?thesis by auto
qed

lemma runs_remove_evidence:
  assumes "remove_evidence rq i d = Inr d'"
  shows "runs (Some (rq_tenant rq)) d d'"
proof (rule runs_ok)
  assume ok: "board_ok (board_of d)"
  from assms obtain e jc c where e: "load_evidence (rq_tenant rq) i d = Inr e"
    and jc: "joined_case (e_case e) d = Inr jc" and c: "load_case (rq_tenant rq) (c_change jc) d = Inr c"
    by (auto simp: remove_evidence_def ebind_eq_Inr)
  with assms obtain d1 where st: "c_status c \<notin> {CLOSED, DISMISSED, SIGNOFF}"
    and sv: "save_evidence (e\<lparr>e_removed_at := Some (db_now d)\<rparr>) d = Inr d1" and d': "runs (Some (rq_tenant rq)) d1 d'"
    by (auto simp: remove_evidence_def Let_def ebind_eq_Inr refuse_when_closed_Inr intro: runs_record)
  note ev = loaded_evidence_case [OF ok e jc c]
  have "filter (\<lambda>e. e_tenant e \<noteq> rq_tenant rq) (put_row e_id (e\<lparr>e_removed_at := Some (db_now d)\<rparr>) (db_evidence d)) =
      filter (\<lambda>e. e_tenant e \<noteq> rq_tenant rq) (db_evidence d)"
    using ok ev by (intro elsewhere_put [where r = e]) (auto simp: board_ok_def keys_ok_def)
  then have "runs (Some (rq_tenant rq)) d d1"
    using ev st sv
      board_step.Detach [where c = c and b = "board_of d" and e = e and e' = "e\<lparr>e_removed_at := Some (db_now d)\<rparr>"
        and at = "Some (db_now d)"]
    by (intro runs_step) (auto simp: save_evidence_Inr board_of_def same_elsewhere_def)
  then show "runs (Some (rq_tenant rq)) d d'" using d' by (rule runs_trans)
qed

lemma runs_decide_scan:
  assumes "decide_scan t i result d = Inr d'"
  shows "runs (Some t) d d'"
proof (cases "pending_evidence t i d")
  case None
  with assms show ?thesis by (auto simp: decide_scan_def)
next
  case (Some e)
  let ?e = "e\<lparr>e_scan_state := sr_state result, e_scanned_at := Some (sr_scanned_at result)\<rparr>"
  have q: "runs z x (storage_delete k (record_event r x))" for z x k r
    by (rule runs_trans [OF runs_record [OF runs_refl]]) (rule runs_same_board, simp)
  from assms Some obtain d1 where sv: "save_evidence ?e d = Inr d1" and d': "runs (Some t) d1 d'"
    by (auto simp: decide_scan_def Let_def ebind_eq_Inr intro: runs_record q split: if_splits)
  have e: "e \<in> set (db_evidence d)" "e_scan_state e = PENDING" "e_tenant e = t"
    using Some by (auto simp: pending_evidence_def dest: find_Some_in)
  have "runs (Some t) d d1"
  proof (rule runs_step)
    assume "board_ok (board_of d)"
    then have "filter (\<lambda>e. e_tenant e \<noteq> t) (put_row e_id ?e (db_evidence d)) = filter (\<lambda>e. e_tenant e \<noteq> t) (db_evidence d)"
      using e by (intro elsewhere_put [where r = e]) (auto simp: board_ok_def keys_ok_def)
    then show "board_step (board_of d) (board_of d1) \<and> same_elsewhere (Some t) (board_of d) (board_of d1)"
      using e sv board_step.Scan [where e = e and b = "board_of d" and e' = ?e and st = "sr_state result"
          and at = "Some (sr_scanned_at result)"]
      by (auto simp: save_evidence_Inr board_of_def same_elsewhere_def)
  qed
  then show ?thesis using d' by (rule runs_trans)
qed

lemma runs_scan_evidence:
  assumes "scan_evidence es scanner t i d = Inr d'"
  shows "runs (Some t) d d'"
  using assms by (auto simp: scan_evidence_def ebind_eq_Inr intro: runs_decide_scan split: option.splits)

lemma runs_download:
  assumes "download_evidence es rq i d = Inr (out, d')"
  shows "runs (Some (rq_tenant rq)) d d'"
  using assms by (auto simp: download_evidence_def Let_def ebind_eq_Inr intro: runs_record)

text \<open>The library's handlers.\<close>

lemma runs_create_case: "runs (Some (tn_id t)) d (create_case t f restr d)"
proof (cases "insert_case (fresh_case t f (outside_reasons (cf_scope f) (footprint_of (db_taxonomy d) (tn_id t)) restr = []) d) d")
  case (Inl e)
  then show ?thesis by (auto simp: create_case_def Let_def)
next
  case (Inr d1)
  let ?c = "fresh_case t f (outside_reasons (cf_scope f) (footprint_of (db_taxonomy d) (tn_id t)) restr = []) d"
  from Inr have "runs (Some (tn_id t)) d d1"
    using board_step.Open [of ?c "board_of d" "Suc (db_next d)"]
    by (intro runs_step) (auto simp: insert_case_def fresh_case_def board_of_def same_elsewhere_def split: if_splits)
  with Inr show ?thesis by (simp add: create_case_def Let_def runs_record)
qed

lemma runs_fold: "(\<And>x d. runs z d (f x d)) \<Longrightarrow> runs z d (fold f xs d)"
  by (induction xs arbitrary: d) (auto intro: runs_trans)

lemma runs_create_cases:
  assumes "create_cases i d = Inr d'"
  shows "runs None d d'"
  using assms by (auto simp: create_cases_def ebind_eq_Inr split: option.splits intro!: runs_fold runs_any [OF runs_create_case])

text \<open>An edit of the cached verdict or of an unconfirmed draft breaks no CHECK.\<close>

lemma edit_keeps:
  assumes "good_case b c"
  shows "edit_of c (c\<lparr>c_footprint_match := m\<rparr>)" "edit_of c (c\<lparr>c_so_what_text := w\<rparr>)"
    "case_checks (c\<lparr>c_footprint_match := m\<rparr>)" "case_checks (c\<lparr>c_so_what_text := w\<rparr>)"
proof -
  have "case_checks c" using assms by (simp add: good_case_def)
  then show "case_checks (c\<lparr>c_footprint_match := m\<rparr>)" "case_checks (c\<lparr>c_so_what_text := w\<rparr>)"
    by (simp_all add: case_check_defs)
qed (simp_all add: edit_of_def same_identity_def)

lemma runs_recompute: "runs (Some t) d (recompute t ch d)"
proof -
  let ?f = "\<lambda>c. if recompute_hits t ch d c then c\<lparr>c_footprint_match := verdict d c\<rparr> else c"
  have "runs (Some t) d (d\<lparr>db_cases := map ?f (db_cases d)\<rparr>)"
    by (rule runs_edit_cases [where f = ?f]) (auto simp: board_of_def edit_keeps recompute_hits_def draft_hits_def)
  then show ?thesis
    by (auto simp: recompute_def Let_def intro: runs_record)
qed

lemma runs_scope_changes:
  "runs t d (after_footprint_change t d)" "runs None d (after_change_scope_change i d)"
  by (auto simp: after_footprint_change_def after_change_scope_change_def runs_recompute
      split: option.splits intro!: runs_fold runs_any [OF runs_recompute])

lemma runs_so_what:
  assumes "write_so_what c rq txt act d = Inr (out, d')" and cin: "c \<in> set (db_cases d)" "c_tenant c = rq_tenant rq"
  shows "runs (Some (rq_tenant rq)) d d'"
proof -
  let ?f = "\<lambda>x. if c_id x = c_id c then so_what_columns txt (rq_user rq) (db_now d) x else x"
  from assms obtain d1 where u: "update_case_row (c_id c) (so_what_columns txt (rq_user rq) (db_now d)) d = Inr d1"
    and d': "runs (Some (rq_tenant rq)) d1 d'"
    by (auto simp: write_so_what_def ebind_eq_Inr intro: runs_record)
  have "runs (Some (rq_tenant rq)) d d1"
  proof (rule runs_edit_cases [where f = ?f])
    show "board_of d1 = (board_of d)\<lparr>b_cases := map ?f (db_cases d)\<rparr>"
      using u by (auto simp: update_case_row_Inr board_of_def)
    fix x
    assume x: "x \<in> set (db_cases d)" and ok: "board_ok (board_of d)"
    have "c_tenant x = rq_tenant rq" if "c_id x = c_id c"
      using distinct_map_eq [of c_id "db_cases d" x c] ok x cin that by (simp add: board_ok_def keys_ok_def)
    then show "?f x = x \<or> edit_of x (?f x) \<and> case_checks (?f x) \<and>
        (Some (rq_tenant rq) = None \<or> Some (rq_tenant rq) = Some (c_tenant x))"
      using u x by (auto simp: update_case_row_Inr so_what_columns_def edit_of_def same_identity_def)
  qed
  then show ?thesis using d' by (rule runs_trans)
qed

lemma runs_save_so_what:
  assumes "save_so_what rq ch txt d = Inr (out, d')"
  shows "runs (Some (rq_tenant rq)) d d'"
  using assms by (auto simp: save_so_what_def ebind_eq_Inr dest: load_caseD intro: runs_so_what)

lemma runs_confirm_so_what:
  assumes "confirm_so_what rq ch d = Inr (out, d')"
  shows "runs (Some (rq_tenant rq)) d d'"
  using assms by (auto simp: confirm_so_what_def ebind_eq_Inr dest: load_caseD intro: runs_so_what)

lemma runs_apply_draft_in_tenant: "runs (Some t) d (apply_draft_in_tenant t f d)"
proof -
  let ?f = "\<lambda>c. if draft_hits t f c then c\<lparr>c_so_what_text := cf_so_what_draft f\<rparr> else c"
  have "runs (Some t) d (d\<lparr>db_cases := map ?f (db_cases d)\<rparr>)"
    by (rule runs_edit_cases [where f = ?f]) (auto simp: board_of_def edit_keeps recompute_hits_def draft_hits_def)
  then show ?thesis
    by (auto simp: apply_draft_in_tenant_def Let_def intro: runs_record)
qed

lemma runs_apply_draft:
  assumes "apply_draft i d = Inr d'"
  shows "runs None d d'"
  using assms by (auto simp: apply_draft_def ebind_eq_Inr split: option.splits intro!: runs_fold runs_any [OF runs_apply_draft_in_tenant])

lemma runs_decide_link:
  assumes "decide_link rq order ch ob dec d = Inr (l, d')"
  shows "runs (Some (rq_tenant rq)) d d'"
proof -
  have a: "runs (Some (rq_tenant rq)) d (d\<lparr>db_next := Suc (db_next d), db_links := ls\<rparr>)" for ls
    by (rule runs_quiet [where n = "Suc (db_next d)"]) (simp_all add: board_of_def)
  have b: "runs (Some (rq_tenant rq)) d (d\<lparr>db_links := ls\<rparr>)" for ls
    by (rule runs_same_board) (simp add: board_of_def)
  from assms show ?thesis
    by (auto simp: decide_link_def Let_def ebind_eq_Inr split: option.splits intro!: runs_record a b)
qed

end
