(* ===== verification/Case_Routes.thy ===== *)
theory Case_Routes
  imports Case_Runs
begin

text \<open>
  The routes of the case workflow, \<^verbatim>\<open>backend/apps/cases/api.py\<close>: who may call each of them, and what
  it sends to its handler.  The gates are \<^verbatim>\<open>shared/permissions.py\<close>, the principal
  \<^verbatim>\<open>shared/authentication.py\<close>, the caller, \<^verbatim>\<open>If-Match\<close> and the problem answers \<^verbatim>\<open>taxonomy/http.py\<close>.
  A body the schema refuses never reaches a route here.
\<close>

section \<open>The caller\<close>

datatype principal_kind = P_USER | P_AGENT | P_ENROLMENT

record principal =
  p_kind :: principal_kind
  p_subject :: uuid
  p_name :: string
  p_tenant :: "uuid option"
  p_permissions :: "string list"
  p_scopes :: "string list"
  p_step_up_at :: "instant option"
  p_step_up_assertion :: "uuid option"

definition has_permission :: "principal \<Rightarrow> string \<Rightarrow> bool" where
  "has_permission p perm \<longleftrightarrow> p_kind p = P_USER \<and> perm \<in> set (p_permissions p)"

definition has_scope :: "principal \<Rightarrow> string \<Rightarrow> bool" where
  "has_scope p sc \<longleftrightarrow> p_kind p = P_AGENT \<and> sc \<in> set (p_scopes p)"

definition unauthenticated :: error where
  "unauthenticated = Problem 401 ''unauthenticated''"

text \<open>\<^verbatim>\<open>SessionAuth\<close> accepts a person's principal and no other.\<close>

definition session_auth :: "principal option \<Rightarrow> error + principal" where
  "session_auth who =
    (case who of Some p \<Rightarrow> if p_kind p = P_USER then Inr p else Inl unauthenticated | None \<Rightarrow> Inl unauthenticated)"

definition requires_permission :: "string \<Rightarrow> principal \<Rightarrow> (unit \<Rightarrow> error + 'a) \<Rightarrow> error + 'a" where
  "requires_permission perm p view =
    (if has_permission p perm then view () else Inl (Problem 403 ''permission_denied''))"

definition minute :: instant where
  "minute = 60000000"

text \<open>\<^verbatim>\<open>enforce_step_up\<close>: the assertion the caller's session carries, when it is fresh.\<close>

definition enforce_step_up :: "nat \<Rightarrow> principal \<Rightarrow> db \<Rightarrow> error + uuid" where
  "enforce_step_up freshness_minutes p d =
    (if p_kind p \<noteq> P_USER then Inl (Problem 403 ''step_up_required'')
     else case (p_step_up_at p, p_step_up_assertion p) of
       (Some at, Some assertion) \<Rightarrow>
         if int freshness_minutes * minute < db_now d - at then Inl (Problem 403 ''step_up_required'') else Inr assertion
     | _ \<Rightarrow> Inl (Problem 403 ''step_up_required''))"

definition caller_tenant :: "principal \<Rightarrow> error + uuid" where
  "caller_tenant p = or_else (p_tenant p) (Problem 404 ''not_found'')"

definition caller_user :: "principal \<Rightarrow> error + uuid" where
  "caller_user p = (if p_kind p = P_USER then Inr (p_subject p) else Inl (Problem 403 ''permission_denied''))"

definition actor_for :: "principal \<Rightarrow> actor_ref" where
  "actor_for p = \<lparr>ac_kind = USER, ac_id = Some (p_subject p), ac_label = p_name p\<rparr>"

text \<open>\<^verbatim>\<open>if_match\<close>: no header is no version; a negative number is no version of any row, and neither is
  zero.\<close>

definition if_match :: "string option \<Rightarrow> error + nat option" where
  "if_match raw =
    (case raw of None \<Rightarrow> Inr None
     | Some s \<Rightarrow>
         if s = [] then Inr None
         else (case py_int (strip_char (CHR 0x22) (removeprefix ''W/'' (strip_char (CHR 0x22) (strip s)))) of
                 None \<Rightarrow> Inl (Problem 422 ''validation_error'')
               | Some i \<Rightarrow> Inr (Some (nat i))))"

definition request_of :: "principal \<Rightarrow> error + request" where
  "request_of p =
    ebind (caller_tenant p) (\<lambda>t.
    ebind (caller_user p) (\<lambda>u.
    Inr \<lparr>rq_tenant = t, rq_user = u, rq_user_name = p_name p, rq_actor = actor_for p\<rparr>))"

definition stated :: "principal \<Rightarrow> string option \<Rightarrow> error + request \<times> nat option" where
  "stated p ifm = ebind (request_of p) (\<lambda>rq. ebind (if_match ifm) (\<lambda>ver. Inr (rq, ver)))"

section \<open>Answering a refusal\<close>

text \<open>\<^verbatim>\<open>CHUNK_STATUS_BY_CODE\<close> over \<^verbatim>\<open>STATUS_BY_CODE\<close>, for the codes this app's refusals carry.\<close>

definition STATUS_BY_CODE :: "(string \<times> nat) list" where
  "STATUS_BY_CODE =
    [(''in_use'', 409), (''system_row'', 409), (''category_empty'', 409), (''open_work'', 409), (''request_pending'', 409),
     (''invalid_transition'', 409), (''idempotency_conflict'', 409), (''already_watching'', 409), (''forbidden'', 403),
     (''person_review_required'', 409), (''risk_flagged'', 409), (''own_suggestion'', 409), (''same_agent'', 409),
     (''open_actions'', 409), (''evidence_missing'', 409),
     (''not_found'', 404), (''unauthenticated'', 401), (''signin_failed'', 401), (''invalid_code'', 400),
     (''code_locked'', 400), (''step_up_failed'', 400), (''invalid_credential'', 400), (''registration_failed'', 400),
     (''challenge_expired'', 400), (''invitation_expired'', 410), (''invitation_closed'', 409), (''last_admin'', 409),
     (''last_passkey'', 409), (''already_member'', 409), (''duplicate_key'', 409), (''role_in_use'', 409),
     (''stale_write'', 409), (''four_eyes_violation'', 409), (''feed_limit_reached'', 409),
     (''already_participant'', 409), (''lookup_not_done'', 409)]"

fun refusal_code :: "refusal \<Rightarrow> string" where
  "refusal_code invalid_transition = ''invalid_transition''"
| "refusal_code open_actions = ''open_actions''"
| "refusal_code evidence_missing = ''evidence_missing''"
| "refusal_code four_eyes_violation = ''four_eyes_violation''"
| "refusal_code owner_required = ''owner_required''"
| "refusal_code reason_required = ''reason_required''"
| "refusal_code why_required = ''why_required''"

definition status_of_code :: "string \<Rightarrow> nat" where
  "status_of_code c = (case map_of STATUS_BY_CODE c of None \<Rightarrow> 422 | Some s \<Rightarrow> s)"

text \<open>The status and code of a refused request: \<^verbatim>\<open>problem_for\<close> for a validation error, its own for a
  problem, 500 for anything uncaught.\<close>

fun problem_for :: "error \<Rightarrow> nat \<times> string" where
  "problem_for (Invalid_transition r) = (status_of_code (refusal_code r), refusal_code r)"
| "problem_for (Signoff_refused r n m) = (status_of_code (refusal_code r), refusal_code r)"
| "problem_for (Stale_write v) = (status_of_code ''stale_write'', ''stale_write'')"
| "problem_for (Problem st c) = (st, c)"
| "problem_for (Validation c) = (status_of_code c, c)"
| "problem_for (Unknown_key l ks) = (status_of_code ''unknown_key'', ''unknown_key'')"
| "problem_for Integrity_error = (500, ''internal_error'')"
| "problem_for Server_error = (500, ''internal_error'')"

text \<open>\<^verbatim>\<open>answers_problems\<close>: an answered request commits its writes, a refused one none.\<close>

definition serve :: "error + 'a \<times> db \<Rightarrow> db \<Rightarrow> (nat \<times> string + 'a) \<times> db" where
  "serve r d = (case r of Inl e \<Rightarrow> (Inl (problem_for e), d) | Inr (a, d') \<Rightarrow> (Inr a, d'))"

section \<open>The routes\<close>

abbreviation "CASES_TRIAGE \<equiv> ''cases.triage''"
abbreviation "CASES_CONTRIBUTE \<equiv> ''cases.contribute''"

definition save_so_what_route where
  "save_so_what_route p change_id txt d = requires_permission CASES_WORK p (\<lambda>_.
    ebind (request_of p) (\<lambda>rq. save_so_what rq change_id txt d))"

definition confirm_so_what_route where
  "confirm_so_what_route p change_id d = requires_permission CASES_WORK p (\<lambda>_.
    ebind (request_of p) (\<lambda>rq. confirm_so_what rq change_id d))"

definition accept_link_route where
  "accept_link_route p order change_id obligation d = requires_permission CASES_WORK p (\<lambda>_.
    ebind (request_of p) (\<lambda>rq. accept_obligation_link rq order change_id obligation d))"

definition remove_link_route where
  "remove_link_route p order change_id obligation d = requires_permission CASES_WORK p (\<lambda>_.
    ebind (request_of p) (\<lambda>rq. remove_obligation_link rq order change_id obligation d))"

definition triage_route where
  "triage_route p ifm change_id body d = requires_permission CASES_TRIAGE p (\<lambda>_.
    ebind (stated p ifm) (\<lambda>(rq, ver). triage_change rq change_id ver body d))"

definition dismiss_route where
  "dismiss_route p ifm change_id reason d = requires_permission CASES_TRIAGE p (\<lambda>_.
    ebind (stated p ifm) (\<lambda>(rq, ver). dismiss_change rq change_id ver reason d))"

definition restore_route where
  "restore_route p ifm change_id d = requires_permission CASES_TRIAGE p (\<lambda>_.
    ebind (stated p ifm) (\<lambda>(rq, ver). restore_change rq change_id ver d))"

definition start_assessment_route where
  "start_assessment_route p ifm change_id d = requires_permission CASES_WORK p (\<lambda>_.
    ebind (stated p ifm) (\<lambda>(rq, ver). start_assessment rq change_id ver d))"

definition save_assessment_route where
  "save_assessment_route p ifm change_id body d = requires_permission CASES_CONTRIBUTE p (\<lambda>_.
    ebind (stated p ifm) (\<lambda>(rq, ver). save_assessment rq change_id ver body (has_permission p CASES_WORK) d))"

definition close_route where
  "close_route p ifm change_id reason note d = requires_permission CASES_WORK p (\<lambda>_.
    ebind (stated p ifm) (\<lambda>(rq, ver). close_without_action rq change_id ver reason note d))"

definition list_actions_route where
  "list_actions_route p change_id limit offset d = requires_permission CASES_READ p (\<lambda>_.
    ebind (caller_tenant p) (\<lambda>t. list_actions t change_id limit offset d))"

definition add_action_route where
  "add_action_route actions_max p ifm change_id body d = requires_permission CASES_WORK p (\<lambda>_.
    ebind (stated p ifm) (\<lambda>(rq, ver). add_action actions_max rq change_id ver body d))"

definition update_action_route where
  "update_action_route p ifm action_id body d = requires_permission CASES_CONTRIBUTE p (\<lambda>_.
    ebind (stated p ifm) (\<lambda>(rq, ver). update_action rq action_id ver body d))"

definition delete_action_route where
  "delete_action_route p ifm action_id d = requires_permission CASES_WORK p (\<lambda>_.
    ebind (stated p ifm) (\<lambda>(rq, ver). delete_action rq action_id ver d))"

definition list_evidence_route where
  "list_evidence_route p change_id limit offset d = requires_permission CASES_READ p (\<lambda>_.
    ebind (caller_tenant p) (\<lambda>t. list_evidence t change_id limit offset d))"

definition add_evidence_route where
  "add_evidence_route es p change_id form upl d = requires_permission CASES_CONTRIBUTE p (\<lambda>_.
    ebind (request_of p) (\<lambda>rq. add_evidence es rq change_id form upl d))"

definition download_evidence_route where
  "download_evidence_route es p evidence_id d = requires_permission CASES_READ p (\<lambda>_.
    ebind (request_of p) (\<lambda>rq. download_evidence es rq evidence_id d))"

definition remove_evidence_route where
  "remove_evidence_route p evidence_id d = requires_permission CASES_WORK p (\<lambda>_.
    ebind (request_of p) (\<lambda>rq. remove_evidence rq evidence_id d))"

definition request_signoff_route where
  "request_signoff_route p ifm change_id d = requires_permission CASES_WORK p (\<lambda>_.
    ebind (stated p ifm) (\<lambda>(rq, ver). request_signoff rq change_id ver d))"

definition approve_signoff_route where
  "approve_signoff_route freshness_minutes p ifm change_id note d = requires_permission CASES_SIGNOFF p (\<lambda>_.
    ebind (enforce_step_up freshness_minutes p d) (\<lambda>step_up.
    ebind (stated p ifm) (\<lambda>(rq, ver). approve_signoff rq change_id ver note step_up d)))"

definition send_back_signoff_route where
  "send_back_signoff_route p ifm change_id note d = requires_permission CASES_SIGNOFF p (\<lambda>_.
    ebind (stated p ifm) (\<lambda>(rq, ver). send_back_signoff rq change_id ver note d))"

section \<open>Every write, in one type\<close>

record route_settings =
  rs_actions_max :: nat
  rs_step_up_minutes :: nat
  rs_evidence :: evidence_settings

datatype case_call =
  Save_so_what uuid string | Confirm_so_what uuid
| Accept_link uuid uuid | Remove_link uuid uuid
| Triage uuid triage_body | Dismiss uuid string | Restore uuid
| Start_assessment uuid | Save_assessment uuid assessment_body | Close_case uuid string string
| Add_action uuid action_body | Update_action uuid action_patch | Delete_action uuid
| Add_evidence uuid evidence_form "upload option" | Download_evidence uuid | Remove_evidence uuid
| Request_signoff uuid | Approve_signoff uuid string | Send_back_signoff uuid string

fun gate_of :: "case_call \<Rightarrow> string" where
  "gate_of (Save_so_what _ _) = CASES_WORK"
| "gate_of (Confirm_so_what _) = CASES_WORK"
| "gate_of (Accept_link _ _) = CASES_WORK"
| "gate_of (Remove_link _ _) = CASES_WORK"
| "gate_of (Triage _ _) = CASES_TRIAGE"
| "gate_of (Dismiss _ _) = CASES_TRIAGE"
| "gate_of (Restore _) = CASES_TRIAGE"
| "gate_of (Start_assessment _) = CASES_WORK"
| "gate_of (Save_assessment _ _) = CASES_CONTRIBUTE"
| "gate_of (Close_case _ _ _) = CASES_WORK"
| "gate_of (Add_action _ _) = CASES_WORK"
| "gate_of (Update_action _ _) = CASES_CONTRIBUTE"
| "gate_of (Delete_action _) = CASES_WORK"
| "gate_of (Add_evidence _ _ _) = CASES_CONTRIBUTE"
| "gate_of (Download_evidence _) = CASES_READ"
| "gate_of (Remove_evidence _) = CASES_WORK"
| "gate_of (Request_signoff _) = CASES_WORK"
| "gate_of (Approve_signoff _ _) = CASES_SIGNOFF"
| "gate_of (Send_back_signoff _ _) = CASES_SIGNOFF"

text \<open>The state an answered call leaves; the answers themselves are the handlers'.\<close>

fun route :: "route_settings \<Rightarrow> principal \<Rightarrow> string option \<Rightarrow> string list \<Rightarrow> case_call \<Rightarrow> db \<Rightarrow> error + db" where
  "route rs p ifm order (Save_so_what ch txt) d = map_sum id snd (save_so_what_route p ch txt d)"
| "route rs p ifm order (Confirm_so_what ch) d = map_sum id snd (confirm_so_what_route p ch d)"
| "route rs p ifm order (Accept_link ch ob) d = map_sum id snd (accept_link_route p order ch ob d)"
| "route rs p ifm order (Remove_link ch ob) d = map_sum id snd (remove_link_route p order ch ob d)"
| "route rs p ifm order (Triage ch body) d = map_sum id snd (triage_route p ifm ch body d)"
| "route rs p ifm order (Dismiss ch reason) d = map_sum id snd (dismiss_route p ifm ch reason d)"
| "route rs p ifm order (Restore ch) d = map_sum id snd (restore_route p ifm ch d)"
| "route rs p ifm order (Start_assessment ch) d = map_sum id snd (start_assessment_route p ifm ch d)"
| "route rs p ifm order (Save_assessment ch body) d = map_sum id snd (save_assessment_route p ifm ch body d)"
| "route rs p ifm order (Close_case ch reason note) d = map_sum id snd (close_route p ifm ch reason note d)"
| "route rs p ifm order (Add_action ch body) d = map_sum id snd (add_action_route (rs_actions_max rs) p ifm ch body d)"
| "route rs p ifm order (Update_action i body) d = map_sum id snd (update_action_route p ifm i body d)"
| "route rs p ifm order (Delete_action i) d = delete_action_route p ifm i d"
| "route rs p ifm order (Add_evidence ch form upl) d =
    map_sum id snd (add_evidence_route (rs_evidence rs) p ch form upl d)"
| "route rs p ifm order (Download_evidence i) d = map_sum id snd (download_evidence_route (rs_evidence rs) p i d)"
| "route rs p ifm order (Remove_evidence i) d = remove_evidence_route p i d"
| "route rs p ifm order (Request_signoff ch) d = map_sum id snd (request_signoff_route p ifm ch d)"
| "route rs p ifm order (Approve_signoff ch note) d =
    map_sum id snd (approve_signoff_route (rs_step_up_minutes rs) p ifm ch note d)"
| "route rs p ifm order (Send_back_signoff ch note) d = map_sum id snd (send_back_signoff_route p ifm ch note d)"

text \<open>A call as it arrives: authenticated, then routed.\<close>

definition call :: "route_settings \<Rightarrow> principal option \<Rightarrow> string option \<Rightarrow> string list \<Rightarrow> case_call \<Rightarrow> db \<Rightarrow> error + db" where
  "call rs who ifm order c d = ebind (session_auth who) (\<lambda>p. route rs p ifm order c d)"

lemmas route_defs = save_so_what_route_def confirm_so_what_route_def accept_link_route_def remove_link_route_def
  triage_route_def dismiss_route_def restore_route_def start_assessment_route_def save_assessment_route_def
  close_route_def add_action_route_def update_action_route_def delete_action_route_def add_evidence_route_def
  download_evidence_route_def remove_evidence_route_def request_signoff_route_def approve_signoff_route_def
  send_back_signoff_route_def

section \<open>What an answered call needed\<close>

lemma requires_permission_Inr [inr_simps]:
  "requires_permission perm p view = Inr x \<longleftrightarrow> has_permission p perm \<and> view () = Inr x"
  by (simp add: requires_permission_def)

lemma session_auth_Inr [inr_simps]: "session_auth who = Inr p \<longleftrightarrow> who = Some p \<and> p_kind p = P_USER"
  by (auto simp: session_auth_def split: option.splits if_splits)

lemma request_of_Inr: "request_of p = Inr rq \<Longrightarrow> p_tenant p = Some (rq_tenant rq) \<and> rq_user rq = p_subject p"
  by (auto simp: request_of_def caller_tenant_def caller_user_def inr_simps split: if_splits)

lemma stated_Inr: "stated p ifm = Inr (rq, ver) \<Longrightarrow> p_tenant p = Some (rq_tenant rq) \<and> rq_user rq = p_subject p"
  by (auto simp: stated_def ebind_eq_Inr dest: request_of_Inr)

lemma map_sum_Inr [inr_simps]: "map_sum f g m = Inr y \<longleftrightarrow> (\<exists>x. m = Inr x \<and> y = g x)"
  by (cases m) auto

lemmas runs_of_routes = runs_triage runs_dismiss runs_restore runs_close runs_start_assessment runs_save_assessment
  runs_add_action runs_update_action runs_delete_action runs_request_signoff runs_approve_signoff runs_send_back
  runs_add_evidence runs_remove_evidence runs_download runs_save_so_what runs_confirm_so_what runs_decide_link

lemma route_runs:
  assumes "route rs p ifm order c d = Inr d'"
  obtains t where "p_tenant p = Some t" "runs (Some t) d d'" "has_permission p (gate_of c)"
proof (cases c)
qed (use assms that in \<open>auto simp: inr_simps route_defs accept_obligation_link_def remove_obligation_link_def
    dest!: stated_Inr request_of_Inr intro: runs_of_routes\<close>)

end
