(* ===== verification/Case_System.thy ===== *)
theory Case_System
  imports Case_Routes
begin

text \<open>
  The case workflow as one system: \<open>case_step\<close> is any handler of the program answering any request,
  any outbox handler, any scan, in any order, or anything the rest of the program does elsewhere in
  the database.  Each of them is a run of the machine of \<^verbatim>\<open>Case_Board\<close> (\<open>case_step_runs\<close>), so its
  invariant holds in every state the program reaches.
\<close>

section \<open>Everything that can happen\<close>

text \<open>What the rest of the program does: it leaves the tables of the workflow alone, no id comes
  back, and a vocabulary row is retired, never deleted, and keeps its kind.\<close>

definition elsewhere :: "db \<Rightarrow> db \<Rightarrow> bool" where
  "elsewhere d d' \<longleftrightarrow> db_cases d' = db_cases d \<and> db_transitions d' = db_transitions d \<and> db_actions d' = db_actions d \<and>
    db_evidence d' = db_evidence d \<and> db_assessments d' = db_assessments d \<and>
    vocab_keeps (db_vocab d) (db_vocab d') \<and> db_next d \<le> db_next d'"

inductive case_step :: "db \<Rightarrow> db \<Rightarrow> bool" where
  triage: "triage_change rq ch ver body d = Inr (out, d') \<Longrightarrow> case_step d d'"
| dismiss: "dismiss_change rq ch ver key d = Inr (out, d') \<Longrightarrow> case_step d d'"
| restore: "restore_change rq ch ver d = Inr (out, d') \<Longrightarrow> case_step d d'"
| close: "close_without_action rq ch ver key note d = Inr (out, d') \<Longrightarrow> case_step d d'"
| start: "start_assessment rq ch ver d = Inr (out, d') \<Longrightarrow> case_step d d'"
| save: "save_assessment rq ch ver abody may d = Inr (out, d') \<Longrightarrow> case_step d d'"
| add: "add_action mx rq ch ver xbody d = Inr (act, d') \<Longrightarrow> case_step d d'"
| update: "update_action rq i ver patch d = Inr (act, d') \<Longrightarrow> case_step d d'"
| delete: "delete_action rq i ver d = Inr d' \<Longrightarrow> case_step d d'"
| request: "request_signoff rq ch ver d = Inr (out, d') \<Longrightarrow> case_step d d'"
| approve: "approve_signoff rq ch ver note su d = Inr (out, d') \<Longrightarrow> case_step d d'"
| send_back: "send_back_signoff rq ch ver note d = Inr (out, d') \<Longrightarrow> case_step d d'"
| attach: "add_evidence es rq ch form upl d = Inr (ev, d') \<Longrightarrow> case_step d d'"
| detach: "remove_evidence rq i d = Inr d' \<Longrightarrow> case_step d d'"
| download: "download_evidence es rq i d = Inr (content, d') \<Longrightarrow> case_step d d'"
| scan: "scan_evidence es scanner t i d = Inr d' \<Longrightarrow> case_step d d'"
| decide: "decide_scan t i result d = Inr d' \<Longrightarrow> case_step d d'"
| registered: "create_cases si d = Inr d' \<Longrightarrow> case_step d d'"
| footprint_moved: "case_step d (after_footprint_change si d)"
| scope_moved: "case_step d (after_change_scope_change si d)"
| so_what_saved: "save_so_what rq ch txt d = Inr (view, d') \<Longrightarrow> case_step d d'"
| so_what_confirmed: "confirm_so_what rq ch d = Inr (view, d') \<Longrightarrow> case_step d d'"
| drafted: "apply_draft si d = Inr d' \<Longrightarrow> case_step d d'"
| linked: "accept_obligation_link rq order ch ob d = Inr (link, d') \<Longrightarrow> case_step d d'"
| unlinked: "remove_obligation_link rq order ch ob d = Inr (link, d') \<Longrightarrow> case_step d d'"
| other: "elsewhere d d' \<Longrightarrow> case_step d d'"

lemmas runs_handlers = runs_triage runs_dismiss runs_restore runs_close runs_start_assessment runs_save_assessment
  runs_add_action runs_update_action runs_delete_action runs_request_signoff runs_approve_signoff runs_send_back
  runs_add_evidence runs_remove_evidence runs_download runs_scan_evidence runs_decide_scan runs_create_cases
  runs_scope_changes runs_save_so_what runs_confirm_so_what runs_apply_draft

lemma runs_elsewhere: "elsewhere d d' \<Longrightarrow> runs z d d'"
  using board_step.Elsewhere [of "board_of d" "db_vocab d'" "db_next d'"]
  by (intro runs_step) (auto simp: elsewhere_def board_of_def same_elsewhere_def split: option.splits)

lemma case_step_runs: "case_step d d' \<Longrightarrow> runs None d d'"
  by (induction rule: case_step.induct)
    (auto simp: accept_obligation_link_def remove_obligation_link_def
      intro: runs_any runs_handlers runs_decide_link runs_elsewhere)

definition case_init :: "db \<Rightarrow> bool" where
  "case_init d \<longleftrightarrow> board_init (board_of d)"

definition case_ok :: "db \<Rightarrow> bool" where
  "case_ok d \<longleftrightarrow> board_ok (board_of d)"

interpretation case_sys: invariant_system case_init case_step case_ok
proof
  show "case_ok d" if "case_init d" for d
    using that by (simp add: case_init_def case_ok_def board_init_ok)
  show "case_ok d'" if "case_step d d'" "case_ok d" for d d'
    using case_step_runs [OF that(1)] that(2) zone_run_ok by (auto simp: runs_def case_ok_def)
qed

lemma case_step_board:
  "case_step d d' \<Longrightarrow> case_ok d \<Longrightarrow> board_step\<^sup>*\<^sup>* (board_of d) (board_of d')"
  using case_step_runs [of d d'] zone_run_board [of None "board_of d" "board_of d'"]
  by (auto simp: runs_def case_ok_def)

end
