(* ===== verification/Case_Example.thy ===== *)
theory Case_Example
  imports Case_System
begin

text \<open>
  One bank, four people, two changes and the lists a bank starts with: a concrete database the
  theorems are evaluated on.  Case 7's change is worked from its registration to its sign-off, one
  request at a time.
\<close>

definition person :: "uuid \<Rightarrow> string list \<Rightarrow> membership" where
  "person u perms = \<lparr>m_id = u, m_tenant = 1, m_user = u, m_user_name = ''Person'', m_user_status = ACTIVE,
     m_deactivated_at = None, m_roles = [perms], m_prefs = [], m_languages = [''sv''],
     m_out_of_office_until = None, m_delegate = None\<rparr>"

definition vocab :: "uuid \<Rightarrow> string \<Rightarrow> uuid option \<Rightarrow> string \<Rightarrow> string \<Rightarrow> vocab_row" where
  "vocab i l t k kd = \<lparr>v_id = i, v_list = l, v_tenant = t, v_key = k, v_kind = kd, v_active = True, v_default = True\<rparr>"

definition ex_db :: db where
  "ex_db = \<lparr>db_next = 20, db_now = 5, 
    db_tenants = [\<lparr>tn_id = 1, tn_active = True, tn_triage_target_hours = 2, tn_today = 0\<rparr>, \<lparr>tn_id = 2, tn_active = True, tn_triage_target_hours = 2, tn_today = 0\<rparr>],
    db_members = [person 1 [''cases.triage'', ''cases.read''], person 2 [''cases.work'', ''cases.contribute'', ''cases.read''],
       person 3 [''cases.signoff'', ''cases.work'', ''cases.read''], person 4 [''cases.read'']],
    db_vocab = [vocab 1 ''urgency'' None ''high'' '''', vocab 2 ''dismissal_reason'' (Some 1) ''out'' '''',
       vocab 3 ''close_reason'' (Some 1) ''signed_off'' ''signed_off'', vocab 4 ''close_reason'' (Some 1) ''no_action'' ''no_action'',
       vocab 5 ''close_reason'' (Some 1) ''not_applicable'' ''not_applicable''],
    db_taxonomy = \<lparr>tx_dimensions = [\<lparr>dm_id = 1, dm_key = ''regime'', dm_kind = SCOPE, dm_restricts = True, dm_active = True\<rparr>],
       tx_terms = [\<lparr>tm_id = 1, tm_key = ''aml'', tm_dimension = 1, tm_jurisdiction = None\<rparr>,
         \<lparr>tm_id = 2, tm_key = ''mifid'', tm_dimension = 1, tm_jurisdiction = None\<rparr>],
       tx_footprint = [\<lparr>fr_tenant = 1, fr_term = 2\<rparr>], tx_jurisdictions = []\<rparr>,
    db_changes = [\<lparr>ch_id = 7, ch_title = ''Change'', ch_suggested_urgency = Some 1, ch_so_what_draft = ''draft'',
         ch_terms = [2], ch_jurisdiction = None\<rparr>,
       \<lparr>ch_id = 8, ch_title = ''Other'', ch_suggested_urgency = None, ch_so_what_draft = [], ch_terms = [1], ch_jurisdiction = None\<rparr>],
    db_obligations = [\<lparr>lo_id = 1, lo_key = ''duty'', lo_active = True, lo_titles = []\<rparr>], db_tenant_obligations = [], db_tenant_agents = [], db_cases = [], db_links = [],
    db_assessments = [], db_actions = [], db_transitions = [], db_evidence = [], db_notifications = [], db_storage = [],
    db_scan_queue = [], db_audit = [], db_outbox = []\<rparr>"

definition req :: "uuid \<Rightarrow> request" where
  "req u = \<lparr>rq_tenant = 1, rq_user = u, rq_user_name = ''Person'',
     rq_actor = \<lparr>ac_kind = USER, ac_id = Some u, ac_label = ''Person''\<rparr>\<rparr>"

definition ex_triage :: triage_body where
  "ex_triage = \<lparr>tb_urgency = ''high'', tb_owner_id = 2, tb_owner_team = None, tb_sub_status = None\<rparr>"

definition ex_assessment :: assessment_body where
  "ex_assessment = \<lparr>ab_applies = YES, ab_why = ''why'', ab_what_must_change = [], ab_internal_deadline = None,
     ab_effort = None, ab_sub_status = None\<rparr>"

definition ex_action :: action_body where
  "ex_action = \<lparr>xb_title = ''do it'', xb_owner_id = None, xb_due_date = 5\<rparr>"

definition ex_done :: action_patch where
  "ex_done = \<lparr>xp_title = None, xp_owner_id = None, xp_due_date = None, xp_done = Some True\<rparr>"

definition ex_settings :: evidence_settings where
  "ex_settings = \<lparr>es_allowed_types = [''application/pdf'', ''text/plain''], es_max_bytes = 30, es_evidence_max = 5, es_scan_retries = 2,
     es_scanner_configured = True, es_namelist = (\<lambda>_. None), es_sha256_hex = (\<lambda>c. rev c),
     es_urlsplit = (\<lambda>u. Some (''https'', Some ''host''))\<rparr>"

definition ex_reference :: evidence_form where
  "ex_reference = \<lparr>ef_kind = REFERENCE, ef_name = ''memo'', ef_url = []\<rparr>"

text \<open>A person of the bank signed in with some permissions, freshly stepped up.\<close>

definition caller :: "uuid \<Rightarrow> string list \<Rightarrow> principal" where
  "caller u perms = \<lparr>p_kind = P_USER, p_subject = u, p_name = ''Person'', p_tenant = Some 1, p_permissions = perms,
     p_scopes = [], p_step_up_at = Some 4, p_step_up_assertion = Some 9\<rparr>"

definition ex_routes :: route_settings where
  "ex_routes = \<lparr>rs_actions_max = 9, rs_step_up_minutes = 1, rs_evidence = ex_settings\<rparr>"

section \<open>The states of the chain\<close>

text \<open>The audit rows of the chain and their outbox rows; the ledger.  Each state holds the first few.\<close>

definition logged :: "uuid \<Rightarrow> uuid \<Rightarrow> actor_ref \<Rightarrow> string \<Rightarrow> string \<Rightarrow> uuid \<Rightarrow> string \<Rightarrow> jobj \<Rightarrow> jobj \<Rightarrow> uuid option \<Rightarrow> audit_event" where
  "logged i t actr act kind subj summary bef aft step_up =
    \<lparr>au_id = i, au_tenant = Some t, au_actor = actr, au_action = act, au_subject_type = kind, au_subject_id = Some subj,
     au_subject_title = ''Change'', au_summary = summary, au_before = bef, au_after = aft, au_step_up = step_up\<rparr>"

definition boxed :: "audit_event \<Rightarrow> outbox_row" where
  "boxed a = \<lparr>ob_id = Suc (au_id a), ob_tenant = au_tenant a, ob_audit = au_id a, ob_topic = au_action a,
     ob_payload = [(''auditEventId'', JId (au_id a)), (''subjectId'', jopt JId (au_subject_id a))]\<rparr>"


definition ex_log :: "audit_event list" where
  "ex_log =
    [logged 21 1 (system_actor ''change-registered'') ''case.created'' SUBJECT_TYPE 20
    ''A registered change opened a case that needs triage.'' [] [(''status'', JStr ''new''),
    (''footprintMatch'', JBool True), (''urgencyConfirmed'', JBool False)] None,
     logged 24 2 (system_actor ''change-registered'') ''case.created'' SUBJECT_TYPE 23
    ''A registered change opened a case that needs triage.'' [] [(''status'', JStr ''new''),
    (''footprintMatch'', JBool True), (''urgencyConfirmed'', JBool False)] None,
     logged 27 1 (rq_actor (req 1)) MOVED SUBJECT_TYPE 20 ''Person moved a case from new to assigned.''
    [(''status'', JStr ''new'')] [(''status'', JStr ''assigned''), (''version'', JInt 2), (''ownerId'', JId
    2), (''urgency'', JStr ''high'')] None,
     logged 31 1 (rq_actor (req 2)) MOVED SUBJECT_TYPE 20 ''Person moved a case from assigned to assessing.''
    [(''status'', JStr ''assigned'')] [(''status'', JStr ''assessing''), (''version'', JInt 3)] None,
     logged 34 1 (rq_actor (req 2)) ''case.assessment_saved'' SUBJECT_TYPE 20
    ''Person saved the impact assessment.'' [] [(''applies'', JStr ''yes''), (''internalDeadline'', JNull),
    (''effort'', JNull), (''subStatus'', JNull), (''closeReason'', JNull), (''version'', JInt 4)] None,
     logged 37 1 (rq_actor (req 2)) MOVED SUBJECT_TYPE 20 ''Person moved a case from assessing to implementing.''
    [(''status'', JStr ''assessing'')] [(''status'', JStr ''implementing''), (''version'', JInt 5)] None,
     logged 40 1 (rq_actor (req 2)) ADDED ''action'' 39 ''Person added an action to a case.'' [] [(''ownerId'',
    JId 2), (''dueDate'', JDay 5), (''done'', JBool False), (''removed'', JBool False), (''version'', JInt 1),
    (''caseId'', JId 20)] None,
     logged 42 1 (rq_actor (req 2)) CHANGED ''action'' 39 ''Person changed an action on a case.'' [(''ownerId'',
    JId 2), (''dueDate'', JDay 5), (''done'', JBool False), (''removed'', JBool False), (''version'', JInt 1)]
    [(''ownerId'', JId 2), (''dueDate'', JDay 5), (''done'', JBool True), (''removed'', JBool False),
    (''version'', JInt 2), (''caseId'', JId 20)] None,
     logged 45 1 (rq_actor (req 2)) ATTACHED ''evidence'' 44
    ''Person attached a reference to a case as evidence.'' [] [(''evidenceId'', JId 44), (''caseId'', JId 20),
    (''kind'', JStr ''reference'')] None,
     logged 48 1 (rq_actor (req 2)) MOVED SUBJECT_TYPE 20 ''Person moved a case from implementing to signoff.''
    [(''status'', JStr ''implementing'')] [(''status'', JStr ''signoff''), (''version'', JInt 6)] None,
     logged 52 1 (rq_actor (req 3)) MOVED SUBJECT_TYPE 20 ''Person moved a case from signoff to closed.''
    [(''status'', JStr ''signoff'')] [(''status'', JStr ''closed''), (''version'', JInt 7)] (Some 9)]"

definition ex_ledger :: "case_transition list" where
  "ex_ledger =
    [\<lparr>t_id = 26, t_tenant = 1, t_case = 20, t_from = NEW, t_to = ASSIGNED, t_at = 5, t_by_user = Some 1,
    t_note = []\<rparr>,
     \<lparr>t_id = 30, t_tenant = 1, t_case = 20, t_from = ASSIGNED, t_to = ASSESSING, t_at = 5,
    t_by_user = Some 2, t_note = []\<rparr>,
     \<lparr>t_id = 36, t_tenant = 1, t_case = 20, t_from = ASSESSING, t_to = IMPLEMENTING, t_at = 5,
    t_by_user = Some 2, t_note = []\<rparr>,
     \<lparr>t_id = 47, t_tenant = 1, t_case = 20, t_from = IMPLEMENTING, t_to = SIGNOFF, t_at = 5,
    t_by_user = Some 2, t_note = []\<rparr>,
     \<lparr>t_id = 51, t_tenant = 1, t_case = 20, t_from = SIGNOFF, t_to = CLOSED, t_at = 5, t_by_user = Some 3,
    t_note = ''note''\<rparr>]"

definition ex_case :: change_case where
  "ex_case = \<lparr>c_id = 20, c_tenant = 1, c_change = 7, c_status = NEW, c_urgency = 1,
    c_urgency_confirmed = False, c_footprint_match = True, c_owner = None, c_owner_team = None,
    c_so_what_text = ''draft'', c_so_what_confirmed = False, c_so_what_confirmed_by = None,
    c_so_what_confirmed_at = None, c_briefing_week = None, c_sub_status = None, c_triaged_by = None,
    c_triaged_at = None, c_dismissed_reason = None, c_dismissed_by = None, c_dismissed_at = None,
    c_signoff_requested_by = None, c_signoff_requested_at = None, c_signed_off_by = None,
    c_close_reason = None, c_closed_note = [], c_closed_at = None, c_triage_due_at = Some 7200000005,
    c_version = 1, c_created_at = 5, c_updated_at = 5\<rparr>"

definition ex_other_case :: change_case where
  "ex_other_case = ex_case\<lparr>c_id := 23, c_tenant := 2\<rparr>"

definition ex_new :: db where
  "ex_new = ex_db\<lparr>db_next := 26, db_cases := [ex_case, ex_other_case], db_audit := take 2 ex_log,
    db_outbox := map boxed (take 2 ex_log)\<rparr>"

definition ex_case_assigned :: change_case where
  "ex_case_assigned = ex_case\<lparr>c_status := ASSIGNED, c_urgency_confirmed := True, c_owner := Some 2,
    c_triaged_by := Some 1, c_triaged_at := Some 5, c_version := 2\<rparr>"

definition ex_assigned :: db where
  "ex_assigned = ex_db\<lparr>db_next := 30, db_cases := [ex_case_assigned, ex_other_case],
    db_notifications := [\<lparr>n_id = 29, n_tenant = 1, n_user = 2, n_kind = ''assigned'',
    n_subject_type = SUBJECT_TYPE, n_subject_id = 20, n_title = ''Change'', n_on_behalf_of = None\<rparr>],
    db_transitions := take 1 ex_ledger, db_audit := take 3 ex_log, db_outbox := map boxed (take 3
    ex_log)\<rparr>"

definition ex_case_assessing :: change_case where
  "ex_case_assessing = ex_case_assigned\<lparr>c_status := ASSESSING, c_version := 3\<rparr>"

definition ex_assessing :: db where
  "ex_assessing = ex_db\<lparr>db_next := 34, db_cases := [ex_case_assessing, ex_other_case],
    db_assessments := [\<lparr>ia_id = 33, ia_tenant = 1, ia_case = 20, ia_applies = YES, ia_why = [],
    ia_what_must_change = [], ia_internal_deadline = None, ia_effort = None, ia_saved = False,
    ia_saved_by = None, ia_saved_at = None, ia_version = 1\<rparr>], db_notifications := [\<lparr>n_id = 29,
    n_tenant = 1, n_user = 2, n_kind = ''assigned'', n_subject_type = SUBJECT_TYPE, n_subject_id = 20,
    n_title = ''Change'', n_on_behalf_of = None\<rparr>], db_transitions := take 2 ex_ledger, db_audit := take
    4 ex_log, db_outbox := map boxed (take 4 ex_log)\<rparr>"

definition ex_case_saved :: change_case where
  "ex_case_saved = ex_case_assessing\<lparr>c_version := 4\<rparr>"

definition ex_saved :: db where
  "ex_saved = ex_db\<lparr>db_next := 36, db_cases := [ex_case_saved, ex_other_case],
    db_assessments := [\<lparr>ia_id = 33, ia_tenant = 1, ia_case = 20, ia_applies = YES, ia_why = ''why'',
    ia_what_must_change = [], ia_internal_deadline = None, ia_effort = None, ia_saved = True,
    ia_saved_by = Some 2, ia_saved_at = Some 5, ia_version = 2\<rparr>],
    db_notifications := [\<lparr>n_id = 29, n_tenant = 1, n_user = 2, n_kind = ''assigned'',
    n_subject_type = SUBJECT_TYPE, n_subject_id = 20, n_title = ''Change'', n_on_behalf_of = None\<rparr>],
    db_transitions := take 2 ex_ledger, db_audit := take 5 ex_log, db_outbox := map boxed (take 5
    ex_log)\<rparr>"

definition ex_case_implementing :: change_case where
  "ex_case_implementing = ex_case_saved\<lparr>c_status := IMPLEMENTING, c_version := 5\<rparr>"

definition ex_implementing :: db where
  "ex_implementing = ex_db\<lparr>db_next := 42, db_cases := [ex_case_implementing, ex_other_case],
    db_assessments := [\<lparr>ia_id = 33, ia_tenant = 1, ia_case = 20, ia_applies = YES, ia_why = ''why'',
    ia_what_must_change = [], ia_internal_deadline = None, ia_effort = None, ia_saved = True,
    ia_saved_by = Some 2, ia_saved_at = Some 5, ia_version = 2\<rparr>], db_actions := [\<lparr>a_id = 39,
    a_tenant = 1, a_case = 20, a_title = ''do it'', a_owner = 2, a_due_date = 5, a_done_at = None,
    a_done_by = None, a_created_by = 2, a_created_at = 5, a_removed_at = None, a_removed_by = None,
    a_version = 1\<rparr>], db_notifications := [\<lparr>n_id = 29, n_tenant = 1, n_user = 2,
    n_kind = ''assigned'', n_subject_type = SUBJECT_TYPE, n_subject_id = 20, n_title = ''Change'',
    n_on_behalf_of = None\<rparr>], db_transitions := take 3 ex_ledger, db_audit := take 7 ex_log,
    db_outbox := map boxed (take 7 ex_log)\<rparr>"

definition ex_worked :: db where
  "ex_worked = ex_db\<lparr>db_next := 44, db_cases := [ex_case_implementing, ex_other_case],
    db_assessments := [\<lparr>ia_id = 33, ia_tenant = 1, ia_case = 20, ia_applies = YES, ia_why = ''why'',
    ia_what_must_change = [], ia_internal_deadline = None, ia_effort = None, ia_saved = True,
    ia_saved_by = Some 2, ia_saved_at = Some 5, ia_version = 2\<rparr>], db_actions := [\<lparr>a_id = 39,
    a_tenant = 1, a_case = 20, a_title = ''do it'', a_owner = 2, a_due_date = 5, a_done_at = Some 5,
    a_done_by = Some 2, a_created_by = 2, a_created_at = 5, a_removed_at = None, a_removed_by = None,
    a_version = 2\<rparr>], db_notifications := [\<lparr>n_id = 29, n_tenant = 1, n_user = 2,
    n_kind = ''assigned'', n_subject_type = SUBJECT_TYPE, n_subject_id = 20, n_title = ''Change'',
    n_on_behalf_of = None\<rparr>], db_transitions := take 3 ex_ledger, db_audit := take 8 ex_log,
    db_outbox := map boxed (take 8 ex_log)\<rparr>"

definition ex_evidenced :: db where
  "ex_evidenced = ex_db\<lparr>db_next := 47, db_cases := [ex_case_implementing, ex_other_case],
    db_assessments := [\<lparr>ia_id = 33, ia_tenant = 1, ia_case = 20, ia_applies = YES, ia_why = ''why'',
    ia_what_must_change = [], ia_internal_deadline = None, ia_effort = None, ia_saved = True,
    ia_saved_by = Some 2, ia_saved_at = Some 5, ia_version = 2\<rparr>], db_actions := [\<lparr>a_id = 39,
    a_tenant = 1, a_case = 20, a_title = ''do it'', a_owner = 2, a_due_date = 5, a_done_at = Some 5,
    a_done_by = Some 2, a_created_by = 2, a_created_at = 5, a_removed_at = None, a_removed_by = None,
    a_version = 2\<rparr>], db_evidence := [\<lparr>e_id = 44, e_tenant = 1, e_case = 20, e_kind = REFERENCE,
    e_name = ''memo'', e_storage_key = [], e_url = [], e_content_hash = [], e_size_bytes = None,
    e_mime_type = [], e_uploaded_by = 2, e_uploaded_at = 5, e_removed_at = None, e_scan_state = CLEAN,
    e_scanned_at = Some 5\<rparr>], db_notifications := [\<lparr>n_id = 29, n_tenant = 1, n_user = 2,
    n_kind = ''assigned'', n_subject_type = SUBJECT_TYPE, n_subject_id = 20, n_title = ''Change'',
    n_on_behalf_of = None\<rparr>], db_transitions := take 3 ex_ledger, db_audit := take 9 ex_log,
    db_outbox := map boxed (take 9 ex_log)\<rparr>"

definition ex_case_waiting :: change_case where
  "ex_case_waiting = ex_case_implementing\<lparr>c_status := SIGNOFF, c_signoff_requested_by := Some 2,
    c_signoff_requested_at := Some 5, c_version := 6\<rparr>"

definition ex_waiting :: db where
  "ex_waiting = ex_db\<lparr>db_next := 51, db_cases := [ex_case_waiting, ex_other_case],
    db_assessments := [\<lparr>ia_id = 33, ia_tenant = 1, ia_case = 20, ia_applies = YES, ia_why = ''why'',
    ia_what_must_change = [], ia_internal_deadline = None, ia_effort = None, ia_saved = True,
    ia_saved_by = Some 2, ia_saved_at = Some 5, ia_version = 2\<rparr>], db_actions := [\<lparr>a_id = 39,
    a_tenant = 1, a_case = 20, a_title = ''do it'', a_owner = 2, a_due_date = 5, a_done_at = Some 5,
    a_done_by = Some 2, a_created_by = 2, a_created_at = 5, a_removed_at = None, a_removed_by = None,
    a_version = 2\<rparr>], db_evidence := [\<lparr>e_id = 44, e_tenant = 1, e_case = 20, e_kind = REFERENCE,
    e_name = ''memo'', e_storage_key = [], e_url = [], e_content_hash = [], e_size_bytes = None,
    e_mime_type = [], e_uploaded_by = 2, e_uploaded_at = 5, e_removed_at = None, e_scan_state = CLEAN,
    e_scanned_at = Some 5\<rparr>], db_notifications := [\<lparr>n_id = 29, n_tenant = 1, n_user = 2,
    n_kind = ''assigned'', n_subject_type = SUBJECT_TYPE, n_subject_id = 20, n_title = ''Change'',
    n_on_behalf_of = None\<rparr>, \<lparr>n_id = 50, n_tenant = 1, n_user = 3,
    n_kind = ''signoff_requested'', n_subject_type = SUBJECT_TYPE, n_subject_id = 20, n_title = ''Change'',
    n_on_behalf_of = None\<rparr>], db_transitions := take 4 ex_ledger, db_audit := take 10 ex_log,
    db_outbox := map boxed (take 10 ex_log)\<rparr>"

definition ex_case_signed :: change_case where
  "ex_case_signed = ex_case_waiting\<lparr>c_status := CLOSED, c_signed_off_by := Some 3,
    c_close_reason := Some 3, c_closed_note := ''note'', c_closed_at := Some 5, c_version := 7\<rparr>"

definition ex_signed :: db where
  "ex_signed = ex_db\<lparr>db_next := 54, db_cases := [ex_case_signed, ex_other_case],
    db_assessments := [\<lparr>ia_id = 33, ia_tenant = 1, ia_case = 20, ia_applies = YES, ia_why = ''why'',
    ia_what_must_change = [], ia_internal_deadline = None, ia_effort = None, ia_saved = True,
    ia_saved_by = Some 2, ia_saved_at = Some 5, ia_version = 2\<rparr>], db_actions := [\<lparr>a_id = 39,
    a_tenant = 1, a_case = 20, a_title = ''do it'', a_owner = 2, a_due_date = 5, a_done_at = Some 5,
    a_done_by = Some 2, a_created_by = 2, a_created_at = 5, a_removed_at = None, a_removed_by = None,
    a_version = 2\<rparr>], db_evidence := [\<lparr>e_id = 44, e_tenant = 1, e_case = 20, e_kind = REFERENCE,
    e_name = ''memo'', e_storage_key = [], e_url = [], e_content_hash = [], e_size_bytes = None,
    e_mime_type = [], e_uploaded_by = 2, e_uploaded_at = 5, e_removed_at = None, e_scan_state = CLEAN,
    e_scanned_at = Some 5\<rparr>], db_notifications := [\<lparr>n_id = 29, n_tenant = 1, n_user = 2,
    n_kind = ''assigned'', n_subject_type = SUBJECT_TYPE, n_subject_id = 20, n_title = ''Change'',
    n_on_behalf_of = None\<rparr>, \<lparr>n_id = 50, n_tenant = 1, n_user = 3,
    n_kind = ''signoff_requested'', n_subject_type = SUBJECT_TYPE, n_subject_id = 20, n_title = ''Change'',
    n_on_behalf_of = None\<rparr>], db_transitions := take 5 ex_ledger, db_audit := take 11 ex_log,
    db_outbox := map boxed (take 11 ex_log)\<rparr>"

section \<open>The chain is a run\<close>

text \<open>Each request is answered and leaves the next state; the other bank's case stays as it was opened.\<close>

lemma answered: "map_sum id snd r = Inr d \<Longrightarrow> \<exists>x. r = Inr (x, d)"
  by (cases r) auto

lemma ex_init: "case_init ex_db"
  by (simp add: case_init_def board_init_def ex_db_def vocab_def vocab_ok_def kind_in_def close_reason_of_def)

lemma ex_registered: "create_cases (Some 7) ex_db = Inr ex_new"
  by code_simp

lemma ex_triage: "map_sum id snd (triage_change (req 1) 7 (Some 1) ex_triage ex_new) = Inr ex_assigned"
  by code_simp

lemma ex_start: "map_sum id snd (start_assessment (req 2) 7 (Some 2) ex_assigned) = Inr ex_assessing"
  by code_simp

lemma ex_save: "map_sum id snd (save_assessment (req 2) 7 (Some 3) ex_assessment True ex_assessing) = Inr ex_saved"
  by code_simp

lemma ex_add: "map_sum id snd (add_action 9 (req 2) 7 (Some 4) ex_action ex_saved) = Inr ex_implementing"
  by code_simp

lemma ex_update: "map_sum id snd (update_action (req 2) 39 (Some 1) ex_done ex_implementing) = Inr ex_worked"
  by code_simp

lemma ex_attach: "map_sum id snd (add_evidence ex_settings (req 2) 7 ex_reference None ex_worked) = Inr ex_evidenced"
  by code_simp

lemma ex_request: "map_sum id snd (request_signoff (req 2) 7 (Some 5) ex_evidenced) = Inr ex_waiting"
  by code_simp

lemma ex_approve: "map_sum id snd (approve_signoff (req 3) 7 (Some 6) ''note'' 9 ex_waiting) = Inr ex_signed"
  by code_simp

lemma ex_step_new: "case_step ex_db ex_new"
  by (rule case_step.registered [OF ex_registered])

lemma ex_step_assigned: "case_step ex_new ex_assigned"
  using answered [OF ex_triage] by (auto intro: case_step.triage)

lemma ex_step_assessing: "case_step ex_assigned ex_assessing"
  using answered [OF ex_start] by (auto intro: case_step.start)

lemma ex_step_saved: "case_step ex_assessing ex_saved"
  using answered [OF ex_save] by (auto intro: case_step.save)

lemma ex_step_implementing: "case_step ex_saved ex_implementing"
  using answered [OF ex_add] by (auto intro: case_step.add)

lemma ex_step_worked: "case_step ex_implementing ex_worked"
  using answered [OF ex_update] by (auto intro: case_step.update)

lemma ex_step_evidenced: "case_step ex_worked ex_evidenced"
  using answered [OF ex_attach] by (auto intro: case_step.attach)

lemma ex_step_waiting: "case_step ex_evidenced ex_waiting"
  using answered [OF ex_request] by (auto intro: case_step.request)

lemma ex_step_signed: "case_step ex_waiting ex_signed"
  using answered [OF ex_approve] by (auto intro: case_step.approve)

lemma ex_reach_new: "case_step\<^sup>*\<^sup>* ex_db ex_new"
  using ex_step_new by blast

lemma ex_reach_assigned: "case_step\<^sup>*\<^sup>* ex_db ex_assigned"
  using ex_reach_new ex_step_assigned by (rule rtranclp.rtrancl_into_rtrancl)

lemma ex_reach_assessing: "case_step\<^sup>*\<^sup>* ex_db ex_assessing"
  using ex_reach_assigned ex_step_assessing by (rule rtranclp.rtrancl_into_rtrancl)

lemma ex_reach_saved: "case_step\<^sup>*\<^sup>* ex_db ex_saved"
  using ex_reach_assessing ex_step_saved by (rule rtranclp.rtrancl_into_rtrancl)

lemma ex_reach_implementing: "case_step\<^sup>*\<^sup>* ex_db ex_implementing"
  using ex_reach_saved ex_step_implementing by (rule rtranclp.rtrancl_into_rtrancl)

lemma ex_reach_worked: "case_step\<^sup>*\<^sup>* ex_db ex_worked"
  using ex_reach_implementing ex_step_worked by (rule rtranclp.rtrancl_into_rtrancl)

lemma ex_reach_evidenced: "case_step\<^sup>*\<^sup>* ex_db ex_evidenced"
  using ex_reach_worked ex_step_evidenced by (rule rtranclp.rtrancl_into_rtrancl)

lemma ex_reach_waiting: "case_step\<^sup>*\<^sup>* ex_db ex_waiting"
  using ex_reach_evidenced ex_step_waiting by (rule rtranclp.rtrancl_into_rtrancl)

lemma ex_reach_signed: "case_step\<^sup>*\<^sup>* ex_db ex_signed"
  using ex_reach_waiting ex_step_signed by (rule rtranclp.rtrancl_into_rtrancl)

lemmas ex_reach = ex_reach_new ex_reach_assigned ex_reach_assessing ex_reach_saved ex_reach_implementing
  ex_reach_worked ex_reach_evidenced ex_reach_waiting ex_reach_signed

lemma ex_ok: "case_step\<^sup>*\<^sup>* ex_db d \<Longrightarrow> case_ok d"
  using ex_init by (rule case_sys.inv_reachable)

text \<open>The cases of the chain, by state.\<close>

lemma ex_cases:
  "db_cases ex_new = [ex_case, ex_other_case]"
  "db_cases ex_assigned = [ex_case_assigned, ex_other_case]"
  "db_cases ex_assessing = [ex_case_assessing, ex_other_case]"
  "db_cases ex_saved = [ex_case_saved, ex_other_case]"
  "db_cases ex_implementing = [ex_case_implementing, ex_other_case]"
  "db_cases ex_worked = [ex_case_implementing, ex_other_case]"
  "db_cases ex_evidenced = [ex_case_implementing, ex_other_case]"
  "db_cases ex_waiting = [ex_case_waiting, ex_other_case]"
  "db_cases ex_signed = [ex_case_signed, ex_other_case]"
  by (simp_all add: ex_new_def ex_assigned_def ex_assessing_def ex_saved_def ex_implementing_def ex_worked_def
    ex_evidenced_def ex_waiting_def ex_signed_def frame_simps)

lemmas ex_case_defs = ex_case_def ex_other_case_def ex_case_assigned_def ex_case_assessing_def ex_case_saved_def
  ex_case_implementing_def ex_case_waiting_def ex_case_signed_def

end
