(* ===== verification/Signoff_Theorems.thy ===== *)
theory Signoff_Theorems
  imports Case_Example
begin

text \<open>
  What the case workflow promises of every state it can reach: the gates before a sign-off, the
  two people of a signed-off closure, its permanence, the ledger and the identity of cases.  Each
  rests on the invariant of \<^verbatim>\<open>Case_System\<close>.
\<close>

section \<open>Reading the invariant\<close>

lemma case_ok_parts:
  assumes "case_ok d"
  shows "keys_ok (board_of d)" "zones_ok (board_of d)"
    and "c \<in> set (db_cases d) \<Longrightarrow> good_case (board_of d) c"
  using assms by (auto simp: case_ok_def board_ok_def)

lemma reachable_good:
  "case_init d0 \<Longrightarrow> case_step\<^sup>*\<^sup>* d0 d \<Longrightarrow> c \<in> set (db_cases d) \<Longrightarrow> good_case (board_of d) c"
  by (blast intro: case_ok_parts(3) case_sys.inv_reachable)

text \<open>What no step of the machine undoes, no step of the program undoes.\<close>

lemma case_run_board:
  "case_step\<^sup>*\<^sup>* d d' \<Longrightarrow> case_ok d \<Longrightarrow> board_step\<^sup>*\<^sup>* (board_of d) (board_of d')"
proof (induction rule: rtranclp_induct)
  case base
  then show ?case by simp
next
  case (step y z)
  then have "case_ok y" by (blast intro: case_sys.inv_run)
  with step show ?case using case_step_board by (meson rtranclp_trans)
qed

lemma case_run_stable:
  assumes "case_step\<^sup>*\<^sup>* d d'" and "case_ok d" and "Q (board_of d)"
    and "\<And>u v. board_step u v \<Longrightarrow> board_ok u \<Longrightarrow> Q u \<Longrightarrow> Q v"
  shows "Q (board_of d')"
  using case_run_board [OF assms(1,2)] by (rule board_sys.stable_run)
    (use assms in \<open>auto simp: case_ok_def\<close>)

section \<open>A signed-off case stays as it is\<close>

text \<open>The case, its moves and its actions, as they stand when a second person has signed.\<close>

definition signed_record :: "change_case \<Rightarrow> case_transition list \<Rightarrow> case_action list \<Rightarrow> board \<Rightarrow> bool" where
  "signed_record c ms as b \<longleftrightarrow> moves_of b (c_id c) = ms \<and> filter (\<lambda>a. a_case a = c_id c) (b_actions b) = as \<and>
    (\<exists>c'\<in>set (b_cases b). c_id c' = c_id c \<and> c_tenant c' = c_tenant c \<and> c_change c' = c_change c \<and>
      c_status c' = CLOSED \<and> c_signed_off_by c' = c_signed_off_by c \<and>
      c_signoff_requested_by c' = c_signoff_requested_by c \<and> c_close_reason c' = c_close_reason c)"

lemma signed_never_moves:
  assumes "good_case b c" and "c_signed_off_by c \<noteq> None" and "same_identity c c1"
    and "kind_in (b_vocab b) (c_close_reason c1) = Some kind"
    and "check_transition (c_status c1) to_status (board_facts b c1 who kind) = Inr ()"
    and "mover b c c1 to_status who"
  shows False
proof -
  have st: "c_status c1 = CLOSED"
    and kind: "kind_in (b_vocab b) (c_close_reason c) = Some (Some SIGNED_OFF)"
    using assms(1,2,3) by (auto simp: good_case_def same_identity_def)
  with assms(5) have "to_status = NEW"
    by (auto simp: check_transition_Inr)
  with assms(4,5,6) st kind show False
    by (auto simp: check_to_new mover_def board_facts_def guard_simps)
qed

lemma filter_put_other:
  assumes "distinct (map key rows)" and "r \<in> set rows" and "key r' = key r" and "\<not> P r" and "\<not> P r'"
  shows "filter P (put_row key r' rows) = filter P rows"
proof -
  have "\<not> P x" if "x \<in> set rows" "key x = key r'" for x
    using distinct_map_eq [OF assms(1) that(1) assms(2)] that assms(3,4) by metis
  then have "filter P (map (\<lambda>x. if key x = key r' then r' else x) rows) = filter P rows"
    using assms(5) by (induction rows) auto
  then show ?thesis by (simp add: put_row_def)
qed

lemma signed_record_step:
  assumes "board_step b b'" and ok: "board_ok b" and rec: "signed_record c ms as b"
    and signed: "c_signed_off_by c \<noteq> None"
  shows "signed_record c ms as b'"
proof -
  from rec obtain x where x: "x \<in> set (b_cases b)" "c_id x = c_id c" "c_tenant x = c_tenant c" "c_change x = c_change c"
      "c_status x = CLOSED" "c_signed_off_by x = c_signed_off_by c"
      "c_signoff_requested_by x = c_signoff_requested_by c" "c_close_reason x = c_close_reason c"
    and ms: "moves_of b (c_id c) = ms" and acts: "filter (\<lambda>a. a_case a = c_id c) (b_actions b) = as"
    by (auto simp: signed_record_def)
  have keys: "keys_ok b" and good: "good_case b x"
    using ok x(1) by (auto simp: board_ok_def)
  have same: "y = x" if "y \<in> set (b_cases b)" "c_id y = c_id c" for y
    using keys distinct_map_eq [of c_id "b_cases b" y x] that x(1,2) by (simp add: keys_ok_def)
  have unsigned: "y \<noteq> x" if "c_status y \<noteq> CLOSED" for y
    using that x(5) by auto
  from assms(1) show ?thesis
  proof (cases rule: board_step.cases)
    case (Move y y1 kind to_status who y2 at t n)
    have "y \<noteq> x"
      using signed_never_moves [of b x y1 kind to_status who] good signed x(6) Move by auto
    then have "c_id y \<noteq> c_id c" using same Move(2) by auto
    then show ?thesis
      using x ms acts Move(1,3,9,10) by (force simp: signed_record_def moves_of_def in_set_put_row same_identity_def)
  next
    case (Edit f n)
    have "f x = x \<or> edit_of x (f x)" using Edit(2) x(1) by auto
    then have "c_id (f x) = c_id c \<and> c_tenant (f x) = c_tenant c \<and> c_change (f x) = c_change c \<and> c_status (f x) = CLOSED \<and>
        c_signed_off_by (f x) = c_signed_off_by c \<and> c_signoff_requested_by (f x) = c_signoff_requested_by c \<and>
        c_close_reason (f x) = c_close_reason c"
      using x by (auto simp: edit_of_def same_identity_def)
    then show ?thesis
      using x(1) ms acts Edit(1) by (auto simp: signed_record_def moves_of_def)
  next
    case (Add_action y a n)
    have "c_id y \<noteq> c_id c" using same [OF Add_action(2)] unsigned Add_action(3) by auto
    then show ?thesis
      using x ms acts Add_action(1,4) by (auto simp: signed_record_def moves_of_def)
  next
    case (Edit_action y a a')
    have "c_id y \<noteq> c_id c" using same [OF Edit_action(2)] unsigned Edit_action(3) by auto
    then have "filter (\<lambda>a. a_case a = c_id c) (put_row a_id a' (b_actions b)) = as"
      using filter_put_other [of a_id "b_actions b" a a' "\<lambda>a. a_case a = c_id c"] keys Edit_action acts
      by (simp add: keys_ok_def)
    then show ?thesis
      using x ms Edit_action(1) by (auto simp: signed_record_def moves_of_def)
  qed (use x ms acts in \<open>auto simp: signed_record_def moves_of_def\<close>)
qed

section \<open>The ledger only grows\<close>

definition grown :: "board \<Rightarrow> board \<Rightarrow> bool" where
  "grown b b' \<longleftrightarrow> prefix (b_ledger b) (b_ledger b') \<and>
    (\<forall>c\<in>set (b_cases b). \<exists>c'\<in>set (b_cases b'). c_id c' = c_id c \<and> c_tenant c' = c_tenant c \<and>
      c_change c' = c_change c \<and> c_version c \<le> c_version c')"

lemma grown_refl: "grown b b"
  by (auto simp: grown_def)

lemma grown_trans: "grown a b \<Longrightarrow> grown b c \<Longrightarrow> grown a c"
  unfolding grown_def by (metis order_trans prefix_order.trans)

lemma grown_step:
  assumes "board_step b b'" and "board_ok b"
  shows "grown b b'"
  using assms(1)
proof (cases rule: board_step.cases)
  case (Move c c1 kind to_status who c2 at t n)
  have "distinct (map c_id (b_cases b))"
    using assms(2) by (simp add: board_ok_def keys_ok_def)
  then have same: "x = c" if "x \<in> set (b_cases b)" "c_id x = c_id c" for x
    using that distinct_map_eq Move(2) by metis
  have c2: "c_id c2 = c_id c" "c_tenant c2 = c_tenant c" "c_change c2 = c_change c" "c_version c \<le> c_version c2"
    using Move(3,4,9) by (auto simp: same_identity_def)
  have "\<exists>y\<in>set (put_row c_id c2 (b_cases b)). c_id y = c_id x \<and> c_tenant y = c_tenant x \<and>
      c_change y = c_change x \<and> c_version x \<le> c_version y" if x: "x \<in> set (b_cases b)" for x
  proof (cases "c_id x = c_id c")
    case True
    with same [OF x] have "x = c" by simp
    moreover have "c2 \<in> set (put_row c_id c2 (b_cases b))"
      using Move(2) c2(1) by (force simp: in_set_put_row)
    ultimately show ?thesis using c2 by blast
  next
    case False
    with x c2(1) have "x \<in> set (put_row c_id c2 (b_cases b))"
      by (simp add: in_set_put_row)
    then show ?thesis by blast
  qed
  then show ?thesis
    using Move(1) by (simp add: grown_def)
next
  case (Edit f n)
  then have "c_id (f c) = c_id c \<and> c_tenant (f c) = c_tenant c \<and> c_change (f c) = c_change c \<and> c_version c \<le> c_version (f c)"
    if "c \<in> set (b_cases b)" for c
    using that by (auto simp: edit_of_def same_identity_def)
  then show ?thesis using Edit(1) by (auto simp: grown_def)
qed (auto simp: grown_def)

lemma grown_run: "board_step\<^sup>*\<^sup>* b b' \<Longrightarrow> board_ok b \<Longrightarrow> grown b b'"
proof (induction rule: rtranclp_induct)
  case base
  then show ?case by (simp add: grown_refl)
next
  case (step y z)
  then show ?case by (blast intro: grown_trans grown_step board_sys.inv_run)
qed

section \<open>What every reachable state keeps\<close>

text \<open>C1: A case waits for sign-off only when somebody asked, nobody has signed, no action is open, at
  least one piece of live evidence passed the scanner and the assessment was saved; in every state the
  workflow can reach, whatever was requested in whatever order.\<close>

theorem signoff_gate:
  assumes "case_init d0" and "case_step\<^sup>*\<^sup>* d0 d" and "c \<in> set (db_cases d)" and "c_status c = SIGNOFF"
  shows "c_signoff_requested_by c \<noteq> None \<and> c_signed_off_by c = None \<and> c_owner c \<noteq> None \<and>
    open_count d (c_id c) = 0 \<and> 1 \<le> clean_count d (c_id c) \<and> assessment_saved d (c_id c)"
  using reachable_good [OF assms(1,2,3)] assms(4) by (auto simp: good_case_def case_check_defs)

theorem signoff_gate_witness:
  "c_status ex_case_waiting = SIGNOFF \<and> open_count ex_waiting 20 = 0 \<and> 1 \<le> clean_count ex_waiting 20 \<and>
    assessment_saved ex_waiting 20"
  using signoff_gate [OF ex_init ex_reach_waiting, of ex_case_waiting] by (simp add: ex_cases ex_case_defs)

text \<open>C2: Four eyes: a case that carries a signer is closed as signed off, was requested by somebody else,
  and closed with no open action, clean evidence and a saved assessment.\<close>

theorem two_people_signed:
  assumes "case_init d0" and "case_step\<^sup>*\<^sup>* d0 d" and "c \<in> set (db_cases d)" and "c_signed_off_by c = Some u"
  shows "\<exists>r. c_signoff_requested_by c = Some r \<and> r \<noteq> u \<and> c_status c = CLOSED \<and>
    close_reason_kind_of d c = Some (Some SIGNED_OFF) \<and>
    open_count d (c_id c) = 0 \<and> 1 \<le> clean_count d (c_id c) \<and> assessment_saved d (c_id c)"
  using reachable_good [OF assms(1,2,3)] assms(4) by (auto simp: good_case_def case_check_defs kind_in_db)

theorem two_people_signed_witness:
  "\<exists>r. c_signed_off_by ex_case_signed = Some 3 \<and> c_signoff_requested_by ex_case_signed = Some r \<and> r \<noteq> 3"
  using two_people_signed [OF ex_init ex_reach_signed, of ex_case_signed 3] by (auto simp: ex_cases ex_case_defs)



text \<open>C4: The ledger is honest: the rows of a case are a path of moves the machine draws, each starting
  where the one before ended, from new to the category the case stands in.\<close>

theorem ledger_is_a_path:
  assumes "case_init d0" and "case_step\<^sup>*\<^sup>* d0 d" and "c \<in> set (db_cases d)"
  shows "chain NEW (filter (\<lambda>t. t_case t = c_id c) (db_transitions d)) (c_status c)"
  using reachable_good [OF assms] by (simp add: good_case_def moves_of_def)

theorem ledger_is_a_path_witness:
  "chain NEW (filter (\<lambda>t. t_case t = 20) (db_transitions ex_signed)) CLOSED"
  using ledger_is_a_path [OF ex_init ex_reach_signed, of ex_case_signed] by (simp add: ex_cases ex_case_defs)

text \<open>The ledger is append-only and no case is ever lost: every later state has the earlier ledger as
  a prefix and every earlier case, with its bank, its change and a version that never went back.\<close>

theorem ledger_append_only:
  assumes "case_init d0" and "case_step\<^sup>*\<^sup>* d0 d" and "case_step\<^sup>*\<^sup>* d d'"
  shows "prefix (db_transitions d) (db_transitions d') \<and>
    (\<forall>c\<in>set (db_cases d). \<exists>c'\<in>set (db_cases d'). c_id c' = c_id c \<and> c_tenant c' = c_tenant c \<and>
      c_change c' = c_change c \<and> c_version c \<le> c_version c')"
proof -
  have "case_ok d" by (rule case_sys.inv_reachable [OF assms(1,2)])
  then have "grown (board_of d) (board_of d')"
    using case_run_board [OF assms(3)] grown_run by (simp add: case_ok_def)
  then show ?thesis by (simp add: grown_def)
qed

theorem ledger_append_only_witness:
  "prefix (db_transitions ex_waiting) (db_transitions ex_signed)"
  using ledger_append_only [OF ex_init ex_reach_waiting] ex_step_signed by blast

text \<open>One case per bank and change, no primary key twice, one assessment per case, and every action,
  piece of evidence, assessment and ledger row belongs to a case of its own bank.\<close>

theorem rows_are_where_they_belong:
  assumes "case_init d0" and "case_step\<^sup>*\<^sup>* d0 d"
  shows "distinct (map (\<lambda>c. (c_tenant c, c_change c)) (db_cases d)) \<and> distinct (map c_id (db_cases d)) \<and>
    distinct (map a_id (db_actions d)) \<and> distinct (map e_id (db_evidence d)) \<and>
    distinct (map ia_case (db_assessments d)) \<and>
    (\<forall>a\<in>set (db_actions d). \<exists>c\<in>set (db_cases d). c_id c = a_case a \<and> c_tenant c = a_tenant a) \<and>
    (\<forall>e\<in>set (db_evidence d). \<exists>c\<in>set (db_cases d). c_id c = e_case e \<and> c_tenant c = e_tenant e) \<and>
    (\<forall>a\<in>set (db_assessments d). \<exists>c\<in>set (db_cases d). c_id c = ia_case a \<and> c_tenant c = ia_tenant a) \<and>
    (\<forall>t\<in>set (db_transitions d). \<exists>c\<in>set (db_cases d). c_id c = t_case t \<and> c_tenant c = t_tenant t)"
  using case_ok_parts(1,2) [OF case_sys.inv_reachable [OF assms]] by (simp add: keys_ok_def zones_ok_def)

theorem rows_are_where_they_belong_witness:
  "distinct (map (\<lambda>c. (c_tenant c, c_change c)) (db_cases ex_signed)) \<and> distinct (map ia_case (db_assessments ex_signed))"
  using rows_are_where_they_belong [OF ex_init ex_reach_signed] by blast

end
