(* ===== verification/Move_Theorems.thy ===== *)
theory Move_Theorems
  imports Case_Example
begin

text \<open>
  What one move promises: the version it was read at, the refusals of the machine against the
  CHECKs of the table, and what the answer offers next.
\<close>

section \<open>A move is an optimistic write\<close>

text \<open>The calls that move a case or save its assessment, and those that state a version of it.\<close>

fun moves_case :: "case_call \<Rightarrow> uuid option" where
  "moves_case (Triage ch _) = Some ch"
| "moves_case (Dismiss ch _) = Some ch"
| "moves_case (Restore ch) = Some ch"
| "moves_case (Start_assessment ch) = Some ch"
| "moves_case (Save_assessment ch _) = Some ch"
| "moves_case (Close_case ch _ _) = Some ch"
| "moves_case (Request_signoff ch) = Some ch"
| "moves_case (Approve_signoff ch _) = Some ch"
| "moves_case (Send_back_signoff ch _) = Some ch"
| "moves_case _ = None"

fun states_version :: "case_call \<Rightarrow> uuid option" where
  "states_version (Add_action ch _) = Some ch"
| "states_version c = moves_case c"

definition bumped :: "uuid \<Rightarrow> uuid \<Rightarrow> nat option \<Rightarrow> db \<Rightarrow> db \<Rightarrow> bool" where
  "bumped t ch ver d d' \<longleftrightarrow> (\<exists>c c'. load_case t ch d = Inr c \<and> ver = Some (c_version c) \<and>
    load_case t ch d' = Inr c' \<and> c_version c' = Suc (c_version c))"

lemma find_put:
  assumes "find P rows = Some c" and "key c' = key c" and "P c'"
  shows "find P (put_row key c' rows) = Some c'"
  using assms
proof (induction rows)
  case Nil
  then show ?case by simp
next
  case (Cons x xs)
  then show ?case by (cases "P x"; cases "key x = key c") auto
qed

lemma load_after_put:
  assumes "load_case t ch d = Inr c" and "db_cases d' = put_row c_id c' (db_cases d)"
    and "c_id c' = c_id c" "c_tenant c' = c_tenant c" "c_change c' = c_change c"
  shows "load_case t ch d' = Inr c'"
  using assms load_caseD [OF assms(1)] by (simp add: load_case_Inr find_put [where c = c])

lemma bumped_transition:
  assumes "load_case t ch d = Inr c" and "transition c1 to_status a w n au su bh d = Inr (c2, d2)"
    and "c_id c1 = c_id c" "c_tenant c1 = c_tenant c" "c_change c1 = c_change c" "c_version c1 = c_version c"
    and "db_cases d' = db_cases d2"
  shows "bumped t ch (Some (c_version c)) d d'"
  using assms(2)
proof (rule transition_Inr)
  assume "c2 = moved_case c1 to_status d" and "db_cases d2 = put_row c_id c2 (db_cases d)"
  with assms have "load_case t ch d' = Inr c2" "c_version c2 = Suc (c_version c)"
    by (auto intro: load_after_put simp: moved_case_def)
  with assms(1) show ?thesis by (auto simp: bumped_def)
qed

text \<open>The handlers, one by one.\<close>

lemma bumped_triage: "triage_change rq ch ver body d = Inr (out, d') \<Longrightarrow> bumped (rq_tenant rq) ch ver d d'"
  by (auto simp: triage_change_def Let_def ebind_eq_Inr check_version_Inr triaged_case_def
    dest!: notify_frame(8) intro!: bumped_transition split: prod.splits)

lemma bumped_dismiss: "dismiss_change rq ch ver key d = Inr (out, d') \<Longrightarrow> bumped (rq_tenant rq) ch ver d d'"
  by (auto simp: dismiss_change_def ebind_eq_Inr check_version_Inr dismissed_case_def
    intro!: bumped_transition split: prod.splits)

lemma bumped_close: "close_without_action rq ch ver key note d = Inr (out, d') \<Longrightarrow> bumped (rq_tenant rq) ch ver d d'"
  by (auto simp: close_without_action_def ebind_eq_Inr check_version_Inr closed_case_def
    intro!: bumped_transition split: prod.splits)

lemma bumped_start: "start_assessment rq ch ver d = Inr (out, d') \<Longrightarrow> bumped (rq_tenant rq) ch ver d d'"
  by (auto simp: start_assessment_def Let_def ebind_eq_Inr check_version_Inr get_or_create_assessment_def
    intro!: bumped_transition split: prod.splits)

lemma bumped_request: "request_signoff rq ch ver d = Inr (out, d') \<Longrightarrow> bumped (rq_tenant rq) ch ver d d'"
  by (auto simp: request_signoff_def Let_def ebind_eq_Inr map_err_eq_Inr check_version_Inr
    dest!: notify_frame(8) intro!: bumped_transition split: prod.splits)

lemma bumped_approve: "approve_signoff rq ch ver note su d = Inr (out, d') \<Longrightarrow> bumped (rq_tenant rq) ch ver d d'"
  by (auto simp: approve_signoff_def Let_def ebind_eq_Inr check_version_Inr
    intro!: bumped_transition split: prod.splits)

lemma bumped_send_back: "send_back_signoff rq ch ver note d = Inr (out, d') \<Longrightarrow> bumped (rq_tenant rq) ch ver d d'"
  by (auto simp: send_back_signoff_def Let_def ebind_eq_Inr check_version_Inr
    intro!: bumped_transition split: prod.splits)

lemma bumped_restore:
  assumes "restore_change rq ch ver d = Inr (out, d')"
  shows "bumped (rq_tenant rq) ch ver d d'"
proof -
  from assms obtain c c1 d1 d2 where c: "load_case (rq_tenant rq) ch d = Inr c" and ver: "ver = Some (c_version c)"
    and tr: "transition c NEW (rq_actor rq) (Some (rq_user rq)) [] [] None [] d = Inr (c1, d1)"
    and sv: "save_case (restored_case c1) d1 = Inr d2" and d': "d' = d2"
    by (auto simp: restore_change_def Let_def ebind_eq_Inr check_version_Inr)
  from tr have c1: "c1 = moved_case c NEW d" and d1: "db_cases d1 = put_row c_id c1 (db_cases d)"
    by (auto elim: transition_Inr)
  then have l1: "load_case (rq_tenant rq) ch d1 = Inr c1"
    by (intro load_after_put [OF c]) (simp_all add: moved_case_def)
  have "load_case (rq_tenant rq) ch d' = Inr ((restored_case c1)\<lparr>c_updated_at := db_now d1\<rparr>)"
    using sv d' by (intro load_after_put [OF l1]) (auto simp: save_case_Inr restored_case_def)
  with c ver c1 show ?thesis
    by (auto simp: bumped_def restored_case_def moved_case_def)
qed

lemma bumped_save:
  assumes "save_assessment rq ch ver body may d = Inr (out, d')"
  shows "bumped (rq_tenant rq) ch ver d d'"
proof -
  obtain c where c: "load_case (rq_tenant rq) ch d = Inr c"
    using assms by (auto simp: save_assessment_def ebind_eq_Inr)
  from assms c show ?thesis
  proof (rule save_assessment_Inr)
    fix effort sub reason :: "vocab_row option" and a d1 c3 d3
    let ?c1 = "c\<lparr>c_sub_status := map_option v_id sub\<rparr>"
    assume ver: "ver = Some (c_version c)"
      and row: "save_assessment_row (saved_assessment a body effort (rq_user rq) d) d = Inr d1"
      and mv: "if ab_applies body = NO
        then transition (?c1\<lparr>c_close_reason := map_option v_id reason, c_closed_at := Some (db_now d1)\<rparr>) CLOSED
          (rq_actor rq) (Some (rq_user rq)) [] [] None [] d1 = Inr (c3, d3)
        else save_case (?c1\<lparr>c_version := Suc (c_version c)\<rparr>) d1 = Inr d3 \<and>
          c3 = ?c1\<lparr>c_version := Suc (c_version c), c_updated_at := db_now d1\<rparr>"
      and d': "d' = record_event (saved_entry rq c3 body effort sub reason d3) d3"
    have l1: "load_case (rq_tenant rq) ch d1 = Inr c"
      using c row by (simp add: load_case_Inr save_row_cases)
    have "bumped (rq_tenant rq) ch ver d1 d'"
    proof (cases "ab_applies body = NO")
      case True
      with mv d' ver show ?thesis
        by (auto intro: bumped_transition [OF l1] simp: frame_simps)
    next
      case False
      with mv d' have "load_case (rq_tenant rq) ch d' = Inr c3"
        by (intro load_after_put [OF l1]) (auto simp: save_case_Inr frame_simps)
      with l1 ver mv False show ?thesis by (auto simp: bumped_def)
    qed
    with c l1 show ?thesis by (simp add: bumped_def)
  qed
qed

lemmas bumped_handlers = bumped_triage bumped_dismiss bumped_restore bumped_close bumped_start bumped_save
  bumped_request bumped_approve bumped_send_back

lemma stated_Inr_iff: "stated p ifm = Inr (rq, ver) \<longleftrightarrow> request_of p = Inr rq \<and> if_match ifm = Inr ver"
  by (auto simp: stated_def ebind_eq_Inr)

lemma route_bumps:
  assumes "route rs p ifm order c d = Inr d'" and "moves_case c = Some ch"
  shows "\<exists>t ver. p_tenant p = Some t \<and> if_match ifm = Inr ver \<and> bumped t ch ver d d'"
  using assms
  by (cases c) (auto simp: inr_simps route_defs stated_Inr_iff dest!: request_of_Inr intro: bumped_handlers)

text \<open>Whoever states another version is refused.\<close>

lemma stale_handlers:
  assumes "find (\<lambda>c. c_tenant c = rq_tenant rq \<and> c_change c = ch) (db_cases d) = Some c" and "ver \<noteq> Some (c_version c)"
  shows "triage_change rq ch ver tb d \<noteq> Inr r1" "dismiss_change rq ch ver key d \<noteq> Inr r1"
    "restore_change rq ch ver d \<noteq> Inr r1" "close_without_action rq ch ver key note d \<noteq> Inr r1"
    "start_assessment rq ch ver d \<noteq> Inr r1" "save_assessment rq ch ver ab may d \<noteq> Inr r1"
    "request_signoff rq ch ver d \<noteq> Inr r1" "approve_signoff rq ch ver note su d \<noteq> Inr r1"
    "send_back_signoff rq ch ver note d \<noteq> Inr r1" "add_action mx rq ch ver xb d \<noteq> Inr r2"
  using assms
  by (simp_all add: triage_change_def dismiss_change_def restore_change_def close_without_action_def
    start_assessment_def save_assessment_def request_signoff_def approve_signoff_def send_back_signoff_def
    add_action_def Let_def load_case_def ebind_eq_Inr check_version_Inr)

lemma route_stale:
  assumes "states_version c = Some ch" and "p_tenant p = Some t" and "load_case t ch d = Inr x"
    and "if_match ifm = Inr ver" and "ver \<noteq> Some (c_version x)"
  shows "route rs p ifm order c d \<noteq> Inr d'"
  using assms
  by (cases c) (auto simp: inr_simps route_defs stated_Inr_iff dest!: request_of_Inr
    simp: stale_handlers)

lemma refused_if: "(\<And>z. r \<noteq> Inr z) \<Longrightarrow> isl r"
  by (cases r) auto



section \<open>The machine refuses before the table does\<close>

lemma never_integrity [simp]:
  "load_case t ch d \<noteq> Inl Integrity_error"
  "check_version c e \<noteq> Inl Integrity_error"
  "vocab_row_of l k t kd d \<noteq> Inl Integrity_error"
  "vocab_row_option l ko t kd d \<noteq> Inl Integrity_error"
  "case_owner t u d \<noteq> Inl Integrity_error"
  "case_response_of c r d \<noteq> Inl Integrity_error"
  "notify t nk st si cs ac d \<noteq> Inl Integrity_error"
  "signed_off_reason t d \<noteq> Inl Integrity_error"
  by (auto simp: load_case_def check_version_def vocab_row_of_def vocab_row_option_def case_owner_def
    case_response_of_def notify_def subject_def signed_off_reason_def Let_def or_else_eq_Inl ebind_eq_Inl
    split: option.splits if_splits prod.splits)

text \<open>A move the machine allows leaves a row every CHECK accepts.\<close>

lemma transition_integrity:
  assumes "transition c1 to_status a w n au su bh d = Inl Integrity_error"
  obtains kind where "c_id c1 \<in> c_id ` set (db_cases d)" "kind_in (db_vocab d) (c_close_reason c1) = Some kind"
    "check_transition (c_status c1) to_status (board_facts (board_of d) c1 w kind) = Inr ()"
    "\<not> case_checks (moved_case c1 to_status d)"
proof -
  obtain facts where f: "case_facts_of c1 w d = Some facts"
    using assms by (cases "case_facts_of c1 w d") (auto simp: transition_def)
  have "check_transition (c_status c1) to_status facts = Inr ()" "\<not> case_checks (moved_case c1 to_status d)"
    using assms f
    by (cases "check_transition (c_status c1) to_status facts"; auto simp: transition_def Let_def save_case_def split: if_splits)+
  with f show ?thesis
    by (auto simp: case_facts_of_board intro: that)
qed

lemma checks_of_move:
  assumes chk: "case_checks c" and unsigned: "c_status c \<noteq> CLOSED \<Longrightarrow> c_signed_off_by c = None" and id: "same_identity c c1"
    and cols: "c_so_what_confirmed c1 = c_so_what_confirmed c" "c_so_what_confirmed_by c1 = c_so_what_confirmed_by c"
      "c_so_what_confirmed_at c1 = c_so_what_confirmed_at c"
    and own: "to_status = ASSIGNED \<or> c_owner c1 = c_owner c"
    and guard: "check_transition (c_status c1) to_status (board_facts b c1 who kind) = Inr ()"
    and signer: "c_signed_off_by c1 = c_signed_off_by c \<or> (c_status c = SIGNOFF \<and> to_status = CLOSED \<and> c_signed_off_by c1 = who)"
    and asked: "c_signoff_requested_by c1 = c_signoff_requested_by c \<or> to_status \<in> {SIGNOFF, IMPLEMENTING}"
  shows "case_checks (moved_case c1 to_status d)"
proof -
  have st: "c_status c1 = c_status c" using id by (simp add: same_identity_def)
  have edge: "to_status \<in> set (TRANSITIONS (c_status c))"
    using guard st by (simp add: check_transition_Inr)
  have "owner_check (moved_case c1 to_status d)"
    using guard chk own edge st
    by (cases to_status; cases "c_status c")
      (auto simp: owner_check_def moved_case_def case_check_defs check_to_assigned board_facts_def)
  moreover have "dismissal_check (moved_case c1 to_status d)"
    using guard st by (cases "to_status = DISMISSED") (auto simp: dismissal_check_def moved_case_def check_to_dismissed board_facts_def)
  moreover have "so_what_check (moved_case c1 to_status d)"
    using chk cols by (simp add: case_checks_def so_what_check_def moved_case_def)
  moreover have "four_eyes_check (moved_case c1 to_status d)"
    using chk signer asked unsigned guard st edge
    by (cases to_status; cases "c_status c")
      (auto simp: four_eyes_check_def moved_case_def case_checks_def check_to_closed board_facts_def)
  ultimately show ?thesis by (simp add: case_checks_def)
qed

lemma no_integrity:
  assumes ok: "case_ok d" and c: "load_case t ch d = Inr c" and id: "same_identity c c1"
    and cols: "c_so_what_confirmed c1 = c_so_what_confirmed c" "c_so_what_confirmed_by c1 = c_so_what_confirmed_by c"
      "c_so_what_confirmed_at c1 = c_so_what_confirmed_at c"
    and own: "to_status = ASSIGNED \<or> c_owner c1 = c_owner c"
    and signer: "c_signed_off_by c1 = c_signed_off_by c \<or> (c_status c = SIGNOFF \<and> to_status = CLOSED \<and> c_signed_off_by c1 = w)"
    and asked: "c_signoff_requested_by c1 = c_signoff_requested_by c \<or> to_status \<in> {SIGNOFF, IMPLEMENTING}"
  shows "transition c1 to_status a w n au su bh d \<noteq> Inl Integrity_error"
proof
  assume bad: "transition c1 to_status a w n au su bh d = Inl Integrity_error"
  have "good_case (board_of d) c"
    using ok load_caseD [OF c] by (auto simp: case_ok_def board_ok_def)
  then have "case_checks c" "c_status c \<noteq> CLOSED \<Longrightarrow> c_signed_off_by c = None"
    by (auto simp: good_case_def)
  with transition_integrity [OF bad] checks_of_move [OF _ _ id cols own _ signer asked]
  show False by metis
qed

lemma map_err_Inl: "map_err g m = Inl e \<longleftrightarrow> (\<exists>e'. m = Inl e' \<and> e = g e')"
  by (cases m) auto

lemma with_counts_integrity [simp]: "Integrity_error = with_counts c w d e \<longleftrightarrow> e = Integrity_error"
  by (cases e) (auto simp: with_counts_def split: option.splits)

text \<open>A handler runs into no CHECK when none of its steps does.\<close>

lemma ebind_clear:
  assumes "m \<noteq> Inl e" and "\<And>x. m = Inr x \<Longrightarrow> f x \<noteq> Inl e"
  shows "ebind m f \<noteq> Inl e"
  using assms by (auto simp: ebind_eq_Inl)

lemma ensure_clear: "e' \<noteq> e \<Longrightarrow> ensure b e' \<noteq> Inl e"
  by (simp add: ensure_def)

lemma map_err_clear: "m \<noteq> Inl Integrity_error \<Longrightarrow> map_err (with_counts c w d) m \<noteq> Inl Integrity_error"
  by (auto simp: map_err_Inl)

lemma case_prod_clear: "(\<And>a b. x = (a, b) \<Longrightarrow> f a b \<noteq> Inl e) \<Longrightarrow> case_prod f x \<noteq> Inl e"
  by (cases x) simp

lemmas clear = ebind_clear ensure_clear map_err_clear case_prod_clear

lemmas moved_columns = triaged_case_def dismissed_case_def closed_case_def restored_case_def same_identity_def

lemma triage_clear: "case_ok d \<Longrightarrow> triage_change rq ch ver tb d \<noteq> Inl Integrity_error"
  unfolding triage_change_def Let_def by (intro clear) (auto simp: moved_columns no_integrity)

lemma dismiss_clear: "case_ok d \<Longrightarrow> dismiss_change rq ch ver key d \<noteq> Inl Integrity_error"
  unfolding dismiss_change_def Let_def by (intro clear) (auto simp: moved_columns no_integrity)

lemma close_clear: "case_ok d \<Longrightarrow> close_without_action rq ch ver key note d \<noteq> Inl Integrity_error"
  unfolding close_without_action_def Let_def by (intro clear) (auto simp: moved_columns no_integrity)

lemma start_clear: "case_ok d \<Longrightarrow> start_assessment rq ch ver d \<noteq> Inl Integrity_error"
  unfolding start_assessment_def Let_def by (intro clear) (auto simp: moved_columns no_integrity)

lemma request_clear: "case_ok d \<Longrightarrow> request_signoff rq ch ver d \<noteq> Inl Integrity_error"
  unfolding request_signoff_def Let_def by (intro clear) (auto simp: moved_columns no_integrity)

lemma approve_clear: "case_ok d \<Longrightarrow> approve_signoff rq ch ver note su d \<noteq> Inl Integrity_error"
  unfolding approve_signoff_def Let_def by (intro clear) (auto simp: moved_columns no_integrity ensure_eq_Inr)

lemma send_back_clear: "case_ok d \<Longrightarrow> send_back_signoff rq ch ver note d \<noteq> Inl Integrity_error"
  unfolding send_back_signoff_def Let_def by (intro clear) (auto simp: moved_columns no_integrity)

lemma restore_clear:
  assumes "case_ok d"
  shows "restore_change rq ch ver d \<noteq> Inl Integrity_error"
proof -
  have "save_case (restored_case c1) d1 \<noteq> Inl Integrity_error"
    if "transition c NEW a w n au su bh d = Inr (c1, d1)" for c c1 a w n au su bh d1
    using that by (auto simp: save_case_def restored_case_def case_check_defs moved_case_def elim!: transition_Inr)
  then show ?thesis
    using assms unfolding restore_change_def Let_def by (intro clear) (auto simp: moved_columns no_integrity)
qed

lemma save_clear:
  assumes "case_ok d" and why: "ab_why body \<noteq> []"
  shows "save_assessment rq ch ver body may d \<noteq> Inl Integrity_error"
proof -
  have row: "save_assessment_row (saved_assessment a body effort u d) d \<noteq> Inl Integrity_error" for a effort u
    using why by (simp add: save_assessment_row_def assessment_checks_def saved_assessment_def)
  have keep: "save_case (c\<lparr>c_sub_status := sub, c_version := Suc (c_version c)\<rparr>) d1 \<noteq> Inl Integrity_error"
    if c: "load_case (rq_tenant rq) ch d = Inr c" for c sub d1
    using assms(1) load_caseD [OF c]
    by (auto simp: case_ok_def board_ok_def good_case_def save_case_def case_check_defs)
  have move: "transition (c\<lparr>c_sub_status := sub, c_close_reason := r, c_closed_at := at\<rparr>) CLOSED a w n au su bh d1 \<noteq> Inl Integrity_error"
    if c: "load_case (rq_tenant rq) ch d = Inr c" and st: "c_status c \<in> set SAVABLE" for c sub r at a w n au su bh d1
  proof
    assume bad: "transition (c\<lparr>c_sub_status := sub, c_close_reason := r, c_closed_at := at\<rparr>) CLOSED a w n au su bh d1 = Inl Integrity_error"
    have "case_checks c" "c_signed_off_by c = None"
      using assms(1) load_caseD [OF c] st by (auto simp: case_ok_def board_ok_def good_case_def SAVABLE_def)
    with bad show False
      by (elim transition_integrity, elim notE) (rule checks_of_move; simp add: same_identity_def)
  qed
  have keys: "optional_key k f \<noteq> Inl Integrity_error" if "\<And>k. f k \<noteq> Inl Integrity_error" for k and f :: "string \<Rightarrow> error + vocab_row"
    using that by (auto simp: optional_key_def ebind_eq_Inl split: option.splits)
  have resolved: "resolve_key l k t d \<noteq> Inl Integrity_error" "sub_status_of k cat t d \<noteq> Inl Integrity_error" for l k t cat
    by (simp_all add: resolve_key_def sub_status_of_def Let_def or_else_eq_Inl)
  show ?thesis
    unfolding save_assessment_def Let_def
    by (intro clear; (simp only: if_split)?) (auto simp: row keep move keys resolved or_else_eq_Inl ebind_eq_Inl ensure_eq_Inr split: if_splits)
qed

lemma route_clear:
  assumes "case_ok d" and "moves_case c = Some ch" and "\<And>x body. c = Save_assessment x body \<Longrightarrow> ab_why body \<noteq> []"
  shows "route rs p ifm order c d \<noteq> Inl Integrity_error"
proof -
  have gate: "requires_permission perm p view \<noteq> Inl Integrity_error" if "view () \<noteq> Inl Integrity_error" for perm p
    and view :: "unit \<Rightarrow> error + 'z"
    using that by (simp add: requires_permission_def)
  have head: "stated p ifm \<noteq> Inl Integrity_error" "enforce_step_up m p d \<noteq> Inl Integrity_error" for m
    by (auto simp: stated_def request_of_def caller_tenant_def caller_user_def if_match_def enforce_step_up_def
      ebind_eq_Inl or_else_eq_Inl split: option.splits if_splits)
  have answer: "map_sum id snd m \<noteq> Inl Integrity_error" if "m \<noteq> Inl Integrity_error" for m :: "error + 'z \<times> db"
    using that by (cases m) auto
  note handlers = triage_clear dismiss_clear restore_clear close_clear start_clear save_clear request_clear approve_clear
    send_back_clear
  show ?thesis
    using assms(2,3)
    by (cases c; simp add: route_defs; (intro answer gate clear head handlers [OF assms(1)])?; simp?)
qed

text \<open>C8: The guards come before the constraints: in every state the workflow can reach, no move of a case
  and no save of an assessment with a reason ends in a CHECK the database refuses; what the machine
  lets through, the table accepts.\<close>

theorem guards_imply_checks:
  assumes "case_init d0" and "case_step\<^sup>*\<^sup>* d0 d" and "moves_case c = Some ch"
    and "\<forall>x body. c = Save_assessment x body \<longrightarrow> ab_why body \<noteq> []"
  shows "call rs who ifm order c d \<noteq> Inl Integrity_error"
proof -
  have "route rs p ifm order c d \<noteq> Inl Integrity_error" for p
    using route_clear [OF case_sys.inv_reachable [OF assms(1,2)] assms(3)] assms(4) by blast
  moreover have "session_auth who \<noteq> Inl Integrity_error"
    by (simp add: session_auth_def unauthenticated_def split: option.splits)
  ultimately show ?thesis
    unfolding call_def by (intro ebind_clear)
qed

theorem guards_imply_checks_witness:
  "call ex_routes (Some (caller 2 [''cases.signoff''])) (Some ''6'') [] (Approve_signoff 7 ''note'') ex_waiting \<noteq> Inl Integrity_error"
  by (rule guards_imply_checks [OF ex_init ex_reach_waiting, of _ 7]) simp_all

section \<open>What the answer offers\<close>

text \<open>What a read offers is what a move can get: a category is among the allowed transitions exactly when
  some request (an owner, a dismissal reason, a close reason) would pass the check from where the
  case stands, everything else being as the read found it.\<close>

theorem offers_are_what_can_pass:
  "to_status \<in> set (allowed_transitions category facts) \<longleftrightarrow>
    (\<exists>own reason kind. check_transition category to_status
      (facts\<lparr>owner_set := own, reason_given := reason,
        close_reason_kind := (if category \<in> {ASSIGNED, ASSESSING} then kind else close_reason_kind facts)\<rparr>) = Inr ())"
  by (cases category; cases to_status)
    (auto simp: allowed_transitions_def check_transition_Inr guard_simps intro!: exI [of _ True] exI [of _ "Some NO_ACTION"])

lemma close_reason_left: "k \<noteq> NO_ACTION \<Longrightarrow> k \<noteq> NOT_APPLICABLE \<Longrightarrow> k = SIGNED_OFF"
  by (cases k) simp_all


definition ex_facts :: case_facts where
  "ex_facts = \<lparr>owner_set = True, reason_given = False, why_saved = True, open_action_count = 2, clean_evidence_count = 0,
     signoff_requester = None, actor = Some 2, close_reason_kind = None\<rparr>"


lemma notify_answers:
  assumes "find (\<lambda>t. tn_id t = tenant) (db_tenants d) = Some tn"
  shows "\<exists>d' ns. notify tenant k SUBJECT_TYPE i cs ac d = Inr (d', ns)"
  using assms by (simp add: notify_def subject_def SUBJECTS_def Let_def split: option.splits)

text \<open>The read's \<open>canRequestSignoff\<close> is the truth: for a case read in any reachable state, a request for
  sign-off at the version read is answered exactly when the flag is set, whether the flag's reader or any
  other person of the bank asks.\<close>

theorem offered_signoff_is_answered:
  assumes "case_init d0" and "case_step\<^sup>*\<^sup>* d0 d" and c: "load_case (rq_tenant rq) ch d = Inr c"
    and read: "case_response_of c reader d = Inr out"
    and bank: "\<exists>t\<in>set (db_tenants d). tn_id t = rq_tenant rq"
  shows "o_can_request_signoff out \<longleftrightarrow> \<not> isl (request_signoff rq ch (Some (c_version c)) d)"
proof -
  let ?me = "Some (rq_user rq)"
  let ?c1 = "c\<lparr>c_signoff_requested_by := ?me, c_signoff_requested_at := Some (db_now d)\<rparr>"
  have ok: "case_ok d" and mem: "c \<in> set (db_cases d)" and ten: "c_tenant c = rq_tenant rq"
    using case_sys.inv_reachable [OF assms(1,2)] load_caseD [OF c] by auto
  from read obtain kind where kind: "kind_in (db_vocab d) (c_close_reason c) = Some kind"
    and out: "o_can_request_signoff out \<longleftrightarrow> SIGNOFF \<in> set (allowed_transitions (c_status c) (board_facts (board_of d) c reader kind))"
    by (auto simp: case_response_Inr case_facts_of_board)
  let ?f = "board_facts (board_of d) ?c1 ?me kind"
  have facts: "case_facts_of ?c1 ?me d = Some ?f"
    using mem kind by (auto simp: case_facts_of_board)
  have same: "o_can_request_signoff out \<longleftrightarrow> check_transition (c_status c) SIGNOFF ?f = Inr ()"
    unfolding out by (cases "c_status c") (auto simp: allowed_transitions_def check_to_signoff guard_simps board_facts_def)
  show ?thesis
  proof (cases "check_transition (c_status c) SIGNOFF ?f = Inr ()")
    case False
    have "transition ?c1 SIGNOFF a w n au su bh d \<noteq> Inr z" if "w = ?me" for a w n au su bh z
      using False facts that by (cases "check_transition (c_status c) SIGNOFF ?f") (auto simp: transition_def)
    then have "request_signoff rq ch (Some (c_version c)) d \<noteq> Inr z" for z
      using c by (auto simp: request_signoff_def Let_def ebind_eq_Inr map_err_eq_Inr)
    then show ?thesis using False same refused_if [of "request_signoff rq ch (Some (c_version c)) d"] by auto
  next
    case True
    have "\<exists>c2 d2. transition ?c1 SIGNOFF a ?me n au su bh d = Inr (c2, d2)" for a n au su bh
    proof -
      have "transition ?c1 SIGNOFF a ?me n au su bh d \<noteq> Inl Integrity_error"
        by (rule no_integrity [OF ok c]) (simp_all add: same_identity_def)
      then have "case_checks (moved_case ?c1 SIGNOFF d)"
        using facts True by (auto simp: transition_def save_case_def Let_def split: if_splits)
      then show ?thesis
        using facts True by (simp add: transition_def save_case_def Let_def)
    qed
    then obtain c2 d2 where tr: "transition ?c1 SIGNOFF (rq_actor rq) ?me [] [] None [] d = Inr (c2, d2)"
      by blast
    then have c2: "c2 = moved_case ?c1 SIGNOFF d" and d2: "db_cases d2 = put_row c_id c2 (db_cases d)"
      "db_vocab d2 = db_vocab d" "db_tenants d2 = db_tenants d"
      by (auto elim: transition_Inr)
    have "find (\<lambda>t. tn_id t = rq_tenant rq) (db_tenants d) \<noteq> None"
      using bank by (simp add: find_None_all)
    then obtain tn where "find (\<lambda>t. tn_id t = c_tenant c2) (db_tenants d2) = Some tn"
      using c2 d2 ten by (auto simp: moved_case_def)
    from notify_answers [OF this] obtain d3 ns where
      nt: "notify (c_tenant c2) SIGNOFF_REQUESTED SUBJECT_TYPE (c_id c2) (approvers c2 (rq_user rq) d2) ?me d2 = Inr (d3, ns)"
      by blast
    have "c_id ` set (db_cases d3) = c_id ` set (db_cases d)"
      using notify_frame(8) [OF nt] d2(1) by (metis map_key_put_row set_map)
    then have "c_id c2 \<in> c_id ` set (db_cases d3)" "kind_in (db_vocab d3) (c_close_reason c2) = Some kind"
      using notify_frame(4) [OF nt] d2(2) c2 mem kind by (simp_all add: moved_case_def)
    then have "\<exists>out. case_response_of c2 ?me d3 = Inr out"
      by (auto simp: case_response_Inr case_facts_of_board)
    with c tr nt have "\<exists>z. request_signoff rq ch (Some (c_version c)) d = Inr z"
      by (auto simp: request_signoff_def Let_def check_version_def)
    then show ?thesis using True same by auto
  qed
qed

theorem offered_signoff_is_answered_witness:
  "load_case 1 7 ex_evidenced = Inr ex_case_implementing \<and>
    \<not> isl (request_signoff (req 2) 7 (Some (c_version ex_case_implementing)) ex_evidenced)"
proof -
  have c: "load_case (rq_tenant (req 2)) 7 ex_evidenced = Inr ex_case_implementing"
    by code_simp
  have "map_sum id o_can_request_signoff (case_response_of ex_case_implementing (Some 4) ex_evidenced) = Inr True"
    by code_simp
  then obtain out where "case_response_of ex_case_implementing (Some 4) ex_evidenced = Inr out" "o_can_request_signoff out"
    by (cases "case_response_of ex_case_implementing (Some 4) ex_evidenced") auto
  moreover have "\<exists>t\<in>set (db_tenants ex_evidenced). tn_id t = rq_tenant (req 2)"
    by (simp add: ex_evidenced_def ex_db_def req_def)
  ultimately show ?thesis
    using offered_signoff_is_answered [OF ex_init ex_reach_evidenced c] c by (simp add: req_def)
qed

text \<open>C9: Sending back is not tied to the sign-off edge: a case that is still being assessed, with its reason
  saved, is moved to implementing by a send-back, though nobody ever asked for its sign-off.  (The
  approval checks the category first; the send-back relies on the edge into implementing, which the
  assessing category also has.)\<close>

theorem send_back_moves_an_assessing_case:
  assumes "case_init d0" and "case_step\<^sup>*\<^sup>* d0 d" and c: "load_case (rq_tenant rq) ch d = Inr c"
    and st: "c_status c = ASSESSING" and saved: "assessment_saved d (c_id c)"
    and kind: "close_reason_kind_of d c \<noteq> None"
  shows "c_signoff_requested_by c = None \<and>
    (\<exists>out d'. send_back_signoff rq ch (Some (c_version c)) note d = Inr (out, d') \<and>
      c_status (o_case out) = IMPLEMENTING \<and>
      load_case (rq_tenant rq) ch d' = Inr (o_case out))"
proof -
  let ?me = "Some (rq_user rq)" and ?c1 = "c\<lparr>c_signoff_requested_by := None, c_signoff_requested_at := None\<rparr>"
  have ok: "case_ok d" and mem: "c \<in> set (db_cases d)"
    using case_sys.inv_reachable [OF assms(1,2)] load_caseD [OF c] by auto
  obtain k where k: "kind_in (db_vocab d) (c_close_reason c) = Some k"
    using kind by (auto simp: kind_in_db)
  have facts: "case_facts_of ?c1 ?me d = Some (board_facts (board_of d) ?c1 ?me k)"
    using mem k by (auto simp: case_facts_of_board)
  have passes: "check_transition ASSESSING IMPLEMENTING (board_facts (board_of d) ?c1 ?me k) = Inr ()"
    using saved by (simp add: check_to_implementing board_facts_def)
  have "transition ?c1 IMPLEMENTING (rq_actor rq) ?me note [] None [] d \<noteq> Inl Integrity_error"
    by (rule no_integrity [OF ok c]) (simp_all add: same_identity_def)
  then obtain d2 where tr: "transition ?c1 IMPLEMENTING (rq_actor rq) ?me note [] None [] d = Inr (moved_case ?c1 IMPLEMENTING d, d2)"
    using facts passes st by (auto simp: transition_def save_case_def Let_def split: if_splits)
  let ?c2 = "moved_case ?c1 IMPLEMENTING d"
  have d2: "db_cases d2 = put_row c_id ?c2 (db_cases d)" "db_vocab d2 = db_vocab d"
    using tr by (auto elim: transition_Inr)
  have l2: "load_case (rq_tenant rq) ch d2 = Inr ?c2"
    using c d2(1) by (rule load_after_put) (simp_all add: moved_case_def)
  have "c_id ?c2 \<in> c_id ` set (db_cases d2)"
    using load_caseD [OF l2] by blast
  moreover have "kind_in (db_vocab d2) (c_close_reason ?c2) = Some k"
    using d2(2) k by (simp add: moved_case_def)
  ultimately obtain out where out: "case_response_of ?c2 ?me d2 = Inr out"
    by (auto simp: case_response_Inr case_facts_of_board)
  then have "o_case out = ?c2" by (auto simp: case_response_Inr)
  moreover have "send_back_signoff rq ch (Some (c_version c)) note d = Inr (out, d2)"
    using c tr out by (simp add: send_back_signoff_def Let_def check_version_def)
  moreover have "c_signoff_requested_by c = None"
    using ok mem st by (auto simp: case_ok_def board_ok_def good_case_def)
  ultimately show ?thesis using l2 by (simp add: moved_case_def)
qed

theorem send_back_moves_an_assessing_case_witness:
  "c_status ex_case_saved = ASSESSING \<and>
    (\<exists>out d'. send_back_signoff (req 3) 7 (Some 4) ''why'' ex_saved = Inr (out, d') \<and> c_status (o_case out) = IMPLEMENTING)"
proof -
  have c: "load_case (rq_tenant (req 3)) 7 ex_saved = Inr ex_case_saved"
    and rest: "c_status ex_case_saved = ASSESSING" "assessment_saved ex_saved (c_id ex_case_saved)"
      "close_reason_kind_of ex_saved ex_case_saved \<noteq> None" "c_version ex_case_saved = 4"
    by code_simp+
  from send_back_moves_an_assessing_case [OF ex_init ex_reach_saved c rest(1-3), of "''why''"] rest(1,4) show ?thesis
    by (simp only:) blast
qed

end
