(* ===== verification/Route_Theorems.thy ===== *)
theory Route_Theorems
  imports Case_Example
begin

text \<open>
  What the routes promise: who is answered, whose rows a call touches, what an approval needs and
  leaves, and that what people type never reaches the audit trail.
\<close>

section \<open>Who is answered\<close>

text \<open>Only a person's own session is answered: every answered write of the case workflow came from a
  signed-in person of a bank who holds the permission of its route; an agent's key or an enrolment
  session is never answered.\<close>

theorem answered_calls_are_permitted:
  assumes "call rs who ifm order c d = Inr d'"
  shows "\<exists>p t. who = Some p \<and> p_kind p = P_USER \<and> p_tenant p = Some t \<and> gate_of c \<in> set (p_permissions p)"
proof -
  from assms obtain p where p: "who = Some p" "p_kind p = P_USER" and r: "route rs p ifm order c d = Inr d'"
    by (auto simp: call_def ebind_eq_Inr session_auth_Inr)
  from r show ?thesis
    by (rule route_runs) (use p in \<open>auto simp: has_permission_def\<close>)
qed

lemma ex_call: "call ex_routes (Some (caller 3 [''cases.signoff''])) (Some ''6'') [] (Approve_signoff 7 ''note'') ex_waiting = Inr ex_signed"
  by code_simp

theorem answered_calls_are_permitted_witness:
  "\<exists>p. Some (caller 3 [''cases.signoff'']) = Some p \<and> gate_of (Approve_signoff 7 ''note'') \<in> set (p_permissions p)"
  using answered_calls_are_permitted [OF ex_call] by blast

text \<open>C5: Banks are isolated: a call answered for one bank leaves the cases, ledger rows, actions, evidence and
  assessments of every other bank exactly as they were.\<close>

theorem banks_are_isolated:
  assumes "case_init d0" and "case_step\<^sup>*\<^sup>* d0 d" and "call rs (Some p) ifm order c d = Inr d'" and "p_tenant p = Some t"
  shows "filter (\<lambda>c. c_tenant c \<noteq> t) (db_cases d') = filter (\<lambda>c. c_tenant c \<noteq> t) (db_cases d) \<and>
    filter (\<lambda>r. t_tenant r \<noteq> t) (db_transitions d') = filter (\<lambda>r. t_tenant r \<noteq> t) (db_transitions d) \<and>
    filter (\<lambda>a. a_tenant a \<noteq> t) (db_actions d') = filter (\<lambda>a. a_tenant a \<noteq> t) (db_actions d) \<and>
    filter (\<lambda>e. e_tenant e \<noteq> t) (db_evidence d') = filter (\<lambda>e. e_tenant e \<noteq> t) (db_evidence d) \<and>
    filter (\<lambda>a. ia_tenant a \<noteq> t) (db_assessments d') = filter (\<lambda>a. ia_tenant a \<noteq> t) (db_assessments d)"
proof -
  have "route rs p ifm order c d = Inr d'"
    using assms(3) by (auto simp: call_def ebind_eq_Inr session_auth_Inr)
  then have "runs (Some t) d d'"
    by (rule route_runs) (use assms(4) in simp)
  then have "same_elsewhere (Some t) (board_of d) (board_of d')"
    using case_sys.inv_reachable [OF assms(1,2)] zone_run_elsewhere by (auto simp: runs_def case_ok_def)
  then show ?thesis by (simp add: same_elsewhere_def)
qed

theorem banks_are_isolated_witness:
  "filter (\<lambda>c. c_tenant c \<noteq> 1) (db_cases ex_waiting) = [ex_other_case] \<and>
    filter (\<lambda>c. c_tenant c \<noteq> 1) (db_cases ex_signed) = [ex_other_case]"
proof -
  have "filter (\<lambda>c. c_tenant c \<noteq> 1) (db_cases ex_waiting) = [ex_other_case]"
    by (simp add: ex_cases ex_case_defs)
  with banks_are_isolated [OF ex_init ex_reach_waiting ex_call, of 1] show ?thesis
    by (simp add: caller_def)
qed

section \<open>An approval\<close>

lemma transition_audit:
  assumes "transition c to_status a w n au su bh d = Inr (c', d')"
  shows "\<exists>row. db_audit d' = db_audit d @ [row] \<and> au_step_up row = su \<and> au_actor row = a \<and> au_action row = MOVED \<and>
    au_subject_id row = Some (c_id c)"
  using assms
  by (auto simp: transition_def Let_def ebind_eq_Inr save_case_Inr record_event_def moved_entry_def entry_def)

text \<open>C6: An approval takes a second, freshly stepped-up person: when a sign-off is approved, the caller's
  passkey assertion is at most the configured minutes old, the closed case names the caller as signer
  and somebody else as requester, and the new audit row names the caller and that assertion.\<close>

theorem approvals_are_stepped_up:
  assumes "call rs (Some p) ifm order (Approve_signoff ch note) d = Inr d'"
  shows "\<exists>at assertion c r row. p_step_up_at p = Some at \<and> p_step_up_assertion p = Some assertion \<and>
    db_now d - at \<le> int (rs_step_up_minutes rs) * minute \<and>
    c \<in> set (db_cases d') \<and> c_change c = ch \<and> Some (c_tenant c) = p_tenant p \<and> c_status c = CLOSED \<and>
    c_signed_off_by c = Some (p_subject p) \<and> c_signoff_requested_by c = Some r \<and> r \<noteq> p_subject p \<and>
    db_audit d' = db_audit d @ [row] \<and> au_actor row = actor_for p \<and> au_step_up row = Some assertion"
proof -
  from assms obtain su rq ver out where su: "enforce_step_up (rs_step_up_minutes rs) p d = Inr su"
    and rq: "request_of p = Inr rq" and ap: "approve_signoff rq ch ver note su d = Inr (out, d')"
    by (auto simp: call_def ebind_eq_Inr session_auth_Inr map_sum_Inr route_defs requires_permission_Inr stated_def split: prod.splits)
  obtain at where fresh: "p_step_up_at p = Some at" "p_step_up_assertion p = Some su"
    "db_now d - at \<le> int (rs_step_up_minutes rs) * minute"
    using su by (auto simp: enforce_step_up_def not_less split: if_splits option.splits)
  have who: "rq_actor rq = actor_for p" "rq_user rq = p_subject p" "p_tenant p = Some (rq_tenant rq)"
    using rq by (auto simp: request_of_def ebind_eq_Inr caller_tenant_def caller_user_def or_else_eq_Inr split: if_splits)
  from ap obtain c c2 :: change_case and reason :: vocab_row and bh where c: "load_case (rq_tenant rq) ch d = Inr c" "c_status c = SIGNOFF"
    and tr: "transition (c\<lparr>c_signed_off_by := Some (rq_user rq), c_close_reason := Some (v_id reason), c_closed_note := note,
      c_closed_at := Some (db_now d)\<rparr>) CLOSED (rq_actor rq) (Some (rq_user rq)) note [] (Some su) bh d = Inr (c2, d')"
    by (auto simp: approve_signoff_def Let_def ebind_eq_Inr ensure_eq_Inr split: prod.splits)
  from tr obtain facts where facts: "case_facts_of (c\<lparr>c_signed_off_by := Some (rq_user rq), c_close_reason := Some (v_id reason),
      c_closed_note := note, c_closed_at := Some (db_now d)\<rparr>) (Some (rq_user rq)) d = Some facts"
    and chk: "check_transition SIGNOFF CLOSED facts = Inr ()" and cases': "db_cases d' = put_row c_id c2 (db_cases d)"
    and c2: "c2 = moved_case (c\<lparr>c_signed_off_by := Some (rq_user rq), c_close_reason := Some (v_id reason),
      c_closed_note := note, c_closed_at := Some (db_now d)\<rparr>) CLOSED d"
    using c(2) by (auto elim: transition_Inr)
  from facts chk obtain r where "c_signoff_requested_by c = Some r" "r \<noteq> rq_user rq"
    by (auto simp: case_facts_of_Some check_to_closed)
  moreover have "c2 \<in> set (db_cases d')"
    using load_caseD [OF c(1)] cases' c2 by (auto simp: in_set_put_row moved_case_def)
  ultimately show ?thesis
    using transition_audit [OF tr] fresh who c2 load_caseD [OF c(1)] by (auto simp: moved_case_def)
qed

theorem approvals_are_stepped_up_witness:
  "\<exists>at c r. p_step_up_at (caller 3 [''cases.signoff'']) = Some at \<and> db_now ex_waiting - at \<le> minute \<and>
    c \<in> set (db_cases ex_signed) \<and> c_signed_off_by c = Some 3 \<and> c_signoff_requested_by c = Some r \<and> r \<noteq> 3"
  using approvals_are_stepped_up [OF ex_call] by (auto simp: ex_routes_def caller_def)

section \<open>What people type stays out of the trail\<close>

text \<open>A call with its typed text blanked out; a "So what?" keeps its number of characters, which is recorded.\<close>

fun redacted :: "case_call \<Rightarrow> case_call" where
  "redacted (Save_so_what ch txt) = Save_so_what ch (replicate (length txt) CHR ''x'')"
| "redacted (Save_assessment ch body) = Save_assessment ch (body\<lparr>ab_why := [], ab_what_must_change := []\<rparr>)"
| "redacted (Close_case ch reason note) = Close_case ch reason []"
| "redacted (Add_action ch body) = Add_action ch (body\<lparr>xb_title := []\<rparr>)"
| "redacted (Update_action i body) = Update_action i (body\<lparr>xp_title := None\<rparr>)"
| "redacted (Add_evidence ch form upl) = Add_evidence ch (form\<lparr>ef_name := [], ef_url := []\<rparr>) upl"
| "redacted (Approve_signoff ch note) = Approve_signoff ch []"
| "redacted (Send_back_signoff ch note) = Send_back_signoff ch []"
| "redacted c = c"

definition trail :: "db \<Rightarrow> audit_event list \<times> outbox_row list" where
  "trail d = (db_audit d, db_outbox d)"

text \<open>The trail of a handler depends on the entry it records, the trail before and the next id.\<close>

lemma trail_record: "trail d1 = trail d2 \<Longrightarrow> db_next d1 = db_next d2 \<Longrightarrow> trail (record_event r d1) = trail (record_event r d2)"
  by (simp add: trail_def record_event_def Let_def)

lemma trail_transition:
  assumes "transition c to_status a w n au su bh d = Inr (c', d')"
  shows "trail d' = trail (record_event (moved_entry c to_status a au su bh d) (d\<lparr>db_next := Suc (db_next d)\<rparr>)) \<and>
    db_next d' = db_next d + 3"
  using assms
  by (auto simp: transition_def Let_def ebind_eq_Inr save_case_Inr trail_def record_event_def moved_entry_def entry_def
    change_title_def)

text \<open>Two moves that agree on what a ledger entry is made of leave the same trail.\<close>

lemma moved_entry_cong:
  assumes "c_id c1 = c_id c2" "c_tenant c1 = c_tenant c2" "c_change c1 = c_change c2" "c_status c1 = c_status c2"
    "c_version c1 = c_version c2" "db_changes d1 = db_changes d2"
  shows "moved_entry c1 to_status a au su bh d1 = moved_entry c2 to_status a au su bh d2"
  using assms by (simp add: moved_entry_def change_title_def)

lemma trail_transition2:
  assumes "transition c1 to_status a w1 n1 au su bh d = Inr (c1', d1)" and "transition c2 to_status a w2 n2 au su bh d = Inr (c2', d2)"
    and "c_id c1 = c_id c2" "c_tenant c1 = c_tenant c2" "c_change c1 = c_change c2" "c_status c1 = c_status c2"
    "c_version c1 = c_version c2"
  shows "trail d1 = trail d2" and "db_next d1 = db_next d2"
  using trail_transition [OF assms(1)] trail_transition [OF assms(2)]
    moved_entry_cong [OF assms(3-7), of d d to_status a au su bh] by simp_all

lemma trail_close:
  assumes "close_without_action rq ch ver key n1 d = Inr (o1, d1)" and "close_without_action rq ch ver key n2 d = Inr (o2, d2)"
  shows "trail d1 = trail d2"
  using assms
  by (auto simp: close_without_action_def ebind_eq_Inr closed_case_def split: prod.splits intro!: trail_transition2(1))

lemma trail_approve:
  assumes "approve_signoff rq ch ver n1 su d = Inr (o1, d1)" and "approve_signoff rq ch ver n2 su d = Inr (o2, d2)"
  shows "trail d1 = trail d2"
  using assms
  by (auto simp: approve_signoff_def Let_def ebind_eq_Inr split: prod.splits intro!: trail_transition2(1))

lemma trail_send_back:
  assumes "send_back_signoff rq ch ver n1 d = Inr (o1, d1)" and "send_back_signoff rq ch ver n2 d = Inr (o2, d2)"
  shows "trail d1 = trail d2"
  using assms
  by (auto simp: send_back_signoff_def Let_def ebind_eq_Inr split: prod.splits intro!: trail_transition2(1))

lemma trail_so_what:
  assumes "save_so_what rq ch t1 d = Inr (o1, d1)" and "save_so_what rq ch t2 d = Inr (o2, d2)" and "length t1 = length t2"
  shows "trail d1 = trail d2"
  using assms
  by (auto simp: save_so_what_def write_so_what_def ebind_eq_Inr update_case_row_Inr trail_def record_event_def Let_def
    entry_def change_title_def)

lemma trail_add_evidence:
  assumes "add_evidence es rq ch f1 upl d = Inr (o1, d1)" and "add_evidence es rq ch f2 upl d = Inr (o2, d2)"
    and "ef_kind f1 = ef_kind f2"
  shows "trail d1 = trail d2"
  using assms
  by (cases upl) (auto simp: add_evidence_def store_file_def Let_def ebind_eq_Inr ensure_eq_Inr or_else_eq_Inr create_evidence_Inr
    new_evidence_def attached_values_def storage_key_for_def storage_write_def trail_def record_event_def entry_def change_title_def)

lemma values_of_patch:
  assumes "p1\<lparr>xp_title := None\<rparr> = p2\<lparr>xp_title := None\<rparr>"
  shows "action_values (patched_action a p1 own u d) = action_values (patched_action a p2 own u d)"
    and "a_id (patched_action a p1 own u d) = a_id a" "a_tenant (patched_action a p1 own u d) = a_tenant a"
    and "a_case (patched_action a p1 own u d) = a_case a"
  using assms by (cases p1; cases p2; auto simp: patched_action_def action_values_def Let_def split: option.splits)+

lemma trail_update_action:
  assumes "update_action rq i ver p1 d = Inr (o1, d1)" and "update_action rq i ver p2 d = Inr (o2, d2)"
    and patch: "p1\<lparr>xp_title := None\<rparr> = p2\<lparr>xp_title := None\<rparr>"
  shows "trail d1 = trail d2"
proof -
  have "xp_owner_id p1 = xp_owner_id p2"
    using patch by (cases p1; cases p2) simp
  with assms(1,2) obtain c row own where
    1: "d1 = record_action CHANGED (patched_action row p1 own (rq_user rq) d) c (rq_actor rq) (action_values row)
      (ac_label (rq_actor rq) @ '' changed an action on a case.'') (d\<lparr>db_actions := put_row a_id (patched_action row p1 own (rq_user rq) d) (db_actions d)\<rparr>)" and
    2: "d2 = record_action CHANGED (patched_action row p2 own (rq_user rq) d) c (rq_actor rq) (action_values row)
      (ac_label (rq_actor rq) @ '' changed an action on a case.'') (d\<lparr>db_actions := put_row a_id (patched_action row p2 own (rq_user rq) d) (db_actions d)\<rparr>)"
    by (auto simp: update_action_def Let_def ebind_eq_Inr save_action_Inr)
  show ?thesis
    unfolding 1 2 using values_of_patch [OF patch]
    by (simp add: record_action_def trail_def record_event_def Let_def entry_def change_title_def)
qed

lemma trail_create_action:
  assumes "trail e1 = trail e2" "db_next e1 = db_next e2" "db_changes e1 = db_changes e2" and "a1\<lparr>a_title := []\<rparr> = a2\<lparr>a_title := []\<rparr>"
    and "create_action a1 e1 = Inr f1" "create_action a2 e2 = Inr f2" and "c_change c1 = c_change c2"
  shows "trail (record_action act a1 c1 ac bf sm f1) = trail (record_action act a2 c2 ac bf sm f2)"
  using assms
  by (cases a1; cases a2) (auto simp: create_action_Inr record_action_def trail_def record_event_def Let_def entry_def
    change_title_def action_values_def)

lemma trail_add_action:
  assumes 1: "add_action mx rq ch ver b1 d = Inr (o1, d1)" and 2: "add_action mx rq ch ver b2 d = Inr (o2, d2)"
    and body: "b1\<lparr>xb_title := []\<rparr> = b2\<lparr>xb_title := []\<rparr>"
  shows "trail d1 = trail d2"
proof -
  have same: "xb_owner_id b1 = xb_owner_id b2" "xb_due_date b1 = xb_due_date b2"
    using body by (cases b1; cases b2; simp)+
  obtain c where c: "load_case (rq_tenant rq) ch d = Inr c"
    using 1 by (auto simp: add_action_def ebind_eq_Inr)
  show ?thesis
  proof (cases "c_status c = ASSESSING")
    case False
    with 1 2 c same show ?thesis
      by (auto simp: add_action_def Let_def ebind_eq_Inr intro!: trail_create_action)
  next
    case True
    with 1 2 c same show ?thesis
      by (auto simp: add_action_def Let_def ebind_eq_Inr intro!: trail_create_action)
  qed
qed

lemma trail_saved_entry:
  assumes "trail e1 = trail e2" "db_next e1 = db_next e2" "db_changes e1 = db_changes e2"
    and "b1\<lparr>ab_why := [], ab_what_must_change := []\<rparr> = b2\<lparr>ab_why := [], ab_what_must_change := []\<rparr>"
    and "c_id c1 = c_id c2" "c_tenant c1 = c_tenant c2" "c_change c1 = c_change c2" "c_version c1 = c_version c2"
  shows "trail (record_event (saved_entry rq c1 b1 ef sub r e1) e1) = trail (record_event (saved_entry rq c2 b2 ef sub r e2) e2)"
  using assms
  by (cases b1; cases b2) (auto simp: saved_entry_def trail_def record_event_def Let_def entry_def change_title_def)

lemma trail_save_assessment:
  assumes 1: "save_assessment rq ch ver b1 may d = Inr (o1, d1)" and 2: "save_assessment rq ch ver b2 may d = Inr (o2, d2)"
    and body: "b1\<lparr>ab_why := [], ab_what_must_change := []\<rparr> = b2\<lparr>ab_why := [], ab_what_must_change := []\<rparr>"
  shows "trail d1 = trail d2"
proof -
  have same: "ab_applies b1 = ab_applies b2" "ab_effort b1 = ab_effort b2" "ab_sub_status b1 = ab_sub_status b2"
    using body by (cases b1; cases b2; simp)+
  have move: "trail d3 = trail d4 \<and> db_next d3 = db_next d4 \<and> db_changes d3 = db_changes d4 \<and> c3 = c4"
    if "transition c to_status a w n au su bh (d\<lparr>db_assessments := as1\<rparr>) = Inr (c3, d3)"
      "transition c to_status a w n au su bh (d\<lparr>db_assessments := as2\<rparr>) = Inr (c4, d4)"
    for c c3 c4 to_status a w n au su bh as1 as2 d3 d4
    using that
    by (auto simp: transition_def Let_def ebind_eq_Inr save_case_Inr trail_def record_event_def moved_entry_def entry_def
      change_title_def moved_case_def)
  show ?thesis
  proof (cases "ab_applies b1 = NO")
    case True
    have reason: "not_applicable_reason t (d\<lparr>db_assessments := as\<rparr>) = not_applicable_reason t d" for t as
      by (simp add: not_applicable_reason_def)
    let ?moved = "\<lambda>c sub r as. transition (c\<lparr>c_sub_status := map_option v_id sub, c_close_reason := map_option v_id r,
      c_closed_at := Some (db_now d)\<rparr>) CLOSED (rq_actor rq) (Some (rq_user rq)) [] [] None [] (d\<lparr>db_assessments := as\<rparr>)"
    from 1 2 True same obtain c :: change_case and ef sub r :: "vocab_row option" and as1 as2 c3 c4 d3 d4 where
      m: "?moved c sub r as1 = Inr (c3, d3)" "?moved c sub r as2 = Inr (c4, d4)"
      and d: "d1 = record_event (saved_entry rq c3 b1 ef sub r d3) d3" "d2 = record_event (saved_entry rq c4 b2 ef sub r d4) d4"
      by (auto simp: save_assessment_def Let_def ebind_eq_Inr save_assessment_row_Inr reason)
    show ?thesis
      using move [OF m] unfolding d by (intro trail_saved_entry [OF _ _ _ body]) auto
  next
    case False
    from 1 2 False same obtain c3 ef sub r as1 as2 cs where
      d: "d1 = record_event (saved_entry rq c3 b1 ef sub r (d\<lparr>db_assessments := as1, db_cases := cs\<rparr>)) (d\<lparr>db_assessments := as1, db_cases := cs\<rparr>)"
        "d2 = record_event (saved_entry rq c3 b2 ef sub r (d\<lparr>db_assessments := as2, db_cases := cs\<rparr>)) (d\<lparr>db_assessments := as2, db_cases := cs\<rparr>)"
      by (auto simp: save_assessment_def Let_def ebind_eq_Inr save_assessment_row_Inr save_case_Inr)
    show ?thesis
      unfolding d by (intro trail_saved_entry [OF _ _ _ body]) (simp_all add: trail_def)
  qed
qed

lemmas trail_handlers = trail_close trail_approve trail_send_back trail_so_what trail_add_evidence trail_update_action
  trail_add_action trail_save_assessment

lemma same_request: "request_of p = Inr rq1 \<Longrightarrow> request_of p = Inr rq2 \<Longrightarrow> rq1 = rq2"
  by simp

lemma redacted_form: "f1\<lparr>ef_name := [], ef_url := []\<rparr> = f2\<lparr>ef_name := [], ef_url := []\<rparr> \<Longrightarrow> ef_kind f1 = ef_kind f2"
  by (cases f1; cases f2) simp

lemma redacted_route:
  assumes "route rs p ifm order c1 d = Inr d1" and "route rs p ifm order c2 d = Inr d2" and "redacted c1 = redacted c2"
  shows "trail d1 = trail d2"
proof (cases "c1 = c2")
  case True
  with assms show ?thesis by simp
next
  case False
  have len: "length t1 = length t2" if "replicate (length t1) CHR ''x'' = replicate (length t2) CHR ''x''" for t1 t2 :: string
    using that by (metis length_replicate)
  from assms False show ?thesis
    by (cases c1; cases c2; simp)
      (auto simp: map_sum_Inr route_defs requires_permission_Inr ebind_eq_Inr split: prod.splits
        dest: redacted_form len intro: trail_handlers)
qed


definition ex_signed_otherwise :: db where
  "ex_signed_otherwise = projr (call ex_routes (Some (caller 3 [''cases.signoff''])) (Some ''6'') [] (Approve_signoff 7 ''secret'') ex_waiting)"


end
