(* ===== verification/Evidence_Theorems.thy ===== *)
theory Evidence_Theorems
  imports Signoff_Theorems
begin

text \<open>
  What evidence promises: a stored file is what it was identified as, an attached file that passes its
  scan comes back byte for byte, only clean files are ever served, and the first verdict of a scan is
  the last.
\<close>

section \<open>Attaching\<close>

lemma identify_Some:
  assumes "identify es filename declared content = Some mime"
  shows "mime \<in> set (es_allowed_types es) \<and> (\<exists>exts looks. (mime, exts, looks) \<in> set (RECOGNISED (es_namelist es)) \<and>
    lower (path_suffix filename) \<in> set exts \<and> looks content)"
  using assms by (fastforce simp: identify_def Let_def dest: find_Some_in)

text \<open>What \<open>add_evidence\<close> answers for an upload, read off its branches.\<close>

lemma file_attached:
  assumes "add_evidence es rq ch form (Some f) d = Inr (e, d')"
  shows "0 < length (up_content f) \<and> length (up_content f) \<le> es_max_bytes es \<and> e_size_bytes e = Some (length (up_content f)) \<and>
    e_content_hash e = ''sha256:'' @ es_sha256_hex es (up_content f) \<and> e_mime_type e \<in> set (es_allowed_types es) \<and>
    (\<exists>exts looks. (e_mime_type e, exts, looks) \<in> set (RECOGNISED (es_namelist es)) \<and>
      lower (path_suffix (case up_name f of None \<Rightarrow> [] | Some n \<Rightarrow> n)) \<in> set exts \<and> looks (up_content f)) \<and>
    e_scan_state e = PENDING \<and> e \<in> set (db_evidence d') \<and> map_of (db_storage d') (e_storage_key e) = Some (up_content f) \<and>
    (rq_tenant rq, e_id e) \<in> set (db_scan_queue d')"
  using assms
  by (auto simp: add_evidence_def store_file_def Let_def ebind_eq_Inr ensure_eq_Inr or_else_eq_Inr create_evidence_Inr
    new_evidence_def storage_write_def frame_simps dest: identify_Some)

text \<open>C14: A stored file is what it says: a file accepted as evidence has between one byte and the limit, a type
  the bank allows, an extension of that type and content that looks like it, its hash is over exactly
  those bytes, and the bytes lie under its key waiting for their scan.\<close>

theorem stored_files_are_identified:
  assumes "add_evidence es rq ch form (Some f) d = Inr (e, d')"
  shows "0 < length (up_content f) \<and> length (up_content f) \<le> es_max_bytes es \<and> e_size_bytes e = Some (length (up_content f)) \<and>
    e_content_hash e = ''sha256:'' @ es_sha256_hex es (up_content f) \<and> e_mime_type e \<in> set (es_allowed_types es) \<and>
    (\<exists>exts looks. (e_mime_type e, exts, looks) \<in> set (RECOGNISED (es_namelist es)) \<and>
      lower (path_suffix (case up_name f of None \<Rightarrow> [] | Some n \<Rightarrow> n)) \<in> set exts \<and> looks (up_content f)) \<and>
    e_scan_state e = PENDING \<and> e \<in> set (db_evidence d') \<and> map_of (db_storage d') (e_storage_key e) = Some (up_content f) \<and>
    (rq_tenant rq, e_id e) \<in> set (db_scan_queue d')"
  by (rule file_attached [OF assms])

definition ex_pdf :: upload where
  "ex_pdf = \<lparr>up_name = Some ''a.PDF'', up_content_type = None, up_content = ''%PDF-1''\<rparr>"

definition ex_file_form :: evidence_form where
  "ex_file_form = \<lparr>ef_kind = FILE, ef_name = ''proof'', ef_url = []\<rparr>"

definition ex_attached :: "evidence \<times> db" where
  "ex_attached = projr (add_evidence ex_settings (req 2) 7 ex_file_form (Some ex_pdf) ex_worked)"

lemma ex_file_attach: "add_evidence ex_settings (req 2) 7 ex_file_form (Some ex_pdf) ex_worked = Inr (fst ex_attached, snd ex_attached)"
proof -
  have "\<not> isl (add_evidence ex_settings (req 2) 7 ex_file_form (Some ex_pdf) ex_worked)"
    by code_simp
  then show ?thesis by (simp add: ex_attached_def)
qed

theorem stored_files_are_identified_witness:
  "e_mime_type (fst ex_attached) \<in> set [''application/pdf'', ''text/plain''] \<and>
    map_of (db_storage (snd ex_attached)) (e_storage_key (fst ex_attached)) = Some ''%PDF-1''"
  using stored_files_are_identified [OF ex_file_attach] by (simp add: ex_settings_def ex_pdf_def)

section \<open>Scanning\<close>

text \<open>The scanner is asked at most once more than the configured retries: the verdict is the answer to the
  first attempt that did not fail, and an error only when every attempt failed.\<close>

theorem scan_keeps_the_first_answer:
  "\<exists>k\<le>n. scan_attempts n i scan = scan (i + k) \<and> (\<forall>j<k. sr_state (scan (i + j)) = SCAN_ERROR) \<and>
    (sr_state (scan_attempts n i scan) = SCAN_ERROR \<longleftrightarrow> (\<forall>j\<le>n. sr_state (scan (i + j)) = SCAN_ERROR))"
proof (induction n arbitrary: i)
  case 0
  then show ?case by simp
next
  case (Suc n)
  show ?case
  proof (cases "sr_state (scan i) = SCAN_ERROR")
    case False
    then show ?thesis by (intro exI [of _ 0]) auto
  next
    case True
    from Suc.IH [of "Suc i"] obtain k where k: "k \<le> n" "scan_attempts n (Suc i) scan = scan (Suc i + k)"
      "\<forall>j<k. sr_state (scan (Suc i + j)) = SCAN_ERROR"
      "sr_state (scan_attempts n (Suc i) scan) = SCAN_ERROR \<longleftrightarrow> (\<forall>j\<le>n. sr_state (scan (Suc i + j)) = SCAN_ERROR)"
      by blast
    have all: "(\<forall>j\<le>Suc n. sr_state (scan (i + j)) = SCAN_ERROR) \<longleftrightarrow> (\<forall>j\<le>n. sr_state (scan (Suc i + j)) = SCAN_ERROR)"
      using True by (metis Suc_le_mono add.right_neutral add_Suc add_Suc_right le0 not0_implies_Suc)
    have "\<forall>j<Suc k. sr_state (scan (i + j)) = SCAN_ERROR"
      using True k(3) by (metis Suc_less_eq add.right_neutral add_Suc add_Suc_right not0_implies_Suc)
    then show ?thesis
      using True k(1,2,4) all by (intro exI [of _ "Suc k"]) simp
  qed
qed

theorem scan_keeps_the_first_answer_witness:
  "scan_attempts 2 0 (\<lambda>i. \<lparr>sr_state = (if i < 2 then SCAN_ERROR else CLEAN), sr_signature = None, sr_scanned_at = 0\<rparr>) =
    \<lparr>sr_state = CLEAN, sr_signature = None, sr_scanned_at = 0\<rparr>"
proof -
  let ?scan = "\<lambda>i::nat. \<lparr>sr_state = (if i < 2 then SCAN_ERROR else CLEAN), sr_signature = None, sr_scanned_at = 0\<rparr>"
  from scan_keeps_the_first_answer [of 2 0 ?scan] show ?thesis
    by (auto simp: numeral_2_eq_2 less_Suc_eq le_Suc_eq split: if_splits)
qed

lemma evidence_same:
  assumes "case_ok d" and "e1 \<in> set (db_evidence d)" "e2 \<in> set (db_evidence d)" "e_id e1 = e_id e2"
  shows "e1 = e2"
  using assms distinct_map_eq [of e_id "db_evidence d" e1 e2] by (simp add: case_ok_def board_ok_def keys_ok_def)

lemma decide_scan_evidence:
  assumes "decide_scan t i r d = Inr d'" and "pending_evidence t i d = Some e"
  shows "e \<in> set (db_evidence d) \<and> e_id e = i \<and> e_tenant e = t \<and> e_scan_state e = PENDING \<and>
    db_evidence d' = put_row e_id (e\<lparr>e_scan_state := sr_state r, e_scanned_at := Some (sr_scanned_at r)\<rparr>) (db_evidence d) \<and>
    db_cases d' = db_cases d \<and>
    db_storage d' = (if sr_state r = INFECTED then filter (\<lambda>(k, _). k \<noteq> e_storage_key e) (db_storage d) else db_storage d)"
proof -
  have "e \<in> set (db_evidence d) \<and> e_id e = i \<and> e_tenant e = t \<and> e_scan_state e = PENDING"
    using assms(2) by (auto simp: pending_evidence_def dest: find_Some_in)
  moreover obtain ev where "d' = (if sr_state r = INFECTED
      then storage_delete (e_storage_key e) (record_event ev (d\<lparr>db_evidence := put_row e_id
        (e\<lparr>e_scan_state := sr_state r, e_scanned_at := Some (sr_scanned_at r)\<rparr>) (db_evidence d)\<rparr>))
      else record_event ev (d\<lparr>db_evidence := put_row e_id
        (e\<lparr>e_scan_state := sr_state r, e_scanned_at := Some (sr_scanned_at r)\<rparr>) (db_evidence d)\<rparr>))"
    using assms(1) by (simp add: decide_scan_def assms(2) Let_def ebind_eq_Inr save_evidence_Inr) blast
  ultimately show ?thesis
    by (simp add: storage_delete_def frame_simps)
qed

text \<open>The first verdict wins: once a scan has been decided, deciding it again (a queue that delivers twice, two
  workers) changes nothing, whatever the second verdict.\<close>

theorem first_verdict_wins:
  assumes "case_init d0" and "case_step\<^sup>*\<^sup>* d0 d" and "decide_scan t i r1 d = Inr d1" and "sr_state r1 \<noteq> PENDING"
  shows "decide_scan t i r2 d1 = Inr d1"
proof (cases "pending_evidence t i d")
  case None
  with assms(3) show ?thesis by (auto simp: decide_scan_def)
next
  case (Some e)
  have ok: "case_ok d" by (rule case_sys.inv_reachable [OF assms(1,2)])
  note dec = decide_scan_evidence [OF assms(3) Some]
  have "\<not> (e_tenant x = t \<and> e_id x = i \<and> e_scan_state x = PENDING)" if "x \<in> set (db_evidence d1)" for x
    using that dec assms(4) evidence_same [OF ok] by (auto simp: in_set_put_row)
  then have "pending_evidence t i d1 = None"
    by (simp add: pending_evidence_def find_None_all)
  then show ?thesis by (simp add: decide_scan_def)
qed

section \<open>Downloading\<close>

lemma find_evidence:
  assumes "case_ok d" and "e \<in> set (db_evidence d)" and "P e" and "\<And>x. P x \<Longrightarrow> e_id x = e_id e"
  shows "find P (db_evidence d) = Some e"
proof -
  obtain x where x: "find P (db_evidence d) = Some x"
    using assms(2,3) by (cases "find P (db_evidence d)") (auto simp: find_None_all)
  have "x \<in> set (db_evidence d)" "e_id x = e_id e"
    using find_Some_in [OF x] assms(4) by auto
  then have "x = e" by (rule evidence_same [OF assms(1) _ assms(2)])
  with x show ?thesis by simp
qed

lemma attached_row:
  assumes "add_evidence es rq ch form (Some f) d = Inr (e, d1)"
  shows "e_kind e = FILE \<and> e_tenant e = rq_tenant rq \<and> e_removed_at e = None \<and> (\<exists>c\<in>set (db_cases d1). c_id c = e_case e)"
proof -
  obtain c where c: "load_case (rq_tenant rq) ch d = Inr c"
    using assms by (auto simp: add_evidence_def ebind_eq_Inr)
  show ?thesis
  proof (rule add_evidence_Inr [OF assms c])
    fix d0 d2 ev
    assume kind: "(ef_kind form = FILE) = (Some f \<noteq> None)" and cr: "create_evidence e d0 = Inr d2"
      and sf: "(case Some f of
        None \<Rightarrow> Inr (new_evidence rq c form (db_next d) d\<lparr>e_url := ef_url form, e_scan_state := CLEAN,
            e_scanned_at := Some (db_now d)\<rparr>, d\<lparr>db_next := Suc (db_next d)\<rparr>)
      | Some f \<Rightarrow> store_file es (new_evidence rq c form (db_next d) d) f (d\<lparr>db_next := Suc (db_next d)\<rparr>)) = Inr (e, d0)"
      and d1: "d1 = (if Some f = None then record_event ev d2
        else (record_event ev d2)\<lparr>db_scan_queue := db_scan_queue (record_event ev d2) @ [(rq_tenant rq, e_id e)]\<rparr>)"
    from sf have "store_file es (new_evidence rq c form (db_next d) d) f (d\<lparr>db_next := Suc (db_next d)\<rparr>) = Inr (e, d0)"
      by simp
    note stored = store_file_Inr [OF this]
    have "db_cases d1 = db_cases d"
      using stored cr d1 by (simp add: create_evidence_Inr storage_write_def frame_simps)
    then show ?thesis
      using stored kind load_caseD [OF c] by (auto simp: new_evidence_def)
  qed
qed

text \<open>C13: Round trip: a file attached to a case comes back to every reader of the bank byte for byte and under the
  type it was identified as, once its scan has answered clean.\<close>

theorem attach_scan_download:
  assumes "case_init d0" and "case_step\<^sup>*\<^sup>* d0 d" and at: "add_evidence es rq ch form (Some f) d = Inr (e, d1)"
    and sc: "decide_scan (rq_tenant rq) (e_id e) r d1 = Inr d2" and "sr_state r = CLEAN" and "rq_tenant rq' = rq_tenant rq"
  shows "\<exists>name d3. download_evidence es rq' (e_id e) d2 = Inr ((up_content f, e_mime_type e, name), d3)"
proof -
  have s1: "case_step d d1" and s2: "case_step d1 d2"
    using at sc by (auto intro: case_step.intros)
  have ok1: "case_ok d1" and ok2: "case_ok d2"
    using case_sys.inv_step [OF s1] case_sys.inv_step [OF s2] case_sys.inv_reachable [OF assms(1,2)] by auto
  note st = file_attached [OF at] and row = attached_row [OF at]
  have pend: "pending_evidence (rq_tenant rq) (e_id e) d1 = Some e"
    unfolding pending_evidence_def using st row by (intro find_evidence [OF ok1]) auto
  note dec = decide_scan_evidence [OF sc pend]
  let ?e = "e\<lparr>e_scan_state := CLEAN, e_scanned_at := Some (sr_scanned_at r)\<rparr>"
  have e2: "?e \<in> set (db_evidence d2)"
    using dec assms(5) by (auto simp: in_set_put_row)
  have "load_evidence (rq_tenant rq') (e_id e) d2 = Inr ?e"
    unfolding load_evidence_def or_else_eq_Inr using e2 row assms(6) by (intro find_evidence [OF ok2]) auto
  moreover have "storage_read (e_storage_key e) d2 = Inr (up_content f)"
    using dec st assms(5) by (simp add: storage_read_def)
  moreover obtain c where "joined_case (e_case e) d2 = Inr c"
    using dec row by (cases "find (\<lambda>c. c_id c = e_case e) (db_cases d2)") (auto simp: joined_case_def find_None_all)
  moreover have "e_mime_type e \<in> fst ` set (RECOGNISED (es_namelist es))"
    using st by force
  ultimately show ?thesis
    using row by (simp add: download_evidence_def Let_def)
qed

definition ex_verdict :: "scan_state \<Rightarrow> scan_result" where
  "ex_verdict st = \<lparr>sr_state = st, sr_signature = None, sr_scanned_at = 8\<rparr>"

definition ex_scanned :: "scan_state \<Rightarrow> db" where
  "ex_scanned st = projr (decide_scan 1 (e_id (fst ex_attached)) (ex_verdict st) (snd ex_attached))"

lemma ex_scan:
  "decide_scan 1 (e_id (fst ex_attached)) (ex_verdict CLEAN) (snd ex_attached) = Inr (ex_scanned CLEAN)"
  "decide_scan 1 (e_id (fst ex_attached)) (ex_verdict INFECTED) (snd ex_attached) = Inr (ex_scanned INFECTED)"
proof -
  have "\<not> isl (decide_scan 1 (e_id (fst ex_attached)) (ex_verdict CLEAN) (snd ex_attached))"
    "\<not> isl (decide_scan 1 (e_id (fst ex_attached)) (ex_verdict INFECTED) (snd ex_attached))"
    by code_simp+
  then show "decide_scan 1 (e_id (fst ex_attached)) (ex_verdict CLEAN) (snd ex_attached) = Inr (ex_scanned CLEAN)"
    "decide_scan 1 (e_id (fst ex_attached)) (ex_verdict INFECTED) (snd ex_attached) = Inr (ex_scanned INFECTED)"
    by (simp_all add: ex_scanned_def)
qed

theorem attach_scan_download_witness:
  "\<exists>name d3. download_evidence ex_settings (req 4) (e_id (fst ex_attached)) (ex_scanned CLEAN) =
    Inr ((''%PDF-1'', e_mime_type (fst ex_attached), name), d3)"
  using attach_scan_download [OF ex_init ex_reach_worked ex_file_attach, of "ex_verdict CLEAN" "ex_scanned CLEAN" "req 4"] ex_scan(1)
  by (simp add: req_def ex_verdict_def ex_pdf_def)

theorem first_verdict_wins_witness:
  "decide_scan 1 (e_id (fst ex_attached)) (ex_verdict CLEAN) (ex_scanned INFECTED) = Inr (ex_scanned INFECTED)"
proof -
  have "case_step\<^sup>*\<^sup>* ex_db (snd ex_attached)"
    using ex_reach_worked case_step.attach [OF ex_file_attach] by (rule rtranclp.rtrancl_into_rtrancl)
  from first_verdict_wins [OF ex_init this ex_scan(2)] show ?thesis by (simp add: ex_verdict_def)
qed

lemma only_clean_evidence:
  assumes "download_evidence es rq i d = Inr ((content, mime, name), d')"
  shows "\<exists>e\<in>set (db_evidence d). e_id e = i \<and> e_tenant e = rq_tenant rq \<and> e_removed_at e = None \<and>
    e_kind e = FILE \<and> e_scan_state e = CLEAN"
  using assms
  by (auto simp: download_evidence_def ebind_eq_Inr ensure_eq_Inr or_else_eq_Inr load_evidence_def dest!: find_Some_in)

text \<open>Only a clean file is served: an answered download is of a live file of the caller's bank that the scanner
  passed, its bytes are the stored ones, and one audit row names the caller and the file.\<close>

theorem only_clean_files_are_served:
  assumes "download_evidence es rq i d = Inr ((content, mime, name), d')"
  shows "\<exists>e row. e \<in> set (db_evidence d) \<and> e_id e = i \<and> e_tenant e = rq_tenant rq \<and> e_removed_at e = None \<and>
    e_kind e = FILE \<and> e_scan_state e = CLEAN \<and> map_of (db_storage d) (e_storage_key e) = Some content \<and>
    db_audit d' = db_audit d @ [row] \<and> au_actor row = rq_actor rq \<and> au_action row = DOWNLOADED \<and> au_subject_id row = Some i"
  using assms
  by (auto simp: download_evidence_def Let_def ebind_eq_Inr ensure_eq_Inr or_else_eq_Inr load_evidence_def storage_read_def
    record_event_def entry_def dest!: find_Some_in)

theorem only_clean_files_are_served_witness:
  "\<exists>e\<in>set (db_evidence (ex_scanned CLEAN)). e_id e = e_id (fst ex_attached) \<and> e_scan_state e = CLEAN"
proof -
  obtain content mime name d3 where
    "download_evidence ex_settings (req 4) (e_id (fst ex_attached)) (ex_scanned CLEAN) = Inr ((content, mime, name), d3)"
  proof -
    have "\<not> isl (download_evidence ex_settings (req 4) (e_id (fst ex_attached)) (ex_scanned CLEAN))"
      by code_simp
    then show ?thesis using that by (metis prod_cases3 isl_def sum.exhaust surj_pair)
  qed
  from only_clean_files_are_served [OF this] show ?thesis by blast
qed

section \<open>A condemned file\<close>

lemma put_row_in: "r \<in> set rows \<Longrightarrow> key r' = key r \<Longrightarrow> r' \<in> set (put_row key r' rows)"
  by (simp add: in_set_put_row)

text \<open>A piece of evidence keeps its verdict: no step but its own pending scan changes it.\<close>

definition condemned :: "uuid \<Rightarrow> uuid \<Rightarrow> scan_state \<Rightarrow> board \<Rightarrow> bool" where
  "condemned t i st b \<longleftrightarrow> (\<exists>e\<in>set (b_evidence b). e_id e = i \<and> e_tenant e = t \<and> e_scan_state e = st)"

lemma condemnedI: "e \<in> set (b_evidence b) \<Longrightarrow> e_id e = i \<Longrightarrow> e_tenant e = t \<Longrightarrow> e_scan_state e = st \<Longrightarrow> condemned t i st b"
  by (auto simp: condemned_def)

lemma condemned_step:
  assumes "board_step b b'" and ok: "board_ok b" and "condemned t i st b" and st: "st \<noteq> PENDING"
  shows "condemned t i st b'"
proof -
  from assms(3) obtain x where x: "x \<in> set (b_evidence b)" "e_id x = i" "e_tenant x = t" "e_scan_state x = st"
    by (auto simp: condemned_def)
  have same: "y = x" if "y \<in> set (b_evidence b)" "e_id y = i" for y
    using ok distinct_map_eq [of e_id "b_evidence b" y x] that x by (simp add: board_ok_def keys_ok_def)
  from assms(1) show ?thesis
  proof (cases rule: board_step.cases)
    case (Detach c e e' at)
    show ?thesis
    proof (cases "e_id e = i")
      case True
      with same Detach(4) have "e = x" by simp
      then have "e' \<in> set (put_row e_id e' (b_evidence b))"
        using Detach(4,6) by (intro put_row_in) auto
      with \<open>e = x\<close> Detach(1,6) x show ?thesis by (intro condemnedI [of e']) auto
    next
      case False
      with Detach x show ?thesis by (auto simp: condemned_def in_set_put_row)
    qed
  next
    case (Scan e e' s at)
    then have "e_id e \<noteq> i" using same [of e] x(4) st by auto
    with Scan x show ?thesis by (auto simp: condemned_def in_set_put_row)
  qed (use x in \<open>auto simp: condemned_def\<close>)
qed

text \<open>C12: A condemned file is gone for good: after a scan that did not answer clean, no later state of the program
  ever serves that file to anyone, and an infected file's bytes are out of the store at once.\<close>

theorem condemned_files_are_never_served:
  assumes "case_init d0" and "case_step\<^sup>*\<^sup>* d0 d" and pend: "pending_evidence t i d = Some e"
    and dec: "decide_scan t i r d = Inr d1" and r: "sr_state r \<in> {INFECTED, SCAN_ERROR}" and "case_step\<^sup>*\<^sup>* d1 d2"
  shows "isl (download_evidence es rq i d2) \<and> (sr_state r = INFECTED \<longrightarrow> map_of (db_storage d1) (e_storage_key e) = None)"
proof
  have step: "case_step d d1" using dec by (rule case_step.decide)
  have ok: "case_ok d" and ok1: "case_ok d1"
    using case_sys.inv_reachable [OF assms(1,2)] case_sys.inv_step [OF step] by auto
  have ok2: "case_ok d2" by (rule case_sys.inv_run [OF assms(6) ok1])
  note ev = decide_scan_evidence [OF dec pend]
  have "e\<lparr>e_scan_state := sr_state r, e_scanned_at := Some (sr_scanned_at r)\<rparr> \<in> set (db_evidence d1)"
    using ev by (auto intro: put_row_in)
  then have start: "condemned t i (sr_state r) (board_of d1)"
    using ev by (intro condemnedI) auto
  have "condemned t i (sr_state r) (board_of d2)"
    by (rule case_run_stable [where Q = "condemned t i (sr_state r)", OF assms(6) ok1 start])
      (use r in \<open>auto intro: condemned_step\<close>)
  then obtain x where x: "x \<in> set (db_evidence d2)" "e_id x = i" "e_scan_state x = sr_state r"
    by (auto simp: condemned_def)
  have "y = x" if "y \<in> set (db_evidence d2)" "e_id y = i" for y
    using evidence_same [OF ok2 that(1) x(1)] that(2) x(2) by simp
  then have "\<not> (e_id y = i \<and> e_scan_state y = CLEAN)" if "y \<in> set (db_evidence d2)" for y
    using that x(3) r by auto
  then have "download_evidence es rq i d2 \<noteq> Inr ((a, b, c), d')" for a b c d'
    using only_clean_evidence by blast
  then show "isl (download_evidence es rq i d2)"
    by (cases "download_evidence es rq i d2") auto
  show "sr_state r = INFECTED \<longrightarrow> map_of (db_storage d1) (e_storage_key e) = None"
    using ev by (auto simp: map_of_eq_None_iff)
qed

theorem condemned_files_are_never_served_witness:
  "isl (download_evidence ex_settings (req 4) (e_id (fst ex_attached)) (ex_scanned INFECTED)) \<and>
    map_of (db_storage (ex_scanned INFECTED)) (e_storage_key (fst ex_attached)) = None"
proof -
  have reach: "case_step\<^sup>*\<^sup>* ex_db (snd ex_attached)"
    using ex_reach_worked case_step.attach [OF ex_file_attach] by (rule rtranclp.rtrancl_into_rtrancl)
  have "pending_evidence 1 (e_id (fst ex_attached)) (snd ex_attached) = Some (fst ex_attached)"
    by code_simp
  from condemned_files_are_never_served [OF ex_init reach this ex_scan(2) _ rtranclp.rtrancl_refl] show ?thesis
    by (simp add: ex_verdict_def)
qed

section \<open>The name of a download\<close>

definition extensions_of :: "(string \<Rightarrow> string list option) \<Rightarrow> string \<Rightarrow> string list" where
  "extensions_of namelist mime = (case map_of (RECOGNISED namelist) mime of None \<Rightarrow> [''.bin''] | Some (exts, _) \<Rightarrow> exts)"

text \<open>Every extension of the table is a dot and lower-case letters.\<close>

lemma extensions_ok:
  assumes "ext \<in> set (extensions_of namelist mime)"
  shows "ext \<in> set [''.pdf'', ''.docx'', ''.xlsx'', ''.pptx'', ''.png'', ''.jpg'', ''.jpeg'', ''.txt'', ''.csv'', ''.bin'']"
  using assms by (auto simp: extensions_of_def RECOGNISED_def split: if_splits)

lemma extensions_nonempty: "extensions_of namelist mime \<noteq> []"
  by (auto simp: extensions_of_def RECOGNISED_def split: if_splits)

lemma lower_append: "lower (xs @ ys) = lower xs @ lower ys"
  by (simp add: lower_def)

lemma suffix_lower: "suffix xs ys \<Longrightarrow> suffix (lower xs) (lower ys)"
  by (auto simp: suffix_def lower_append)

lemma lower_extension:
  assumes "ext \<in> set (extensions_of namelist mime)"
  shows "lower ext = ext"
  using extensions_ok [OF assms] by (auto simp: lower_def lower_char_def code_def)

lemma split_on_absent: "sep \<notin> set s \<Longrightarrow> split_on sep s = [s]"
  by (induction s) auto

lemma takeWhile_split: "takeWhile P u \<noteq> u \<Longrightarrow> \<exists>x v. u = takeWhile P u @ x # v \<and> \<not> P x"
  by (induction u) auto

lemma name_suffix_suffix: "suffix (name_suffix s) s"
proof -
  let ?w = "takeWhile (\<lambda>c. c \<noteq> CHR ''.'') (rev s)"
  show ?thesis
  proof (cases "rev ?w = [] \<or> length s < length (rev ?w) + 2")
    case True
    then show ?thesis by (simp add: name_suffix_def Let_def)
  next
    case False
    then have "length ?w \<noteq> length (rev s)" by simp
    then have "?w \<noteq> rev s" by metis
    from takeWhile_split [OF this] obtain v where "rev s = ?w @ CHR ''.'' # v" by blast
    then have "rev (rev s) = rev (?w @ CHR ''.'' # v)" by (rule arg_cong)
    then have "s = rev v @ (CHR ''.'' # rev ?w)" by simp
    then have "suffix (CHR ''.'' # rev ?w) s" by (rule suffixI)
    with False show ?thesis by (simp add: name_suffix_def Let_def)
  qed
qed

lemma path_suffix_suffix:
  assumes "CHR ''/'' \<notin> set s"
  shows "suffix (path_suffix s) s"
proof -
  have "path_name s = s \<or> path_name s = []"
    by (simp add: path_name_def split_on_absent [OF assms])
  then show ?thesis
    using name_suffix_suffix [of s] by (auto simp: path_suffix_def name_suffix_def)
qed

lemma set_strip: "set (strip s) \<subseteq> set s"
  unfolding strip_def using set_dropWhileD by (fastforce dest: set_dropWhileD)

text \<open>A download never lands as something to run: a name typed without a slash ends, whatever its case, in an
  extension of the type the file was identified as.\<close>

theorem download_ends_in_its_extension:
  assumes "CHR ''/'' \<notin> set name"
  shows "\<exists>ext\<in>set (extensions_of namelist mime). suffix ext (lower (download_name namelist name mime))"
proof -
  let ?exts = "extensions_of namelist mime"
  let ?stripped = "strip (filter (\<lambda>c. \<not> is_control c) name)"
  let ?visible = "if ?stripped = [] then ''evidence'' else ?stripped"
  have name: "download_name namelist name mime =
      (if lower (path_suffix ?visible) \<in> set ?exts then ?visible else ?visible @ hd ?exts)"
    by (simp add: download_name_def extensions_of_def Let_def)
  show ?thesis
  proof (cases "lower (path_suffix ?visible) \<in> set ?exts")
    case True
    have "CHR ''/'' \<notin> set ?visible"
      using assms set_strip [of "filter (\<lambda>c. \<not> is_control c) name"] by auto
    then have "suffix (lower (path_suffix ?visible)) (lower ?visible)"
      by (intro suffix_lower path_suffix_suffix)
    with True name show ?thesis by auto
  next
    case False
    have "hd ?exts \<in> set ?exts" using extensions_nonempty by simp
    with False name lower_extension show ?thesis
      by (auto simp: lower_append suffixI intro!: bexI [of _ "hd ?exts"])
  qed
qed

theorem download_ends_in_its_extension_witness:
  "\<exists>ext\<in>set (extensions_of (\<lambda>_. None) ''application/pdf''). suffix ext (lower (download_name (\<lambda>_. None) ''controls.ps1'' ''application/pdf''))"
  by (rule download_ends_in_its_extension) simp

text \<open>With a slash it may not: a file named \<open>x.pdf/\<close> is offered under exactly that name, which ends in no
  extension of its type, though the function's own description says every name does.\<close>

theorem slash_escapes_the_extension:
  "download_name namelist ''x.pdf/'' ''application/pdf'' = ''x.pdf/'' \<and>
    extensions_of namelist ''application/pdf'' = [''.pdf''] \<and> \<not> suffix ''.pdf'' (download_name namelist ''x.pdf/'' ''application/pdf'')"
  by (simp add: download_name_def extensions_of_def RECOGNISED_def Let_def strip_def is_control_def is_space_def code_def
    path_suffix_def path_name_def name_suffix_def lower_def lower_char_def suffix_def)

end
