(* ===== verification/Notify_Theorems.thy ===== *)
theory Notify_Theorems
  imports Case_Example
begin

text \<open>
  Who a notification reaches: readers only, each once, an absent person's delegate in their place and
  never the person who caused it; and nobody who should be told is left out.
\<close>

section \<open>The rows of one notification\<close>

text \<open>Either nobody is wanted or nothing is found and no row is written, or the rows are the recipients.\<close>

lemma notify_rows:
  assumes "notify t k st si cs ac d = Inr (d', rows)"
  shows "db_notifications d' = db_notifications d @ rows \<and>
    (rows = [] \<or> (\<exists>perm lookup title rs ids. map_of SUBJECTS st = Some (perm, lookup) \<and> lookup d t si = Some title \<and>
      rs = sort_key fst (recipients_of t k perm (remdups (map fst cs)) ac d) \<and> length ids = length rs \<and>
      rows = map2 (notification_row t k st si title) ids rs))"
proof -
  from assms obtain perm lookup where su: "map_of SUBJECTS st = Some (perm, lookup)"
    by (auto simp: notify_def subject_def ebind_eq_Inr or_else_eq_Inr)
  then have s: "subject st = Inr (perm, lookup)" by (simp add: subject_def)
  let ?rs = "sort_key fst (recipients_of t k perm (remdups (map fst cs)) ac d)"
  have len: "length [db_next d..<db_next d + length ?rs] = length ?rs" by simp
  show ?thesis
  proof (cases "if remdups (map fst cs) = [] then None else lookup d t si")
    case None
    with assms s show ?thesis by (simp add: notify_def Let_def del: remdups_eq_nil_iff)
  next
    case (Some title)
    with assms s have "db_notifications d' = db_notifications d @ rows"
      and "rows = map2 (notification_row t k st si title) [db_next d..<db_next d + length ?rs] ?rs"
      by (auto simp: notify_def Let_def ebind_eq_Inr or_else_eq_Inr simp del: remdups_eq_nil_iff length_sort)
    moreover from Some have "lookup d t si = Some title" by (simp split: if_splits)
    ultimately show ?thesis using su len by blast
  qed
qed

lemma distinct_keys_sort: "distinct (map fst (sort_key fst xs)) = distinct (map fst xs)"
  by (simp add: distinct_map)

lemma map2_fst:
  assumes "length ids = length rs" and "\<And>i r. g (f i r) = h r"
  shows "map g (map2 f ids rs) = map h rs"
  using assms(1) by (induction ids rs rule: list_induct2) (simp_all add: assms(2))

lemma in_map2: "x \<in> set (map2 f ids rs) \<Longrightarrow> \<exists>i. \<exists>r\<in>set rs. x = f i r"
  by (induction ids rs rule: list_induct2') auto

text \<open>A row without an absent person is for somebody who was asked for.\<close>

definition asked :: "uuid list \<Rightarrow> recipients \<Rightarrow> bool" where
  "asked us ds \<longleftrightarrow> (\<forall>(u, m, ab)\<in>set ds. ab = None \<longrightarrow> u \<in> set us)"

lemma asked_setdefault: "asked us ds \<Longrightarrow> k \<in> set us \<or> ab \<noteq> None \<Longrightarrow> asked us (setdefault k (m, ab) ds)"
  by (auto simp: asked_def setdefault_def)

lemma asked_fold:
  "asked us ds \<Longrightarrow> \<forall>m\<in>set ms. m_user m \<in> set us \<Longrightarrow> asked us (fold (\<lambda>m ds. setdefault (m_user m) (m, None) ds) ms ds)"
  by (induction ms arbitrary: ds) (auto intro: asked_setdefault)

lemma asked_delegate_fold:
  "asked us ds \<Longrightarrow> \<forall>m\<in>set ms. m_user m \<in> set us \<Longrightarrow> asked us (fold (delegate_step away dels) ms ds)"
  by (induction ms arbitrary: ds) (auto simp: delegate_step_def intro!: asked_setdefault split: option.splits)

lemma recipients_asked: "asked us (recipients_of t k p us ac d)"
  unfolding recipients_of_def delegated_def Let_def
  by (auto intro!: asked_fold asked_delegate_fold simp: readers_are asked_def [of _ "[]"] split: option.splits)


text \<open>Nobody is forgotten: when the subject is found, every candidate who may read it and has not switched the
  kind off gets a row, or the delegate they named does.\<close>

theorem nobody_is_forgotten:
  assumes "notify t k st si cs ac d = Inr (d', rows)" and "map_of SUBJECTS st = Some (perm, lookup)"
    and "lookup d t si = Some title" and "m \<in> set (db_members d)" "m_tenant m = t" "m_user m \<in> fst ` set cs"
    and "active_member m" "holds_permission m perm" and "case MUTABLE_KINDS k of None \<Rightarrow> True | Some s \<Rightarrow> s \<notin> set (m_prefs m)"
  shows "\<exists>n\<in>set rows. n_user n = m_user m \<or>
    (\<exists>x\<in>set (db_members d). m_user x = m_user m \<and> m_delegate x = Some (n_user n))"
proof -
  let ?us = "remdups (map fst cs)"
  let ?R = "recipients_of t k perm ?us ac d"
  have us: "?us \<noteq> []" using assms(6) by auto
  obtain ids where rows: "rows = map2 (notification_row t k st si title) ids (sort_key fst ?R)" "length ids = length ?R"
    using assms(1,2,3) us by (auto simp: notify_def subject_def Let_def ebind_eq_Inr split: if_splits)
  have keys: "n_user ` set rows = fst ` set ?R"
  proof -
    have "map n_user rows = map fst (sort_key fst ?R)"
      unfolding rows(1) by (rule map2_fst) (simp_all add: rows(2) notification_row_def split: prod.splits)
    then show ?thesis by (metis set_map set_sort)
  qed
  have "m \<in> set (readers t ?us perm d)"
    using assms by (simp add: readers_are)
  from recipients_complete [OF this assms(9), of ac] keys show ?thesis
    by (metis imageE)
qed

text \<open>Two people, one of them away with the other as delegate.\<close>

definition ex_away :: db where
  "ex_away = ex_db\<lparr>db_members := [(person 5 [''cases.read''])\<lparr>m_out_of_office_until := Some 3, m_delegate := Some 4\<rparr>,
     person 4 [''cases.read''], person 6 [''cases.read'']], db_cases := [ex_case]\<rparr>"

lemma ex_notified:
  "map_sum id (\<lambda>(d, rows). map (\<lambda>n. (n_user n, n_on_behalf_of n)) rows)
    (notify 1 SIGNOFF_REQUESTED ''change_case'' 20 [(5, ''approver''), (6, ''approver'')] (Some 6) ex_away) =
    Inr [(4, Some 5), (6, None)]"
  by code_simp


theorem nobody_is_forgotten_witness:
  "\<exists>d' rows. notify 1 SIGNOFF_REQUESTED ''change_case'' 20 [(5, ''approver''), (6, ''approver'')] (Some 6) ex_away = Inr (d', rows) \<and>
    (\<exists>n\<in>set rows. n_user n = 5 \<or> (\<exists>x\<in>set (db_members ex_away). m_user x = 5 \<and> m_delegate x = Some (n_user n)))"
proof -
  obtain d' rows where *: "notify 1 SIGNOFF_REQUESTED ''change_case'' 20 [(5, ''approver''), (6, ''approver'')] (Some 6) ex_away = Inr (d', rows)"
    using ex_notified by (cases "notify 1 SIGNOFF_REQUESTED ''change_case'' 20 [(5, ''approver''), (6, ''approver'')] (Some 6) ex_away") auto
  have s: "map_of SUBJECTS ''change_case'' = Some (CASES_READ, change_case_lookup)"
    by (simp add: SUBJECTS_def)
  obtain title where "change_case_lookup ex_away 1 20 = Some title"
    by (simp add: change_case_lookup_def ex_away_def ex_case_def)
  from nobody_is_forgotten [OF * s this, of "(person 5 [''cases.read''])\<lparr>m_out_of_office_until := Some 3, m_delegate := Some 4\<rparr>"] *
  show ?thesis
    by (simp add: ex_away_def person_def active_member_def holds_permission_def)
qed

end
