(* ===== verification/Text_Laws.thy ===== *)
theory Text_Laws
  imports GRC_Text
begin

text \<open>
  Numbers written and read back: what \<open>show_nat\<close> writes, \<open>py_int\<close> reads; and a text joined with a separator that none
  of its parts holds is split into those parts.
\<close>

section \<open>Numbers\<close>

lemma digits_value_show: "digits_value acc (show_nat n) = Some (acc * 10 ^ length (show_nat n) + int n)"
proof (induction n arbitrary: acc rule: show_nat.induct)
  case (1 n)
  have app: "digits_value acc (s @ [digit k]) = map_option (\<lambda>v. 10 * v + int k) (digits_value acc s)"
    if "k < 10" "\<forall>c\<in>set s. digit_value c \<noteq> None" for acc s k
    using that by (induction s arbitrary: acc) (auto simp: digit_value_def code_digit)
  show ?case
  proof (cases "n < 10")
    case True
    then show ?thesis by (simp add: show_nat.simps [of n] digit_value_def code_digit)
  next
    case False
    have "\<forall>c\<in>set (show_nat (n div 10)). digit_value c \<noteq> None"
      using show_nat_digits by (auto simp: digit_value_def)
    then show ?thesis
      using False 1 [of acc] by (simp add: show_nat.simps [of n] app algebra_simps zdiv_int zmod_int)
  qed
qed

lemma dropWhile_none: "\<forall>c\<in>set s. \<not> P c \<Longrightarrow> dropWhile P s = s"
  by (cases s) auto

lemma shown:
  "show_nat n \<noteq> []" "c \<in> set (show_nat n) \<Longrightarrow> c \<noteq> CHR 0x22 \<and> c \<noteq> CHR ''W'' \<and> c \<noteq> CHR ''-'' \<and> c \<noteq> CHR ''+'' \<and> c \<noteq> CHR ''.'' \<and> \<not> is_space (code c)"
proof -
  show "show_nat n \<noteq> []" by (subst show_nat.simps) simp
  assume "c \<in> set (show_nat n)"
  from show_nat_digits [OF this] show "c \<noteq> CHR 0x22 \<and> c \<noteq> CHR ''W'' \<and> c \<noteq> CHR ''-'' \<and> c \<noteq> CHR ''+'' \<and> c \<noteq> CHR ''.'' \<and> \<not> is_space (code c)"
    by (auto simp: code_def is_space_def)
qed

lemma strip_none: "\<forall>c\<in>set s. \<not> is_space (code c) \<Longrightarrow> strip s = s"
  by (simp add: strip_def dropWhile_none)

lemma py_int_show: "py_int (show_nat n) = Some (int n)"
proof -
  obtain c cs where c: "show_nat n = c # cs" using shown(1) by (cases "show_nat n") auto
  then have "c \<in> set (show_nat n)" by simp
  from shown(2) [OF this] have sign: "c \<noteq> CHR ''-''" "c \<noteq> CHR ''+''" by auto
  obtain v where v: "digit_value c = Some v"
    using show_nat_digits [of c n] c by (auto simp: digit_value_def)
  then have "unsigned_value (c # cs) = digits_value 0 (c # cs)"
    by (simp add: unsigned_value_def)
  also have "\<dots> = Some (int n)" using digits_value_show [of 0 n] by (simp only: c) simp
  finally have "unsigned_value (c # cs) = Some (int n)" .
  moreover have "strip (show_nat n) = show_nat n"
    using shown(2) by (blast intro: strip_none)
  ultimately show ?thesis
    using sign by (simp add: py_int_def c)
qed

section \<open>Parts of a text\<close>

lemma split_on_part: "sep \<notin> set w \<Longrightarrow> split_on sep (w @ sep # rest) = w # split_on sep rest"
  by (induction w) auto

lemma split_on_last: "sep \<notin> set w \<Longrightarrow> split_on sep w = [w]"
  by (induction w) auto

end
