(* ===== verification/Library_Theorems.thy ===== *)
theory Library_Theorems
  imports Text_Laws Case_Example
begin

text \<open>
  What reaches a bank's cases from the shared library: the scope rule in its three versions, a case for
  every active bank, the cached verdict, the drafted answer.  And two facts of the workflow as a whole:
  the handlers refine the case machine, and a stated version is read back as it was shown.
\<close>

section \<open>The scope rule\<close>

lemma scope_of_terms_of_change: "scope_of x ch = scope_of_terms x (scope_term_ids x ch)"
  by (simp add: scope_of_def scope_of_terms_def scope_term_ids_def)

lemma grouped:
  "(\<forall>(n, h)\<in>(\<lambda>t. (f t, g t)) ` S. (n, True) \<in> (\<lambda>t. (f t, g t)) ` S) \<longleftrightarrow> (\<forall>t\<in>S. \<exists>t'\<in>S. f t' = f t \<and> g t')"
  by (simp add: image_iff) metis

lemma rule_0006: "taxonomy_in_footprint_0006 x tenant ids \<longleftrightarrow> scope_rule x tenant ids"
proof -
  define joined where "joined = concat (map (\<lambda>i. concat (map (\<lambda>t. map (\<lambda>d.
            (dm_id d, \<exists>f\<in>set (tx_footprint x). fr_term f = tm_id t \<and> fr_tenant f = tenant))
          (filter (\<lambda>d. dm_id d = tm_dimension t \<and> narrows x tenant d) (tx_dimensions x)))
          (filter (\<lambda>t. tm_id t = i) (tx_terms x)))) ids)"
  have hit: "(\<exists>f\<in>set (tx_footprint x). fr_term f = tm_id t \<and> fr_tenant f = tenant) \<longleftrightarrow> tm_id t \<in> set (named_ids x tenant)" for t
    by (auto simp: named_ids_def image_iff)
  define met where "met n \<longleftrightarrow> (\<exists>t. carries x ids t \<and> tm_dimension t = n \<and> tm_id t \<in> set (named_ids x tenant))" for n
  define guarded where "guarded n \<longleftrightarrow> (\<exists>d\<in>set (tx_dimensions x). dm_id d = n \<and> narrows x tenant d)" for n
  have row: "set joined = (\<lambda>t. (tm_dimension t, tm_id t \<in> set (named_ids x tenant))) ` {t. carries x ids t \<and> guarded (tm_dimension t)}"
    unfolding joined_def hit carries_def guarded_def by (force simp: image_iff)
  have "taxonomy_in_footprint_0006 x tenant ids \<longleftrightarrow> (\<forall>(n, h)\<in>set joined. (n, True) \<in> set joined)"
    unfolding taxonomy_in_footprint_0006_def Let_def joined_def [symmetric] by fastforce
  also have "\<dots> \<longleftrightarrow> (\<forall>t. carries x ids t \<and> guarded (tm_dimension t) \<longrightarrow> met (tm_dimension t))"
    unfolding row grouped met_def by simp metis
  also have "\<dots> \<longleftrightarrow> scope_rule x tenant ids"
    unfolding scope_rule_def guarded_def met_def [symmetric] by (auto 0 3)
  finally show ?thesis .
qed

text \<open>C21: The two halves of the scope rule agree: for every taxonomy the database can hold, every bank and every
  change, the Python rule over the change's scope and the bank's footprint answers what the database's
  function answers over the ids of the change's terms.\<close>

theorem python_is_sql:
  assumes "taxonomy_ok x"
  shows "in_footprint (scope_of x ch) (footprint_of x tenant) (restricting_dimensions x) \<longleftrightarrow>
    taxonomy_in_footprint x tenant (scope_term_ids x ch)"
  by (simp add: scope_of_terms_of_change python_rule [OF assms] sql_rule [OF assms])

theorem python_is_sql_witness:
  "map (\<lambda>ch. taxonomy_in_footprint (db_taxonomy ex_db) 1 (scope_term_ids (db_taxonomy ex_db) ch)) (db_changes ex_db) = [True, False] \<and>
   map (\<lambda>ch. in_footprint (scope_of (db_taxonomy ex_db) ch) (footprint_of (db_taxonomy ex_db) 1)
      (restricting_dimensions (db_taxonomy ex_db))) (db_changes ex_db) = [True, False]"
proof -
  have "taxonomy_ok (db_taxonomy ex_db)"
    by (simp add: taxonomy_ok_def ex_db_def)
  moreover have "map (\<lambda>ch. taxonomy_in_footprint (db_taxonomy ex_db) 1 (scope_term_ids (db_taxonomy ex_db) ch)) (db_changes ex_db) =
    [True, False]"
    by code_simp
  ultimately show ?thesis using python_is_sql [of "db_taxonomy ex_db"] by simp
qed

text \<open>Migration 0008 changed the plan, not the answer: its guard arrays and loop admit exactly the term ids
  that migration 0006's join and grouping admitted, for every bank.\<close>

theorem migration_keeps_the_rule:
  assumes "taxonomy_ok x"
  shows "taxonomy_in_footprint x tenant ids \<longleftrightarrow> taxonomy_in_footprint_0006 x tenant ids"
  by (simp add: sql_rule [OF assms] rule_0006)

theorem migration_keeps_the_rule_witness:
  "map (taxonomy_in_footprint (db_taxonomy ex_db) 1) [[1], [2], [1, 2], []] =
    map (taxonomy_in_footprint_0006 (db_taxonomy ex_db) 1) [[1], [2], [1, 2], []] \<and>
   map (taxonomy_in_footprint (db_taxonomy ex_db) 1) [[1], [2], [1, 2], []] = [False, True, True, True]"
proof -
  have "taxonomy_ok (db_taxonomy ex_db)"
    by (simp add: taxonomy_ok_def ex_db_def)
  moreover have "map (taxonomy_in_footprint (db_taxonomy ex_db) 1) [[1], [2], [1, 2], []] = [False, True, True, True]"
    by code_simp
  ultimately show ?thesis using migration_keeps_the_rule [of "db_taxonomy ex_db"] by simp
qed

section \<open>The cached verdict\<close>

lemma recompute_rows:
  "db_cases (recompute t ch d) = map (\<lambda>c. if recompute_hits t ch d c then c\<lparr>c_footprint_match := verdict d c\<rparr> else c) (db_cases d)"
  by (simp add: recompute_def Let_def frame_simps)

lemma recompute_frame:
  "db_taxonomy (recompute t ch d) = db_taxonomy d" "db_changes (recompute t ch d) = db_changes d"
  "db_tenants (recompute t ch d) = db_tenants d"
  by (simp_all add: recompute_def Let_def frame_simps)

lemma verdict_cong:
  "db_taxonomy d' = db_taxonomy d \<Longrightarrow> db_changes d' = db_changes d \<Longrightarrow> c_tenant c' = c_tenant c \<Longrightarrow> c_change c' = c_change c \<Longrightarrow>
    verdict d' c' = verdict d c"
  by (simp add: verdict_def cong: option.case_cong)

lemma verdict_cached [simp]: "verdict d (c\<lparr>c_footprint_match := b\<rparr>) = verdict d c"
  by (rule verdict_cong) simp_all

text \<open>What one bank's recompute does to one row: nothing to a row that is settled or somebody else's.\<close>

definition rechecked :: "uuid set \<Rightarrow> uuid option \<Rightarrow> db \<Rightarrow> change_case \<Rightarrow> change_case" where
  "rechecked ts ch d c =
    (if c_tenant c \<in> ts \<and> c_status c \<notin> {CLOSED, DISMISSED} \<and> (case ch of None \<Rightarrow> True | Some i \<Rightarrow> c_change c = i)
     then c\<lparr>c_footprint_match := verdict d c\<rparr> else c)"

lemma recompute_is_rechecked: "db_cases (recompute t ch d) = map (rechecked {t} ch d) (db_cases d)"
  by (auto simp: recompute_rows rechecked_def recompute_hits_def)

lemma rechecked_again:
  "db_taxonomy d' = db_taxonomy d \<Longrightarrow> db_changes d' = db_changes d \<Longrightarrow>
    rechecked T ch d' (rechecked S ch d c) = rechecked (T \<union> S) ch d c"
  using verdict_cong [of d' d] by (cases ch) (auto simp: rechecked_def)

lemma recompute_all:
  "db_cases (fold (\<lambda>t d. recompute (tn_id t) ch d) ts d) = map (rechecked (tn_id ` set ts) ch d) (db_cases d) \<and>
    db_taxonomy (fold (\<lambda>t d. recompute (tn_id t) ch d) ts d) = db_taxonomy d \<and>
    db_changes (fold (\<lambda>t d. recompute (tn_id t) ch d) ts d) = db_changes d"
proof (induction ts arbitrary: d)
  case Nil
  then show ?case by (simp add: rechecked_def)
next
  case (Cons t ts)
  have "rechecked (tn_id ` set ts) ch (recompute (tn_id t) ch d) (rechecked {tn_id t} ch d c) =
      rechecked (tn_id ` set (t # ts)) ch d c" for c
    by (subst rechecked_again) (simp_all add: recompute_frame)
  then show ?case
    using Cons.IH [of "recompute (tn_id t) ch d"] by (simp add: recompute_is_rechecked recompute_frame)
qed

text \<open>The cached verdict is the rule: after a change's scope moved, every open case of it at an active bank
  carries the verdict of the database's rule, whatever it carried before; after a bank's footprint moved, every
  open case of that bank does; and every other case is exactly as it was.\<close>

theorem verdicts_are_recomputed:
  "db_cases (after_change_scope_change (Some i) d) = map (\<lambda>c.
      if c_status c \<notin> {CLOSED, DISMISSED} \<and> c_change c = i \<and> (\<exists>t\<in>set (db_tenants d). tn_active t \<and> tn_id t = c_tenant c)
      then c\<lparr>c_footprint_match := verdict d c\<rparr> else c) (db_cases d) \<and>
   db_cases (after_footprint_change (Some t) d) = map (\<lambda>c.
      if c_status c \<notin> {CLOSED, DISMISSED} \<and> c_tenant c = t then c\<lparr>c_footprint_match := verdict d c\<rparr> else c) (db_cases d)"
proof
  have "db_cases (after_change_scope_change (Some i) d) = map (rechecked (tn_id ` set (active_tenants d)) (Some i) d) (db_cases d)"
    using recompute_all [of "Some i" "active_tenants d" d] by (simp add: after_change_scope_change_def)
  then show "db_cases (after_change_scope_change (Some i) d) = map (\<lambda>c.
      if c_status c \<notin> {CLOSED, DISMISSED} \<and> c_change c = i \<and> (\<exists>t\<in>set (db_tenants d). tn_active t \<and> tn_id t = c_tenant c)
      then c\<lparr>c_footprint_match := verdict d c\<rparr> else c) (db_cases d)"
    by (auto simp: rechecked_def active_tenants_def image_iff)
  show "db_cases (after_footprint_change (Some t) d) = map (\<lambda>c.
      if c_status c \<notin> {CLOSED, DISMISSED} \<and> c_tenant c = t then c\<lparr>c_footprint_match := verdict d c\<rparr> else c) (db_cases d)"
    by (simp add: after_footprint_change_def recompute_is_rechecked rechecked_def)
qed

theorem verdicts_are_recomputed_witness:
  "map c_footprint_match (db_cases (after_change_scope_change (Some 7)
     (ex_db\<lparr>db_cases := [ex_case\<lparr>c_footprint_match := False\<rparr>, ex_case\<lparr>c_status := CLOSED, c_footprint_match := False\<rparr>]\<rparr>))) = [True, False]"
proof -
  have "verdict (ex_db\<lparr>db_cases := cs\<rparr>) (ex_case\<lparr>c_footprint_match := False\<rparr>)" for cs
  proof -
    have "verdict ex_db (ex_case\<lparr>c_footprint_match := False\<rparr>)" by code_simp
    then show ?thesis by (simp add: verdict_def cong: option.case_cong)
  qed
  moreover have "c_status ex_case = NEW" "c_tenant ex_case = 1" "c_change ex_case = 7" by (simp_all add: ex_case_def)
  ultimately show ?thesis
    using verdicts_are_recomputed [of 7 "ex_db\<lparr>db_cases := [ex_case\<lparr>c_footprint_match := False\<rparr>, ex_case\<lparr>c_status := CLOSED, c_footprint_match := False\<rparr>]\<rparr>"]
    by (simp add: ex_db_def)
qed

section \<open>A case for every bank\<close>

text \<open>One bank's creation: a row of its own when there is none.\<close>

lemma fresh_case_checks: "case_checks (fresh_case t f m d)"
  by (simp add: fresh_case_def case_check_defs)

lemma fresh_case_sel:
  "c_tenant (fresh_case t f m d) = tn_id t" "c_change (fresh_case t f m d) = cf_id f" "c_status (fresh_case t f m d) = NEW"
  "c_so_what_text (fresh_case t f m d) = cf_so_what_draft f" "c_footprint_match (fresh_case t f m d) = m"
  "c_so_what_confirmed (fresh_case t f m d) = False" "c_triage_due_at (fresh_case t f m d) = Some (db_now d + int (tn_triage_target_hours t) * hour)"
  by (simp_all add: fresh_case_def)

definition has_case :: "db \<Rightarrow> uuid \<Rightarrow> uuid \<Rightarrow> bool" where
  "has_case d t ch \<longleftrightarrow> (\<exists>c\<in>set (db_cases d). c_tenant c = t \<and> c_change c = ch)"

definition opened :: "db \<Rightarrow> change_facts \<Rightarrow> restricting \<Rightarrow> tenant_row \<Rightarrow> change_case \<Rightarrow> bool" where
  "opened d f r t c \<longleftrightarrow> c_tenant c = tn_id t \<and> c_change c = cf_id f \<and> c_status c = NEW \<and> c_so_what_text c = cf_so_what_draft f \<and>
    \<not> c_so_what_confirmed c \<and> c_triage_due_at c = Some (db_now d + int (tn_triage_target_hours t) * hour) \<and>
    (c_footprint_match c \<longleftrightarrow> in_footprint (cf_scope f) (footprint_of (db_taxonomy d) (tn_id t)) r)"

definition same_library :: "db \<Rightarrow> db \<Rightarrow> bool" where
  "same_library d d' \<longleftrightarrow> db_taxonomy d' = db_taxonomy d \<and> db_changes d' = db_changes d \<and> db_tenants d' = db_tenants d \<and>
    db_vocab d' = db_vocab d \<and> db_now d' = db_now d"

lemma create_case_there: "has_case d (tn_id t) (cf_id f) \<Longrightarrow> create_case t f r d = d"
  by (auto simp: create_case_def insert_case_def has_case_def fresh_case_sel Let_def)

lemma create_case_new:
  assumes "\<not> has_case d (tn_id t) (cf_id f)"
  shows "\<exists>c. db_cases (create_case t f r d) = db_cases d @ [c] \<and> opened d f r t c \<and> same_library d (create_case t f r d)"
  using assms
  by (auto simp: create_case_def insert_case_def has_case_def fresh_case_sel fresh_case_checks Let_def frame_simps opened_def
    same_library_def outside_reasons_Nil)

lemma opened_cong: "same_library d d' \<Longrightarrow> opened d' f r t c \<longleftrightarrow> opened d f r t c"
  by (simp add: opened_def same_library_def)

abbreviation "open_all f ts d \<equiv> fold (\<lambda>t d. create_case t f (restricting_dimensions (db_taxonomy d)) d) ts d"

lemma open_all:
  "\<exists>new. db_cases (open_all f ts d) = db_cases d @ new \<and>
     (\<forall>c\<in>set new. \<exists>t\<in>set ts. opened d f (restricting_dimensions (db_taxonomy d)) t c \<and> \<not> has_case d (tn_id t) (cf_id f)) \<and>
     (\<forall>t\<in>set ts. has_case (open_all f ts d) (tn_id t) (cf_id f)) \<and> same_library d (open_all f ts d)"
proof (induction ts arbitrary: d)
  case Nil
  then show ?case by (simp add: same_library_def)
next
  case (Cons t ts)
  let ?r = "restricting_dimensions (db_taxonomy d)"
  let ?d = "create_case t f ?r d"
  obtain one where one: "db_cases ?d = db_cases d @ one" "same_library d ?d"
    "\<forall>c\<in>set one. opened d f ?r t c \<and> \<not> has_case d (tn_id t) (cf_id f)" "has_case ?d (tn_id t) (cf_id f)"
  proof (cases "has_case d (tn_id t) (cf_id f)")
    case True
    with that [of "[]"] show ?thesis by (simp add: create_case_there same_library_def)
  next
    case False
    with create_case_new [of d t f ?r] that show ?thesis by (force simp: has_case_def opened_def)
  qed
  obtain new where new: "db_cases (open_all f ts ?d) = db_cases ?d @ new"
    "\<forall>c\<in>set new. \<exists>t\<in>set ts. opened ?d f (restricting_dimensions (db_taxonomy ?d)) t c \<and> \<not> has_case ?d (tn_id t) (cf_id f)"
    "\<forall>t\<in>set ts. has_case (open_all f ts ?d) (tn_id t) (cf_id f)" "same_library ?d (open_all f ts ?d)"
    using Cons.IH [of ?d] by blast
  have "has_case d x y \<Longrightarrow> has_case ?d x y" for x y using one(1) by (auto simp: has_case_def)
  moreover have "has_case ?d x y \<Longrightarrow> has_case (open_all f ts ?d) x y" for x y
    using new(1) by (auto simp: has_case_def)
  moreover have "db_taxonomy ?d = db_taxonomy d" using one(2) by (simp add: same_library_def)
  moreover have "same_library d (open_all f ts ?d)" using one(2) new(4) by (simp add: same_library_def)
  ultimately show ?case
    using one new opened_cong [OF one(2)]
    by (intro exI [of _ "one @ new"]) (simp, blast)
qed

lemma open_all_again: "\<forall>t\<in>set ts. has_case d (tn_id t) (cf_id f) \<Longrightarrow> open_all f ts d = d"
  by (induction ts) (simp_all add: create_case_there)

text \<open>C25: A registered change opens a case at every active bank, once: afterwards each active bank has a case for it,
  the cases there were are as they were, each new one is a new case of an active bank that had none, with the
  library's draft, the bank's triage target and the verdict the database's own rule gives it; and
  delivering the registration again changes nothing.\<close>

theorem registration_opens_every_case:
  assumes "create_cases (Some i) d = Inr d'" and "find (\<lambda>ch. ch_id ch = i) (db_changes d) = Some ch" and "taxonomy_ok (db_taxonomy d)"
  shows "\<exists>new. db_cases d' = db_cases d @ new \<and>
    (\<forall>t\<in>set (db_tenants d). tn_active t \<longrightarrow> (\<exists>c\<in>set (db_cases d'). c_tenant c = tn_id t \<and> c_change c = i)) \<and>
    (\<forall>c\<in>set new. c_change c = i \<and> c_status c = NEW \<and> c_so_what_text c = ch_so_what_draft ch \<and> \<not> c_so_what_confirmed c \<and>
      c_footprint_match c = verdict d' c \<and>
      (\<exists>t\<in>set (db_tenants d). tn_active t \<and> tn_id t = c_tenant c \<and>
        c_triage_due_at c = Some (db_now d + int (tn_triage_target_hours t) * hour) \<and>
        \<not> (\<exists>x\<in>set (db_cases d). c_tenant x = tn_id t \<and> c_change x = i))) \<and>
    create_cases (Some i) d' = Inr d'"
proof -
  have i: "ch_id ch = i" using assms(2) find_Some_in [OF assms(2)] by simp
  from assms obtain f where f: "change_facts_of i d = Inr (Some f)" and d': "d' = open_all f (active_tenants d) d"
    by (auto simp: create_cases_def ebind_eq_Inr change_facts_of_def split: option.splits)
  have f_sel: "cf_id f = i" "cf_scope f = scope_of (db_taxonomy d) ch" "cf_so_what_draft f = ch_so_what_draft ch"
    using f assms(2) i by (auto simp: change_facts_of_def ebind_eq_Inr)
  obtain new where new: "db_cases d' = db_cases d @ new"
      "\<forall>c\<in>set new. \<exists>t\<in>set (active_tenants d). opened d f (restricting_dimensions (db_taxonomy d)) t c \<and> \<not> has_case d (tn_id t) (cf_id f)"
      "\<forall>t\<in>set (active_tenants d). has_case d' (tn_id t) (cf_id f)" and lib: "same_library d d'"
    using open_all [of f "active_tenants d" d] unfolding d' by blast
  have rows: "\<forall>c\<in>set new. c_change c = i \<and> c_status c = NEW \<and> c_so_what_text c = ch_so_what_draft ch \<and> \<not> c_so_what_confirmed c \<and>
      c_footprint_match c = verdict d' c \<and> (\<exists>t\<in>set (db_tenants d). tn_active t \<and> tn_id t = c_tenant c \<and>
        c_triage_due_at c = Some (db_now d + int (tn_triage_target_hours t) * hour) \<and>
        \<not> (\<exists>x\<in>set (db_cases d). c_tenant x = tn_id t \<and> c_change x = i))"
  proof
    fix c assume "c \<in> set new"
    then obtain t where t: "t \<in> set (active_tenants d)" "opened d f (restricting_dimensions (db_taxonomy d)) t c"
      "\<not> has_case d (tn_id t) i"
      using new(2) unfolding f_sel by blast
    have "c_footprint_match c = verdict d' c"
      using t(2) lib assms(2) python_rule [OF assms(3)] sql_rule [OF assms(3)]
      by (auto simp: opened_def same_library_def verdict_def f_sel scope_of_terms_of_change)
    then show "c_change c = i \<and> c_status c = NEW \<and> c_so_what_text c = ch_so_what_draft ch \<and> \<not> c_so_what_confirmed c \<and>
      c_footprint_match c = verdict d' c \<and> (\<exists>t\<in>set (db_tenants d). tn_active t \<and> tn_id t = c_tenant c \<and>
        c_triage_due_at c = Some (db_now d + int (tn_triage_target_hours t) * hour) \<and>
        \<not> (\<exists>x\<in>set (db_cases d). c_tenant x = tn_id t \<and> c_change x = i))"
      using t by (auto simp: opened_def has_case_def f_sel active_tenants_def)
  qed
  have there: "\<forall>t\<in>set (db_tenants d). tn_active t \<longrightarrow> (\<exists>c\<in>set (db_cases d'). c_tenant c = tn_id t \<and> c_change c = i)"
    using new(3) by (simp add: active_tenants_def has_case_def f_sel)
  have "change_facts_of i d' = change_facts_of i d"
    using lib by (simp add: change_facts_of_def urgency_for_def same_library_def cong: option.case_cong)
  moreover have "active_tenants d' = active_tenants d" using lib by (simp add: active_tenants_def same_library_def)
  ultimately have again: "create_cases (Some i) d' = Inr d'"
    using new(3) by (simp add: create_cases_def f open_all_again)
  show ?thesis
    by (intro exI [of _ new] conjI new(1) there rows again)
qed

theorem registration_opens_every_case_witness:
  "\<exists>d'. create_cases (Some 8) ex_db = Inr d' \<and> create_cases (Some 8) d' = Inr d' \<and>
    (\<exists>c\<in>set (db_cases d'). c_tenant c = 2 \<and> c_change c = 8)"
proof -
  have "\<not> isl (create_cases (Some 8) ex_db)" by code_simp
  then obtain d' where d': "create_cases (Some 8) ex_db = Inr d'" by (cases "create_cases (Some 8) ex_db") auto
  have "find (\<lambda>ch. ch_id ch = 8) (db_changes ex_db) = Some (db_changes ex_db ! 1)" and "taxonomy_ok (db_taxonomy ex_db)"
    by (simp_all add: ex_db_def taxonomy_ok_def)
  from registration_opens_every_case [OF d' this] d' show ?thesis
    by (fastforce simp: ex_db_def)
qed

section \<open>The drafted answer\<close>

lemma draft_rows:
  "db_cases (apply_draft_in_tenant t f d) =
    map (\<lambda>c. if draft_hits t f c then c\<lparr>c_so_what_text := cf_so_what_draft f\<rparr> else c) (db_cases d)"
  by (simp add: apply_draft_in_tenant_def Let_def frame_simps)

definition drafted_for :: "uuid set \<Rightarrow> change_facts \<Rightarrow> change_case \<Rightarrow> change_case" where
  "drafted_for ts f c = (if c_tenant c \<in> ts \<and> c_change c = cf_id f \<and> \<not> c_so_what_confirmed c
     then c\<lparr>c_so_what_text := cf_so_what_draft f\<rparr> else c)"

lemma draft_is_drafted: "db_cases (apply_draft_in_tenant t f d) = map (drafted_for {t} f) (db_cases d)"
  by (auto simp: draft_rows drafted_for_def draft_hits_def)

lemma drafted_again: "drafted_for T f (drafted_for S f c) = drafted_for (T \<union> S) f c"
  by (auto simp: drafted_for_def)

lemma draft_all:
  "db_cases (fold (\<lambda>t d. apply_draft_in_tenant (tn_id t) f d) ts d) = map (drafted_for (tn_id ` set ts) f) (db_cases d)"
proof (induction ts arbitrary: d)
  case Nil
  then show ?case by (simp add: drafted_for_def)
next
  case (Cons t ts)
  then show ?case by (simp add: draft_is_drafted drafted_again)
qed

text \<open>A draft never overwrites an answer: when a drafted "So what?" arrives, every case of that change at an
  active bank that has not confirmed an answer carries the draft, and every other case, above all every
  confirmed one, is exactly as it was.\<close>

theorem drafts_spare_answers:
  assumes "apply_draft (Some i) d = Inr d'" and "find (\<lambda>ch. ch_id ch = i) (db_changes d) = Some ch"
  shows "db_cases d' = map (\<lambda>c.
    if c_change c = i \<and> \<not> c_so_what_confirmed c \<and> (\<exists>t\<in>set (db_tenants d). tn_active t \<and> tn_id t = c_tenant c)
    then c\<lparr>c_so_what_text := ch_so_what_draft ch\<rparr> else c) (db_cases d)"
proof -
  from assms(1) obtain facts where facts: "change_facts_of i d = Inr facts"
    and d': "d' = (case facts of None \<Rightarrow> d | Some f \<Rightarrow> fold (\<lambda>t d. apply_draft_in_tenant (tn_id t) f d) (active_tenants d) d)"
    by (auto simp: apply_draft_def ebind_eq_Inr split: option.splits)
  obtain f where f: "facts = Some f" "cf_id f = ch_id ch" "cf_so_what_draft f = ch_so_what_draft ch"
    using facts assms(2) by (auto simp: change_facts_of_def ebind_eq_Inr)
  moreover have "ch_id ch = i" using find_Some_in [OF assms(2)] by simp
  ultimately have rows: "db_cases d' = map (drafted_for (tn_id ` set (active_tenants d)) f) (db_cases d)" and fi: "cf_id f = i"
    unfolding d' by (simp_all add: draft_all)
  have "c_tenant c \<in> tn_id ` set (active_tenants d) \<longleftrightarrow> (\<exists>t\<in>set (db_tenants d). tn_active t \<and> tn_id t = c_tenant c)" for c
    by (auto simp: active_tenants_def image_iff)
  then show ?thesis
    unfolding rows drafted_for_def fi f(3) by (auto simp del: image_iff)
qed

theorem drafts_spare_answers_witness:
  "\<exists>d'. apply_draft (Some 7) (ex_db\<lparr>db_cases := [ex_case\<lparr>c_so_what_text := ''old''\<rparr>, ex_case\<lparr>c_so_what_text := ''ours'', c_so_what_confirmed := True\<rparr>]\<rparr>)
      = Inr d' \<and> map c_so_what_text (db_cases d') = [''draft'', ''ours'']"
proof -
  let ?d = "ex_db\<lparr>db_cases := [ex_case\<lparr>c_so_what_text := ''old''\<rparr>, ex_case\<lparr>c_so_what_text := ''ours'', c_so_what_confirmed := True\<rparr>]\<rparr>"
  have "\<not> isl (apply_draft (Some 7) ?d)" by code_simp
  then obtain d' where d': "apply_draft (Some 7) ?d = Inr d'" by (cases "apply_draft (Some 7) ?d") auto
  have "find (\<lambda>ch. ch_id ch = 7) (db_changes ?d) = Some (db_changes ?d ! 0)" by (simp add: ex_db_def)
  from drafts_spare_answers [OF d' this] d' show ?thesis
    by (simp add: ex_db_def ex_case_def)
qed

section \<open>The machine behind the handlers\<close>

text \<open>C16: The handlers implement the case machine: seen through the tables of the workflow, whatever handlers, tasks and
  library events run from an initial state, in whatever order, is a run of the abstract machine of guarded
  moves and allowed edits from one of its initial states.\<close>

theorem handlers_refine_the_machine:
  assumes "case_init d0" and "case_step\<^sup>*\<^sup>* d0 d"
  shows "board_init (board_of d0) \<and> board_step\<^sup>*\<^sup>* (board_of d0) (board_of d)"
  using assms(2)
proof (induction rule: rtranclp_induct)
  case base
  then show ?case using assms(1) by (simp add: case_init_def)
next
  case (step u v)
  then show ?case
    using case_step_board case_sys.inv_reachable [OF assms(1)] by (meson rtranclp_trans)
qed

theorem handlers_refine_the_machine_witness:
  "board_init (board_of ex_db) \<and> board_step\<^sup>*\<^sup>* (board_of ex_db) (board_of ex_signed) \<and> map t_to (b_ledger (board_of ex_signed)) = [ASSIGNED, ASSESSING, IMPLEMENTING, SIGNOFF, CLOSED]"
proof -
  have "map t_to (b_ledger (board_of ex_signed)) = [ASSIGNED, ASSESSING, IMPLEMENTING, SIGNOFF, CLOSED]" by code_simp
  with handlers_refine_the_machine [OF ex_init ex_reach_signed] show ?thesis by blast
qed

section \<open>A version goes out and comes back\<close>

lemma unquoted:
  "strip_char (CHR 0x22) (show_nat n) = show_nat n" "strip_char (CHR 0x22) (CHR 0x22 # show_nat n @ [CHR 0x22]) = show_nat n"
  "strip_char (CHR 0x22) (CHR ''W'' # CHR ''/'' # CHR 0x22 # show_nat n @ [CHR 0x22]) = CHR ''W'' # CHR ''/'' # CHR 0x22 # show_nat n"
  "strip_char (CHR 0x22) (CHR 0x22 # show_nat n) = show_nat n" "removeprefix ''W/'' (show_nat n) = show_nat n"
proof -
  have left: "dropWhile ((=) (CHR 0x22)) (show_nat n @ t) = show_nat n @ t" for t
    using shown(1) [of n] shown(2) [of "hd (show_nat n)" n] by (cases "show_nat n") auto
  have right: "dropWhile ((=) (CHR 0x22)) (rev (show_nat n) @ t) = rev (show_nat n) @ t" for t
    using shown(1) [of n] shown(2) [of "last (show_nat n)" n] by (cases "show_nat n" rule: rev_cases) auto
  show "strip_char (CHR 0x22) (show_nat n) = show_nat n" "strip_char (CHR 0x22) (CHR 0x22 # show_nat n @ [CHR 0x22]) = show_nat n"
    "strip_char (CHR 0x22) (CHR ''W'' # CHR ''/'' # CHR 0x22 # show_nat n @ [CHR 0x22]) = CHR ''W'' # CHR ''/'' # CHR 0x22 # show_nat n"
    "strip_char (CHR 0x22) (CHR 0x22 # show_nat n) = show_nat n"
    using left [of "[]"] left [of "[CHR 0x22]"] right [of "[]"] right [of "[CHR 0x22, CHR ''/'', CHR ''W'']"]
    by (simp_all add: strip_char_def)
  show "removeprefix ''W/'' (show_nat n) = show_nat n"
    using shown(1) [of n] shown(2) [of "hd (show_nat n)" n] by (cases "show_nat n") (auto simp: removeprefix_def)
qed

text \<open>Round trip of a version: however a client quotes the version it last read, bare, as an entity tag or as a
  weak one, the header is read back as exactly that version.\<close>

theorem versions_round_trip:
  "if_match (Some (show_nat n)) = Inr (Some n) \<and>
   if_match (Some (CHR 0x22 # show_nat n @ [CHR 0x22])) = Inr (Some n) \<and>
   if_match (Some (''W/'' @ CHR 0x22 # show_nat n @ [CHR 0x22])) = Inr (Some n)"
proof -
  have space: "\<not> is_space (code (CHR 0x22))" "\<not> is_space (code (CHR ''W''))" "\<not> is_space (code (CHR ''/''))"
    by (simp_all add: is_space_def code_def)
  have "strip (show_nat n) = show_nat n" "strip (CHR 0x22 # show_nat n @ [CHR 0x22]) = CHR 0x22 # show_nat n @ [CHR 0x22]"
    "strip (CHR ''W'' # CHR ''/'' # CHR 0x22 # show_nat n @ [CHR 0x22]) = CHR ''W'' # CHR ''/'' # CHR 0x22 # show_nat n @ [CHR 0x22]"
    by (rule strip_none; use space shown(2) [of _ n] in auto)+
  moreover have "removeprefix ''W/'' (CHR ''W'' # CHR ''/'' # CHR 0x22 # show_nat n) = CHR 0x22 # show_nat n"
    by (simp add: removeprefix_def)
  ultimately show ?thesis
    by (simp add: if_match_def shown(1) unquoted py_int_show)
qed

end
