(* ===== verification/Outbox.thy ===== *)
theory Outbox
  imports Case_Store "HOL-Library.Product_Lexorder"
begin

text \<open>
  The one ordered cursor over the outbox, \<^verbatim>\<open>backend/apps/shared/outbox.py\<close>: what \<open>record_event\<close> wrote
  beside its audit row is delivered here, a batch at a time, to the handlers the consumers registered.
  A handler is a consumer's code: a name and, in the argument \<open>run\<close>, what it does with a row to the
  consumers' own state, with the outbox rows it records itself.  The zone a row's handlers run in is
  the row's tenant; the database setting that carries it is not modelled.
\<close>

section \<open>Rows, cursor and settings\<close>

record outbox_event = outbox_row +
  oe_created :: instant
  oe_published_at :: "instant option"
  oe_attempts :: nat
  oe_last_error :: string

record cursor =
  cu_last_created :: "instant option"
  cu_last_id :: "uuid option"
  cu_retry_not_before :: "instant option"

record outbox_settings =
  os_batch_size :: nat
  os_max_attempts :: nat
  os_retry_backoff_s :: nat

text \<open>The table, the cursor's row if there is one, whether another worker holds it, and the consumers'
  state; the tenants are in the order of their slugs.\<close>

record 'w relay =
  rl_next :: uuid
  rl_now :: instant
  rl_tenants :: "uuid list"
  rl_events :: "outbox_event list"
  rl_cursor :: "cursor option"
  rl_locked :: bool
  rl_world :: 'w

type_synonym 'w consumer = "string \<Rightarrow> outbox_event \<Rightarrow> 'w \<Rightarrow> string + 'w \<times> outbox_row list"
type_synonym registry = "(string \<times> string list) list"

section \<open>Registration\<close>

fun register_handler :: "string \<Rightarrow> string \<Rightarrow> registry \<Rightarrow> registry" where
  "register_handler kind fn [] = [(kind, [fn])]"
| "register_handler kind fn ((k, fns) # reg) =
    (if k = kind then (k, if fn \<in> set fns then fns else fns @ [fn]) # reg
     else (k, fns) # register_handler kind fn reg)"

definition handlers_for :: "string \<Rightarrow> registry \<Rightarrow> string list" where
  "handlers_for kind reg = (case map_of reg kind of None \<Rightarrow> [] | Some fns \<Rightarrow> fns)"

section \<open>Reading what is pending\<close>

definition event_key :: "outbox_event \<Rightarrow> instant \<times> uuid" where
  "event_key e = (oe_created e, ob_id e)"

definition is_pending :: "outbox_settings \<Rightarrow> outbox_event \<Rightarrow> bool" where
  "is_pending cfg e \<longleftrightarrow> oe_published_at e = None \<and> oe_attempts e < os_max_attempts cfg"

text \<open>\<^verbatim>\<open>_pending\<close>: one ordered, limited read per zone, merged and limited again.\<close>

definition zone_read :: "outbox_settings \<Rightarrow> 'w relay \<Rightarrow> uuid option \<Rightarrow> outbox_event list" where
  "zone_read cfg s z = take (os_batch_size cfg) (sort_key event_key
     (filter (\<lambda>e. is_pending cfg e) (filter (\<lambda>e. ob_tenant e = z) (rl_events s))))"

definition pending_rows :: "outbox_settings \<Rightarrow> 'w relay \<Rightarrow> outbox_event list" where
  "pending_rows cfg s = take (os_batch_size cfg) (sort_key event_key
     (concat (map (zone_read cfg s) (None # map Some (rl_tenants s)))))"

section \<open>Delivering one row\<close>

text \<open>The handlers of a row, one after the other; what they record is a list of rows for the table.\<close>

fun run_handlers :: "'w consumer \<Rightarrow> string list \<Rightarrow> outbox_event \<Rightarrow> 'w \<Rightarrow> string + 'w \<times> outbox_row list" where
  "run_handlers run [] e w = Inr (w, [])"
| "run_handlers run (h # hs) e w =
    ebind (run h e w) (\<lambda>(w1, written).
    ebind (run_handlers run hs e w1) (\<lambda>(w2, more).
    Inr (w2, written @ more)))"

text \<open>\<^verbatim>\<open>_deliver\<close>: an exception rolls back to the savepoint, so only an answer has effects.  A recorded row
  of an unknown tenant is refused by its foreign key.\<close>

definition deliver :: "'w consumer \<Rightarrow> registry \<Rightarrow> uuid list \<Rightarrow> outbox_event \<Rightarrow> 'w \<Rightarrow> string + 'w \<times> outbox_row list" where
  "deliver run reg tenants e w =
    ebind (run_handlers run (handlers_for (ob_topic e) reg) e w) (\<lambda>(w1, written).
    ebind (ensure (\<forall>r\<in>set written. ob_tenant r \<in> set (None # map Some tenants)) ''IntegrityError'') (\<lambda>_.
    Inr (w1, written)))"

text \<open>An INSERT: a fresh id, created now, nothing tried yet.\<close>

definition stored_row :: "uuid \<Rightarrow> instant \<Rightarrow> outbox_row \<Rightarrow> outbox_event" where
  "stored_row i now r = \<lparr>ob_id = i, ob_tenant = ob_tenant r, ob_audit = ob_audit r, ob_topic = ob_topic r,
     ob_payload = ob_payload r, oe_created = now, oe_published_at = None, oe_attempts = 0, oe_last_error = []\<rparr>"

definition insert_rows :: "outbox_row list \<Rightarrow> 'w relay \<Rightarrow> 'w relay" where
  "insert_rows rows s =
    s\<lparr>rl_next := rl_next s + length rows,
      rl_events := rl_events s @ map2 (\<lambda>i. stored_row i (rl_now s)) [rl_next s..<rl_next s + length rows] rows\<rparr>"

text \<open>\<^verbatim>\<open>_record_failure\<close>: the attempt and the exception's type name on the row; whether its attempts are spent.\<close>

definition record_failure :: "outbox_settings \<Rightarrow> outbox_event \<Rightarrow> string \<Rightarrow> 'w relay \<Rightarrow> bool \<times> 'w relay" where
  "record_failure cfg e err s =
    (let n = Suc (oe_attempts e) in
     (os_max_attempts cfg \<le> n,
      s\<lparr>rl_events := map (\<lambda>r. if ob_id r = ob_id e then r\<lparr>oe_attempts := n, oe_last_error := take 500 err\<rparr> else r)
          (rl_events s)\<rparr>))"

definition second :: instant where
  "second = 1000000"

definition backoff :: "outbox_settings \<Rightarrow> nat \<Rightarrow> instant" where
  "backoff cfg attempts = int (os_retry_backoff_s cfg * 2 ^ (attempts - 1)) * second"

section \<open>A batch\<close>

record batch_result =
  br_delivered :: nat
  br_failed :: nat

text \<open>The loop over the rows: the cursor, what was delivered so far, the failures and the state.\<close>

fun deliver_rows :: "outbox_settings \<Rightarrow> 'w consumer \<Rightarrow> registry \<Rightarrow> outbox_event list \<Rightarrow>
    cursor \<times> outbox_event list \<times> nat \<times> 'w relay \<Rightarrow> cursor \<times> outbox_event list \<times> nat \<times> 'w relay" where
  "deliver_rows cfg run reg [] acc = acc"
| "deliver_rows cfg run reg (e # es) (c, delivered, failed, s) =
    (case deliver run reg (rl_tenants s) e (rl_world s) of
       Inr (w, written) \<Rightarrow>
         deliver_rows cfg run reg es
           (c\<lparr>cu_last_created := Some (oe_created e), cu_last_id := Some (ob_id e), cu_retry_not_before := None\<rparr>,
            delivered @ [e], failed, insert_rows written (s\<lparr>rl_world := w\<rparr>))
     | Inl err \<Rightarrow>
         (case record_failure cfg e err s of (spent, s1) \<Rightarrow>
            if spent then deliver_rows cfg run reg es (c\<lparr>cu_retry_not_before := None\<rparr>, delivered, Suc failed, s1)
            else (c\<lparr>cu_retry_not_before := Some (rl_now s + backoff cfg (Suc (oe_attempts e)))\<rparr>, delivered, Suc failed, s1)))"

text \<open>\<^verbatim>\<open>_mark_published\<close>: one UPDATE per zone, of the rows of that zone with these ids.\<close>

definition mark_published :: "outbox_event list \<Rightarrow> 'w relay \<Rightarrow> 'w relay" where
  "mark_published delivered s =
    s\<lparr>rl_events := map (\<lambda>r. if \<exists>e\<in>set delivered. ob_tenant e = ob_tenant r \<and> ob_id e = ob_id r
        then r\<lparr>oe_published_at := Some (rl_now s)\<rparr> else r) (rl_events s)\<rparr>"

definition locked_cursor :: "'w relay \<Rightarrow> cursor option \<times> 'w relay" where
  "locked_cursor s =
    (let c = (case rl_cursor s of Some c \<Rightarrow> c
              | None \<Rightarrow> \<lparr>cu_last_created = None, cu_last_id = None, cu_retry_not_before = None\<rparr>)
     in (if rl_locked s then None else Some c, s\<lparr>rl_cursor := Some c\<rparr>))"

definition waiting_out :: "cursor \<Rightarrow> instant \<Rightarrow> bool" where
  "waiting_out c moment \<longleftrightarrow> (case cu_retry_not_before c of None \<Rightarrow> False | Some t \<Rightarrow> moment < t)"

text \<open>A batch with the rows it delivered, which the code counts.\<close>

definition run_batch :: "outbox_settings \<Rightarrow> 'w consumer \<Rightarrow> registry \<Rightarrow> 'w relay \<Rightarrow> outbox_event list \<times> nat \<times> 'w relay" where
  "run_batch cfg run reg s =
    (case locked_cursor s of
       (None, s1) \<Rightarrow> ([], 0, s1)
     | (Some c, s1) \<Rightarrow>
         if waiting_out c (rl_now s1) then ([], 0, s1)
         else (case deliver_rows cfg run reg (pending_rows cfg s1) (c, [], 0, s1) of
            (c2, delivered, failed, s2) \<Rightarrow> (delivered, failed, (mark_published delivered s2)\<lparr>rl_cursor := Some c2\<rparr>)))"

definition deliver_batch :: "outbox_settings \<Rightarrow> 'w consumer \<Rightarrow> registry \<Rightarrow> 'w relay \<Rightarrow> batch_result \<times> 'w relay" where
  "deliver_batch cfg run reg s =
    (case run_batch cfg run reg s of (delivered, failed, s1) \<Rightarrow>
      (\<lparr>br_delivered = length delivered, br_failed = failed\<rparr>, s1))"

end
