(* ===== verification/Outbox_Theorems.thy ===== *)
theory Outbox_Theorems
  imports Outbox
begin

text \<open>
  The relay: the merged reads are the global order, every event is delivered at most once and its effects
  happen exactly once, nothing overtakes a row that is still to be tried, and the backlog drains.
\<close>

section \<open>The merged reads\<close>

definition zones :: "'w relay \<Rightarrow> uuid option set" where
  "zones s = set (None # map Some (rl_tenants s))"

text \<open>What the database holds: primary keys never given twice, and rows of known tenants.\<close>

definition relay_ok :: "'w relay \<Rightarrow> bool" where
  "relay_ok s \<longleftrightarrow> distinct (map ob_id (rl_events s)) \<and> (\<forall>e\<in>set (rl_events s). ob_id e < rl_next s) \<and>
    distinct (rl_tenants s) \<and> (\<forall>e\<in>set (rl_events s). ob_tenant e \<in> zones s)"

lemma take_sorted_rank:
  assumes "sorted (map k ys)" and "distinct (map k ys)"
  shows "x \<in> set (take n ys) \<longleftrightarrow> x \<in> set ys \<and> card {y\<in>set ys. k y < k x} < n"
  using assms
proof (induction ys arbitrary: n)
  case Nil
  then show ?case by simp
next
  case (Cons a ys)
  show ?case
  proof (cases n)
    case 0
    then show ?thesis by simp
  next
    case (Suc m)
    have none: "{y\<in>set (a # ys). k y < k a} = {}"
      using Cons.prems by auto
    have one: "card {y\<in>set (a # ys). k y < k x} = Suc (card {y\<in>set ys. k y < k x})" if "x \<in> set ys"
    proof -
      have "k a < k x" using Cons.prems that by (auto simp: less_le)
      then have "{y\<in>set (a # ys). k y < k x} = insert a {y\<in>set ys. k y < k x}" by auto
      moreover have "a \<notin> set ys" using Cons.prems by auto
      ultimately show ?thesis by simp
    qed
    have fresh: "a \<notin> set ys" using Cons.prems by auto
    show ?thesis
    proof (cases "x = a")
      case True
      then show ?thesis using none Suc by (simp only: card.empty) simp
    next
      case False
      then show ?thesis using Cons.IH [of m] Cons.prems Suc one by auto
    qed
  qed
qed

lemma take_sort_rank:
  assumes "inj_on k (set xs)" and "distinct xs"
  shows "x \<in> set (take n (sort_key k xs)) \<longleftrightarrow> x \<in> set xs \<and> card {y\<in>set xs. k y < k x} < n"
  using assms take_sorted_rank [of k "sort_key k xs" x n] by (simp add: distinct_map)

lemma event_keys: "relay_ok s \<Longrightarrow> inj_on event_key (set (rl_events s)) \<and> distinct (rl_events s)"
  by (auto simp: relay_ok_def distinct_map inj_on_def event_key_def)

lemma set_zone_read:
  assumes "relay_ok s"
  shows "x \<in> set (zone_read cfg s z) \<longleftrightarrow> x \<in> set (rl_events s) \<and> is_pending cfg x \<and> ob_tenant x = z \<and>
    card {y\<in>set (rl_events s). is_pending cfg y \<and> ob_tenant y = z \<and> event_key y < event_key x} < os_batch_size cfg"
proof -
  let ?zs = "filter (\<lambda>e. is_pending cfg e) (filter (\<lambda>e. ob_tenant e = z) (rl_events s))"
  have "inj_on event_key (set ?zs)" "distinct ?zs"
    using event_keys [OF assms] by (auto intro: inj_on_subset)
  moreover have "{y\<in>set ?zs. event_key y < event_key x} =
      {y\<in>set (rl_events s). is_pending cfg y \<and> ob_tenant y = z \<and> event_key y < event_key x}" by auto
  ultimately show ?thesis
    unfolding zone_read_def by (subst take_sort_rank) auto
qed

lemma distinct_reads:
  assumes "relay_ok s" and "distinct zs"
  shows "distinct (concat (map (zone_read cfg s) zs))"
  using assms(2)
proof (induction zs)
  case (Cons z zs)
  have "distinct (zone_read cfg s z)"
    using event_keys [OF assms(1)] by (simp add: zone_read_def)
  with Cons show ?case by (auto simp: set_zone_read [OF assms(1)])
qed simp

lemma same_order:
  assumes "inj_on k (set xs \<union> set ys)" and "distinct xs" "distinct ys" and "set (take n (sort_key k xs)) = set (take n (sort_key k ys))"
  shows "take n (sort_key k xs) = take n (sort_key k ys)"
proof (rule map_sorted_distinct_set_unique [where f = k])
  have sub: "set (take n (sort_key k xs)) \<subseteq> set xs" "set (take n (sort_key k ys)) \<subseteq> set ys"
    using set_take_subset [of n "sort_key k xs"] set_take_subset [of n "sort_key k ys"] by auto
  then show "inj_on k (set (take n (sort_key k xs)) \<union> set (take n (sort_key k ys)))"
    by (intro inj_on_subset [OF assms(1)]) auto
  have "inj_on k (set (take n (sort_key k xs)))" "inj_on k (set (take n (sort_key k ys)))"
    using sub by (auto intro: inj_on_subset [OF assms(1)])
  then show "distinct (map k (take n (sort_key k xs)))" "distinct (map k (take n (sort_key k ys)))"
    using assms(2,3) by (simp_all add: distinct_map)
  show "sorted (map k (take n (sort_key k xs)))" "sorted (map k (take n (sort_key k ys)))"
    by (simp_all add: take_map [symmetric] sorted_wrt_take)
qed (rule assms(4))

lemma merged_order:
  assumes "relay_ok s"
  shows "pending_rows cfg s = take (os_batch_size cfg) (sort_key event_key (filter (is_pending cfg) (rl_events s)))"
proof -
  let ?n = "os_batch_size cfg" and ?P = "filter (is_pending cfg) (rl_events s)"
  let ?M = "concat (map (zone_read cfg s) (None # map Some (rl_tenants s)))"
  have inj: "inj_on event_key (set ?P)" "distinct ?P"
    using event_keys [OF assms] by (auto intro: inj_on_subset)
  have sub: "x \<in> set ?M \<longleftrightarrow> x \<in> set (zone_read cfg s (ob_tenant x))" for x
  proof -
    have "x \<in> set ?M \<longleftrightarrow> (\<exists>z\<in>zones s. x \<in> set (zone_read cfg s z))" by (simp add: zones_def)
    moreover have "x \<in> set (zone_read cfg s z) \<Longrightarrow> ob_tenant x = z" for z
      unfolding set_zone_read [OF assms] by simp
    moreover have "x \<in> set (zone_read cfg s z) \<Longrightarrow> ob_tenant x \<in> zones s" for z
      unfolding set_zone_read [OF assms] using assms by (auto simp: relay_ok_def)
    ultimately show ?thesis by metis
  qed
  have M: "set ?M \<subseteq> set ?P"
  proof
    fix x assume "x \<in> set ?M"
    then show "x \<in> set ?P" unfolding sub set_zone_read [OF assms] by simp
  qed
  have dM: "distinct ?M"
    using assms by (intro distinct_reads) (auto simp: relay_ok_def distinct_map)
  have in_M: "x \<in> set ?M \<longleftrightarrow> x \<in> set ?P \<and>
      card {y\<in>set ?P. ob_tenant y = ob_tenant x \<and> event_key y < event_key x} < ?n" for x
    unfolding sub set_zone_read [OF assms] by (simp add: conj_ac)
  have "x \<in> set ?M \<and> card {y\<in>set ?M. event_key y < event_key x} < ?n \<longleftrightarrow>
      x \<in> set ?P \<and> card {y\<in>set ?P. event_key y < event_key x} < ?n" for x
  proof
    assume x: "x \<in> set ?P \<and> card {y\<in>set ?P. event_key y < event_key x} < ?n"
    have "card {y\<in>set ?P. ob_tenant y = ob_tenant x \<and> event_key y < event_key x} \<le> card {y\<in>set ?P. event_key y < event_key x}"
      "card {y\<in>set ?M. event_key y < event_key x} \<le> card {y\<in>set ?P. event_key y < event_key x}"
      using M by (auto intro!: card_mono)
    with x show "x \<in> set ?M \<and> card {y\<in>set ?M. event_key y < event_key x} < ?n"
      unfolding in_M by simp
  next
    assume x: "x \<in> set ?M \<and> card {y\<in>set ?M. event_key y < event_key x} < ?n"
    have "y \<in> set ?M" if y: "y \<in> set ?P" "event_key y < event_key x" for y
    proof (rule ccontr)
      assume "y \<notin> set ?M"
      let ?Z = "zone_read cfg s (ob_tenant y)"
      let ?below = "\<lambda>v. {w\<in>set ?P. ob_tenant w = ob_tenant y \<and> event_key w < event_key v}"
      have many: "?n \<le> card (?below y)"
        using in_M [of y] y \<open>y \<notin> set ?M\<close> by simp
      have low: "w \<in> set ?M \<and> event_key w < event_key x" if w: "w \<in> set ?Z" for w
      proof -
        have wM: "w \<in> set ?M" and wz: "ob_tenant w = ob_tenant y"
          using w sub [of w] by (auto simp: set_zone_read [OF assms])
        have few: "card (?below w) < ?n" using wM in_M [of w] wz by simp
        have "event_key w < event_key y"
        proof (rule ccontr)
          assume "\<not> event_key w < event_key y"
          then have "?below y \<subseteq> ?below w" by auto
          then have "card (?below y) \<le> card (?below w)" by (intro card_mono) auto
          with many few show False by simp
        qed
        with y(2) wM show ?thesis by auto
      qed
      have "?below y \<subseteq> set (filter (\<lambda>e. is_pending cfg e) (filter (\<lambda>e. ob_tenant e = ob_tenant y) (rl_events s)))" by auto
      then have "card (?below y) \<le> length (filter (\<lambda>e. is_pending cfg e) (filter (\<lambda>e. ob_tenant e = ob_tenant y) (rl_events s)))"
        by (intro order_trans [OF card_mono card_length]) simp_all
      then have "length ?Z = ?n" using many by (simp add: zone_read_def)
      moreover have "distinct ?Z" using event_keys [OF assms] by (simp add: zone_read_def)
      ultimately have "card (set ?Z) = ?n" by (simp add: distinct_card)
      moreover have "card (set ?Z) \<le> card {w\<in>set ?M. event_key w < event_key x}"
        using low by (intro card_mono) auto
      ultimately show False using x by simp
    qed
    then have "{y\<in>set ?P. event_key y < event_key x} = {y\<in>set ?M. event_key y < event_key x}"
      using M by auto
    with x M show "x \<in> set ?P \<and> card {y\<in>set ?P. event_key y < event_key x} < ?n" by auto
  qed
  then have "set (take ?n (sort_key event_key ?M)) = set (take ?n (sort_key event_key ?P))"
    by (intro set_eqI) (simp only: take_sort_rank [OF inj] take_sort_rank [OF inj_on_subset [OF inj(1) M] dM])
  moreover have "inj_on event_key (set ?M \<union> set ?P)"
    using inj(1) M by (simp only: Un_absorb1)
  ultimately show ?thesis
    unfolding pending_rows_def by (intro same_order dM inj(2))
qed

text \<open>One read per zone, merged, is one read of everything: the rows of a batch are exactly the oldest pending
  rows over the library and every bank, in \<open>(created, id)\<close> order, as many as the batch holds.\<close>

theorem merged_reads_are_the_order:
  assumes "relay_ok s"
  shows "pending_rows cfg s = take (os_batch_size cfg) (sort_key event_key (filter (is_pending cfg) (rl_events s)))"
  by (rule merged_order [OF assms])

section \<open>What a batch does to the table\<close>

text \<open>A row of the table later: the same but for its attempts, which never go down, and its last error.\<close>

definition kept :: "outbox_event \<Rightarrow> outbox_event \<Rightarrow> bool" where
  "kept r r' \<longleftrightarrow> ob_id r' = ob_id r \<and> ob_tenant r' = ob_tenant r \<and> ob_audit r' = ob_audit r \<and> ob_topic r' = ob_topic r \<and>
    ob_payload r' = ob_payload r \<and> oe_created r' = oe_created r \<and> oe_published_at r' = oe_published_at r \<and>
    oe_attempts r \<le> oe_attempts r'"

lemma kept_refl [simp]: "kept r r"
  by (simp add: kept_def)

lemma kept_trans: "kept r s \<Longrightarrow> kept s t \<Longrightarrow> kept r t"
  by (simp add: kept_def)

lemma keptD: "kept r r' \<Longrightarrow> ob_id r' = ob_id r \<and> ob_tenant r' = ob_tenant r \<and> oe_published_at r' = oe_published_at r \<and>
    oe_created r' = oe_created r \<and> ob_topic r' = ob_topic r \<and> oe_attempts r \<le> oe_attempts r'"
  by (simp add: kept_def)

text \<open>The table grows: every row is kept, new rows are unpublished and carry ids never given before.\<close>

definition relay_grown :: "'w relay \<Rightarrow> 'w relay \<Rightarrow> bool" where
  "relay_grown s s' \<longleftrightarrow> rl_next s \<le> rl_next s' \<and> rl_now s' = rl_now s \<and> rl_tenants s' = rl_tenants s \<and> rl_locked s' = rl_locked s \<and>
    (\<exists>g ext. rl_events s' = map g (rl_events s) @ ext \<and> (\<forall>r. kept r (g r)) \<and>
      (\<forall>r\<in>set ext. oe_published_at r = None \<and> rl_next s \<le> ob_id r))"

lemma relay_grown_refl: "relay_grown s s"
  unfolding relay_grown_def by (intro conjI order_refl refl exI [of _ id] exI [of _ "[]"]) auto

lemma relay_grown_trans: "relay_grown s t \<Longrightarrow> relay_grown t u \<Longrightarrow> relay_grown s u"
proof -
  assume st: "relay_grown s t" and tu: "relay_grown t u"
  obtain g ext where 1: "rl_events t = map g (rl_events s) @ ext" "\<forall>r. kept r (g r)"
    "\<forall>r\<in>set ext. oe_published_at r = None \<and> rl_next s \<le> ob_id r" using st by (auto simp: relay_grown_def)
  obtain h more where 2: "rl_events u = map h (rl_events t) @ more" "\<forall>r. kept r (h r)"
    "\<forall>r\<in>set more. oe_published_at r = None \<and> rl_next t \<le> ob_id r" using tu by (auto simp: relay_grown_def)
  have "rl_events u = map (h \<circ> g) (rl_events s) @ (map h ext @ more)" using 1 2 by simp
  moreover have "\<forall>r. kept r ((h \<circ> g) r)" using 1(2) 2(2) kept_trans by (metis comp_apply)
  moreover have "\<forall>r\<in>set (map h ext @ more). oe_published_at r = None \<and> rl_next s \<le> ob_id r"
  proof
    fix r assume "r \<in> set (map h ext @ more)"
    then consider x where "x \<in> set ext" "r = h x" | "r \<in> set more" by auto
    then show "oe_published_at r = None \<and> rl_next s \<le> ob_id r"
    proof cases
      case 1
      then show ?thesis using \<open>\<forall>r\<in>set ext. _ r\<close> 2(2) by (simp add: kept_def)
    next
      case 2
      then have "oe_published_at r = None" "rl_next t \<le> ob_id r" using \<open>\<forall>r\<in>set more. _ r\<close> by auto
      moreover have "rl_next s \<le> rl_next t" using st by (simp add: relay_grown_def)
      ultimately show ?thesis by simp
    qed
  qed
  ultimately have "\<exists>g ext. rl_events u = map g (rl_events s) @ ext \<and> (\<forall>r. kept r (g r)) \<and>
      (\<forall>r\<in>set ext. oe_published_at r = None \<and> rl_next s \<le> ob_id r)" by blast
  then show "relay_grown s u"
    using st tu unfolding relay_grown_def by auto
qed

lemma set_inserted: "r \<in> set (map2 (\<lambda>i. stored_row i now) [n..<n + length rows] rows) \<Longrightarrow>
    oe_published_at r = None \<and> n \<le> ob_id r \<and> ob_id r < n + length rows \<and> ob_tenant r \<in> ob_tenant ` set rows \<and> oe_attempts r = 0"
  by (auto simp: set_zip stored_row_def)

lemma ids_inserted: "map ob_id (map2 (\<lambda>i. stored_row i now) [n..<n + length rows] rows) = [n..<n + length rows]"
  by (rule nth_equalityI) (simp_all add: stored_row_def)

lemma relay_grown_insert: "relay_grown s (insert_rows rows s)"
proof -
  let ?new = "map2 (\<lambda>i. stored_row i (rl_now s)) [rl_next s..<rl_next s + length rows] rows"
  have "\<forall>r\<in>set ?new. oe_published_at r = None \<and> rl_next s \<le> ob_id r" using set_inserted by blast
  moreover have "rl_events (insert_rows rows s) = map id (rl_events s) @ ?new" by (simp add: insert_rows_def)
  ultimately have "\<exists>g ext. rl_events (insert_rows rows s) = map g (rl_events s) @ ext \<and> (\<forall>r. kept r (g r)) \<and>
      (\<forall>r\<in>set ext. oe_published_at r = None \<and> rl_next s \<le> ob_id r)"
    by (intro exI [of _ id] exI [of _ ?new]) simp
  then show ?thesis by (simp add: relay_grown_def insert_rows_def)
qed

lemma ok_insert:
  assumes "relay_ok s" and "\<forall>r\<in>set rows. ob_tenant r \<in> zones s"
  shows "relay_ok (insert_rows rows s)"
proof -
  let ?new = "map2 (\<lambda>i. stored_row i (rl_now s)) [rl_next s..<rl_next s + length rows] rows"
  have "distinct (map ob_id (rl_events s @ ?new))"
    using assms(1) by (subst map_append, subst ids_inserted) (auto simp: relay_ok_def)
  moreover have "\<forall>e\<in>set (rl_events s @ ?new). ob_id e < rl_next s + length rows \<and> ob_tenant e \<in> zones s"
    using assms set_inserted [of _ "rl_now s" "rl_next s" rows] by (fastforce simp: relay_ok_def)
  ultimately show ?thesis
    using assms(1) by (simp add: relay_ok_def insert_rows_def zones_def)
qed

lemma relay_grown_failure: "e \<in> set (rl_events s) \<Longrightarrow> relay_ok s \<Longrightarrow> relay_grown s (snd (record_failure cfg e err s))"
proof -
  assume e: "e \<in> set (rl_events s)" and ok: "relay_ok s"
  let ?g = "\<lambda>r. if r = e then r\<lparr>oe_attempts := Suc (oe_attempts e), oe_last_error := take 500 err\<rparr> else r"
  have same: "r \<in> set (rl_events s) \<Longrightarrow> ob_id r = ob_id e \<longleftrightarrow> r = e" for r
    using e ok distinct_map_eq [of ob_id "rl_events s" r e] by (auto simp: relay_ok_def)
  have "kept r (?g r)" for r by (auto simp: kept_def)
  moreover have "rl_events (snd (record_failure cfg e err s)) = map ?g (rl_events s) @ []"
    using same by (auto simp: record_failure_def Let_def)
  ultimately have "\<exists>g ext. rl_events (snd (record_failure cfg e err s)) = map g (rl_events s) @ ext \<and> (\<forall>r. kept r (g r)) \<and>
      (\<forall>r\<in>set ext. oe_published_at r = None \<and> rl_next s \<le> ob_id r)"
    by (intro exI [of _ ?g] exI [of _ "[]"]) simp
  then show ?thesis by (simp add: relay_grown_def record_failure_def Let_def)
qed

lemma ok_failure: "relay_ok s \<Longrightarrow> relay_ok (snd (record_failure cfg e err s))"
proof -
  assume ok: "relay_ok s"
  let ?f = "\<lambda>r. if ob_id r = ob_id e then r\<lparr>oe_attempts := Suc (oe_attempts e), oe_last_error := take 500 err\<rparr> else r"
  have "map ob_id (map ?f (rl_events s)) = map ob_id (rl_events s)" by simp
  moreover have "\<forall>r\<in>set (map ?f (rl_events s)). ob_id r < rl_next s \<and> ob_tenant r \<in> zones s"
    using ok by (auto simp: relay_ok_def)
  ultimately show ?thesis
    using ok unfolding relay_ok_def record_failure_def zones_def by (simp add: Let_def del: map_map)
qed

text \<open>What running these rows once each, in this order, does to the consumers.\<close>

fun effects :: "'w consumer \<Rightarrow> registry \<Rightarrow> uuid list \<Rightarrow> outbox_event list \<Rightarrow> 'w \<Rightarrow> string + 'w" where
  "effects run reg tenants [] w = Inr w"
| "effects run reg tenants (e # es) w =
    ebind (deliver run reg tenants e w) (\<lambda>(w1, written). effects run reg tenants es w1)"

lemma effects_append: "effects run reg ts (xs @ ys) w = ebind (effects run reg ts xs w) (effects run reg ts ys)"
  by (induction xs arbitrary: w) (auto simp: ebind_def split: sum.splits)

lemma deliver_zones: "deliver run reg ts e w = Inr (w1, written) \<Longrightarrow> \<forall>r\<in>set written. ob_tenant r \<in> set (None # map Some ts)"
  by (auto simp: deliver_def ebind_eq_Inr ensure_eq_Inr)

lemma deliver_rows_grows:
  assumes "deliver_rows cfg run reg es (c, dl, f, s) = (c', dl', f', s')" and "relay_ok s"
    and "distinct (map ob_id es)" and "set es \<subseteq> set (rl_events s)"
  shows "relay_grown s s' \<and> relay_ok s' \<and> (\<exists>new. dl' = dl @ new \<and> subseq new es \<and>
    effects run reg (rl_tenants s) new (rl_world s) = Inr (rl_world s'))"
  using assms
proof (induction es arbitrary: c dl f s)
  case Nil
  then show ?case by (simp add: relay_grown_refl)
next
  case (Cons e es)
  show ?case
  proof (cases "deliver run reg (rl_tenants s) e (rl_world s)")
    case (Inr out)
    obtain w written where out: "out = (w, written)" by (cases out)
    let ?s = "insert_rows written (s\<lparr>rl_world := w\<rparr>)"
    have g: "relay_grown s ?s" using relay_grown_insert [of "s\<lparr>rl_world := w\<rparr>" written] by (simp add: relay_grown_def)
    have ok: "relay_ok ?s"
      using Cons.prems(2) deliver_zones [OF Inr [unfolded out]] ok_insert [of "s\<lparr>rl_world := w\<rparr>" written]
      by (simp add: relay_ok_def zones_def)
    have sub: "set es \<subseteq> set (rl_events ?s)" using Cons.prems(4) by (auto simp: insert_rows_def)
    from Cons.prems(1) Inr out
    have "deliver_rows cfg run reg es (c\<lparr>cu_last_created := Some (oe_created e), cu_last_id := Some (ob_id e),
        cu_retry_not_before := None\<rparr>, dl @ [e], f, ?s) = (c', dl', f', s')" by simp
    from Cons.IH [OF this ok _ sub] Cons.prems(3)
    obtain new where new: "relay_grown ?s s'" "relay_ok s'" "dl' = (dl @ [e]) @ new" "subseq new es"
      "effects run reg (rl_tenants ?s) new (rl_world ?s) = Inr (rl_world s')" by auto
    have "effects run reg (rl_tenants s) (e # new) (rl_world s) = Inr (rl_world s')"
      using new(5) Inr out by (simp add: insert_rows_def)
    then show ?thesis using relay_grown_trans [OF g new(1)] new by (intro conjI exI [of _ "e # new"]) auto
  next
    case (Inl err)
    let ?s = "snd (record_failure cfg e err s)"
    have e: "e \<in> set (rl_events s)" using Cons.prems(4) by simp
    note g = relay_grown_failure [OF e Cons.prems(2), of cfg err] and ok = ok_failure [OF Cons.prems(2), of cfg e err]
    have world: "rl_world ?s = rl_world s" "rl_tenants ?s = rl_tenants s" by (simp_all add: record_failure_def Let_def)
    have sub: "set es \<subseteq> set (rl_events ?s)"
      using Cons.prems(3,4) by (force simp: record_failure_def Let_def image_iff)
    show ?thesis
    proof (cases "fst (record_failure cfg e err s)")
      case True
      with Cons.prems(1) Inl
      have "deliver_rows cfg run reg es (c\<lparr>cu_retry_not_before := None\<rparr>, dl, Suc f, ?s) = (c', dl', f', s')"
        by (simp split: prod.splits)
      from Cons.IH [OF this ok _ sub] Cons.prems(3)
      obtain new where "relay_grown ?s s'" "relay_ok s'" "dl' = dl @ new" "subseq new es"
        "effects run reg (rl_tenants ?s) new (rl_world ?s) = Inr (rl_world s')" by auto
      then show ?thesis using relay_grown_trans [OF g] world by auto
    next
      case False
      with Cons.prems(1) Inl have "s' = ?s" "dl' = dl" by (auto split: prod.splits)
      then show ?thesis using g ok world by simp
    qed
  qed
qed

lemma locked_cursor_frame:
  "locked_cursor s = (c, s1) \<Longrightarrow> rl_events s1 = rl_events s \<and> rl_next s1 = rl_next s \<and> rl_tenants s1 = rl_tenants s \<and>
    rl_now s1 = rl_now s \<and> rl_world s1 = rl_world s \<and> rl_locked s1 = rl_locked s"
  by (auto simp: locked_cursor_def Let_def)

lemma pending_of: "rl_events s1 = rl_events s \<Longrightarrow> rl_tenants s1 = rl_tenants s \<Longrightarrow> pending_rows cfg s1 = pending_rows cfg s"
  by (simp add: pending_rows_def zone_read_def [abs_def])

lemma ok_of: "rl_events s1 = rl_events s \<Longrightarrow> rl_tenants s1 = rl_tenants s \<Longrightarrow> rl_next s1 = rl_next s \<Longrightarrow> relay_ok s1 = relay_ok s"
  by (simp add: relay_ok_def zones_def)

lemma pending_in:
  assumes "relay_ok s"
  shows "set (pending_rows cfg s) \<subseteq> {e\<in>set (rl_events s). is_pending cfg e}" and "distinct (map ob_id (pending_rows cfg s))"
    and "sorted (map event_key (pending_rows cfg s))"
proof -
  note eq = merged_order [OF assms, of cfg]
  let ?P = "filter (is_pending cfg) (rl_events s)"
  have sub: "set (pending_rows cfg s) \<subseteq> set (sort_key event_key ?P)"
    unfolding eq by (rule set_take_subset)
  then show "set (pending_rows cfg s) \<subseteq> {e\<in>set (rl_events s). is_pending cfg e}" by simp
  have "inj_on ob_id (set (rl_events s))" using assms by (simp add: relay_ok_def distinct_map)
  moreover have "distinct (pending_rows cfg s)"
    unfolding eq using event_keys [OF assms] by (intro distinct_take) simp
  ultimately show "distinct (map ob_id (pending_rows cfg s))"
    using sub by (auto simp: distinct_map intro: inj_on_subset)
  show "sorted (map event_key (pending_rows cfg s))"
    unfolding eq by (simp add: take_map [symmetric] sorted_wrt_take)
qed

text \<open>A batch is idle, or it ran the rows and marked what it delivered.\<close>

lemma run_batch_cases:
  assumes "run_batch cfg run reg s = (dl, f, s')" and "relay_ok s"
  obtains (Idle) "dl = []" "rl_events s' = rl_events s" "rl_next s' = rl_next s" "rl_tenants s' = rl_tenants s" "rl_world s' = rl_world s"
      "rl_now s' = rl_now s" "rl_locked s' = rl_locked s" "rl_locked s \<or> (\<exists>c. rl_cursor s = Some c \<and> waiting_out c (rl_now s))"
  | (Ran) c c2 s1 s2 where "rl_events s1 = rl_events s" "rl_next s1 = rl_next s" "rl_tenants s1 = rl_tenants s" "rl_world s1 = rl_world s"
      "rl_now s1 = rl_now s" "rl_locked s1 = rl_locked s" "relay_ok s1" "pending_rows cfg s1 = pending_rows cfg s"
      "deliver_rows cfg run reg (pending_rows cfg s1) (c, [], 0, s1) = (c2, dl, f, s2)"
      "s' = (mark_published dl s2)\<lparr>rl_cursor := Some c2\<rparr>" "\<not> rl_locked s"
proof -
  obtain c s1 where lc: "locked_cursor s = (c, s1)" by (cases "locked_cursor s")
  note fr = locked_cursor_frame [OF lc]
  have idle: thesis if "dl = []" "s' = s1" "rl_locked s \<or> (\<exists>c. rl_cursor s = Some c \<and> waiting_out c (rl_now s))"
    using that fr by (intro Idle) auto
  show thesis
  proof (cases c)
    case None
    then have "rl_locked s" using lc by (auto simp: locked_cursor_def Let_def split: if_splits)
    then show thesis using assms(1) lc None by (intro idle) (auto simp: run_batch_def)
  next
    case (Some cu)
    then have lck: "\<not> rl_locked s" "cu = (case rl_cursor s of Some c \<Rightarrow> c | None \<Rightarrow> \<lparr>cu_last_created = None, cu_last_id = None, cu_retry_not_before = None\<rparr>)"
      using lc by (auto simp: locked_cursor_def Let_def split: if_splits)
    show thesis
    proof (cases "waiting_out cu (rl_now s1)")
      case True
      then have "rl_cursor s = Some cu" using lck by (cases "rl_cursor s") (auto simp: waiting_out_def)
      then show thesis using assms(1) lc Some True fr by (intro idle) (auto simp: run_batch_def)
    next
      case False
      obtain c2 dl2 f2 s2 where "deliver_rows cfg run reg (pending_rows cfg s1) (cu, [], 0, s1) = (c2, dl2, f2, s2)"
        by (cases "deliver_rows cfg run reg (pending_rows cfg s1) (cu, [], 0, s1)") auto
      moreover from this have "dl = dl2" "f = f2" "s' = (mark_published dl2 s2)\<lparr>rl_cursor := Some c2\<rparr>"
        using assms(1) lc Some False by (auto simp: run_batch_def)
      ultimately show thesis
        using fr lck(1) assms(2) by (intro Ran [of s1 cu c2 s2]) (simp_all add: ok_of [of s1 s] pending_of [of s1 s])
    qed
  qed
qed

section \<open>Once\<close>

definition published :: "'w relay \<Rightarrow> uuid set" where
  "published s = {ob_id e |e. e \<in> set (rl_events s) \<and> oe_published_at e \<noteq> None}"

lemma published_grown:
  assumes "relay_grown s s'"
  shows "published s' = published s"
proof -
  obtain g ext where *: "rl_events s' = map g (rl_events s) @ ext" "\<forall>r. kept r (g r)" "\<forall>r\<in>set ext. oe_published_at r = None"
    using assms by (auto simp: relay_grown_def)
  have "\<And>r. ob_id (g r) = ob_id r \<and> oe_published_at (g r) = oe_published_at r" using *(2) by (simp add: kept_def)
  moreover have "i \<in> published s' \<longleftrightarrow> (\<exists>r\<in>set (rl_events s). ob_id (g r) = i \<and> oe_published_at (g r) \<noteq> None) \<or>
      (\<exists>r\<in>set ext. ob_id r = i \<and> oe_published_at r \<noteq> None)" for i
    unfolding published_def *(1) by auto
  ultimately have "i \<in> published s' \<longleftrightarrow> i \<in> published s" for i
    using *(3) by (auto simp: published_def)
  then show ?thesis by blast
qed

lemma published_mark:
  assumes "\<forall>e\<in>set dl. \<exists>r\<in>set (rl_events s). ob_id r = ob_id e \<and> ob_tenant r = ob_tenant e"
  shows "published (mark_published dl s) = published s \<union> ob_id ` set dl"
proof -
  define m where "m r = (if \<exists>e\<in>set dl. ob_tenant e = ob_tenant r \<and> ob_id e = ob_id r then r\<lparr>oe_published_at := Some (rl_now s)\<rparr> else r)" for r :: outbox_event
  have pub: "oe_published_at (m r) \<noteq> None \<longleftrightarrow> oe_published_at r \<noteq> None \<or> (\<exists>e\<in>set dl. ob_tenant e = ob_tenant r \<and> ob_id e = ob_id r)"
    and id: "ob_id (m r) = ob_id r" for r by (auto simp: m_def)
  have "rl_events (mark_published dl s) = map m (rl_events s)" by (simp add: mark_published_def m_def)
  then have "i \<in> published (mark_published dl s) \<longleftrightarrow> (\<exists>r\<in>set (rl_events s). ob_id (m r) = i \<and> oe_published_at (m r) \<noteq> None)" for i
    by (auto simp: published_def)
  then have "i \<in> published (mark_published dl s) \<longleftrightarrow> i \<in> published s \<or>
      (\<exists>r\<in>set (rl_events s). ob_id r = i \<and> (\<exists>e\<in>set dl. ob_tenant e = ob_tenant r \<and> ob_id e = ob_id r))" for i
    unfolding pub id by (auto simp: published_def)
  moreover have "(\<exists>r\<in>set (rl_events s). ob_id r = i \<and> (\<exists>e\<in>set dl. ob_tenant e = ob_tenant r \<and> ob_id e = ob_id r)) \<longleftrightarrow>
      i \<in> ob_id ` set dl" for i
    using assms by (metis (no_types, lifting) image_iff)
  ultimately show ?thesis by blast
qed

lemma ok_mark: "relay_ok s \<Longrightarrow> relay_ok (mark_published dl s)"
proof -
  assume ok: "relay_ok s"
  let ?m = "\<lambda>r. if \<exists>e\<in>set dl. ob_tenant e = ob_tenant r \<and> ob_id e = ob_id r then r\<lparr>oe_published_at := Some (rl_now s)\<rparr> else r"
  have "map ob_id (map ?m (rl_events s)) = map ob_id (rl_events s)" by simp
  moreover have "\<forall>r\<in>set (map ?m (rl_events s)). ob_id r < rl_next s \<and> ob_tenant r \<in> zones s"
    using ok by (auto simp: relay_ok_def)
  ultimately show ?thesis
    using ok unfolding relay_ok_def mark_published_def zones_def by (simp del: map_map)
qed

lemma distinct_of_subseq: "subseq xs ys \<Longrightarrow> distinct ys \<Longrightarrow> distinct xs"
proof (induction rule: list_emb.induct)
  case (list_emb_Cons2 x y xs ys)
  then show ?case by (auto dest: list_emb_set)
qed simp_all

lemma batch_once:
  assumes "run_batch cfg run reg s = (dl, f, s')" and "relay_ok s"
  shows "relay_ok s' \<and> rl_tenants s' = rl_tenants s \<and> distinct (map ob_id dl) \<and> ob_id ` set dl \<inter> published s = {} \<and>
    published s' = published s \<union> ob_id ` set dl \<and> effects run reg (rl_tenants s) dl (rl_world s) = Inr (rl_world s')"
  using assms
proof (cases rule: run_batch_cases)
  case Idle
  then show ?thesis using assms(2) ok_of [of s' s] by (simp add: published_def)
next
  case (Ran c c2 s1 s2)
  note pend = pending_in [OF Ran(7), of cfg]
  from deliver_rows_grows [OF Ran(9) Ran(7) pend(2)] pend(1)
  have g: "relay_grown s1 s2" "relay_ok s2" and new: "subseq dl (pending_rows cfg s1)"
    "effects run reg (rl_tenants s1) dl (rl_world s1) = Inr (rl_world s2)" by auto
  have dl: "set dl \<subseteq> {e\<in>set (rl_events s1). is_pending cfg e}" using pend(1) list_emb_set [OF new(1)] by (metis subset_iff)
  have "distinct (map ob_id dl)" using distinct_of_subseq [OF subseq_map [OF new(1)] pend(2)] .
  moreover have "ob_id ` set dl \<inter> published s1 = {}"
  proof -
    have "oe_published_at y = None" if "x \<in> set dl" "y \<in> set (rl_events s1)" "ob_id y = ob_id x" for x y
    proof -
      have "x \<in> set (rl_events s1)" "oe_published_at x = None" using dl that(1) by (auto simp: is_pending_def)
      moreover have "distinct (map ob_id (rl_events s1))" using Ran(7) by (simp add: relay_ok_def)
      ultimately have "y = x" using that distinct_map_eq [of ob_id "rl_events s1" y x] by simp
      then show ?thesis using \<open>oe_published_at x = None\<close> by simp
    qed
    then show ?thesis by (auto simp: published_def)
  qed
  moreover have "published (mark_published dl s2) = published s2 \<union> ob_id ` set dl"
  proof (rule published_mark, rule ballI)
    fix e assume "e \<in> set dl"
    then have "e \<in> set (rl_events s1)" using dl by auto
    with g(1) show "\<exists>r\<in>set (rl_events s2). ob_id r = ob_id e \<and> ob_tenant r = ob_tenant e"
      by (force simp: relay_grown_def kept_def)
  qed
  moreover have "published s1 = published s" using Ran by (simp add: published_def)
  moreover have "relay_ok s'" using ok_mark [OF g(2), of dl] ok_of [of s' "mark_published dl s2"] Ran(10) by simp
  ultimately show ?thesis
    using new(2) Ran published_grown [OF g(1)] g(1)
    by (auto simp: published_def mark_published_def relay_grown_def)
qed

text \<open>A run of the relay: batches, writes of rows by anyone, and the clock and the other workers' lock; with the
  rows delivered, in order.\<close>

inductive relay_run :: "outbox_settings \<Rightarrow> 'w consumer \<Rightarrow> registry \<Rightarrow> 'w relay \<Rightarrow> outbox_event list \<Rightarrow> 'w relay \<Rightarrow> bool"
  for cfg run reg s0 where
  Start: "relay_run cfg run reg s0 [] s0"
| Batch: "relay_run cfg run reg s0 log s \<Longrightarrow> run_batch cfg run reg s = (dl, f, s') \<Longrightarrow> relay_run cfg run reg s0 (log @ dl) s'"
| Write: "relay_run cfg run reg s0 log s \<Longrightarrow> \<forall>r\<in>set rows. ob_tenant r \<in> zones s \<Longrightarrow> relay_run cfg run reg s0 log (insert_rows rows s)"
| Elsewhere: "relay_run cfg run reg s0 log s \<Longrightarrow> relay_run cfg run reg s0 log (s\<lparr>rl_now := n, rl_locked := l\<rparr>)"

text \<open>C22: Every event is delivered once: over any run of batches, writes, clock ticks and competing workers, no event is
  delivered twice, the published events are exactly the delivered ones and those that were published before,
  and the consumers' state is what running the handlers once on each delivered event, in that order,
  gives: a failed attempt leaves nothing behind.\<close>

theorem events_are_delivered_once:
  assumes "relay_ok s" and "relay_run cfg run reg s log s'"
  shows "distinct (map ob_id log) \<and> ob_id ` set log \<inter> published s = {} \<and> published s' = published s \<union> ob_id ` set log \<and>
    effects run reg (rl_tenants s) log (rl_world s) = Inr (rl_world s')"
proof -
  have "relay_ok s' \<and> rl_tenants s' = rl_tenants s \<and> distinct (map ob_id log) \<and> ob_id ` set log \<inter> published s = {} \<and>
    published s' = published s \<union> ob_id ` set log \<and> effects run reg (rl_tenants s) log (rl_world s) = Inr (rl_world s')"
    using assms(2)
  proof (induction rule: relay_run.induct)
    case Start
    then show ?case using assms(1) by simp
  next
    case (Batch log u dl f v)
    from batch_once [OF Batch(2)] Batch.IH show ?case by (auto simp: effects_append)
  next
    case (Write log u rows)
    then show ?case
      using ok_insert [of u rows] published_grown [OF relay_grown_insert [of u rows]] by (auto simp: insert_rows_def)
  next
    case (Elsewhere log u l n)
    then show ?case using ok_of [of "u\<lparr>rl_now := n, rl_locked := l\<rparr>" u] by (auto simp: published_def)
  qed
  then show ?thesis by blast
qed

section \<open>In order\<close>

lemma sorted_of_subseq: "subseq xs ys \<Longrightarrow> sorted ys \<Longrightarrow> sorted xs"
proof (induction rule: list_emb.induct)
  case (list_emb_Cons2 x y xs ys)
  then show ?case by (auto dest: list_emb_set)
qed simp_all

lemma pending_before:
  assumes "relay_ok s" and "e \<in> set (pending_rows cfg s)" and "r \<in> set (rl_events s)" "is_pending cfg r" "event_key r < event_key e"
  shows "r \<in> set (pending_rows cfg s)"
proof -
  let ?P = "filter (is_pending cfg) (rl_events s)"
  have inj: "inj_on event_key (set ?P)" "distinct ?P"
    using event_keys [OF assms(1)] by (auto intro: inj_on_subset)
  have "card {y\<in>set ?P. event_key y < event_key r} \<le> card {y\<in>set ?P. event_key y < event_key e}"
    using assms(5) by (intro card_mono) auto
  then show ?thesis
    using assms(2-4) unfolding merged_order [OF assms(1)] take_sort_rank [OF inj] by simp
qed

lemma relay_grown_row: "relay_grown s s' \<Longrightarrow> r \<in> set (rl_events s) \<Longrightarrow> \<exists>r'\<in>set (rl_events s'). kept r r'"
  by (auto simp: relay_grown_def)

text \<open>A row whose attempts are spent: it stays in the table and is never read again.\<close>

definition spent :: "outbox_settings \<Rightarrow> uuid \<Rightarrow> 'w relay \<Rightarrow> bool" where
  "spent cfg i s \<longleftrightarrow> (\<exists>r\<in>set (rl_events s). ob_id r = i \<and> oe_published_at r = None \<and> os_max_attempts cfg \<le> oe_attempts r)"

lemma spent_grown: "spent cfg i s \<Longrightarrow> relay_grown s s' \<Longrightarrow> spent cfg i s'"
proof -
  assume "spent cfg i s" and g: "relay_grown s s'"
  then obtain r where r: "r \<in> set (rl_events s)" "ob_id r = i" "oe_published_at r = None" "os_max_attempts cfg \<le> oe_attempts r"
    by (auto simp: spent_def)
  from relay_grown_row [OF g r(1)] obtain r' where "r' \<in> set (rl_events s')" "kept r r'" by blast
  with r show "spent cfg i s'" by (auto simp: spent_def kept_def)
qed

lemma spent_failure:
  assumes "record_failure cfg e err s = (True, s1)" and "e \<in> set (rl_events s)" and "oe_published_at e = None"
  shows "spent cfg (ob_id e) s1"
proof -
  have "os_max_attempts cfg \<le> Suc (oe_attempts e)" and "e\<lparr>oe_attempts := Suc (oe_attempts e), oe_last_error := take 500 err\<rparr> \<in> set (rl_events s1)"
    using assms(1,2) by (auto simp: record_failure_def Let_def image_iff)
  then show ?thesis using assms(3) unfolding spent_def by (rule_tac bexI) simp_all
qed

lemma deliver_rows_order:
  assumes "deliver_rows cfg run reg (xs @ e # ys) (c, dl, f, s) = (c', dl', f', s')" and "relay_ok s"
    and "distinct (map ob_id (xs @ e # ys))" and "set (xs @ e # ys) \<subseteq> {r\<in>set (rl_events s). is_pending cfg r}"
    and "e \<in> set dl'" and "e \<notin> set dl" and "r \<in> set xs"
  shows "r \<in> set dl' \<or> spent cfg (ob_id r) s'"
  using assms
proof (induction xs arbitrary: c dl f s)
  case Nil
  then show ?case by simp
next
  case (Cons h xs)
  let ?es = "xs @ e # ys"
  show ?case
  proof (cases "deliver run reg (rl_tenants s) h (rl_world s)")
    case (Inr out)
    obtain w written where out: "out = (w, written)" by (cases out)
    let ?s = "insert_rows written (s\<lparr>rl_world := w\<rparr>)"
    have ok: "relay_ok ?s"
      using Cons.prems(2) deliver_zones [OF Inr [unfolded out]] ok_insert [of "s\<lparr>rl_world := w\<rparr>" written]
      by (simp add: relay_ok_def zones_def)
    have sub: "set ?es \<subseteq> {r\<in>set (rl_events ?s). is_pending cfg r}" using Cons.prems(4) by (auto simp: insert_rows_def)
    from Cons.prems(1) Inr out
    have run: "deliver_rows cfg run reg ?es (c\<lparr>cu_last_created := Some (oe_created h), cu_last_id := Some (ob_id h),
        cu_retry_not_before := None\<rparr>, dl @ [h], f, ?s) = (c', dl', f', s')" by simp
    show ?thesis
    proof (cases "r = h")
      case True
      have "distinct (map ob_id ?es)" "set ?es \<subseteq> set (rl_events ?s)" using Cons.prems(3) sub by (simp, blast)
      from deliver_rows_grows [OF run ok this] have "\<exists>new. dl' = (dl @ [h]) @ new" by blast
      then show ?thesis using True by auto
    next
      case False
      then show ?thesis
        using Cons.IH [OF run ok _ sub] Cons.prems(3,5,6,7) by auto
    qed
  next
    case (Inl err)
    obtain b s1 where rf: "record_failure cfg h err s = (b, s1)" by (cases "record_failure cfg h err s")
    have h: "h \<in> set (rl_events s)" "oe_published_at h = None" using Cons.prems(4) by (auto simp: is_pending_def)
    have ok: "relay_ok s1" using ok_failure [OF Cons.prems(2), of cfg h err] rf by simp
    have sub: "set ?es \<subseteq> {r\<in>set (rl_events s1). is_pending cfg r}"
    proof
      fix r assume r: "r \<in> set ?es"
      then have "r \<in> set (rl_events s)" "is_pending cfg r" using Cons.prems(4) by auto
      moreover have "ob_id r \<noteq> ob_id h"
      proof -
        have "ob_id h \<notin> set (map ob_id ?es)" using Cons.prems(3) by simp
        moreover have "ob_id r \<in> set (map ob_id ?es)" using r by (auto simp: image_iff)
        ultimately show ?thesis by metis
      qed
      ultimately show "r \<in> {r\<in>set (rl_events s1). is_pending cfg r}"
        using rf by (auto simp: record_failure_def Let_def image_iff)
    qed
    show ?thesis
    proof (cases b)
      case True
      with Cons.prems(1) Inl rf
      have run: "deliver_rows cfg run reg ?es (c\<lparr>cu_retry_not_before := None\<rparr>, dl, Suc f, s1) = (c', dl', f', s')" by simp
      have "distinct (map ob_id ?es)" "set ?es \<subseteq> set (rl_events s1)" using Cons.prems(3) sub by (simp, blast)
      moreover have "spent cfg (ob_id h) s1" using spent_failure [OF _ h] rf True by simp
      ultimately have "spent cfg (ob_id h) s'"
        using deliver_rows_grows [OF run ok] spent_grown by blast
      then show ?thesis
        using Cons.IH [OF run ok _ sub] Cons.prems(3,5,6,7) by auto
    next
      case False
      with Cons.prems(1) Inl rf have "dl' = dl" by simp
      then show ?thesis using Cons.prems(5,6) by simp
    qed
  qed
qed

text \<open>C23: Nothing overtakes: a batch delivers in \<open>(created, id)\<close> order, and a row that was pending and older than one
  it delivered is delivered by the same batch or has spent its attempts.\<close>

theorem nothing_overtakes:
  assumes "run_batch cfg run reg s = (dl, f, s')" and "relay_ok s"
  shows "sorted (map event_key dl) \<and> (\<forall>e\<in>set dl. is_pending cfg e \<and>
    (\<forall>r\<in>set (rl_events s). is_pending cfg r \<and> event_key r < event_key e \<longrightarrow> r \<in> set dl \<or>
      (\<exists>r'\<in>set (rl_events s'). ob_id r' = ob_id r \<and> oe_published_at r' = None \<and> os_max_attempts cfg \<le> oe_attempts r')))"
  using assms
proof (cases rule: run_batch_cases)
  case Idle
  then show ?thesis by simp
next
  case (Ran c c2 s1 s2)
  note pend = pending_in [OF Ran(7), of cfg]
  have in_pend: "set (pending_rows cfg s1) \<subseteq> set (rl_events s1)" using pend(1) by blast
  from deliver_rows_grows [OF Ran(9) Ran(7) pend(2) in_pend] have new: "subseq dl (pending_rows cfg s1)" by auto
  then have dl: "set dl \<subseteq> set (pending_rows cfg s1)" using list_emb_set [OF new] by blast
  have "sorted (map event_key dl)"
    using sorted_of_subseq [OF subseq_map [OF new] pend(3)] .
  moreover have "is_pending cfg e \<and> (\<forall>r\<in>set (rl_events s). is_pending cfg r \<and> event_key r < event_key e \<longrightarrow> r \<in> set dl \<or>
      (\<exists>r'\<in>set (rl_events s'). ob_id r' = ob_id r \<and> oe_published_at r' = None \<and> os_max_attempts cfg \<le> oe_attempts r'))"
    if e: "e \<in> set dl" for e
  proof (intro conjI ballI impI)
    show "is_pending cfg e" using e dl pend(1) by blast
    fix r assume r: "r \<in> set (rl_events s)" "is_pending cfg r \<and> event_key r < event_key e"
    obtain xs ys where split: "pending_rows cfg s1 = xs @ e # ys" using e dl by (meson split_list subsetD)
    have "r \<in> set (pending_rows cfg s1)"
      using pending_before [OF Ran(7), of e cfg r] e dl r Ran(1) by auto
    then have "r \<in> set xs" using r(2) pend(3) unfolding split by (auto simp: sorted_append)
    from deliver_rows_order [OF Ran(9) [unfolded split] Ran(7) pend(2) [unfolded split] pend(1) [unfolded split] e _ this]
    have "r \<in> set dl \<or> spent cfg (ob_id r) s2" by simp
    then show "r \<in> set dl \<or> (\<exists>r'\<in>set (rl_events s'). ob_id r' = ob_id r \<and> oe_published_at r' = None \<and> os_max_attempts cfg \<le> oe_attempts r')"
    proof
      assume "spent cfg (ob_id r) s2"
      then obtain r' where r': "r' \<in> set (rl_events s2)" "ob_id r' = ob_id r" "oe_published_at r' = None" "os_max_attempts cfg \<le> oe_attempts r'"
        by (auto simp: spent_def)
      have "d = r" if "d \<in> set dl" "ob_id d = ob_id r" for d
        using that dl in_pend r(1) Ran(1,7) distinct_map_eq [of ob_id "rl_events s1" d r] by (auto simp: relay_ok_def)
      then have "r \<in> set dl \<or> r' \<in> set (rl_events s')"
        using r'(1,2) Ran(10) by (auto simp: mark_published_def image_iff)
      then show ?thesis using r' by blast
    qed simp
  qed
  ultimately show ?thesis by blast
qed

section \<open>The backlog drains\<close>

definition backlog_of :: "outbox_settings \<Rightarrow> outbox_event \<Rightarrow> nat" where
  "backlog_of cfg e = (if oe_published_at e = None then os_max_attempts cfg - oe_attempts e else 0)"

definition backlog :: "outbox_settings \<Rightarrow> 'w relay \<Rightarrow> nat" where
  "backlog cfg s = sum_list (map (backlog_of cfg) (rl_events s))"

text \<open>A batch at the first moment the retry clock allows.\<close>

definition at_the_clock :: "outbox_settings \<Rightarrow> 'w consumer \<Rightarrow> registry \<Rightarrow> 'w relay \<Rightarrow> 'w relay" where
  "at_the_clock cfg run reg s =
    (case rl_cursor s of
       Some c \<Rightarrow> (case cu_retry_not_before c of
           Some t \<Rightarrow> snd (deliver_batch cfg run reg (s\<lparr>rl_now := max t (rl_now s)\<rparr>))
         | None \<Rightarrow> snd (deliver_batch cfg run reg s))
     | None \<Rightarrow> snd (deliver_batch cfg run reg s))"

lemma at_the_clock_runs:
  assumes "\<not> rl_locked s"
  obtains s1 dl f where "run_batch cfg run reg s1 = (dl, f, at_the_clock cfg run reg s)" "rl_events s1 = rl_events s" "rl_next s1 = rl_next s"
    "rl_tenants s1 = rl_tenants s" "\<not> rl_locked s1" "\<And>c. rl_cursor s1 = Some c \<Longrightarrow> \<not> waiting_out c (rl_now s1)"
proof -
  define s1 where "s1 = (case rl_cursor s of Some c \<Rightarrow> (case cu_retry_not_before c of
      Some t \<Rightarrow> s\<lparr>rl_now := max t (rl_now s)\<rparr> | None \<Rightarrow> s) | None \<Rightarrow> s)"
  have "at_the_clock cfg run reg s = snd (deliver_batch cfg run reg s1)"
    by (auto simp: at_the_clock_def s1_def split: option.splits)
  moreover obtain dl f s2 where "run_batch cfg run reg s1 = (dl, f, s2)" by (cases "run_batch cfg run reg s1") auto
  ultimately have "run_batch cfg run reg s1 = (dl, f, at_the_clock cfg run reg s)" by (simp add: deliver_batch_def)
  then show thesis
    using assms by (intro that [of s1 dl f]) (auto simp: s1_def waiting_out_def split: option.splits)
qed

text \<open>Handlers that record nothing leave the ids as they are, and then no row is new.\<close>

definition quiet :: "'w consumer \<Rightarrow> bool" where
  "quiet run \<longleftrightarrow> (\<forall>h e w w1 rows. run h e w = Inr (w1, rows) \<longrightarrow> rows = [])"

lemma quiet_handlers: "quiet run \<Longrightarrow> run_handlers run hs e w = Inr (w1, rows) \<Longrightarrow> rows = []"
  by (induction hs arbitrary: w w1 rows) (fastforce simp: ebind_eq_Inr quiet_def)+

lemma quiet_next:
  assumes "quiet run" and "deliver_rows cfg run reg es (c, dl, f, s) = (c', dl', f', s')"
  shows "rl_next s' = rl_next s"
  using assms(2)
proof (induction es arbitrary: c dl f s)
  case (Cons e es)
  show ?case
  proof (cases "deliver run reg (rl_tenants s) e (rl_world s)")
    case (Inr out)
    then have "snd out = []"
      using quiet_handlers [OF assms(1)] by (cases out) (auto simp: deliver_def ebind_eq_Inr ensure_eq_Inr)
    with Cons.prems Inr Cons.IH show ?thesis by (cases out) (fastforce simp: insert_rows_def)
  next
    case (Inl err)
    with Cons.prems Cons.IH show ?thesis by (fastforce simp: record_failure_def Let_def split: if_splits prod.splits)
  qed
qed simp

lemma grown_same_rows:
  assumes "relay_grown s s'" and "relay_ok s'" and "rl_next s' = rl_next s"
  obtains g where "rl_events s' = map g (rl_events s)" "\<And>r. kept r (g r)"
proof -
  obtain g ext where g: "rl_events s' = map g (rl_events s) @ ext" "\<forall>r. kept r (g r)" "\<forall>r\<in>set ext. rl_next s \<le> ob_id r"
    using assms(1) by (auto simp: relay_grown_def)
  have "ext = []"
  proof (cases ext)
    case (Cons r rs)
    then have "r \<in> set (rl_events s')" "rl_next s \<le> ob_id r" using g by auto
    with assms(2,3) show ?thesis by (auto simp: relay_ok_def)
  qed
  with g that show thesis by auto
qed

text \<open>The row at the front is delivered or has one attempt more.\<close>

lemma front_row_moves:
  assumes "deliver_rows cfg run reg (e # es) (c, dl, f, s) = (c', dl', f', s')" and "relay_ok s"
    and "distinct (map ob_id (e # es))" and "set (e # es) \<subseteq> set (rl_events s)"
  shows "e \<in> set dl' \<or> (\<exists>r\<in>set (rl_events s'). ob_id r = ob_id e \<and> oe_attempts e < oe_attempts r)"
proof (cases "deliver run reg (rl_tenants s) e (rl_world s)")
  case (Inr out)
  obtain w written where out: "out = (w, written)" by (cases out)
  let ?s = "insert_rows written (s\<lparr>rl_world := w\<rparr>)"
  have ok: "relay_ok ?s"
    using assms(2) deliver_zones [OF Inr [unfolded out]] ok_insert [of "s\<lparr>rl_world := w\<rparr>" written]
    by (simp add: relay_ok_def zones_def)
  have sub: "distinct (map ob_id es)" "set es \<subseteq> set (rl_events ?s)" using assms(3,4) by (auto simp: insert_rows_def)
  from assms(1) Inr out
  have "deliver_rows cfg run reg es (c\<lparr>cu_last_created := Some (oe_created e), cu_last_id := Some (ob_id e),
      cu_retry_not_before := None\<rparr>, dl @ [e], f, ?s) = (c', dl', f', s')" by simp
  from deliver_rows_grows [OF this ok sub] show ?thesis by auto
next
  case (Inl err)
  obtain b s1 where rf: "record_failure cfg e err s = (b, s1)" by (cases "record_failure cfg e err s")
  have e: "e \<in> set (rl_events s)" using assms(4) by simp
  have ok: "relay_ok s1" using ok_failure [OF assms(2), of cfg e err] rf by simp
  have tried: "e\<lparr>oe_attempts := Suc (oe_attempts e), oe_last_error := take 500 err\<rparr> \<in> set (rl_events s1)"
    using rf e by (auto simp: record_failure_def Let_def image_iff)
  have sub: "distinct (map ob_id es)" "set es \<subseteq> set (rl_events s1)"
    using assms(3,4) rf by (force simp: record_failure_def Let_def image_iff)+
  have "relay_grown s1 s'"
  proof (cases b)
    case True
    with assms(1) Inl rf have "deliver_rows cfg run reg es (c\<lparr>cu_retry_not_before := None\<rparr>, dl, Suc f, s1) = (c', dl', f', s')" by simp
    from deliver_rows_grows [OF this ok sub] show ?thesis by blast
  next
    case False
    with assms(1) Inl rf show ?thesis by (simp add: relay_grown_refl)
  qed
  from relay_grown_row [OF this tried] show ?thesis by (auto simp: kept_def)
qed

lemma sum_list_less:
  fixes w v :: "'a \<Rightarrow> nat"
  assumes "\<And>r. r \<in> set rs \<Longrightarrow> w r \<le> v r" and "e \<in> set rs" and "w e < v e"
  shows "sum_list (map w rs) < sum_list (map v rs)"
  using assms
proof (induction rs)
  case (Cons r rs)
  have le: "sum_list (map w rs) \<le> sum_list (map v rs)" using Cons.prems(1) by (intro sum_list_mono) simp
  show ?case
  proof (cases "e = r")
    case True
    then show ?thesis using le Cons.prems(3) by simp
  next
    case False
    then have "sum_list (map w rs) < sum_list (map v rs)" using Cons by auto
    then show ?thesis using Cons.prems(1) [of r] by simp
  qed
qed simp

lemma clock_progress:
  assumes ok: "relay_ok s" and "\<not> rl_locked s" and "0 < os_batch_size cfg" and "quiet run"
    and e0: "e0 \<in> set (rl_events s)" "is_pending cfg e0"
  shows "relay_ok (at_the_clock cfg run reg s) \<and> \<not> rl_locked (at_the_clock cfg run reg s) \<and>
    backlog cfg (at_the_clock cfg run reg s) < backlog cfg s"
proof -
  let ?s' = "at_the_clock cfg run reg s"
  obtain u dl f where u: "run_batch cfg run reg u = (dl, f, ?s')" "rl_events u = rl_events s" "rl_next u = rl_next s"
    "rl_tenants u = rl_tenants s" "\<not> rl_locked u" "\<And>c. rl_cursor u = Some c \<Longrightarrow> \<not> waiting_out c (rl_now u)"
    using at_the_clock_runs [OF assms(2)] by blast
  have "relay_ok u" using ok_of [OF u(2,4,3)] ok by simp
  from u(1) this show ?thesis
  proof (cases rule: run_batch_cases)
    case Idle
    with u(5,6) show ?thesis by blast
  next
    case (Ran c c2 s1 s2)
    note pend = pending_in [OF Ran(7), of cfg]
    have rows: "rl_events s1 = rl_events s" using Ran(1) u(2) by simp
    have "pending_rows cfg s1 \<noteq> []"
    proof -
      have "filter (is_pending cfg) (rl_events s1) \<noteq> []" using e0 rows by (auto simp: filter_empty_conv)
      then show ?thesis
        using assms(3) unfolding merged_order [OF Ran(7)] by (simp add: take_eq_Nil) (metis length_0_conv length_sort)
    qed
    then obtain e es where ees: "pending_rows cfg s1 = e # es" by (cases "pending_rows cfg s1") auto
    have sub: "set (e # es) \<subseteq> set (rl_events s1)" using pend(1) ees by auto
    have dist: "distinct (map ob_id (e # es))" using pend(2) ees by simp
    have run: "deliver_rows cfg run reg (e # es) (c, [], 0, s1) = (c2, dl, f, s2)" using Ran(9) ees by simp
    have e: "e \<in> set (rl_events s)" "is_pending cfg e" using pend(1) ees rows by auto
    from deliver_rows_grows [OF run Ran(7) dist sub] have g: "relay_grown s1 s2" "relay_ok s2" by auto
    obtain h where h: "rl_events s2 = map h (rl_events s)" "\<And>r. kept r (h r)"
      using grown_same_rows [OF g quiet_next [OF assms(4) run]] rows by metis
    define m where "m r = (if \<exists>e\<in>set dl. ob_tenant e = ob_tenant r \<and> ob_id e = ob_id r then r\<lparr>oe_published_at := Some (rl_now s2)\<rparr> else r)" for r :: outbox_event
    have rows': "rl_events ?s' = map (\<lambda>r. m (h r)) (rl_events s)"
      using Ran(10) h(1) by (simp add: mark_published_def m_def)
    have le: "backlog_of cfg (m (h r)) \<le> backlog_of cfg r" for r
      using h(2) [of r] by (auto simp: m_def backlog_of_def kept_def)
    have less: "backlog_of cfg (m (h e)) < backlog_of cfg e"
      using front_row_moves [OF run Ran(7) dist sub]
    proof
      assume "e \<in> set dl"
      then have "backlog_of cfg (m (h e)) = 0" using h(2) [of e] by (auto simp: m_def backlog_of_def kept_def)
      then show ?thesis using e(2) by (simp add: backlog_of_def is_pending_def)
    next
      assume "\<exists>r\<in>set (rl_events s2). ob_id r = ob_id e \<and> oe_attempts e < oe_attempts r"
      then obtain x where x: "x \<in> set (rl_events s)" "ob_id (h x) = ob_id e" "oe_attempts e < oe_attempts (h x)"
        unfolding h(1) by auto
      have "ob_id x = ob_id e" using x(2) h(2) [of x] by (simp add: kept_def)
      moreover have "distinct (map ob_id (rl_events s))" using ok by (simp add: relay_ok_def)
      ultimately have "x = e" using x(1) e(1) by (auto intro: distinct_map_eq)
      then show ?thesis
        using x(3) e(2) h(2) [of e] by (auto simp: m_def backlog_of_def is_pending_def kept_def)
    qed
    have "backlog cfg ?s' < backlog cfg s"
      unfolding backlog_def rows' map_map comp_def by (rule sum_list_less [of _ "\<lambda>r. backlog_of cfg (m (h r))" _ e]) (use le e(1) less in simp_all)
    moreover have "relay_ok ?s'" using batch_once [OF u(1) \<open>relay_ok u\<close>] by blast
    moreover have "\<not> rl_locked ?s'" using Ran(6,10,11) g(1) by (simp add: relay_grown_def mark_published_def)
    ultimately show ?thesis by blast
  qed
qed

text \<open>C24: The backlog drains: with handlers that record nothing themselves and nobody else holding the cursor, batches
  at the moments the retry clock allows leave, after at most as many of them as there are attempts left in
  the table, every row published or out of attempts, however the handlers behave.\<close>

theorem the_backlog_drains:
  assumes "relay_ok s" and "\<not> rl_locked s" and "0 < os_batch_size cfg" and "quiet run"
  shows "\<exists>n\<le>backlog cfg s. \<forall>e\<in>set (rl_events ((at_the_clock cfg run reg ^^ n) s)).
    oe_published_at e \<noteq> None \<or> os_max_attempts cfg \<le> oe_attempts e"
  using assms(1,2)
proof (induction "backlog cfg s" arbitrary: s rule: less_induct)
  case less
  let ?step = "at_the_clock cfg run reg"
  show ?case
  proof (cases "\<exists>e\<in>set (rl_events s). is_pending cfg e")
    case False
    then show ?thesis by (intro exI [of _ 0]) (auto simp: is_pending_def not_less)
  next
    case True
    then obtain e where "e \<in> set (rl_events s)" "is_pending cfg e" by blast
    note p = clock_progress [OF less.prems assms(3,4) this, of reg]
    then obtain n where n: "n \<le> backlog cfg (?step s)" "\<forall>e\<in>set (rl_events ((?step ^^ n) (?step s))).
        oe_published_at e \<noteq> None \<or> os_max_attempts cfg \<le> oe_attempts e"
      using less.hyps [of "?step s"] by blast
    then show ?thesis
      using p by (intro exI [of _ "Suc n"]) (simp add: funpow_swap1 del: funpow.simps add: funpow_Suc_right)
  qed
qed

section \<open>A small relay\<close>

text \<open>Three rows, the middle one of a kind whose handler always fails.\<close>

definition ex_consumer :: "string list consumer" where
  "ex_consumer h e w = (if h = ''broken'' then Inl ''ValueError'' else Inr (w @ [h], []))"

definition ex_registry :: registry where
  "ex_registry = register_handler ''bad'' ''broken'' (register_handler ''good'' ''index'' (register_handler ''good'' ''index'' []))"

definition ex_event :: "uuid \<Rightarrow> uuid option \<Rightarrow> string \<Rightarrow> instant \<Rightarrow> outbox_event" where
  "ex_event i t topic at = \<lparr>ob_id = i, ob_tenant = t, ob_audit = 0, ob_topic = topic, ob_payload = [], oe_created = at,
     oe_published_at = None, oe_attempts = 0, oe_last_error = []\<rparr>"

definition ex_relay :: "string list relay" where
  "ex_relay = \<lparr>rl_next = 9, rl_now = 7, rl_tenants = [2, 1], rl_events = [ex_event 3 (Some 1) ''good'' 3, ex_event 4 None ''bad'' 2,
     ex_event 5 (Some 2) ''good'' 1], rl_cursor = None, rl_locked = False, rl_world = []\<rparr>"

definition ex_outbox :: outbox_settings where
  "ex_outbox = \<lparr>os_batch_size = 5, os_max_attempts = 2, os_retry_backoff_s = 1\<rparr>"

lemma ex_relay_ok: "relay_ok ex_relay"
  by (simp add: relay_ok_def ex_relay_def ex_event_def zones_def)

definition ex_batch :: "outbox_event list \<times> nat \<times> string list relay" where
  "ex_batch = run_batch ex_outbox ex_consumer ex_registry ex_relay"

lemma ex_batch_runs: "run_batch ex_outbox ex_consumer ex_registry ex_relay = (fst ex_batch, fst (snd ex_batch), snd (snd ex_batch))"
  by (simp add: ex_batch_def)

theorem merged_reads_are_the_order_witness:
  "map ob_id (pending_rows ex_outbox ex_relay) = [5, 4, 3]"
proof -
  have "map ob_id (take 5 (sort_key event_key (filter (is_pending ex_outbox) (rl_events ex_relay)))) = [5, 4, 3]" by code_simp
  then show ?thesis using merged_reads_are_the_order [OF ex_relay_ok, of ex_outbox] by (simp add: ex_outbox_def)
qed

theorem events_are_delivered_once_witness:
  "published (snd (snd ex_batch)) = {5} \<and> rl_world (snd (snd ex_batch)) = [''index'']"
proof -
  have log: "map ob_id (fst ex_batch) = [5]" "rl_world (snd (snd ex_batch)) = [''index'']" by code_simp+
  have "relay_run ex_outbox ex_consumer ex_registry ex_relay ([] @ fst ex_batch) (snd (snd ex_batch))"
    by (rule relay_run.Batch [OF relay_run.Start ex_batch_runs])
  from events_are_delivered_once [OF ex_relay_ok this] have "published (snd (snd ex_batch)) = published ex_relay \<union> set (map ob_id (fst ex_batch))"
    by simp
  moreover have "published ex_relay = {}" by (auto simp: published_def ex_relay_def ex_event_def)
  ultimately show ?thesis using log by simp
qed

theorem nothing_overtakes_witness:
  "map ob_id (fst ex_batch) = [5] \<and> sorted (map event_key (fst ex_batch))"
proof -
  have "map ob_id (fst ex_batch) = [5]" by code_simp
  then show ?thesis using nothing_overtakes [OF ex_batch_runs ex_relay_ok] by simp
qed

theorem the_backlog_drains_witness:
  "\<exists>n\<le>6. \<forall>e\<in>set (rl_events ((at_the_clock ex_outbox ex_consumer ex_registry ^^ n) ex_relay)).
    oe_published_at e \<noteq> None \<or> 2 \<le> oe_attempts e"
proof -
  have "quiet ex_consumer" by (auto simp: quiet_def ex_consumer_def)
  moreover have "backlog ex_outbox ex_relay = 6" by code_simp
  moreover have "os_max_attempts ex_outbox = 2" "0 < os_batch_size ex_outbox" "\<not> rl_locked ex_relay"
    by (simp_all add: ex_outbox_def ex_relay_def)
  ultimately show ?thesis using the_backlog_drains [OF ex_relay_ok, of ex_outbox ex_consumer ex_registry] by simp
qed

end
