(* ===== verification/Calendar.thy ===== *)
theory Calendar
  imports GRC_Text
begin

text \<open>
  What the program uses of Python's calendar (\<^verbatim>\<open>datetime.date\<close>, \<^verbatim>\<open>calendar.isleap\<close>): a date is its ordinal,
  day 1 being the first of January of year 1.
\<close>

section \<open>Years\<close>

definition MINYEAR :: int where
  "MINYEAR = 1"

definition MAXYEAR :: int where
  "MAXYEAR = 9999"

definition isleap :: "int \<Rightarrow> bool" where
  "isleap y \<longleftrightarrow> y mod 4 = 0 \<and> (y mod 100 \<noteq> 0 \<or> y mod 400 = 0)"

definition days_before_year :: "int \<Rightarrow> int" where
  "days_before_year y = (y - 1) * 365 + (y - 1) div 4 - (y - 1) div 100 + (y - 1) div 400"

section \<open>Months and days\<close>

definition days_before_month :: "bool \<Rightarrow> int \<Rightarrow> int" where
  "days_before_month leap m =
    ([0, 31, 59, 90, 120, 151, 181, 212, 243, 273, 304, 334] ! nat (m - 1)) + (if 2 < m \<and> leap then 1 else 0)"

definition days_in_month :: "bool \<Rightarrow> int \<Rightarrow> int" where
  "days_in_month leap m =
    (if m = 2 then (if leap then 29 else 28) else if m \<in> {4, 6, 9, 11} then 30 else 31)"

definition valid_date :: "int \<Rightarrow> int \<Rightarrow> int \<Rightarrow> bool" where
  "valid_date y m d \<longleftrightarrow> MINYEAR \<le> y \<and> y \<le> MAXYEAR \<and> 1 \<le> m \<and> m \<le> 12 \<and> 1 \<le> d \<and> d \<le> days_in_month (isleap y) m"

definition ordinal :: "int \<Rightarrow> int \<Rightarrow> int \<Rightarrow> day" where
  "ordinal y m d = days_before_year y + days_before_month (isleap y) m + d"

text \<open>Monday is 0.\<close>

definition weekday :: "day \<Rightarrow> int" where
  "weekday n = (n + 6) mod 7"

text \<open>\<^verbatim>\<open>_ord2ymd\<close>.\<close>

definition ord2ymd :: "day \<Rightarrow> int \<times> int \<times> int" where
  "ord2ymd ord =
    (let n = ord - 1; n400 = n div 146097; n = n mod 146097;
         n100 = n div 36524; n = n mod 36524; n4 = n div 1461; n = n mod 1461; n1 = n div 365; n = n mod 365;
         year = n400 * 400 + 1 + n100 * 100 + n4 * 4 + n1
     in if n1 = 4 \<or> n100 = 4 then (year - 1, 12, 31)
        else let leap = (n1 = 3 \<and> (n4 \<noteq> 24 \<or> n100 = 3));
                 guess = (n + 50) div 32;
                 month = (if n < days_before_month leap guess then guess - 1 else guess)
             in (year, month, n - days_before_month leap month + 1))"

text \<open>\<^verbatim>\<open>date.isoformat()\<close>.\<close>

definition padded :: "nat \<Rightarrow> int \<Rightarrow> string" where
  "padded w n = (let s = show_nat (nat n) in replicate (w - length s) (CHR ''0'') @ s)"

definition isoformat :: "day \<Rightarrow> string" where
  "isoformat ord = (case ord2ymd ord of (y, m, d) \<Rightarrow> padded 4 y @ ''-'' @ padded 2 m @ ''-'' @ padded 2 d)"

section \<open>A year further, a cycle further\<close>

lemma div_before:
  fixes y n :: int
  assumes "0 < n"
  shows "(y - 1) div n = y div n - (if y mod n = 0 then 1 else 0)"
proof (cases "y mod n = 0")
  case True
  have "y - 1 = n * (y div n - 1) + (n - 1)"
    using mult_div_mod_eq [of n y] True by (simp add: algebra_simps)
  then have "(y - 1) div n = y div n - 1" by (rule int_div_pos_eq) (use assms in auto)
  with True show ?thesis by simp
next
  case False
  have "y - 1 = n * (y div n) + (y mod n - 1)"
    using mult_div_mod_eq [of n y] by (simp add: algebra_simps)
  moreover have "0 \<le> y mod n" "y mod n < n" using assms by simp_all
  then have "0 \<le> y mod n - 1" "y mod n - 1 < n" using False by linarith+
  ultimately have "(y - 1) div n = y div n" by (intro int_div_pos_eq)
  with False show ?thesis by simp
qed

lemma leap_multiples: "y mod 400 = 0 \<Longrightarrow> y mod 100 = 0" "y mod 100 = 0 \<Longrightarrow> y mod 4 = 0" for y :: int
  by (auto simp: dvd_eq_mod_eq_0 [symmetric] intro: dvd_trans)

lemma days_before_next_year: "days_before_year (y + 1) = days_before_year y + (if isleap y then 366 else 365)"
  using leap_multiples [of y] by (simp add: days_before_year_def isleap_def div_before)

lemma isleap_cycle: "isleap (y + 400 * k) = isleap y"
proof -
  have "(y + 4 * (100 * k)) mod 4 = y mod 4" "(y + 100 * (4 * k)) mod 100 = y mod 100" "(y + 400 * k) mod 400 = y mod 400"
    by (rule mod_mult_self2)+
  then show ?thesis by (simp add: isleap_def)
qed

lemma days_before_cycle: "days_before_year (y + 400 * k) = days_before_year y + 146097 * k"
proof -
  have "(y - 1 + 4 * (100 * k)) div 4 = 100 * k + (y - 1) div 4" "(y - 1 + 100 * (4 * k)) div 100 = 4 * k + (y - 1) div 100"
    "(y - 1 + 400 * k) div 400 = k + (y - 1) div 400"
    by (rule div_mult_self2; simp)+
  then show ?thesis by (simp add: days_before_year_def algebra_simps)
qed

end
