(* ===== verification/Recurrence.thy ===== *)
theory Recurrence
  imports Case_Store Calendar
begin

text \<open>
  The recurrence rule of a recurring duty, \<^verbatim>\<open>backend/apps/library/recurrence.py\<close>: which rules the library
  stores, and the days one falls due.  The parser and the expansion are those of \<^verbatim>\<open>dateutil\<close>, which
  is a parameter; what is modelled is the grammar around it and the shift of the years in which it runs.
\<close>

section \<open>The grammar\<close>

definition RULE_MAX_CHARS :: nat where
  "RULE_MAX_CHARS = 500"

definition FREQUENCIES :: "string list" where
  "FREQUENCIES = [''DAILY'', ''WEEKLY'', ''MONTHLY'', ''YEARLY'']"

definition PARTS :: "string list" where
  "PARTS = [''FREQ'', ''INTERVAL'', ''COUNT'', ''UNTIL'', ''WKST'', ''BYMONTH'', ''BYMONTHDAY'', ''BYYEARDAY'', ''BYWEEKNO'',
     ''BYDAY'', ''BYSETPOS'']"

text \<open>\<^verbatim>\<open>str.upper\<close> of the characters below 256; the two whose capital is above it stay as they are, and the
  grammar refuses either form.\<close>

definition upper_char :: "char \<Rightarrow> string" where
  "upper_char c =
    (if (97 \<le> code c \<and> code c \<le> 122) \<or> (224 \<le> code c \<and> code c \<le> 254 \<and> code c \<noteq> 247) then [char_of (code c - 32)]
     else if code c = 223 then ''SS'' else [c])"

definition upper :: "string \<Rightarrow> string" where
  "upper s = concat (map upper_char s)"

text \<open>\<^verbatim>\<open>[A-Z0-9=;,+\-]+\<close> and \<^verbatim>\<open>[1-9][0-9]{0,3}\<close>, matched in full.\<close>

definition all_characters :: "string \<Rightarrow> bool" where
  "all_characters s \<longleftrightarrow> s \<noteq> [] \<and> list_all (\<lambda>c. (65 \<le> code c \<and> code c \<le> 90) \<or> (48 \<le> code c \<and> code c \<le> 57) \<or> c \<in> set ''=;,+-'') s"

definition positive :: "string \<Rightarrow> bool" where
  "positive s \<longleftrightarrow> (case s of [] \<Rightarrow> False
     | c # cs \<Rightarrow> 49 \<le> code c \<and> code c \<le> 57 \<and> length cs \<le> 3 \<and> list_all (\<lambda>c. 48 \<le> code c \<and> code c \<le> 57) cs)"

text \<open>\<^verbatim>\<open>part.partition("=")\<close>.\<close>

definition partition_eq :: "string \<Rightarrow> string \<times> string" where
  "partition_eq s = (takeWhile (\<lambda>c. c \<noteq> CHR ''='') s, drop 1 (dropWhile (\<lambda>c. c \<noteq> CHR ''='') s))"

definition refused :: error where
  "refused = Validation ''invalid_recurrence''"

fun parts_of :: "string list \<Rightarrow> (string \<times> string) list \<Rightarrow> error + (string \<times> string) list" where
  "parts_of [] parts = Inr parts"
| "parts_of (p # ps) parts =
    (case partition_eq p of (name, val) \<Rightarrow>
       if name \<notin> set PARTS \<or> val = [] \<or> map_of parts name \<noteq> None then Inl refused
       else parts_of ps (parts @ [(name, val)]))"

definition normalised :: "string \<Rightarrow> error + string" where
  "normalised rule =
    (let txt = removeprefix ''RRULE:'' (upper (strip rule)) in
     if txt = [] \<or> RULE_MAX_CHARS < length txt \<or> \<not> all_characters txt then Inl refused
     else ebind (parts_of (split_on (CHR '';'') txt) []) (\<lambda>parts.
       if map_of parts ''FREQ'' \<notin> set (map Some FREQUENCIES) then Inl refused
       else if \<exists>name\<in>set [''INTERVAL'', ''COUNT'']. (case map_of parts name of None \<Rightarrow> False | Some v \<Rightarrow> \<not> positive v) then Inl refused
       else if map_of parts ''COUNT'' \<noteq> None \<and> map_of parts ''UNTIL'' \<noteq> None then Inl refused
       else Inr txt))"

section \<open>The shift of the years\<close>

definition same_calendar :: "int \<Rightarrow> int \<Rightarrow> int \<Rightarrow> bool" where
  "same_calendar first latest shift \<longleftrightarrow>
    weekday (ordinal first 1 1) = weekday (ordinal (first + shift) 1 1) \<and>
    list_all (\<lambda>y. isleap y = isleap (y + shift)) [first..latest]"

text \<open>\<^verbatim>\<open>_shift\<close>: the first of \<^verbatim>\<open>range(MAXYEAR - last, -1, -1)\<close> that qualifies; \<^verbatim>\<open>next\<close> raises when none does.\<close>

definition shift_of :: "int \<Rightarrow> int \<Rightarrow> int option" where
  "shift_of first0 last0 =
    (let first = max (first0 - 1) MINYEAR; latest = min (last0 + 1) MAXYEAR
     in find (same_calendar first latest) (rev [0..MAXYEAR - latest]))"

section \<open>Expanding\<close>

type_synonym ymd = "int \<times> int \<times> int"
type_synonym moment = "ymd \<times> int" \<comment> \<open>a naive datetime: its date and the second of the day\<close>

text \<open>\<^verbatim>\<open>dateutil\<close>: parsing (or a \<^verbatim>\<open>ValueError\<close>, \<^verbatim>\<open>TypeError\<close>), the parsed rule's end and count, the same rule with
  another start and end, and its occurrences, which it stops computing at the year 9999.\<close>

record 'r dateutil =
  du_rrulestr :: "string \<Rightarrow> moment \<Rightarrow> 'r option"
  du_until :: "'r \<Rightarrow> moment option"
  du_count :: "'r \<Rightarrow> nat option"
  du_replace :: "'r \<Rightarrow> moment \<Rightarrow> moment option \<Rightarrow> 'r"
  du_iter :: "'r \<Rightarrow> moment list"

fun earlier_date :: "ymd \<Rightarrow> ymd \<Rightarrow> bool" where
  "earlier_date (y, m, d) (y', m', d') \<longleftrightarrow> y < y' \<or> (y = y' \<and> (m < m' \<or> (m = m' \<and> d < d')))"

fun earlier :: "moment \<Rightarrow> moment \<Rightarrow> bool" where
  "earlier (a, s) (b, t) \<longleftrightarrow> earlier_date a b \<or> (a = b \<and> s < t)"

text \<open>\<^verbatim>\<open>replace(year=...)\<close>, which raises for a date that year does not have.\<close>

fun replace_year :: "int \<Rightarrow> ymd \<Rightarrow> error + ymd" where
  "replace_year y' (y, m, d) = (if valid_date y' m d then Inr (y', m, d) else Inl Server_error)"

fun due_days :: "nat \<Rightarrow> moment \<Rightarrow> int \<Rightarrow> moment list \<Rightarrow> ymd list \<Rightarrow> error + ymd list" where
  "due_days cap latest shift [] days = Inr days"
| "due_days cap latest shift (due # dues) days =
    (if earlier latest due then Inr days
     else if length days = cap then Inl refused
     else ebind (replace_year (fst (fst due) - shift) (fst due)) (\<lambda>day. due_days cap latest shift dues (days @ [day])))"

definition expand :: "'r dateutil \<Rightarrow> nat \<Rightarrow> string \<Rightarrow> ymd \<Rightarrow> ymd \<Rightarrow> error + ymd list" where
  "expand du cap rule start final =
    ebind (normalised rule) (\<lambda>txt.
    ebind (or_else (shift_of (fst start) (fst final)) Server_error) (\<lambda>shift.
    ebind (or_else (du_rrulestr du txt (start, 0)) refused) (\<lambda>parsed.
      let last0 = (final, 86399);
          latest = (case du_until du parsed of None \<Rightarrow> last0 | Some u \<Rightarrow> if earlier u last0 then u else last0)
      in if earlier latest (start, 0) then Inr []
         else ebind (replace_year (fst (fst latest) + shift) (fst latest)) (\<lambda>last_day.
              ebind (replace_year (fst start + shift) start) (\<lambda>first_day.
                let shifted_last = (last_day, snd latest);
                    shifted = du_replace du parsed (first_day, 0)
                      (if du_count du parsed \<in> {None, Some 0} then Some shifted_last else None)
                in due_days cap shifted_last shift (du_iter du shifted) [])))))"

text \<open>\<^verbatim>\<open>start + relativedelta(years=10) - timedelta(days=1)\<close>: a leap day is cut back to the 28th first.\<close>

definition horizon :: "ymd \<Rightarrow> error + ymd" where
  "horizon start =
    (case start of (y, m, d) \<Rightarrow>
       if MAXYEAR < y + 10 then Inl Server_error
       else Inr (ord2ymd (ordinal (y + 10) m (min d (days_in_month (isleap (y + 10)) m)) - 1)))"

definition validated :: "'r dateutil \<Rightarrow> nat \<Rightarrow> string \<Rightarrow> ymd \<Rightarrow> error + string" where
  "validated du cap rule start =
    ebind (horizon start) (\<lambda>final.
    ebind (expand du cap rule start final) (\<lambda>days.
    if days = [] then Inl refused else normalised rule))"

section \<open>The span's own calendar\<close>

lemma find_last:
  assumes "find P (rev [0..n]) = Some s"
  shows "P s \<and> 0 \<le> s \<and> s \<le> n \<and> (\<forall>t. s < t \<and> t \<le> n \<longrightarrow> \<not> P t)"
proof (cases "0 \<le> n")
  case True
  then show ?thesis
    using assms
  proof (induction n rule: int_ge_induct)
    case base
    then show ?case by (auto split: if_splits)
  next
    case (step i)
    have "[0..i + 1] = [0..i] @ [i + 1]" using step.hyps upto_rec2 [of 0 "i + 1"] by simp
    with step show ?case
      by (cases "P (i + 1)") (auto simp: le_less zle_add1_eq_le)
  qed
next
  case False
  with assms show ?thesis by simp
qed

lemma find_last_exists:
  assumes "P s" and "0 \<le> s" "s \<le> n"
  obtains t where "find P (rev [0..n]) = Some t"
proof -
  have "\<exists>x\<in>set (rev [0..n]). P x" using assms by auto
  then have "find P (rev [0..n]) \<noteq> None" by (auto simp: find_None_iff)
  then show thesis using that by auto
qed

lemma weekday_new_year: "weekday (ordinal y 1 1) = days_before_year y mod 7"
  by (simp add: weekday_def ordinal_def days_before_month_def)

lemma cycles_qualify: "same_calendar first latest (400 * k)"
proof -
  have "(days_before_year first + 7 * (20871 * k)) mod 7 = days_before_year first mod 7" by (rule mod_mult_self2)
  then show ?thesis
    by (simp add: same_calendar_def isleap_cycle weekday_new_year days_before_cycle list_all_iff)
qed

lemma shift_moves_years:
  assumes "same_calendar first latest s" and "first \<le> y" "y \<le> latest"
  shows "isleap (y + s) = isleap y \<and> days_before_year (y + s) - days_before_year y = days_before_year (first + s) - days_before_year first"
proof -
  have leap: "isleap (x + s) = isleap x" if "first \<le> x" "x \<le> latest" for x
    using assms(1) that by (auto simp: same_calendar_def list_all_iff)
  from assms(2,3) have "days_before_year (y + s) - days_before_year y = days_before_year (first + s) - days_before_year first"
  proof (induction y rule: int_ge_induct)
    case (step i)
    then have "days_before_year (i + s) - days_before_year i = days_before_year (first + s) - days_before_year first" by simp
    moreover have "isleap (i + s) = isleap i" using step by (intro leap) auto
    ultimately show ?case
      using days_before_next_year [of i] days_before_next_year [of "i + s"] by (simp add: algebra_simps)
  qed simp
  with leap assms(2,3) show ?thesis by simp
qed

lemma shift_is_whole_weeks:
  "same_calendar first latest s \<Longrightarrow> (days_before_year (first + s) - days_before_year first) mod 7 = 0"
  unfolding same_calendar_def weekday_new_year by (metis mod_eq_dvd_iff dvd_imp_mod_0)

text \<open>The shift exists and keeps the calendar: for every span of years a date can have, the search for a shift ends
  with one that lands within a cycle of 400 years of the year 9999, and in every year from the one before the
  span to the one after it, exactly the same dates exist, each the same number of whole weeks later: so moving
  an occurrence there and back neither fails nor changes its weekday.\<close>

theorem shift_keeps_the_calendar:
  assumes "1 \<le> first" and "first \<le> latest" and "latest \<le> 9999"
  shows "\<exists>s. shift_of first latest = Some s \<and> 0 \<le> s \<and> 9999 - 400 < min (latest + 1) 9999 + s \<and> min (latest + 1) 9999 + s \<le> 9999 \<and>
    (\<exists>weeks. \<forall>y m d. max (first - 1) 1 \<le> y \<and> y \<le> min (latest + 1) 9999 \<longrightarrow> valid_date (y + s) m d = valid_date y m d \<and>
      ordinal (y + s) m d = ordinal y m d + 7 * weeks \<and> weekday (ordinal (y + s) m d) = weekday (ordinal y m d))"
proof -
  let ?a = "max (first - 1) 1" and ?b = "min (latest + 1) 9999"
  let ?k = "(9999 - ?b) div 400"
  have k: "0 \<le> 400 * ?k" "400 * ?k \<le> 9999 - ?b" "9999 - ?b < 400 * ?k + 400"
  proof -
    have "0 \<le> 9999 - ?b" by simp
    then have "0 \<le> ?k" by (simp add: pos_imp_zdiv_nonneg_iff)
    moreover have "400 * ?k + (9999 - ?b) mod 400 = 9999 - ?b" by (rule mult_div_mod_eq)
    moreover have "0 \<le> (9999 - ?b) mod 400" "(9999 - ?b) mod 400 < 400" by simp_all
    ultimately show "0 \<le> 400 * ?k" "400 * ?k \<le> 9999 - ?b" "9999 - ?b < 400 * ?k + 400" by linarith+
  qed
  obtain s where s: "find (same_calendar ?a ?b) (rev [0..9999 - ?b]) = Some s"
    using find_last_exists [of "same_calendar ?a ?b" "400 * ?k" "9999 - ?b"] cycles_qualify k by blast
  note latest = find_last [OF s]
  have "400 * ?k \<le> s" using latest k(2) cycles_qualify [of ?a ?b ?k] by (metis not_less)
  then have near: "9999 - 400 < ?b + s" "?b + s \<le> 9999" "0 \<le> s" using k(3) latest by linarith+
  obtain weeks where weeks: "days_before_year (?a + s) - days_before_year ?a = 7 * weeks"
    using shift_is_whole_weeks [of ?a ?b s] latest by (meson dvdE mod_0_imp_dvd)
  have "valid_date (y + s) m d = valid_date y m d \<and> ordinal (y + s) m d = ordinal y m d + 7 * weeks \<and>
      weekday (ordinal (y + s) m d) = weekday (ordinal y m d)" if y: "?a \<le> y" "y \<le> ?b" for y m d
  proof -
    have leap: "isleap (y + s) = isleap y" and days: "days_before_year (y + s) = days_before_year y + 7 * weeks"
      using shift_moves_years [of ?a ?b s y] latest y weeks by auto
    have "1 \<le> y" "y \<le> 9999" "1 \<le> y + s" "y + s \<le> 9999" using y near by linarith+
    then have "valid_date (y + s) m d = valid_date y m d" using leap by (simp add: valid_date_def MINYEAR_def MAXYEAR_def)
    moreover have moved: "ordinal (y + s) m d = ordinal y m d + 7 * weeks" using leap days by (simp add: ordinal_def)
    moreover have "weekday (ordinal (y + s) m d) = weekday (ordinal y m d)"
      unfolding moved weekday_def using mod_mult_self2 [of "ordinal y m d + 6" 7 weeks] by (simp add: algebra_simps)
    ultimately show ?thesis by blast
  qed
  moreover have "shift_of first latest = Some s" using s by (simp add: shift_of_def MINYEAR_def MAXYEAR_def Let_def)
  ultimately show ?thesis using near by blast
qed

theorem shift_keeps_the_calendar_witness:
  "\<exists>s. shift_of 2024 2034 = Some s \<and> weekday (ordinal (2028 + s) 2 29) = weekday (ordinal 2028 2 29)"
proof -
  obtain s weeks where s: "shift_of 2024 2034 = Some s" "\<forall>y m d. max (2024 - 1) 1 \<le> y \<and> y \<le> min (2034 + 1) (9999::int) \<longrightarrow>
      weekday (ordinal (y + s) m d) = weekday (ordinal y m d)"
    using shift_keeps_the_calendar [of 2024 2034] by auto
  then have "weekday (ordinal (2028 + s) 2 29) = weekday (ordinal 2028 2 29)" by simp
  with s(1) show ?thesis by blast
qed

end
