(* ===== verification/Absence.thy ===== *)
theory Absence
  imports Case_Routes Calendar
begin

text \<open>
  A member's own absence with a delegate, \<^verbatim>\<open>backend/apps/tenants/out_of_office.py\<close>: two columns of the
  membership, read and set by the member.  What they route is elsewhere: \<open>delegated\<close> of \<^verbatim>\<open>Notify\<close> sends the
  work to the delegate, \<open>on_behalf_of\<close> of \<^verbatim>\<open>Case_Signoff\<close> names the absent in an approval's audit row.
\<close>

text \<open>\<^verbatim>\<open>shared/permissions.py\<close>: the permissions four eyes applies to.\<close>

definition APPROVE_PERMISSIONS :: "string list" where
  "APPROVE_PERMISSIONS = [''footprint.approve'', ''cases.signoff'', ''risk.accept.approve'', ''proposals.review'',
     ''private_records.approve'']"

text \<open>\<^verbatim>\<open>roles_logic.permissions_of(roles) & APPROVE_PERMISSIONS\<close>.\<close>

definition permissions_of :: "string list list \<Rightarrow> string list" where
  "permissions_of roles = remdups (concat roles)"

definition approve_permissions :: "membership \<Rightarrow> string list" where
  "approve_permissions m = filter (\<lambda>p. p \<in> set APPROVE_PERMISSIONS) (permissions_of (m_roles m))"

definition absence_is_open :: "membership \<Rightarrow> day \<Rightarrow> bool" where
  "absence_is_open m today \<longleftrightarrow> (case m_out_of_office_until m of None \<Rightarrow> False | Some u \<Rightarrow> today \<le> u)"

definition snapshot :: "membership \<Rightarrow> jobj" where
  "snapshot m = [(''untilDate'', jopt JDay (m_out_of_office_until m)), (''delegateId'', jopt JId (m_delegate m))]"

record absence_view =
  av_until_date :: "day option"
  av_delegate :: "(uuid \<times> string) option"
  av_away :: bool

text \<open>The delegate is read as a person: the name on any row of theirs.\<close>

definition person_name :: "db \<Rightarrow> uuid \<Rightarrow> string" where
  "person_name d u = (case find (\<lambda>m. m_user m = u) (db_members d) of None \<Rightarrow> [] | Some m \<Rightarrow> m_user_name m)"

definition absence_out :: "db \<Rightarrow> membership \<Rightarrow> day \<Rightarrow> absence_view" where
  "absence_out d m today =
    \<lparr>av_until_date = m_out_of_office_until m, av_delegate = map_option (\<lambda>u. (u, person_name d u)) (m_delegate m),
     av_away = absence_is_open m today \<and> m_delegate m \<noteq> None\<rparr>"

text \<open>\<^verbatim>\<open>rows.get(tenant, user)\<close>; a member's session has its row.\<close>

definition own :: "uuid \<Rightarrow> uuid \<Rightarrow> db \<Rightarrow> error + membership" where
  "own tenant user d = or_else (find (\<lambda>m. m_tenant m = tenant \<and> m_user m = user) (db_members d)) Server_error"

definition get_out_of_office :: "request \<Rightarrow> db \<Rightarrow> error + absence_view" where
  "get_out_of_office rq d =
    ebind (own (rq_tenant rq) (rq_user rq) d) (\<lambda>m. Inr (absence_out d m (today_for (rq_tenant rq) d)))"

definition delegate_for :: "uuid \<Rightarrow> uuid \<Rightarrow> membership \<Rightarrow> db \<Rightarrow> error + membership" where
  "delegate_for tenant delegate_id absent d =
    ebind (or_else (find (\<lambda>m. m_tenant m = tenant \<and> m_user m = delegate_id \<and> active_member m \<and> m_user m \<noteq> m_user absent)
        (db_members d)) (Problem 422 ''validation_error'')) (\<lambda>del.
    ebind (ensure (set (approve_permissions absent) - set (approve_permissions del) = {})
        (Problem 422 ''delegate_cannot_approve'')) (\<lambda>_.
    Inr del))"

text \<open>The two columns of the row, saved.\<close>

definition with_absence :: "membership \<Rightarrow> (day \<times> uuid) option \<Rightarrow> membership" where
  "with_absence m a = m\<lparr>m_out_of_office_until := map_option fst a, m_delegate := map_option snd a\<rparr>"

definition save_absence :: "request \<Rightarrow> membership \<Rightarrow> (day \<times> uuid) option \<Rightarrow> string \<Rightarrow> string \<Rightarrow> db \<Rightarrow> absence_view \<times> db" where
  "save_absence rq m a act summary d =
    (let m1 = with_absence m a;
         d1 = d\<lparr>db_members := put_row m_id m1 (db_members d)\<rparr>;
         d2 = record_event (entry act (rq_actor rq) ''membership'' (Some (m_id m)) (rq_user_name rq) summary
           (Some (rq_tenant rq)) (snapshot m) (snapshot m1)) d1
     in (absence_out d2 m1 (today_for (rq_tenant rq) d), d2))"

definition set_out_of_office :: "request \<Rightarrow> day option \<Rightarrow> uuid option \<Rightarrow> db \<Rightarrow> error + absence_view \<times> db" where
  "set_out_of_office rq until delegate_id d =
    ebind (ensure ((until = None) = (delegate_id = None)) (Problem 422 ''validation_error'')) (\<lambda>_.
      let today = today_for (rq_tenant rq) d in
      ebind (own (rq_tenant rq) (rq_user rq) d) (\<lambda>m.
        case (until, delegate_id) of
          (Some u, Some dl) \<Rightarrow>
            ebind (ensure (today \<le> u) (Problem 422 ''validation_error'')) (\<lambda>_.
            ebind (ensure (\<not> absence_is_open m today) (Problem 409 ''already_delegated'')) (\<lambda>_.
            ebind (delegate_for (rq_tenant rq) dl m d) (\<lambda>del.
            Inr (save_absence rq m (Some (u, m_user del)) ''out_of_office.set''
              (ac_label (rq_actor rq) @ '' is away until '' @ isoformat u @ '' with '' @ m_user_name del @ '' as delegate.'') d))))
        | _ \<Rightarrow> Inr (save_absence rq m None ''out_of_office.ended''
            (ac_label (rq_actor rq) @ '' is back and no longer has a delegate.'') d)))"

section \<open>The routes (tenants/api.py)\<close>

definition get_my_out_of_office :: "principal option \<Rightarrow> db \<Rightarrow> error + absence_view" where
  "get_my_out_of_office who d =
    ebind (session_auth who) (\<lambda>p. ebind (request_of p) (\<lambda>rq. get_out_of_office rq d))"

definition put_my_out_of_office :: "principal option \<Rightarrow> day option \<Rightarrow> uuid option \<Rightarrow> db \<Rightarrow> error + absence_view \<times> db" where
  "put_my_out_of_office who until delegate_id d =
    ebind (session_auth who) (\<lambda>p. ebind (request_of p) (\<lambda>rq. set_out_of_office rq until delegate_id d))"

end
