(* ===== verification/Absence_Theorems.thy ===== *)
theory Absence_Theorems
  imports Absence Case_Example
begin

text \<open>What a set absence promises: a delegate who can do what the absent person approves, until the person is back.\<close>

definition able_delegate :: "db \<Rightarrow> membership \<Rightarrow> uuid \<Rightarrow> bool" where
  "able_delegate d m dl \<longleftrightarrow> (\<exists>del\<in>set (db_members d). m_tenant del = m_tenant m \<and> m_user del = dl \<and> dl \<noteq> m_user m \<and>
    active_member del \<and> (\<forall>p\<in>set APPROVE_PERMISSIONS. holds_permission m p \<longrightarrow> holds_permission del p))"

text \<open>Both columns or neither, and a delegate who may stand in.\<close>

definition good_absences :: "db \<Rightarrow> bool" where
  "good_absences d \<longleftrightarrow> (\<forall>m\<in>set (db_members d). (m_out_of_office_until m = None \<and> m_delegate m = None) \<or>
    (\<exists>u dl. m_out_of_office_until m = Some u \<and> m_delegate m = Some dl \<and> able_delegate d m dl))"

lemma approve_permissions_iff: "p \<in> set (approve_permissions m) \<longleftrightarrow> p \<in> set APPROVE_PERMISSIONS \<and> holds_permission m p"
  by (auto simp: approve_permissions_def permissions_of_def holds_permission_def)

lemma delegate_for_Inr: "delegate_for t dl m d = Inr del \<Longrightarrow> m_tenant m = t \<Longrightarrow> able_delegate d m dl \<and> m_user del = dl"
  using approve_permissions_iff
  by (auto simp: delegate_for_def ebind_eq_Inr or_else_eq_Inr ensure_eq_Inr able_delegate_def dest!: find_Some_in) blast

lemma with_absence_same [simp]:
  "m_id (with_absence m a) = m_id m" "m_tenant (with_absence m a) = m_tenant m" "m_user (with_absence m a) = m_user m"
  "active_member (with_absence m a) = active_member m" "holds_permission (with_absence m a) = holds_permission m"
  "m_deactivated_at (with_absence m a) = m_deactivated_at m"
  "m_out_of_office_until (with_absence m a) = map_option fst a" "m_delegate (with_absence m a) = map_option snd a"
  by (simp_all add: with_absence_def active_member_def holds_permission_def [abs_def])

text \<open>An answered call saved one row: the caller's, with what was asked for.\<close>

lemma set_out_of_office_Inr:
  assumes "set_out_of_office rq until dl d = Inr (out, d')"
  obtains m a where "m \<in> set (db_members d)" "m_tenant m = rq_tenant rq" "m_user m = rq_user rq"
    "until = map_option fst a" "dl = map_option snd a" "db_members d' = put_row m_id (with_absence m a) (db_members d)"
    "db_tenants d' = db_tenants d" "\<And>u x. a = Some (u, x) \<Longrightarrow> today_for (rq_tenant rq) d \<le> u \<and> able_delegate d m x"
proof -
  obtain m where m: "own (rq_tenant rq) (rq_user rq) d = Inr m" and both: "(until = None) = (dl = None)"
    using assms by (auto simp: set_out_of_office_def ebind_eq_Inr ensure_eq_Inr Let_def)
  then have row: "m \<in> set (db_members d)" "m_tenant m = rq_tenant rq" "m_user m = rq_user rq"
    by (auto simp: own_def or_else_eq_Inr dest: find_Some_in)
  have saved: "db_members (snd (save_absence rq m a act sm d)) = put_row m_id (with_absence m a) (db_members d) \<and>
      db_tenants (snd (save_absence rq m a act sm d)) = db_tenants d" for a act sm
    by (simp add: save_absence_def Let_def frame_simps)
  show thesis
  proof (cases until)
    case None
    with both assms m have "d' = snd (save_absence rq m None ''out_of_office.ended''
        (ac_label (rq_actor rq) @ '' is back and no longer has a delegate.'') d)"
      by (simp add: set_out_of_office_def Let_def)
    with saved row None both show thesis by (intro that [of m None]) auto
  next
    case (Some u)
    with both obtain x where x: "dl = Some x" by auto
    with Some assms m obtain del where del: "delegate_for (rq_tenant rq) x m d = Inr del" "today_for (rq_tenant rq) d \<le> u"
      "d' = snd (save_absence rq m (Some (u, m_user del)) ''out_of_office.set''
        (ac_label (rq_actor rq) @ '' is away until '' @ isoformat u @ '' with '' @ m_user_name del @ '' as delegate.'') d)"
      by (auto simp: set_out_of_office_def Let_def ebind_eq_Inr ensure_eq_Inr)
    with delegate_for_Inr [OF del(1) row(2)] saved row Some x show thesis by (intro that [of m "Some (u, x)"]) auto
  qed
qed

section \<open>One absence saved\<close>

lemma saved_members:
  assumes "m \<in> set (db_members d)" and "db_members d' = put_row m_id (with_absence m a) (db_members d)"
  shows "x \<in> set (db_members d') \<longleftrightarrow> x = with_absence m a \<or> (x \<in> set (db_members d) \<and> m_id x \<noteq> m_id m)"
  using assms by (auto simp: in_set_put_row)

lemma able_delegate_kept:
  assumes ids: "distinct (map m_id (db_members d))" and m: "m \<in> set (db_members d)"
    and d': "db_members d' = put_row m_id (with_absence m a) (db_members d)" and able: "able_delegate d x dd"
  shows "able_delegate d' x dd"
proof -
  note members = saved_members [OF m d']
  from able obtain del where del: "del \<in> set (db_members d)" "m_tenant del = m_tenant x" "m_user del = dd" "dd \<noteq> m_user x"
    "active_member del" "\<forall>p\<in>set APPROVE_PERMISSIONS. holds_permission x p \<longrightarrow> holds_permission del p"
    by (auto simp: able_delegate_def)
  show ?thesis
  proof (cases "m_id del = m_id m")
    case True
    then have "del = m" using distinct_map_eq [OF ids del(1) m] by simp
    with del show ?thesis
      unfolding able_delegate_def by (intro bexI [of _ "with_absence m a"]) (simp_all add: members)
  next
    case False
    with del show ?thesis unfolding able_delegate_def by (intro bexI [of _ del]) (simp_all add: members)
  qed
qed

lemma good_absences_kept:
  assumes ids: "distinct (map m_id (db_members d))" and m: "m \<in> set (db_members d)"
    and d': "db_members d' = put_row m_id (with_absence m a) (db_members d)" and good: "good_absences d"
    and a: "\<And>u x. a = Some (u, x) \<Longrightarrow> able_delegate d m x"
  shows "good_absences d'"
  unfolding good_absences_def
proof
  fix x assume "x \<in> set (db_members d')"
  then consider "x = with_absence m a" | "x \<in> set (db_members d)" by (auto simp: saved_members [OF m d'])
  then show "(m_out_of_office_until x = None \<and> m_delegate x = None) \<or>
    (\<exists>u y. m_out_of_office_until x = Some u \<and> m_delegate x = Some y \<and> able_delegate d' x y)"
  proof cases
    case 1
    have "able_delegate d x y \<longleftrightarrow> able_delegate d m y" for y using 1 by (simp add: able_delegate_def)
    then show ?thesis using 1 a able_delegate_kept [OF ids m d'] by (cases a) auto
  next
    case 2
    then show ?thesis using good able_delegate_kept [OF ids m d'] by (auto simp: good_absences_def)
  qed
qed

lemma on_behalf_after:
  assumes ids: "distinct (map (\<lambda>m. (m_tenant m, m_user m)) (db_members d))" and m: "m \<in> set (db_members d)"
    and d': "db_members d' = put_row m_id (with_absence m a) (db_members d)"
    and a: "\<And>u x. a = Some (u, x) \<Longrightarrow> today_for (m_tenant m) d' \<le> u"
  shows "m_user m \<in> set (on_behalf_of (m_tenant m) del q None d') \<longleftrightarrow>
    map_option snd a = Some del \<and> m_deactivated_at m = None \<and> holds_permission m q"
proof -
  have only: "x \<in> set (db_members d') \<and> m_user x = m_user m \<and> m_tenant x = m_tenant m \<longleftrightarrow> x = with_absence m a" for x
  proof -
    have "x = m" if "x \<in> set (db_members d)" "m_user x = m_user m" "m_tenant x = m_tenant m"
      using distinct_map_eq [OF ids that(1) m] that by simp
    then show ?thesis using m saved_members [OF m d', of x] by auto
  qed
  have "m_user m \<in> set (on_behalf_of (m_tenant m) del q None d') \<longleftrightarrow> (\<exists>x. x \<in> set (db_members d') \<and> m_user x = m_user m \<and>
      m_tenant x = m_tenant m \<and> m_delegate x = Some del \<and> (\<exists>u. m_out_of_office_until x = Some u \<and> today_for (m_tenant m) d' \<le> u) \<and>
      m_deactivated_at x = None \<and> holds_permission x q)"
    unfolding on_behalf_of_iff by auto
  also have "\<dots> \<longleftrightarrow> m_delegate (with_absence m a) = Some del \<and>
      (\<exists>u. m_out_of_office_until (with_absence m a) = Some u \<and> today_for (m_tenant m) d' \<le> u) \<and>
      m_deactivated_at m = None \<and> holds_permission m q"
    using only by (metis with_absence_same(5,6))
  also have "\<dots> \<longleftrightarrow> map_option snd a = Some del \<and> m_deactivated_at m = None \<and> holds_permission m q"
    using a by (cases a) auto
  finally show ?thesis .
qed


text \<open>An approver goes away with a colleague who may sign off too.\<close>

definition ex_office :: db where
  "ex_office = ex_db\<lparr>db_members := [person 5 [''cases.signoff'', ''cases.read''], person 6 [''cases.signoff''], person 7 [''cases.read'']]\<rparr>"


end
