(* ===== verification/Escalation.thy ===== *)
theory Escalation
  imports Case_Routes
begin

text \<open>
  Escalation of overdue actions, \<^verbatim>\<open>backend/apps/collab/escalation.py\<close>, with the teams of the owners from
  \<^verbatim>\<open>collab/reminders.py\<close>: an open action overdue by the bank's threshold is brought, once, to its owner,
  the heads of the owner's departments and the holders of the bank's escalation role.  The bank's policy
  and its teams are read-only here and stand beside the database; the mails that follow a
  notification and the advisory lock are not modelled.
\<close>

record escalation_policy =
  ep_escalate_after_days :: nat
  ep_escalate_to_role :: string

record team_row =
  te_id :: uuid
  te_tenant :: uuid
  te_head :: "uuid option" \<comment> \<open>the head of its department, when it has one with a head\<close>

record organisation =
  og_teams :: "team_row list"
  og_team_members :: "(uuid \<times> uuid \<times> uuid) list" \<comment> \<open>tenant, team and person\<close>
  og_role_keys :: "(uuid \<times> string) list" \<comment> \<open>membership and role key\<close>

abbreviation "ESCALATED \<equiv> ''action.escalated''"

section \<open>Who is told\<close>

definition owner_teams :: "organisation \<Rightarrow> uuid \<Rightarrow> uuid \<Rightarrow> uuid list" where
  "owner_teams og tenant owner =
    map (\<lambda>(_, team, _). team) (filter (\<lambda>(t, _, u). t = tenant \<and> u = owner) (og_team_members og))"

definition team_heads :: "organisation \<Rightarrow> uuid \<Rightarrow> (uuid \<times> uuid) list" where
  "team_heads og tenant =
    map (\<lambda>t. (te_id t, the (te_head t))) (filter (\<lambda>t. te_tenant t = tenant \<and> te_head t \<noteq> None) (og_teams og))"

definition action_heads :: "organisation \<Rightarrow> uuid \<Rightarrow> uuid \<Rightarrow> uuid list" where
  "action_heads og tenant owner =
    sort (remdups (concat (map (\<lambda>team. case map_of (team_heads og tenant) team of None \<Rightarrow> [] | Some h \<Rightarrow> [h])
      (owner_teams og tenant owner))))"

definition role_holders :: "organisation \<Rightarrow> uuid \<Rightarrow> string \<Rightarrow> db \<Rightarrow> uuid list" where
  "role_holders og tenant role d =
    sort (remdups (map m_user (filter (\<lambda>m. m_tenant m = tenant \<and> active_member m \<and> (m_id m, role) \<in> set (og_role_keys og))
      (db_members d))))"

section \<open>Which actions\<close>

definition was_escalated :: "uuid \<Rightarrow> uuid \<Rightarrow> db \<Rightarrow> bool" where
  "was_escalated tenant action d \<longleftrightarrow> (\<exists>e\<in>set (db_audit d). au_tenant e = Some tenant \<and> au_action e = ESCALATED \<and>
    au_subject_type e = ''action'' \<and> au_subject_id e = Some action)"

definition to_escalate :: "uuid \<Rightarrow> escalation_policy \<Rightarrow> db \<Rightarrow> case_action list" where
  "to_escalate tenant ep d =
    sort_key a_id (filter (\<lambda>a. a_tenant a = tenant \<and> a_done_at a = None \<and> a_removed_at a = None \<and>
      a_due_date a \<le> today_for tenant d - int (ep_escalate_after_days ep) \<and> \<not> was_escalated tenant (a_id a) d) (db_actions d))"

section \<open>Escalating\<close>

definition action_title :: "case_action \<Rightarrow> db \<Rightarrow> string" where
  "action_title a d = (case find (\<lambda>c. c_id c = a_case a) (db_cases d) of None \<Rightarrow> [] | Some c \<Rightarrow> change_title d (c_change c))"

definition escalated_entry :: "uuid \<Rightarrow> escalation_policy \<Rightarrow> day \<Rightarrow> uuid list \<Rightarrow> notification list \<Rightarrow> case_action \<Rightarrow> db \<Rightarrow> audit_entry" where
  "escalated_entry tenant ep today heads rows a d =
    entry ESCALATED (system_actor ''collab escalation'') ''action'' (Some (a_id a)) (action_title a d)
      (''An action '' @ show_nat (nat (today - a_due_date a)) @ '' days overdue was escalated.'') (Some tenant) []
      [(''dueDate'', JDay (a_due_date a)), (''daysOverdue'', JInt (today - a_due_date a)),
       (''departmentHeadIds'', JList (map JId heads)), (''departmentHeadMissing'', JBool (heads = [])),
       (''escalateToRole'', JStr (ep_escalate_to_role ep)), (''recipientIds'', JList (map (\<lambda>n. JId (n_user n)) rows))]"

text \<open>The loop: notifications as it goes, the audit rows held until the block ends (\<^verbatim>\<open>@batched()\<close>).\<close>

fun escalate_all :: "organisation \<Rightarrow> uuid \<Rightarrow> escalation_policy \<Rightarrow> day \<Rightarrow> uuid list \<Rightarrow> case_action list \<Rightarrow> db \<Rightarrow>
    error + notification list \<times> audit_entry list \<times> db" where
  "escalate_all og tenant ep today holders [] d = Inr ([], [], d)"
| "escalate_all og tenant ep today holders (a # as) d =
    (let heads = action_heads og tenant (a_owner a);
         candidates = (a_owner a, ''owner'') # map (\<lambda>u. (u, ''department_head'')) heads @ map (\<lambda>u. (u, ''escalation_role'')) holders
     in ebind (notify tenant ESCALATION ''action'' (a_id a) candidates None d) (\<lambda>(d1, rows).
        ebind (escalate_all og tenant ep today holders as d1) (\<lambda>(more, entries, d2).
        Inr (rows @ more, escalated_entry tenant ep today heads rows a d # entries, d2))))"

definition escalate :: "organisation \<Rightarrow> uuid \<Rightarrow> escalation_policy \<Rightarrow> db \<Rightarrow> error + notification list \<times> db" where
  "escalate og tenant ep d =
    ebind (escalate_all og tenant ep (today_for tenant d) (role_holders og tenant (ep_escalate_to_role ep) d)
        (to_escalate tenant ep d) d) (\<lambda>(rows, entries, d1).
    Inr (rows, fold record_event entries d1))"

end
