(* ===== verification/Escalation_Theorems.thy ===== *)
theory Escalation_Theorems
  imports Notify_Theorems Escalation
begin

text \<open>An overdue action escalates exactly once: its audit row is the mark.\<close>

lemma escalate_all_Inr:
  assumes "escalate_all og t ep today holders as d = Inr (rows, entries, d')"
  shows "db_audit d' = db_audit d \<and> db_actions d' = db_actions d \<and> db_tenants d' = db_tenants d \<and>
    db_notifications d' = db_notifications d @ rows \<and> map r_subject_id entries = map (\<lambda>a. Some (a_id a)) as \<and>
    (\<forall>e\<in>set entries. r_action e = ESCALATED \<and> r_subject_type e = ''action'' \<and> r_tenant e = Some t)"
  using assms
proof (induction as arbitrary: d rows entries)
  case Nil
  then show ?case by simp
next
  case (Cons a as)
  then obtain d1 rows1 more es where n: "notify t ESCALATION ''action'' (a_id a) ((a_owner a, ''owner'') #
      map (\<lambda>u. (u, ''department_head'')) (action_heads og t (a_owner a)) @ map (\<lambda>u. (u, ''escalation_role'')) holders) None d = Inr (d1, rows1)"
    and rest: "escalate_all og t ep today holders as d1 = Inr (more, es, d')" and "rows = rows1 @ more"
    and "entries = escalated_entry t ep today (action_heads og t (a_owner a)) rows1 a d # es"
    by (auto simp: Let_def ebind_eq_Inr)
  with notify_frame [OF n] notify_rows [OF n] Cons.IH [OF rest] show ?case
    by (simp add: escalated_entry_def entry_def)
qed

lemma recorded_one:
  "\<exists>r. db_audit (record_event e d) = db_audit d @ [r] \<and> au_subject_id r = r_subject_id e \<and> au_action r = r_action e \<and>
    au_subject_type r = r_subject_type e \<and> au_tenant r = r_tenant e"
  by (simp add: record_event_def Let_def)

lemma recorded:
  "\<exists>marks. db_audit (fold record_event es d) = db_audit d @ marks \<and> map au_subject_id marks = map r_subject_id es \<and>
    map au_action marks = map r_action es \<and> map au_subject_type marks = map r_subject_type es \<and> map au_tenant marks = map r_tenant es"
proof (induction es arbitrary: d)
  case (Cons e es)
  obtain marks where marks: "db_audit (fold record_event es (record_event e d)) = db_audit (record_event e d) @ marks"
    "map au_subject_id marks = map r_subject_id es" "map au_action marks = map r_action es"
    "map au_subject_type marks = map r_subject_type es" "map au_tenant marks = map r_tenant es"
    using Cons.IH [of "record_event e d"] by blast
  obtain r where r: "db_audit (record_event e d) = db_audit d @ [r]" "au_subject_id r = r_subject_id e" "au_action r = r_action e"
    "au_subject_type r = r_subject_type e" "au_tenant r = r_tenant e"
    using recorded_one by blast
  show ?case using marks r by (intro exI [of _ "r # marks"]) simp
qed simp

lemma recorded_frame:
  "db_actions (fold record_event es d) = db_actions d" "db_tenants (fold record_event es d) = db_tenants d"
  "db_notifications (fold record_event es d) = db_notifications d"
  by (induction es arbitrary: d) (simp_all add: frame_simps)

lemma set_to_escalate: "a \<in> set (to_escalate t ep d) \<longleftrightarrow> a \<in> set (db_actions d) \<and> a_tenant a = t \<and> a_done_at a = None \<and>
    a_removed_at a = None \<and> a_due_date a \<le> today_for t d - int (ep_escalate_after_days ep) \<and> \<not> was_escalated t (a_id a) d"
  by (auto simp: to_escalate_def)

text \<open>What a run leaves: one mark per action it chose.\<close>

lemma escalate_Inr:
  assumes "escalate og t ep d = Inr (rows, d')"
  obtains marks where "db_audit d' = db_audit d @ marks" "map au_subject_id marks = map (\<lambda>a. Some (a_id a)) (to_escalate t ep d)"
    "\<forall>e\<in>set marks. au_action e = ESCALATED \<and> au_subject_type e = ''action'' \<and> au_tenant e = Some t"
    "db_actions d' = db_actions d" "db_tenants d' = db_tenants d" "db_notifications d' = db_notifications d @ rows"
proof -
  obtain entries d1 where run: "escalate_all og t ep (today_for t d) (role_holders og t (ep_escalate_to_role ep) d) (to_escalate t ep d) d =
      Inr (rows, entries, d1)" and d': "d' = fold record_event entries d1"
    using assms by (auto simp: escalate_def ebind_eq_Inr)
  note all = escalate_all_Inr [OF run]
  obtain marks where marks: "db_audit d' = db_audit d1 @ marks" "map au_subject_id marks = map r_subject_id entries"
    "map au_action marks = map r_action entries" "map au_subject_type marks = map r_subject_type entries"
    "map au_tenant marks = map r_tenant entries"
    using recorded [of entries d1] d' by blast
  have "au_action e = ESCALATED \<and> au_subject_type e = ''action'' \<and> au_tenant e = Some t" if "e \<in> set marks" for e
  proof -
    have "au_action e \<in> set (map r_action entries)" "au_subject_type e \<in> set (map r_subject_type entries)"
      "au_tenant e \<in> set (map r_tenant entries)"
      unfolding marks(3-5) [symmetric] using that by simp_all
    with all show ?thesis by auto
  qed
  with all marks show thesis by (intro that [of marks]) (simp_all add: d' recorded_frame)
qed

text \<open>An action escalates once: a run marks every open action of the bank overdue by its threshold with one audit
  row, the ones it chose and no others; no later run, whatever was recorded in between and whatever the
  policy then says, chooses one of them again; and a run straight after finds nothing to do.\<close>

theorem actions_escalate_once:
  assumes "escalate og t ep d = Inr (rows, d')"
  shows "(\<exists>marks. db_audit d' = db_audit d @ marks \<and> map au_subject_id marks = map (\<lambda>a. Some (a_id a)) (to_escalate t ep d)) \<and>
    (\<forall>a\<in>set (db_actions d). a_tenant a = t \<and> a_done_at a = None \<and> a_removed_at a = None \<and>
      a_due_date a \<le> today_for t d - int (ep_escalate_after_days ep) \<longrightarrow> was_escalated t (a_id a) d') \<and>
    (\<forall>later more ep'. db_audit later = db_audit d' @ more \<longrightarrow>
      a_id ` set (to_escalate t ep d) \<inter> a_id ` set (to_escalate t ep' later) = {}) \<and>
    escalate og t ep d' = Inr ([], d')"
proof -
  obtain marks where marks: "db_audit d' = db_audit d @ marks" "map au_subject_id marks = map (\<lambda>a. Some (a_id a)) (to_escalate t ep d)"
    "\<forall>e\<in>set marks. au_action e = ESCALATED \<and> au_subject_type e = ''action'' \<and> au_tenant e = Some t"
    and same: "db_actions d' = db_actions d" "db_tenants d' = db_tenants d"
    using escalate_Inr [OF assms] by metis
  have today: "today_for t d' = today_for t d" using same by (simp add: today_for_def)
  have marked: "was_escalated t (a_id a) later" if "a \<in> set (to_escalate t ep d)" "db_audit later = db_audit d' @ more" for a later more
  proof -
    have "Some (a_id a) \<in> set (map au_subject_id marks)" unfolding marks(2) using that(1) by auto
    then obtain e where "e \<in> set marks" "au_subject_id e = Some (a_id a)" by auto
    then show ?thesis using marks(1,3) that(2) by (auto simp: was_escalated_def)
  qed
  have overdue: "was_escalated t (a_id a) d'" if "a \<in> set (db_actions d)" "a_tenant a = t \<and> a_done_at a = None \<and> a_removed_at a = None \<and>
      a_due_date a \<le> today_for t d - int (ep_escalate_after_days ep)" for a
  proof (cases "was_escalated t (a_id a) d")
    case True
    then show ?thesis using marks(1) by (auto simp: was_escalated_def)
  next
    case False
    with that have "a \<in> set (to_escalate t ep d)" by (simp add: set_to_escalate)
    from marked [OF this, of d' "[]"] show ?thesis by simp
  qed
  have "to_escalate t ep d' = []"
  proof (rule ccontr)
    assume "to_escalate t ep d' \<noteq> []"
    then obtain a where "a \<in> set (to_escalate t ep d')" by (cases "to_escalate t ep d'") auto
    then show False using overdue by (auto simp: set_to_escalate same today)
  qed
  then have again: "escalate og t ep d' = Inr ([], d')" by (simp add: escalate_def)
  have never: "a_id ` set (to_escalate t ep d) \<inter> a_id ` set (to_escalate t ep' later) = {}"
    if "db_audit later = db_audit d' @ more" for later more ep'
    using marked [OF _ that] by (auto simp: set_to_escalate) metis
  have all: "\<forall>a\<in>set (db_actions d). a_tenant a = t \<and> a_done_at a = None \<and> a_removed_at a = None \<and>
      a_due_date a \<le> today_for t d - int (ep_escalate_after_days ep) \<longrightarrow> was_escalated t (a_id a) d'"
    using overdue by simp
  show ?thesis
    by (intro conjI all again exI [of _ marks] marks(1,2) allI impI never)
qed

text \<open>One overdue action, whose owner is in a team whose department has a head.\<close>

definition ex_organisation :: organisation where
  "ex_organisation = \<lparr>og_teams = [\<lparr>te_id = 1, te_tenant = 1, te_head = Some 4\<rparr>], og_team_members = [(1, 1, 2)],
     og_role_keys = [(3, ''compliance'')]\<rparr>"

definition ex_policy :: escalation_policy where
  "ex_policy = \<lparr>ep_escalate_after_days = 2, ep_escalate_to_role = ''compliance''\<rparr>"

definition ex_overdue :: db where
  "ex_overdue = ex_db\<lparr>db_cases := [ex_case], db_actions := [\<lparr>a_id = 39, a_tenant = 1, a_case = 20, a_title = ''do it'', a_owner = 2,
     a_due_date = - 3, a_done_at = None, a_done_by = None, a_created_by = 2, a_created_at = 5, a_removed_at = None,
     a_removed_by = None, a_version = 1\<rparr>]\<rparr>"

lemma ex_escalated: "map_sum id (\<lambda>(rows, d). (map n_user rows, length (db_audit d))) (escalate ex_organisation 1 ex_policy ex_overdue) =
    Inr ([2, 3, 4], 1)"
  by code_simp

lemma told: "map_sum id (\<lambda>(rows, d). (f rows, g d)) h = Inr (x, n) \<Longrightarrow> \<exists>rows d. h = Inr (rows, d) \<and> f rows = x"
  by (cases h) auto

theorem actions_escalate_once_witness:
  "\<exists>rows d'. escalate ex_organisation 1 ex_policy ex_overdue = Inr (rows, d') \<and> map n_user rows = [2, 3, 4] \<and>
    escalate ex_organisation 1 ex_policy d' = Inr ([], d')"
proof -
  obtain rows d' where *: "escalate ex_organisation 1 ex_policy ex_overdue = Inr (rows, d')" "map n_user rows = [2, 3, 4]"
    using told [OF ex_escalated] by (elim exE conjE) (rule that)
  moreover have "escalate ex_organisation 1 ex_policy d' = Inr ([], d')"
    using actions_escalate_once [OF *(1)] by (elim conjE)
  ultimately show ?thesis by (intro exI conjI)
qed

end
