(* ===== verification/Retag_Store.thy ===== *)
theory Retag_Store
  imports Case_Routes "HOL-Library.AList" "HOL-Library.Product_Lexorder" "HOL-Library.List_Lexorder" "HOL-Library.Char_ord"
begin

text \<open>
  What a batch of proposed re-tags reads and writes: the proposals and their rows
  (\<^verbatim>\<open>backend/apps/proposals/models.py\<close>), the obligations of the shared library with their scope terms
  (\<^verbatim>\<open>library/models.py\<close>, \<^verbatim>\<open>library/reading.py\<close>), the runs of the agents (\<^verbatim>\<open>agents/runs.py\<close>), the standards
  check (\<^verbatim>\<open>proposals/standards.py\<close>) and the rule on mirrored dimensions (\<^verbatim>\<open>taxonomy/terms_logic.py\<close>).
  Clock, keys, vocabulary, taxonomy, audit and outbox are those of \<open>db\<close>.
\<close>

section \<open>Rows\<close>

record instrument_row =
  in_id :: uuid
  in_official_ref :: string
  in_level_kind :: string

record library_obligation =
  ro_id :: uuid
  ro_key :: string
  ro_owner :: "uuid option"
  ro_active :: bool
  ro_instrument :: uuid

datatype run_status = RUNNING | SUCCEEDED | FAILED | INTERRUPTED

record agent_run =
  ru_id :: uuid
  ru_api_key :: "uuid option"
  ru_status :: run_status
  ru_requested_by :: "uuid option"

text \<open>\<^verbatim>\<open>ObligationScopeChange\<close> and the payload of a proposal; the payloads of other kinds are not read here.\<close>

record scope_change =
  sc_obligation :: uuid
  sc_add :: "string list"
  sc_remove :: "string list"
  sc_source :: string

datatype payload = Scope_payload "scope_change list" | Other_payload jval

datatype proposal_status = P_OPEN | P_APPROVED | P_REJECTED | P_SUPERSEDED

fun proposal_status_value :: "proposal_status \<Rightarrow> string" where
  "proposal_status_value P_OPEN = ''open''"
| "proposal_status_value P_APPROVED = ''approved''"
| "proposal_status_value P_REJECTED = ''rejected''"
| "proposal_status_value P_SUPERSEDED = ''superseded''"

datatype origin_type = FROM_AGENT | FROM_USER

fun origin_value :: "origin_type \<Rightarrow> string" where
  "origin_value FROM_AGENT = ''agent''"
| "origin_value FROM_USER = ''user''"

record proposal =
  pp_id :: uuid
  pp_kind :: string
  pp_title :: string
  pp_payload :: payload
  pp_corrected :: "payload option"
  pp_model :: string
  pp_source_label :: string
  pp_source_url :: string
  pp_risk_flags :: "string list"
  pp_origin :: origin_type
  pp_agent_run :: "uuid option"
  pp_user :: "uuid option" \<comment> \<open>proposed by\<close>
  pp_api_key :: "uuid option"
  pp_agent :: "uuid option"
  pp_retry_key :: "string option"
  pp_owner :: "uuid option" \<comment> \<open>the bank whose own record it proposes\<close>
  pp_status :: proposal_status
  pp_reviewed_by :: "uuid option"
  pp_reviewed_key :: "uuid option"
  pp_reviewed_agent :: "uuid option"
  pp_reviewed_at :: "instant option"
  pp_rejection_code :: string
  pp_review_note :: string
  pp_applied_at :: "instant option"
  pp_is_batch :: bool
  pp_row_count :: nat
  pp_created_at :: instant

datatype row_decision = ROW_PENDING | ROW_APPROVED | ROW_REJECTED

fun row_decision_value :: "row_decision \<Rightarrow> string" where
  "row_decision_value ROW_PENDING = ''pending''"
| "row_decision_value ROW_APPROVED = ''approved''"
| "row_decision_value ROW_REJECTED = ''rejected''"

record batch_row =
  br_id :: uuid
  br_proposal :: uuid
  br_subject_type :: string
  br_subject :: uuid
  br_before :: "string list"
  br_after :: "string list"
  br_decision :: row_decision
  br_reason :: "uuid option"
  br_decided_by :: "uuid option"
  br_decided_at :: "instant option"
  br_created_at :: instant

text \<open>The database with these tables.  \<open>lb_active_terms\<close> is the \<^verbatim>\<open>active\<close> column of the taxonomy's terms,
  \<open>lb_scope\<close> the \<^verbatim>\<open>obligation_term\<close> table, \<open>lb_reindexed\<close> the obligations whose search index was rebuilt.\<close>

record library =
  lb_db :: db
  lb_active_terms :: "uuid list"
  lb_instruments :: "instrument_row list"
  lb_obligations :: "library_obligation list"
  lb_scope :: "(uuid \<times> uuid) list"
  lb_provision_keys :: "string list"
  lb_runs :: "agent_run list"
  lb_proposals :: "proposal list"
  lb_rows :: "batch_row list"
  lb_reindexed :: "uuid list"

interpretation proposal_tbl: keyed_table lb_proposals "\<lambda>rs. lb_proposals_update (\<lambda>_. rs)" pp_id
  by unfold_locales simp

interpretation batch_row_tbl: keyed_table lb_rows "\<lambda>rs. lb_rows_update (\<lambda>_. rs)" br_id
  by unfold_locales simp

definition lb_record :: "audit_entry \<Rightarrow> library \<Rightarrow> library" where
  "lb_record e s = s\<lparr>lb_db := record_event e (lb_db s)\<rparr>"

text \<open>Row-level security: the rows of the shared library and those of the session's own bank.\<close>

definition visible :: "uuid option \<Rightarrow> uuid option \<Rightarrow> bool" where
  "visible zone owner \<longleftrightarrow> owner = None \<or> owner = zone"

section \<open>Constraints (proposals/models.py, migrations 0003 and 0008)\<close>

definition proposal_four_eyes :: "proposal \<Rightarrow> bool" where
  "proposal_four_eyes p \<longleftrightarrow>
    (pp_reviewed_by p = None \<or> pp_user p = None \<or> pp_reviewed_by p \<noteq> pp_user p) \<and>
    (pp_reviewed_key p = None \<or> pp_api_key p = None \<or> pp_reviewed_key p \<noteq> pp_api_key p) \<and>
    (pp_reviewed_agent p = None \<or> pp_agent p = None \<or> pp_reviewed_agent p \<noteq> pp_agent p) \<and>
    (pp_reviewed_key p = None \<or> pp_reviewed_agent p \<noteq> None)"

definition proposal_checks :: "proposal \<Rightarrow> bool" where
  "proposal_checks p \<longleftrightarrow>
    ((pp_is_batch p \<and> 0 < pp_row_count p) \<or> (\<not> pp_is_batch p \<and> pp_row_count p = 0)) \<and> proposal_four_eyes p"

text \<open>One proposal per retry key of a person and of an API key, whoever may see it.\<close>

definition retry_key_taken :: "proposal \<Rightarrow> library \<Rightarrow> bool" where
  "retry_key_taken p s \<longleftrightarrow> pp_retry_key p \<noteq> None \<and> (\<exists>q\<in>set (lb_proposals s). pp_retry_key q = pp_retry_key p \<and>
    ((pp_user p \<noteq> None \<and> pp_user q = pp_user p) \<or> (pp_api_key p \<noteq> None \<and> pp_api_key q = pp_api_key p)))"

definition insert_proposal :: "proposal \<Rightarrow> library \<Rightarrow> error + library" where
  "insert_proposal p s =
    (if retry_key_taken p s \<or> \<not> proposal_checks p then Inl Integrity_error
     else Inr (s\<lparr>lb_proposals := lb_proposals s @ [p]\<rparr>))"

definition save_proposal :: "proposal \<Rightarrow> library \<Rightarrow> error + library" where
  "save_proposal p s =
    (if proposal_checks p then Inr (s\<lparr>lb_proposals := put_row pp_id p (lb_proposals s)\<rparr>) else Inl Integrity_error)"

definition row_checks :: "batch_row \<Rightarrow> bool" where
  "row_checks r \<longleftrightarrow>
    (br_decision r = ROW_PENDING \<and> br_decided_at r = None \<and> br_decided_by r = None \<and> br_reason r = None) \<or>
    (br_decision r = ROW_APPROVED \<and> br_decided_at r \<noteq> None \<and> br_reason r = None) \<or>
    (br_decision r = ROW_REJECTED \<and> br_decided_at r \<noteq> None \<and> br_reason r \<noteq> None)"

text \<open>The trigger \<^verbatim>\<open>proposal_batch_row_decision_guard\<close>: one decision, never the proposer's.\<close>

definition row_guard :: "batch_row \<Rightarrow> batch_row \<Rightarrow> library \<Rightarrow> bool" where
  "row_guard old new s \<longleftrightarrow>
    (br_id new, br_proposal new, br_subject_type new, br_subject new) =
      (br_id old, br_proposal old, br_subject_type old, br_subject old) \<and>
    (br_before new, br_after new, br_created_at new) = (br_before old, br_after old, br_created_at old) \<and>
    br_decision old = ROW_PENDING \<and> br_decision new \<noteq> ROW_PENDING \<and>
    \<not> (br_decided_by new \<noteq> None \<and>
      (\<exists>p\<in>set (lb_proposals s). pp_id p = br_proposal new \<and> pp_user p = br_decided_by new))"

text \<open>\<^verbatim>\<open>ProposalBatchRowQuerySet.decide\<close>: one UPDATE of the pending rows among these, refused whole when one
  of them is decided.\<close>

definition decided_as :: "row_decision \<Rightarrow> uuid option \<Rightarrow> uuid option \<Rightarrow> instant \<Rightarrow> batch_row \<Rightarrow> batch_row" where
  "decided_as dec reason by at r = r\<lparr>br_decision := dec, br_reason := reason, br_decided_by := by, br_decided_at := Some at\<rparr>"

definition decide_rows ::
    "uuid list \<Rightarrow> row_decision \<Rightarrow> uuid option \<Rightarrow> uuid option \<Rightarrow> instant \<Rightarrow> library \<Rightarrow> error + library" where
  "decide_rows ids dec reason by at s =
    (let hit = (\<lambda>r. br_id r \<in> set ids \<and> br_decision r = ROW_PENDING);
         upd = decided_as dec reason by at;
         touched = filter hit (lb_rows s) in
     if \<not> list_all (\<lambda>r. row_guard r (upd r) s \<and> row_checks (upd r)) touched then Inl Integrity_error
     else if length touched \<noteq> length (remdups ids) then Inl Server_error
     else Inr (s\<lparr>lb_rows := map (\<lambda>r. if hit r then upd r else r) (lb_rows s)\<rparr>))"

section \<open>Reading the library (library/reading.py)\<close>

definition ref_of :: "taxonomy \<Rightarrow> taxonomy_term \<Rightarrow> string option" where
  "ref_of x t = map_option (\<lambda>d. dm_key d @ '':'' @ tm_key t) (dimension_of x t)"

text \<open>\<^verbatim>\<open>ref.partition(":")\<close> against the keys of an active term of an active dimension.\<close>

definition named_by :: "library \<Rightarrow> string \<Rightarrow> taxonomy_term \<Rightarrow> bool" where
  "named_by s ref t \<longleftrightarrow> tm_id t \<in> set (lb_active_terms s) \<and>
    (case dimension_of (db_taxonomy (lb_db s)) t of
       None \<Rightarrow> False
     | Some d \<Rightarrow> dm_active d \<and> dm_key d = takeWhile (\<lambda>c. c \<noteq> CHR '':'') ref \<and>
         tm_key t = tl (dropWhile (\<lambda>c. c \<noteq> CHR '':'') ref))"

definition terms_of :: "string list \<Rightarrow> library \<Rightarrow> error + taxonomy_term list" where
  "terms_of refs s =
    (if \<exists>r\<in>set refs. CHR '':'' \<notin> set r then Inl (Validation ''validation_error'')
     else let found = filter (\<lambda>t. \<exists>r\<in>set refs. named_by s r t) (tx_terms (db_taxonomy (lb_db s))) in
       if \<exists>r\<in>set refs. \<forall>t\<in>set found. ref_of (db_taxonomy (lb_db s)) t \<noteq> Some r
       then Inl (Validation ''unknown_key'') else Inr found)"

text \<open>A dictionary from the spelling \<^verbatim>\<open>dimension:key\<close> to the term's id.\<close>

definition by_ref :: "taxonomy \<Rightarrow> taxonomy_term list \<Rightarrow> (string \<times> uuid) list" where
  "by_ref x ts = concat (map (\<lambda>t. case ref_of x t of None \<Rightarrow> [] | Some r \<Rightarrow> [(r, tm_id t)]) ts)"

definition obligation_scope_terms :: "uuid \<Rightarrow> library \<Rightarrow> (string \<times> uuid) list" where
  "obligation_scope_terms ob s =
    by_ref (db_taxonomy (lb_db s)) (concat (map (\<lambda>(o', t).
      if o' = ob then (case term_of (db_taxonomy (lb_db s)) t of None \<Rightarrow> [] | Some tm \<Rightarrow> [tm]) else []) (lb_scope s)))"

text \<open>\<^verbatim>\<open>sorted(scope)\<close>: the keys of the dictionary, in order.\<close>

definition scope_refs :: "uuid \<Rightarrow> library \<Rightarrow> string list" where
  "scope_refs ob s = sort (remdups (map fst (obligation_scope_terms ob s)))"

definition active_shared_obligation :: "uuid \<Rightarrow> library \<Rightarrow> library_obligation option" where
  "active_shared_obligation i s = find (\<lambda>o'. ro_id o' = i \<and> ro_owner o' = None \<and> ro_active o') (lb_obligations s)"

definition instrument_of :: "library_obligation \<Rightarrow> library \<Rightarrow> error + instrument_row" where
  "instrument_of o' s = or_else (find (\<lambda>i. in_id i = ro_instrument o') (lb_instruments s)) Server_error"

definition unknown_provision_keys :: "string list \<Rightarrow> library \<Rightarrow> string list" where
  "unknown_provision_keys keys s = filter (\<lambda>k. k \<notin> set (lb_provision_keys s)) keys"

section \<open>Mirrored dimensions (taxonomy/terms_logic.py)\<close>

definition mirrored_dimensions :: "uuid list \<Rightarrow> library \<Rightarrow> uuid list" where
  "mirrored_dimensions wanted s =
    remdups (map tm_dimension (filter (\<lambda>t. tm_dimension t \<in> set wanted \<and> tm_jurisdiction t \<noteq> None)
      (tx_terms (db_taxonomy (lb_db s)))))"

definition refuse_mirrored :: "uuid list \<Rightarrow> library \<Rightarrow> error + unit" where
  "refuse_mirrored dims s = ensure (mirrored_dimensions dims s = []) (Validation ''jurisdiction_term_mirrored'')"

section \<open>The standards check (proposals/standards.py)\<close>

abbreviation "NEW_OBLIGATION \<equiv> ''new_obligation''"
abbreviation "OBLIGATION_SCOPE \<equiv> ''obligation_scope''"

definition PROVISION_KINDS :: "string list" where
  "PROVISION_KINDS = [''new_provision'', ''new_provision_version'']"

definition OBLIGATION_KINDS :: "string list" where
  "OBLIGATION_KINDS = [NEW_OBLIGATION, ''new_obligation_version'', OBLIGATION_SCOPE]"

definition opt_in_terms :: "uuid list \<Rightarrow> library \<Rightarrow> uuid list" where
  "opt_in_terms ids s = map tm_id (filter (\<lambda>t. tm_id t \<in> set ids \<and>
     (case dimension_of (db_taxonomy (lb_db s)) t of None \<Rightarrow> False | Some d \<Rightarrow> dm_kind d = OPT_IN))
     (tx_terms (db_taxonomy (lb_db s))))"

definition opt_in_count :: "uuid list option \<Rightarrow> uuid list option \<Rightarrow> library \<Rightarrow> nat" where
  "opt_in_count term_ids opt_in s =
    (case term_ids of None \<Rightarrow> 0
     | Some ids \<Rightarrow> if ids = [] then 0 else
         length (remdups (filter (\<lambda>i. i \<in> set (case opt_in of None \<Rightarrow> opt_in_terms ids s | Some os \<Rightarrow> os)) ids)))"

definition standards_check ::
    "(string \<Rightarrow> bool) \<Rightarrow> uuid option \<Rightarrow> string \<Rightarrow> instrument_row \<Rightarrow> uuid list option \<Rightarrow> (string \<times> string) list \<Rightarrow>
     string option \<Rightarrow> string \<Rightarrow> uuid list option \<Rightarrow> library \<Rightarrow> error + unit" where
  "standards_check is_link zone kind instr term_ids field_sources ref_label source_label opt_in s =
    (let n = opt_in_count term_ids opt_in s in
     if in_level_kind instr \<noteq> ''standard''
     then ensure (n = 0) (Validation ''standard_term_only_on_standards'')
     else
       ebind (ensure (kind \<notin> set PROVISION_KINDS) (Validation ''licensed_text'')) (\<lambda>_.
       ebind (ensure (list_all (\<lambda>(_, source). is_link source) field_sources) (Validation ''licensed_text'')) (\<lambda>_.
       ebind (ensure (case ref_label of None \<Rightarrow> True | Some l \<Rightarrow> strip l = in_official_ref instr)
         (Validation ''licensed_text'')) (\<lambda>_.
       ebind (ensure (\<not> (kind = NEW_OBLIGATION \<and> (\<exists>o'\<in>set (lb_obligations s).
           ro_instrument o' = in_id instr \<and> ro_active o' \<and> visible zone (ro_owner o'))))
         (Validation ''one_conformance_obligation'')) (\<lambda>_.
       ebind (ensure (\<not> (kind \<in> set OBLIGATION_KINDS \<and> term_ids \<noteq> None \<and> n \<noteq> 1))
         (Validation ''standard_term_required'')) (\<lambda>_.
       ensure (strip source_label \<in> {[], in_official_ref instr}) (Validation ''licensed_text'')))))))"

section \<open>Agent runs (agents/runs.py)\<close>

definition refuse_person_run :: "uuid option \<Rightarrow> uuid option \<Rightarrow> error + unit" where
  "refuse_person_run person run_id = ensure (\<not> (person \<noteq> None \<and> run_id \<noteq> None)) not_found"

definition own_run :: "uuid option \<Rightarrow> uuid \<Rightarrow> library \<Rightarrow> error + agent_run" where
  "own_run api_key run_id s = or_else (find (\<lambda>r. ru_id r = run_id \<and> ru_api_key r = api_key) (lb_runs s)) not_found"

definition require_open_run_of_key :: "uuid option \<Rightarrow> uuid option \<Rightarrow> library \<Rightarrow> error + agent_run" where
  "require_open_run_of_key api_key run_id s =
    ebind (or_else run_id (Validation ''run_not_open'')) (\<lambda>i.
    ebind (own_run api_key i s) (\<lambda>run.
    ebind (ensure (ru_status run = RUNNING) (Validation ''run_not_open'')) (\<lambda>_. Inr run)))"

text \<open>One more proposal under the run, read again under its lock.\<close>

definition spend :: "agent_run \<Rightarrow> nat \<Rightarrow> library \<Rightarrow> error + unit" where
  "spend run limit s =
    ebind (ensure (map_option ru_status (find (\<lambda>r. ru_id r = ru_id run) (lb_runs s)) = Some RUNNING)
      (Validation ''run_not_open'')) (\<lambda>_.
    ensure (count_rows (\<lambda>p. pp_agent_run p = Some (ru_id run)) (lb_proposals s) < limit)
      (Validation ''run_budget_exhausted''))"

end
