(* ===== verification/Retag.thy ===== *)
theory Retag
  imports Retag_Store
begin

text \<open>
  Batch proposals, \<^verbatim>\<open>backend/apps/proposals/batch.py\<close>: one request that re-tags many obligations of the
  shared library, filed as one proposal with a previewed row per obligation, and decided row by row by a
  second person.  Approved rows are written by \<open>obligation_scope\<close> of \<^verbatim>\<open>proposals/apply.py\<close>.  The link validator
  is Django's and an argument, as are the settings; so is the content screen of \<^verbatim>\<open>agents/screen.py\<close>, whose
  flags a batch stores and never reads.
\<close>

record retag_settings =
  bs_is_link :: "string \<Rightarrow> bool"
  bs_screen :: "string \<Rightarrow> string list"
  bs_batch_max_rows :: nat
  bs_run_max_proposals :: nat

definition IDEMPOTENCY_KEY_MAX_CHARS :: nat where
  "IDEMPOTENCY_KEY_MAX_CHARS = 200"

definition BATCH_KINDS :: "string list" where
  "BATCH_KINDS = [OBLIGATION_SCOPE]"

abbreviation "OBLIGATION_TARGET \<equiv> ''obligation''"
abbreviation "PROPOSAL_SUBJECT \<equiv> ''proposal''"

text \<open>Who proposes: a person, or an API key with the agent it is bound to.\<close>

record proposer =
  pr_actor :: actor_ref
  pr_user :: "uuid option"
  pr_api_key :: "uuid option"
  pr_agent :: "uuid option"

definition origin_of :: "proposer \<Rightarrow> origin_type" where
  "origin_of pr = (if pr_user pr \<noteq> None then FROM_USER else FROM_AGENT)"

section \<open>Filing\<close>

text \<open>\<^verbatim>\<open>list(dict.fromkeys(xs))\<close>: each element where it first came.\<close>

definition fromkeys :: "'a list \<Rightarrow> 'a list" where
  "fromkeys xs = rev (remdups (rev xs))"

fun normalized_changes :: "uuid list \<Rightarrow> scope_change list \<Rightarrow> error + scope_change list" where
  "normalized_changes seen [] = Inr []"
| "normalized_changes seen (c # cs) =
    ebind (ensure (sc_obligation c \<notin> set seen) (Validation ''validation_error'')) (\<lambda>_.
    let source = strip (sc_source c); added = fromkeys (sc_add c); removed = fromkeys (sc_remove c) in
    ebind (ensure (source \<noteq> []) (Validation ''source_missing'')) (\<lambda>_.
    ebind (ensure (set added \<inter> set removed = {}) (Validation ''validation_error'')) (\<lambda>_.
    ebind (normalized_changes (sc_obligation c # seen) cs) (\<lambda>rest.
    Inr (c\<lparr>sc_add := added, sc_remove := removed, sc_source := source\<rparr> # rest)))))"

definition normalized :: "retag_settings \<Rightarrow> scope_change list \<Rightarrow> error + scope_change list" where
  "normalized bs changes =
    ebind (ensure (length changes \<le> bs_batch_max_rows bs) (Validation ''batch_too_large'')) (\<lambda>_.
    normalized_changes [] changes)"

text \<open>\<^verbatim>\<open>after.update({ref: term_ids[ref] for ref in change.add})\<close>\<close>

fun with_terms :: "(string \<times> uuid) list \<Rightarrow> string list \<Rightarrow> (string \<times> uuid) list \<Rightarrow> error + (string \<times> uuid) list" where
  "with_terms term_ids [] after = Inr after"
| "with_terms term_ids (r # rs) after =
    ebind (or_else (map_of term_ids r) Server_error) (\<lambda>i. with_terms term_ids rs (AList.update r i after))"

definition scope_after :: "(string \<times> uuid) list \<Rightarrow> scope_change \<Rightarrow> library \<Rightarrow> error + (string \<times> uuid) list" where
  "scope_after term_ids c s =
    with_terms term_ids (sc_add c)
      (filter (\<lambda>(r, _). r \<notin> set (sc_remove c)) (obligation_scope_terms (sc_obligation c) s))"

text \<open>The rows of the entries that change something, as subject, before and after; and the entries that do
  not.\<close>

fun preview_rows ::
    "retag_settings \<Rightarrow> uuid option \<Rightarrow> (string \<times> uuid) list \<Rightarrow> string \<Rightarrow> library \<Rightarrow> scope_change list \<Rightarrow>
     error + (uuid \<times> string list \<times> string list) list \<times> uuid list" where
  "preview_rows bs zone term_ids source_label s [] = Inr ([], [])"
| "preview_rows bs zone term_ids source_label s (c # cs) =
    (let before = scope_refs (sc_obligation c) s in
     ebind (scope_after term_ids c s) (\<lambda>after.
     if set (map fst after) = set before
     then ebind (preview_rows bs zone term_ids source_label s cs) (\<lambda>(rows, same). Inr (rows, sc_obligation c # same))
     else
       ebind (or_else (active_shared_obligation (sc_obligation c) s) Server_error) (\<lambda>o'.
       ebind (instrument_of o' s) (\<lambda>instr.
       ebind (standards_check (bs_is_link bs) zone OBLIGATION_SCOPE instr (Some (map snd after))
         [(''terms'', sc_source c)] None source_label None s) (\<lambda>_.
       ebind (preview_rows bs zone term_ids source_label s cs) (\<lambda>(rows, same).
       Inr ((sc_obligation c, before, sort (remdups (map fst after))) # rows, same)))))))"

definition preview ::
    "retag_settings \<Rightarrow> uuid option \<Rightarrow> scope_change list \<Rightarrow> string \<Rightarrow> library \<Rightarrow>
     error + (uuid \<times> string list \<times> string list) list" where
  "preview bs zone changes source_label s =
    ebind (ensure (list_all (\<lambda>c. active_shared_obligation (sc_obligation c) s \<noteq> None) changes)
      (Validation ''unknown_key'')) (\<lambda>_.
    let refs = sort (remdups (concat (map (\<lambda>c. sc_add c @ sc_remove c) changes))) in
    ebind (if refs = [] then Inr [] else terms_of refs s) (\<lambda>terms.
    ebind (refuse_mirrored (map tm_dimension terms) s) (\<lambda>_.
    ebind (preview_rows bs zone (by_ref (db_taxonomy (lb_db s)) terms) source_label s changes) (\<lambda>(rows, same).
    ebind (ensure (same = []) (Validation ''validation_error'')) (\<lambda>_.
    ebind (ensure (unknown_provision_keys (filter (\<lambda>x. \<not> bs_is_link bs x) (map sc_source changes)) s = [])
      (Validation ''validation_error'')) (\<lambda>_.
    Inr rows))))))"

record batch_input =
  bi_kind :: string
  bi_title :: string
  bi_changes :: "scope_change list"
  bi_agent_run :: "uuid option"
  bi_retry_key :: "string option"
  bi_model :: string
  bi_source_label :: string
  bi_source_url :: string

definition screen_all :: "(string \<Rightarrow> string list) \<Rightarrow> string list \<Rightarrow> string list" where
  "screen_all screen texts = sort (remdups (concat (map screen texts)))"

text \<open>\<^verbatim>\<open>Proposal.objects.filter(own, idempotency_key=...)\<close>, oldest first, as the session may see it.\<close>

definition already_filed :: "uuid option \<Rightarrow> proposer \<Rightarrow> string \<Rightarrow> library \<Rightarrow> proposal option" where
  "already_filed zone pr k s =
    find (\<lambda>p. visible zone (pp_owner p) \<and> pp_retry_key p = Some k \<and>
      (if pr_user pr \<noteq> None then pp_user p = pr_user pr else pp_api_key p = pr_api_key pr)) (lb_proposals s)"

definition batch_proposal ::
    "batch_input \<Rightarrow> proposer \<Rightarrow> string list \<Rightarrow> scope_change list \<Rightarrow> nat \<Rightarrow> library \<Rightarrow> proposal" where
  "batch_proposal b pr flags stored n s =
    \<lparr>pp_id = db_next (lb_db s), pp_kind = bi_kind b, pp_title = strip (bi_title b), pp_payload = Scope_payload stored,
     pp_corrected = None, pp_model = bi_model b, pp_source_label = strip (bi_source_label b),
     pp_source_url = strip (bi_source_url b), pp_risk_flags = flags, pp_origin = origin_of pr, pp_agent_run = bi_agent_run b,
     pp_user = pr_user pr, pp_api_key = pr_api_key pr, pp_agent = pr_agent pr,
     pp_retry_key = (if bi_retry_key b = Some [] then None else bi_retry_key b), pp_owner = None, pp_status = P_OPEN,
     pp_reviewed_by = None, pp_reviewed_key = None, pp_reviewed_agent = None, pp_reviewed_at = None,
     pp_rejection_code = [], pp_review_note = [], pp_applied_at = None, pp_is_batch = True, pp_row_count = n,
     pp_created_at = db_now (lb_db s)\<rparr>"

definition pending_row :: "uuid \<Rightarrow> uuid \<Rightarrow> instant \<Rightarrow> uuid \<times> string list \<times> string list \<Rightarrow> batch_row" where
  "pending_row i p now row = (case row of (ob, before, after) \<Rightarrow>
    \<lparr>br_id = i, br_proposal = p, br_subject_type = OBLIGATION_TARGET, br_subject = ob, br_before = before, br_after = after,
     br_decision = ROW_PENDING, br_reason = None, br_decided_by = None, br_decided_at = None, br_created_at = now\<rparr>)"

definition replayed_entry :: "proposer \<Rightarrow> proposal \<Rightarrow> string \<Rightarrow> audit_entry" where
  "replayed_entry pr p k = entry ''proposal.replayed'' (pr_actor pr) PROPOSAL_SUBJECT (Some (pp_id p)) (pp_title p)
     ''A retried submission answered the batch it already made.'' None [] [(''idempotencyKey'', JStr k)]"

definition created_entry :: "proposer \<Rightarrow> proposal \<Rightarrow> uuid list \<Rightarrow> audit_entry" where
  "created_entry pr p subjects = entry ''proposal.created'' (pr_actor pr) PROPOSAL_SUBJECT (Some (pp_id p)) (pp_title p)
     (''Proposed a batch of '' @ show_nat (pp_row_count p) @ '': '' @ pp_title p) None []
     ([(''kind'', JStr (pp_kind p)), (''origin'', JStr (origin_value (pp_origin p))), (''isBatch'', JBool True),
       (''rowCount'', JInt (int (pp_row_count p))), (''subjectIds'', JList (map JId subjects))] @
      (if pp_risk_flags p = [] then [] else [(''riskFlags'', JList (map JStr (pp_risk_flags p)))]))"

definition file_batch ::
    "batch_input \<Rightarrow> proposer \<Rightarrow> string list \<Rightarrow> scope_change list \<Rightarrow> (uuid \<times> string list \<times> string list) list \<Rightarrow>
     library \<Rightarrow> error + proposal \<times> library" where
  "file_batch b pr flags stored rows s =
    (let p = batch_proposal b pr flags stored (length rows) s;
         new = map (\<lambda>(i, row). pending_row (Suc (pp_id p) + i) (pp_id p) (db_now (lb_db s)) row) (enumerate 0 rows) in
     ebind (insert_proposal p (s\<lparr>lb_db := (lb_db s)\<lparr>db_next := Suc (pp_id p) + length rows\<rparr>\<rparr>)) (\<lambda>s1.
     Inr (p, lb_record (created_entry pr p (map fst rows)) (s1\<lparr>lb_rows := lb_rows s1 @ new\<rparr>))))"

definition batch_run :: "proposer \<Rightarrow> uuid option \<Rightarrow> library \<Rightarrow> error + agent_run option" where
  "batch_run pr run_id s =
    (if pr_api_key pr \<noteq> None \<or> run_id \<noteq> None
     then ebind (require_open_run_of_key (pr_api_key pr) run_id s) (\<lambda>run. Inr (Some run)) else Inr None)"

text \<open>The body of a request before the library is read, in the order it is checked.\<close>

definition batch_checked :: "retag_settings \<Rightarrow> uuid option \<Rightarrow> batch_input \<Rightarrow> proposer \<Rightarrow> library \<Rightarrow>
    error + agent_run option \<times> scope_change list" where
  "batch_checked bs zone b pr s =
    ebind (ensure (zone = None) (Problem 403 ''permission_denied'')) (\<lambda>_.
    ebind (refuse_person_run (pr_user pr) (bi_agent_run b)) (\<lambda>_.
    ebind (batch_run pr (bi_agent_run b) s) (\<lambda>run.
    ebind (ensure (bi_kind b \<in> set BATCH_KINDS) (Validation ''unknown_key'')) (\<lambda>_.
    ebind (ensure (strip (bi_title b) \<noteq> []) (Validation ''validation_error'')) (\<lambda>_.
    ebind (ensure (strip (bi_source_url b) = [] \<or> bs_is_link bs (strip (bi_source_url b)))
      (Validation ''validation_error'')) (\<lambda>_.
    ebind (normalized bs (bi_changes b)) (\<lambda>stored.
    Inr (run, stored))))))))"

text \<open>The proposal an earlier submission under the same retry key filed, if there is one.\<close>

definition batch_replay ::
    "uuid option \<Rightarrow> batch_input \<Rightarrow> proposer \<Rightarrow> scope_change list \<Rightarrow> library \<Rightarrow> error + proposal option" where
  "batch_replay zone b pr stored s =
    (case bi_retry_key b of
       None \<Rightarrow> Inr None
     | Some k \<Rightarrow> if k = [] then Inr None else
         ebind (ensure (length k \<le> IDEMPOTENCY_KEY_MAX_CHARS) (Validation ''validation_error'')) (\<lambda>_.
         (case already_filed zone pr k s of
            None \<Rightarrow> Inr None
          | Some p \<Rightarrow>
              if (pp_is_batch p, pp_kind p, pp_title p, pp_payload p) = (True, bi_kind b, strip (bi_title b), Scope_payload stored)
              then Inr (Some p) else Inl (Validation ''idempotency_conflict''))))"

definition create_batch ::
    "retag_settings \<Rightarrow> uuid option \<Rightarrow> batch_input \<Rightarrow> proposer \<Rightarrow> library \<Rightarrow> error + (proposal \<times> bool) \<times> library" where
  "create_batch bs zone b pr s =
    ebind (batch_checked bs zone b pr s) (\<lambda>(run, stored).
    ebind (batch_replay zone b pr stored s) (\<lambda>earlier.
    case earlier of
      Some p \<Rightarrow> Inr ((p, False), lb_record (replayed_entry pr p (the (bi_retry_key b))) s)
    | None \<Rightarrow>
        ebind (preview bs zone stored (strip (bi_source_label b)) s) (\<lambda>rows.
        ebind (case run of None \<Rightarrow> Inr () | Some r \<Rightarrow> spend r (bs_run_max_proposals bs) s) (\<lambda>_.
        ebind (file_batch b pr (screen_all (bs_screen bs) ([strip (bi_title b), bi_model b, strip (bi_source_label b),
          strip (bi_source_url b)] @ map sc_source stored)) stored rows s) (\<lambda>(p, s').
        Inr ((p, True), s'))))))"

section \<open>Applying the approved rows (proposals/apply.py)\<close>

text \<open>The scope a row leaves its obligation with, by id: a term it keeps as it is linked, a term it adds as
  it was found.\<close>

fun scope_ids :: "(string \<times> uuid) list \<Rightarrow> (string \<times> uuid) list \<Rightarrow> string list \<Rightarrow> error + uuid list" where
  "scope_ids before added [] = Inr []"
| "scope_ids before added (r # rs) =
    ebind (or_else (case map_of before r of Some i \<Rightarrow> Some i | None \<Rightarrow> map_of added r) Server_error) (\<lambda>i.
    ebind (scope_ids before added rs) (\<lambda>is. Inr (i # is)))"

text \<open>The first pass: every record is still in force and still has the scope its row was previewed from.\<close>

fun row_scopes ::
    "(string \<times> uuid) list \<Rightarrow> library \<Rightarrow> batch_row list \<Rightarrow> error + (library_obligation \<times> batch_row \<times> uuid list) list" where
  "row_scopes added s [] = Inr []"
| "row_scopes added s (r # rs) =
    ebind (or_else (active_shared_obligation (br_subject r) s) (Validation ''stale_write'')) (\<lambda>o'.
    ebind (ensure (scope_refs (ro_id o') s = br_before r) (Validation ''stale_write'')) (\<lambda>_.
    ebind (scope_ids (obligation_scope_terms (ro_id o') s) added (br_after r)) (\<lambda>ids.
    ebind (row_scopes added s rs) (\<lambda>rest. Inr ((o', r, ids) # rest)))))"

definition scope_changed_entry :: "proposal \<Rightarrow> actor_ref \<Rightarrow> uuid option \<Rightarrow> library_obligation \<Rightarrow> batch_row \<Rightarrow> audit_entry" where
  "scope_changed_entry p actr step_up o' r =
    (entry ''obligation.scope_changed'' actr OBLIGATION_TARGET (Some (ro_id o')) (ro_key o')
      (''Re-tagged '' @ ro_key o' @ '' (proposal '' @ show_nat (pp_id p) @ '').'') None
      [(''terms'', JList (map JStr (br_before r)))]
      [(''terms'', JList (map JStr (br_after r))), (''proposal'', JId (pp_id p)), (''batchRow'', JId (br_id r)),
       (''decision'', JStr ''approved'')])\<lparr>r_step_up := step_up\<rparr>"

text \<open>The second pass: the standards check of every row, and the links to drop and to add.\<close>

fun scope_links ::
    "retag_settings \<Rightarrow> uuid option \<Rightarrow> proposal \<Rightarrow> scope_change list \<Rightarrow> actor_ref \<Rightarrow> uuid option \<Rightarrow> (string \<times> uuid) list \<Rightarrow>
     uuid list \<Rightarrow> library \<Rightarrow> (library_obligation \<times> batch_row \<times> uuid list) list \<Rightarrow>
     error + (uuid \<times> uuid) list \<times> (uuid \<times> uuid) list \<times> audit_entry list" where
  "scope_links bs zone p changes actr step_up added opt_in s [] = Inr ([], [], [])"
| "scope_links bs zone p changes actr step_up added opt_in s ((o', r, ids) # rest) =
    (let before = obligation_scope_terms (ro_id o') s in
     ebind (instrument_of o' s) (\<lambda>instr.
     ebind (or_else (map_of (rev (map (\<lambda>c. (sc_obligation c, sc_source c)) changes)) (ro_id o')) Server_error) (\<lambda>source.
     ebind (standards_check (bs_is_link bs) zone (pp_kind p) instr (Some ids) [(''terms'', source)] None
       (pp_source_label p) (Some opt_in) s) (\<lambda>_.
     ebind (scope_links bs zone p changes actr step_up added opt_in s rest) (\<lambda>(dropped, links, entries).
     Inr (map (\<lambda>(_, i). (ro_id o', i)) (filter (\<lambda>(ref, _). ref \<notin> set (br_after r)) before) @ dropped,
          concat (map (\<lambda>ref. case map_of added ref of None \<Rightarrow> [] | Some i \<Rightarrow> [(ro_id o', i)])
            (filter (\<lambda>ref. ref \<notin> fst ` set before) (br_after r))) @ links,
          scope_changed_entry p actr step_up o' r # entries))))))"

text \<open>One DELETE and one INSERT, which the unique link refuses whole, one rebuild of the index.\<close>

definition relink :: "(uuid \<times> uuid) list \<Rightarrow> (uuid \<times> uuid) list \<Rightarrow> uuid list \<Rightarrow> library \<Rightarrow> error + library" where
  "relink dropped links ids s =
    (let kept = filter (\<lambda>l. l \<notin> set dropped) (lb_scope s) in
     if \<not> distinct links \<or> set links \<inter> set kept \<noteq> {} then Inl Integrity_error
     else Inr (s\<lparr>lb_scope := kept @ links, lb_reindexed := lb_reindexed s @ ids\<rparr>))"

definition obligation_scope ::
    "retag_settings \<Rightarrow> uuid option \<Rightarrow> scope_change list \<Rightarrow> batch_row list \<Rightarrow> proposal \<Rightarrow> actor_ref \<Rightarrow> uuid option \<Rightarrow>
     library \<Rightarrow> error + library" where
  "obligation_scope bs zone changes rows p actr step_up s =
    (let x = db_taxonomy (lb_db s);
         wanted = sort (remdups (concat (map (\<lambda>r. filter (\<lambda>ref. ref \<notin> fst ` set (obligation_scope_terms (br_subject r) s))
           (br_after r)) rows))) in
     ebind (if wanted = [] then Inr [] else terms_of wanted s) (\<lambda>terms.
     let added = by_ref x terms in
     ebind (refuse_mirrored (map tm_dimension (filter (\<lambda>t. ref_of x t \<noteq> None) terms)) s) (\<lambda>_.
     ebind (row_scopes added s rows) (\<lambda>scopes.
     let opt_in = opt_in_terms (concat (map (\<lambda>(_, _, ids). ids) scopes)) s in
     ebind (scope_links bs zone p changes actr step_up added opt_in s scopes) (\<lambda>(dropped, links, entries).
     ebind (relink dropped links (map br_subject rows) s) (\<lambda>s'.
     Inr (fold lb_record entries s')))))))"

text \<open>\<^verbatim>\<open>apply.apply\<close> for a batch, whose one kind is never a record of a bank's own.\<close>

definition apply_rows ::
    "retag_settings \<Rightarrow> uuid option \<Rightarrow> proposal \<Rightarrow> actor_ref \<Rightarrow> uuid option \<Rightarrow> batch_row list \<Rightarrow> library \<Rightarrow> error + library" where
  "apply_rows bs zone p actr step_up rows s =
    (case (case pp_corrected p of Some stored \<Rightarrow> stored | None \<Rightarrow> pp_payload p) of
       Other_payload _ \<Rightarrow> Inl Server_error
     | Scope_payload changes \<Rightarrow>
         ebind (ensure (pp_owner p = None) (Validation ''validation_error'')) (\<lambda>_.
         obligation_scope bs zone changes rows p actr step_up s))"

section \<open>Deciding\<close>

record reviewer =
  rv_actor :: actor_ref
  rv_user :: "uuid option"

record batch_decision =
  bd_rows :: "(uuid \<times> string \<times> string) list"
  bd_rest :: "string option"
  bd_rest_code :: string
  bd_note :: string

type_synonym given = "row_decision \<times> uuid option"

definition DECISIONS :: "row_decision list" where
  "DECISIONS = [ROW_APPROVED, ROW_REJECTED]"

text \<open>The decision a word names, with the live reason a rejection needs.\<close>

definition decision_reason :: "string \<Rightarrow> string \<Rightarrow> library \<Rightarrow> error + given" where
  "decision_reason word raw s =
    (case find (\<lambda>d. row_decision_value d = word) DECISIONS of
       None \<Rightarrow> Inl (Validation ''validation_error'')
     | Some d \<Rightarrow>
         let c = strip raw in
         if d = ROW_APPROVED then (if c \<noteq> [] then Inl (Validation ''validation_error'') else Inr (d, None))
         else if c = [] then Inl (Validation ''reason_required'')
         else (case find (\<lambda>v. v_list v = ''rejection_reason'' \<and> v_key v = c \<and> v_active v) (db_vocab (lb_db s)) of
                 None \<Rightarrow> Inl (Validation ''reason_required'')
               | Some v \<Rightarrow> Inr (d, Some (v_id v))))"

fun named_decisions :: "uuid list \<Rightarrow> (uuid \<times> string \<times> string) list \<Rightarrow> library \<Rightarrow> error + (uuid \<times> given) list" where
  "named_decisions seen [] s = Inr []"
| "named_decisions seen ((i, word, raw) # rest) s =
    ebind (ensure (i \<notin> set seen) (Validation ''validation_error'')) (\<lambda>_.
    ebind (decision_reason word raw s) (\<lambda>g.
    ebind (named_decisions (i # seen) rest s) (\<lambda>gs. Inr ((i, g) # gs))))"

definition decisions :: "batch_decision \<Rightarrow> library \<Rightarrow> error + (uuid \<times> given) list \<times> given option" where
  "decisions bd s =
    ebind (named_decisions [] (bd_rows bd) s) (\<lambda>named.
    ebind (case bd_rest bd of None \<Rightarrow> Inr None
           | Some w \<Rightarrow> ebind (decision_reason w (bd_rest_code bd) s) (\<lambda>g. Inr (Some g))) (\<lambda>rest.
    ebind (ensure (\<not> (bd_rest bd = None \<and> strip (bd_rest_code bd) \<noteq> [])) (Validation ''validation_error'')) (\<lambda>_.
    ebind (ensure (\<not> (named = [] \<and> rest = None)) (Validation ''validation_error'')) (\<lambda>_.
    Inr (named, rest)))))"

text \<open>The person whose request opened the run that filed the batch.\<close>

definition requested_by :: "proposal \<Rightarrow> library \<Rightarrow> uuid option" where
  "requested_by p s = (case pp_agent_run p of None \<Rightarrow> None
     | Some i \<Rightarrow> (case find (\<lambda>r. ru_id r = i) (lb_runs s) of None \<Rightarrow> None | Some r \<Rightarrow> ru_requested_by r))"

definition rows_of :: "uuid \<Rightarrow> library \<Rightarrow> batch_row list" where
  "rows_of p s = sort_key (\<lambda>r. (br_subject_type r, br_subject r)) (filter (\<lambda>r. br_proposal r = p) (lb_rows s))"

definition stale :: "library \<Rightarrow> batch_row \<Rightarrow> bool" where
  "stale s r \<longleftrightarrow> active_shared_obligation (br_subject r) s = None \<or> scope_refs (br_subject r) s \<noteq> br_before r"

text \<open>The pending rows this call decides, each with what it is given.\<close>

fun chosen_rows :: "(uuid \<times> given) list \<Rightarrow> given option \<Rightarrow> library \<Rightarrow> batch_row list \<Rightarrow> error + (batch_row \<times> given) list" where
  "chosen_rows named rest s [] = Inr []"
| "chosen_rows named rest s (r # rs) =
    (case (case map_of named (br_id r) of Some g \<Rightarrow> Some g | None \<Rightarrow> rest) of
       None \<Rightarrow> chosen_rows named rest s rs
     | Some g \<Rightarrow>
         if fst g = ROW_APPROVED \<and> stale s r
         then (if map_of named (br_id r) \<noteq> None then Inl (Validation ''stale_write'') else chosen_rows named rest s rs)
         else ebind (chosen_rows named rest s rs) (\<lambda>gs. Inr ((r, g) # gs)))"

definition reason_key :: "uuid \<Rightarrow> library \<Rightarrow> string" where
  "reason_key i s = (case find (\<lambda>v. v_list v = ''rejection_reason'' \<and> v_id v = i) (db_vocab (lb_db s)) of
     None \<Rightarrow> [] | Some v \<Rightarrow> v_key v)"

definition row_rejected_entry :: "proposal \<Rightarrow> reviewer \<Rightarrow> uuid option \<Rightarrow> batch_row \<Rightarrow> uuid \<Rightarrow> library \<Rightarrow> audit_entry" where
  "row_rejected_entry p rv step_up r reason s =
    (entry ''proposal.batch_row_rejected'' (rv_actor rv) OBLIGATION_TARGET (Some (br_subject r)) (pp_title p)
      (''Kept the scope as it is: a row of '' @ pp_title p @ '' was rejected.'') None
      [(''terms'', JList (map JStr (br_before r)))]
      [(''decision'', JStr ''rejected''), (''rejectionCode'', JStr (reason_key reason s)), (''proposal'', JId (pp_id p)),
       (''batchRow'', JId (br_id r))])\<lparr>r_step_up := step_up\<rparr>"

definition batch_decided_entry ::
    "proposal \<Rightarrow> reviewer \<Rightarrow> uuid option \<Rightarrow> nat \<Rightarrow> batch_row list \<Rightarrow> library \<Rightarrow> audit_entry" where
  "batch_decided_entry p rv step_up n rows s =
    (entry ''proposal.batch_decided'' (rv_actor rv) PROPOSAL_SUBJECT (Some (pp_id p)) (pp_title p)
      (''Decided '' @ show_nat n @ '' of '' @ show_nat (length rows) @ '' rows: '' @ pp_title p) None
      [(''status'', JStr (proposal_status_value P_OPEN))]
      [(''status'', JStr (proposal_status_value (pp_status p))),
       (''rows'', JList (map (\<lambda>r. JObj [(''rowId'', JId (br_id r)), (''subjectId'', JId (br_subject r)),
          (''decision'', JStr (row_decision_value (br_decision r))),
          (''rejectionCode'', JStr (case br_reason r of None \<Rightarrow> [] | Some i \<Rightarrow> reason_key i s))]) rows))])\<lparr>r_step_up := step_up\<rparr>"

text \<open>\<^verbatim>\<open>_close\<close>: the note, and the outcome once no row is pending.\<close>

definition close_batch :: "proposal \<Rightarrow> batch_row list \<Rightarrow> reviewer \<Rightarrow> instant \<Rightarrow> string \<Rightarrow> library \<Rightarrow> error + proposal \<times> library" where
  "close_batch p rows rv now note s =
    (let p1 = (if note = [] then p else p\<lparr>pp_review_note := note\<rparr>);
         ended = list_all (\<lambda>r. br_decision r \<noteq> ROW_PENDING) rows;
         approved = list_ex (\<lambda>r. br_decision r = ROW_APPROVED) rows;
         codes = remdups (concat (map (\<lambda>r. case br_reason r of None \<Rightarrow> [] | Some i \<Rightarrow> [reason_key i s]) rows));
         p2 = p1\<lparr>pp_status := (if approved then P_APPROVED else P_REJECTED), pp_reviewed_by := rv_user rv,
            pp_reviewed_at := Some now, pp_applied_at := (if approved then Some now else None),
            pp_rejection_code := (if approved \<or> length codes \<noteq> 1 then [] else hd codes)\<rparr> in
     if ended then ebind (save_proposal p2 s) (\<lambda>s'. Inr (p2, s'))
     else if note \<noteq> [] then ebind (save_proposal p1 s) (\<lambda>s'. Inr (p1, s'))
     else Inr (p1, s))"

text \<open>One UPDATE per outcome and reason.\<close>

fun decide_groups :: "given list \<Rightarrow> (batch_row \<times> given) list \<Rightarrow> uuid option \<Rightarrow> instant \<Rightarrow> library \<Rightarrow> error + library" where
  "decide_groups [] chosen by now s = Inr s"
| "decide_groups (g # gs) chosen by now s =
    ebind (decide_rows (map (\<lambda>(r, _). br_id r) (filter (\<lambda>(_, g'). g' = g) chosen)) (fst g) (snd g) by now s)
      (decide_groups gs chosen by now)"

text \<open>What the chosen rows have become in memory, among all rows of the batch.\<close>

definition settled :: "(batch_row \<times> given) list \<Rightarrow> uuid option \<Rightarrow> instant \<Rightarrow> batch_row \<Rightarrow> batch_row" where
  "settled chosen by now r = (case map_of (map (\<lambda>(r', g). (br_id r', g)) chosen) (br_id r) of
     None \<Rightarrow> r | Some g \<Rightarrow> decided_as (fst g) (snd g) by now r)"

definition rejected_entries :: "proposal \<Rightarrow> reviewer \<Rightarrow> uuid option \<Rightarrow> (batch_row \<times> given) list \<Rightarrow> library \<Rightarrow> audit_entry list" where
  "rejected_entries p rv step_up chosen s =
    concat (map (\<lambda>(r, g). case snd g of None \<Rightarrow> [] | Some i \<Rightarrow> [row_rejected_entry p rv step_up r i s]) chosen)"

definition write_decision ::
    "retag_settings \<Rightarrow> uuid option \<Rightarrow> proposal \<Rightarrow> batch_row list \<Rightarrow> (batch_row \<times> given) list \<Rightarrow> reviewer \<Rightarrow> uuid option \<Rightarrow>
     string \<Rightarrow> library \<Rightarrow> error + proposal \<times> library" where
  "write_decision bs zone p rows chosen rv step_up note s =
    (let now = db_now (lb_db s);
         approved = map fst (filter (\<lambda>(_, g). fst g = ROW_APPROVED) chosen);
         after = map (settled chosen (rv_user rv) now) rows in
     ebind (if approved = [] then Inr s else apply_rows bs zone p (rv_actor rv) step_up approved s) (\<lambda>s1.
     ebind (decide_groups (fromkeys (map snd chosen)) chosen (rv_user rv) now
       (fold lb_record (rejected_entries p rv step_up chosen s) s1)) (\<lambda>s2.
     ebind (close_batch p after rv now note s2) (\<lambda>(p', s3).
     Inr (p', lb_record (batch_decided_entry p' rv step_up (length chosen) after s3) s3)))))"

definition decide ::
    "retag_settings \<Rightarrow> uuid option \<Rightarrow> uuid \<Rightarrow> batch_decision \<Rightarrow> reviewer \<Rightarrow> uuid option \<Rightarrow> library \<Rightarrow> error + proposal \<times> library" where
  "decide bs zone i bd rv step_up s =
    ebind (ensure (rv_user rv \<noteq> None) (Validation ''person_review_required'')) (\<lambda>_.
    ebind (ensure (zone = None) (Problem 403 ''permission_denied'')) (\<lambda>_.
    ebind (decisions bd s) (\<lambda>(named, rest).
    ebind (or_else (find (\<lambda>p. pp_id p = i \<and> visible zone (pp_owner p)) (lb_proposals s)) Server_error) (\<lambda>p.
    ebind (ensure (pp_status p = P_OPEN) (Validation ''invalid_transition'')) (\<lambda>_.
    ebind (ensure (pp_user p \<noteq> rv_user rv \<and> requested_by p s \<noteq> rv_user rv) (Validation ''four_eyes_violation'')) (\<lambda>_.
    let rows = rows_of i s in
    ebind (ensure (fst ` set named \<subseteq> br_id ` set rows) (Validation ''unknown_key'')) (\<lambda>_.
    let pending = filter (\<lambda>r. br_decision r = ROW_PENDING) rows in
    ebind (ensure (list_all (\<lambda>r. br_id r \<in> fst ` set named \<longrightarrow> br_decision r = ROW_PENDING) rows)
      (Validation ''invalid_transition'')) (\<lambda>_.
    ebind (chosen_rows named rest s pending) (\<lambda>chosen.
    ebind (ensure (chosen \<noteq> []) (Validation ''stale_write'')) (\<lambda>_.
    write_decision bs zone p rows chosen rv step_up (strip (bd_note bd)) s))))))))))"

section \<open>Routes (proposals/api.py)\<close>

abbreviation "PROPOSALS_REVIEW \<equiv> ''proposals.review''"
abbreviation "SCOPE_PROPOSALS_WRITE \<equiv> ''proposals:write''"

text \<open>\<^verbatim>\<open>proposer_for\<close>.  The agent a key is bound to and the actor that names it are columns of the key beside
  the fields of \<open>principal\<close>, and arguments here.\<close>

definition require_batch_proposer :: "principal \<Rightarrow> actor_ref \<Rightarrow> uuid option \<Rightarrow> error + proposer" where
  "require_batch_proposer who key_actor agent_id =
    (if p_kind who = P_AGENT
     then ebind (ensure (p_tenant who = None \<and> has_scope who SCOPE_PROPOSALS_WRITE) (Problem 403 ''permission_denied'')) (\<lambda>_.
       Inr \<lparr>pr_actor = key_actor, pr_user = None, pr_api_key = Some (p_subject who), pr_agent = agent_id\<rparr>)
     else ebind (ensure (p_tenant who = None \<and> has_permission who PROPOSALS_REVIEW) (Problem 403 ''permission_denied'')) (\<lambda>_.
       ebind (caller_user who) (\<lambda>u.
       Inr \<lparr>pr_actor = actor_for who, pr_user = Some u, pr_api_key = None, pr_agent = None\<rparr>)))"

text \<open>\<^verbatim>\<open>batch.by_id\<close>\<close>

definition batch_by_id :: "uuid option \<Rightarrow> uuid \<Rightarrow> library \<Rightarrow> error + proposal" where
  "batch_by_id zone i s =
    or_else (find (\<lambda>p. pp_id p = i \<and> pp_is_batch p \<and> visible zone (pp_owner p)) (lb_proposals s)) (Validation ''not_found'')"

definition decide_proposal_batch ::
    "retag_settings \<Rightarrow> nat \<Rightarrow> principal option \<Rightarrow> uuid \<Rightarrow> batch_decision \<Rightarrow> library \<Rightarrow> error + proposal \<times> library" where
  "decide_proposal_batch bs freshness who i bd s =
    ebind (session_auth who) (\<lambda>p.
    requires_permission PROPOSALS_REVIEW p (\<lambda>_.
    ebind (enforce_step_up freshness p (lb_db s)) (\<lambda>assertion.
    ebind (caller_user p) (\<lambda>u.
    ebind (batch_by_id (p_tenant p) i s) (\<lambda>pr.
    decide bs (p_tenant p) (pp_id pr) bd \<lparr>rv_actor = actor_for p, rv_user = Some u\<rparr> (Some assertion) s)))))"

definition create_proposal_batch ::
    "retag_settings \<Rightarrow> principal option \<Rightarrow> actor_ref \<Rightarrow> uuid option \<Rightarrow> batch_input \<Rightarrow> library \<Rightarrow>
     error + (proposal \<times> bool) \<times> library" where
  "create_proposal_batch bs who key_actor agent_id b s =
    ebind (or_else who unauthenticated) (\<lambda>p.
    ebind (require_batch_proposer p key_actor agent_id) (\<lambda>pr.
    create_batch bs (p_tenant p) b pr s))"

end
