(* ===== verification/Retag_Laws.thy ===== *)
theory Retag_Laws
  imports Retag
begin

text \<open>
  What re-tagging rests on: how a scope is read back from the links of an obligation, what one approved set
  of rows does to the links, and what one decision does to the rows and to their batch.
\<close>

section \<open>A library the database can hold\<close>

definition catalog_ok :: "library \<Rightarrow> bool" where
  "catalog_ok s \<longleftrightarrow> (let x = db_taxonomy (lb_db s) in
    distinct (map ro_id (lb_obligations s)) \<and>
    (\<forall>o'\<in>set (lb_obligations s). \<exists>i\<in>set (lb_instruments s). in_id i = ro_instrument o') \<and>
    distinct (map dm_id (tx_dimensions x)) \<and> distinct (map dm_key (tx_dimensions x)) \<and>
    (\<forall>d\<in>set (tx_dimensions x). CHR '':'' \<notin> set (dm_key d)) \<and>
    distinct (map tm_id (tx_terms x)) \<and> distinct (map (\<lambda>t. (tm_dimension t, tm_key t)) (tx_terms x)) \<and>
    (\<forall>t\<in>set (tx_terms x). \<exists>d\<in>set (tx_dimensions x). dm_id d = tm_dimension t) \<and>
    distinct (lb_scope s) \<and> (\<forall>(ob, i)\<in>set (lb_scope s). \<exists>t\<in>set (tx_terms x). tm_id t = i))"

abbreviation tax :: "library \<Rightarrow> taxonomy" where
  "tax s \<equiv> db_taxonomy (lb_db s)"

text \<open>The term with an id is written one way, and each way of writing names one term.\<close>

definition spells :: "library \<Rightarrow> uuid \<Rightarrow> string \<Rightarrow> bool" where
  "spells s i r \<longleftrightarrow> (\<exists>t\<in>set (tx_terms (tax s)). tm_id t = i \<and> ref_of (tax s) t = Some r)"

lemma ref_of_Some:
  assumes "catalog_ok s" and "t \<in> set (tx_terms (tax s))"
  shows "\<exists>d\<in>set (tx_dimensions (tax s)). dm_id d = tm_dimension t \<and> dimension_of (tax s) t = Some d \<and>
    ref_of (tax s) t = Some (dm_key d @ '':'' @ tm_key t)"
proof -
  from assms obtain d where d: "d \<in> set (tx_dimensions (tax s))" "dm_id d = tm_dimension t"
    by (auto simp: catalog_ok_def Let_def)
  moreover have "dimension_of (tax s) t = Some d"
    using find_by_key [of dm_id "tx_dimensions (tax s)" d] assms(1) d by (simp add: catalog_ok_def Let_def dimension_of_def)
  ultimately show ?thesis by (auto simp: ref_of_def)
qed

lemma split_at_colon:
  assumes "CHR '':'' \<notin> set a" and "CHR '':'' \<notin> set b" and "a @ '':'' @ u = b @ '':'' @ v"
  shows "a = b \<and> u = v"
proof -
  have "takeWhile (\<lambda>c. c \<noteq> CHR '':'') (a @ '':'' @ u) = a" "takeWhile (\<lambda>c. c \<noteq> CHR '':'') (b @ '':'' @ v) = b"
    using assms(1,2) by (simp_all add: takeWhile_append takeWhile_eq_all_conv)
  with assms(3) show ?thesis by simp
qed

lemma ref_of_inj:
  assumes c: "catalog_ok s" and t: "t \<in> set (tx_terms (tax s))" "t' \<in> set (tx_terms (tax s))"
    and r: "ref_of (tax s) t = Some r" "ref_of (tax s) t' = Some r"
  shows "t = t'"
proof -
  obtain d where d: "d \<in> set (tx_dimensions (tax s))" "dm_id d = tm_dimension t" "r = dm_key d @ '':'' @ tm_key t"
    using ref_of_Some [OF c t(1)] r(1) by auto
  obtain e where e: "e \<in> set (tx_dimensions (tax s))" "dm_id e = tm_dimension t'" "r = dm_key e @ '':'' @ tm_key t'"
    using ref_of_Some [OF c t(2)] r(2) by auto
  have nc: "CHR '':'' \<notin> set (dm_key d)" "CHR '':'' \<notin> set (dm_key e)"
    using c d(1) e(1) by (auto simp: catalog_ok_def Let_def)
  have same: "dm_key d = dm_key e" "tm_key t = tm_key t'"
    using split_at_colon [OF nc, of "tm_key t" "tm_key t'"] d(3) e(3) by auto
  have "d = e" using c d(1) e(1) same(1) by (auto simp: catalog_ok_def Let_def distinct_map inj_on_def)
  then have "(tm_dimension t, tm_key t) = (tm_dimension t', tm_key t')" using d(2) e(2) same(2) by simp
  moreover have "inj_on (\<lambda>t. (tm_dimension t, tm_key t)) (set (tx_terms (tax s)))"
    using c by (simp add: catalog_ok_def Let_def distinct_map)
  ultimately show ?thesis using t by (auto dest: inj_onD)
qed

lemma term_of_in:
  assumes "catalog_ok s" and "t \<in> set (tx_terms (tax s))"
  shows "term_of (tax s) (tm_id t) = Some t"
  using find_by_key [of tm_id "tx_terms (tax s)" t] assms by (simp add: catalog_ok_def Let_def term_of_def)

lemma spells_fun:
  assumes "catalog_ok s"
  shows "spells s i r \<Longrightarrow> spells s i r' \<Longrightarrow> r = r'" and "spells s i r \<Longrightarrow> spells s j r \<Longrightarrow> i = j"
proof -
  show "r = r'" if "spells s i r" "spells s i r'"
    using that term_of_in [OF assms] unfolding spells_def by (metis option.inject)
  show "i = j" if "spells s i r" "spells s j r"
    using that ref_of_inj [OF assms] unfolding spells_def by metis
qed

lemma set_by_ref: "set (by_ref x ts) = {(r, i). \<exists>t\<in>set ts. tm_id t = i \<and> ref_of x t = Some r}"
  by (auto simp: by_ref_def split: option.splits)

lemma set_scope_terms:
  assumes "catalog_ok s"
  shows "set (obligation_scope_terms ob s) = {(r, i). (ob, i) \<in> set (lb_scope s) \<and> spells s i r}"
proof -
  let ?pick = "\<lambda>(o', t). if o' = ob then (case term_of (tax s) t of None \<Rightarrow> [] | Some tm \<Rightarrow> [tm]) else []"
  have "t \<in> set (concat (map ?pick (lb_scope s))) \<longleftrightarrow> t \<in> set (tx_terms (tax s)) \<and> (ob, tm_id t) \<in> set (lb_scope s)" for t
  proof
    assume "t \<in> set (concat (map ?pick (lb_scope s)))"
    then obtain l where l: "l \<in> set (lb_scope s)" "t \<in> set (?pick l)"
      unfolding set_concat set_map by blast
    obtain o' j where l': "l = (o', j)" by (cases l) auto
    have o': "o' = ob" using l(2) unfolding l' by (cases "o' = ob") simp_all
    have i: "(ob, j) \<in> set (lb_scope s)" "term_of (tax s) j = Some t"
      using l unfolding l' o' by (cases "term_of (tax s) j"; simp)+
    then show "t \<in> set (tx_terms (tax s)) \<and> (ob, tm_id t) \<in> set (lb_scope s)"
      using find_Some_in [OF i(2) [unfolded term_of_def]] by simp
  next
    assume t: "t \<in> set (tx_terms (tax s)) \<and> (ob, tm_id t) \<in> set (lb_scope s)"
    then have "t \<in> set (?pick (ob, tm_id t))" using term_of_in [OF assms] by simp
    then show "t \<in> set (concat (map ?pick (lb_scope s)))" using t unfolding set_concat set_map by blast
  qed
  then have "{t. t \<in> set (concat (map ?pick (lb_scope s)))} = {t. t \<in> set (tx_terms (tax s)) \<and> (ob, tm_id t) \<in> set (lb_scope s)}"
    by blast
  then show ?thesis unfolding obligation_scope_terms_def set_by_ref spells_def by blast
qed

lemma map_of_scope:
  assumes "catalog_ok s" and "set kv = {(r, i). P i \<and> spells s i r}"
  shows "map_of kv r = Some i \<longleftrightarrow> P i \<and> spells s i r"
proof
  show "P i \<and> spells s i r" if "map_of kv r = Some i" using map_of_SomeD [OF that] assms(2) by auto
  assume "P i \<and> spells s i r"
  then have "(r, i) \<in> set kv" using assms(2) by auto
  then obtain j where j: "map_of kv r = Some j" by (metis imageI fst_conv map_of_eq_None_iff not_None_eq)
  then have "P j \<and> spells s j r" using map_of_SomeD [OF j] assms(2) by auto
  then show "map_of kv r = Some i" using j \<open>P i \<and> spells s i r\<close> spells_fun(2) [OF assms(1)] by blast
qed

lemma set_scope_refs: "catalog_ok s \<Longrightarrow> set (scope_refs ob s) = {r. \<exists>i. (ob, i) \<in> set (lb_scope s) \<and> spells s i r}"
  by (auto simp: scope_refs_def set_scope_terms image_iff)

lemma spelled: "catalog_ok s \<Longrightarrow> (ob, i) \<in> set (lb_scope s) \<Longrightarrow> \<exists>r. spells s i r"
  unfolding spells_def using ref_of_Some [of s] by (fastforce simp: catalog_ok_def Let_def)

text \<open>The spellings that were found name live terms; asking for fewer finds fewer.\<close>

lemma terms_of_Inr:
  assumes "terms_of refs s = Inr ts"
  shows "set ts \<subseteq> set (tx_terms (tax s))" and "\<And>r. r \<in> set refs \<Longrightarrow> \<exists>t\<in>set ts. ref_of (tax s) t = Some r"
    and "\<And>t. t \<in> set ts \<longleftrightarrow> t \<in> set (tx_terms (tax s)) \<and> (\<exists>r\<in>set refs. named_by s r t)"
  using assms by (auto simp: terms_of_def Let_def split: if_splits)

lemma terms_of_fewer:
  assumes c: "catalog_ok s" and big: "terms_of refs s = Inr ts" and sub: "set few \<subseteq> set refs"
  shows "\<exists>ts'. terms_of few s = Inr ts' \<and> set ts' \<subseteq> set ts"
proof -
  let ?found = "filter (\<lambda>t. \<exists>r\<in>set few. named_by s r t) (tx_terms (tax s))"
  have colon: "CHR '':'' \<in> set r" if "r \<in> set few" for r
    using big sub that by (auto simp: terms_of_def split: if_splits)
  have "\<exists>t\<in>set ?found. ref_of (tax s) t = Some r" if r: "r \<in> set few" for r
  proof -
    obtain t where t: "t \<in> set ts" "ref_of (tax s) t = Some r" using terms_of_Inr(2) [OF big] r sub by blast
    then obtain q where q: "named_by s q t" "q \<in> set refs" and t': "t \<in> set (tx_terms (tax s))"
      using terms_of_Inr(3) [OF big] by blast
    obtain d where d: "dimension_of (tax s) t = Some d" "ref_of (tax s) t = Some (dm_key d @ '':'' @ tm_key t)"
      "d \<in> set (tx_dimensions (tax s))"
      using ref_of_Some [OF c t'] by auto
    have nc: "CHR '':'' \<notin> set (dm_key d)" using c d(3) by (auto simp: catalog_ok_def Let_def)
    have "r = dm_key d @ '':'' @ tm_key t" using t(2) d(2) by simp
    moreover have "takeWhile (\<lambda>c. c \<noteq> CHR '':'') (dm_key d @ '':'' @ tm_key t) = dm_key d"
      "dropWhile (\<lambda>c. c \<noteq> CHR '':'') (dm_key d @ '':'' @ tm_key t) = '':'' @ tm_key t"
      using nc by (simp_all add: takeWhile_append takeWhile_eq_all_conv dropWhile_append dropWhile_eq_Nil_conv)
    ultimately have "named_by s r t" using q(1) d(1) by (simp add: named_by_def)
    then show ?thesis using t' t(2) r by auto
  qed
  then have "terms_of few s = Inr ?found" using colon by (auto simp: terms_of_def Let_def)
  moreover have "set ?found \<subseteq> set ts" using terms_of_Inr(3) [OF big] sub by auto
  ultimately show ?thesis by blast
qed

lemma refuse_mirrored_fewer:
  "refuse_mirrored dims s = Inr () \<Longrightarrow> set few \<subseteq> set dims \<Longrightarrow> refuse_mirrored few s = Inr ()"
  by (auto simp: refuse_mirrored_def mirrored_dimensions_def ensure_def filter_empty_conv split: if_splits)

section \<open>One set of approved rows\<close>

definition picked :: "(string \<times> uuid) list \<Rightarrow> (string \<times> uuid) list \<Rightarrow> string \<Rightarrow> uuid option" where
  "picked before added r = (case map_of before r of Some i \<Rightarrow> Some i | None \<Rightarrow> map_of added r)"

lemma scope_ids_Inr:
  "scope_ids before added refs = Inr is \<longleftrightarrow> map (picked before added) refs = map Some is"
proof (induction refs arbitrary: "is")
  case (Cons r refs)
  show ?case
  proof (cases "is")
    case (Cons j js)
    show ?thesis using Cons.IH [of js] by (auto simp: Cons ebind_eq_Inr or_else_eq_Inr picked_def)
  qed (auto simp: ebind_eq_Inr)
qed auto

lemma row_scopes_Inr:
  assumes "row_scopes added s rows = Inr scopes"
  shows "map (\<lambda>(o', r, is). r) scopes = rows" and
    "(o', r, is) \<in> set scopes \<Longrightarrow> active_shared_obligation (br_subject r) s = Some o' \<and> ro_id o' = br_subject r \<and>
      scope_refs (br_subject r) s = br_before r \<and>
      map (picked (obligation_scope_terms (br_subject r) s) added) (br_after r) = map Some is"
proof -
  have "map (\<lambda>(o', r, is). r) scopes = rows \<and> (\<forall>(o', r, is)\<in>set scopes. active_shared_obligation (br_subject r) s = Some o' \<and>
      ro_id o' = br_subject r \<and> scope_refs (br_subject r) s = br_before r \<and>
      map (picked (obligation_scope_terms (br_subject r) s) added) (br_after r) = map Some is)"
    using assms
  proof (induction rows arbitrary: scopes)
    case (Cons r rows)
    then obtain o' "is" rest where o': "active_shared_obligation (br_subject r) s = Some o'" "scope_refs (ro_id o') s = br_before r"
      "scope_ids (obligation_scope_terms (ro_id o') s) added (br_after r) = Inr is"
      and rest: "row_scopes added s rows = Inr rest" "scopes = (o', r, is) # rest"
      by (auto simp: ebind_eq_Inr or_else_eq_Inr ensure_eq_Inr)
    have "ro_id o' = br_subject r"
      using find_Some_in [OF o'(1) [unfolded active_shared_obligation_def]] by simp
    then show ?case using o' rest Cons.IH [OF rest(1)] by (simp add: scope_ids_Inr)
  qed simp
  then show "map (\<lambda>(o', r, is). r) scopes = rows" and "(o', r, is) \<in> set scopes \<Longrightarrow>
      active_shared_obligation (br_subject r) s = Some o' \<and> ro_id o' = br_subject r \<and>
      scope_refs (br_subject r) s = br_before r \<and>
      map (picked (obligation_scope_terms (br_subject r) s) added) (br_after r) = map Some is"
    by (blast, force)
qed

definition dropped_links :: "library \<Rightarrow> batch_row \<Rightarrow> (uuid \<times> uuid) list" where
  "dropped_links s r = map (\<lambda>(_, i). (br_subject r, i))
     (filter (\<lambda>(ref, _). ref \<notin> set (br_after r)) (obligation_scope_terms (br_subject r) s))"

definition added_links :: "(string \<times> uuid) list \<Rightarrow> library \<Rightarrow> batch_row \<Rightarrow> (uuid \<times> uuid) list" where
  "added_links added s r = concat (map (\<lambda>ref. case map_of added ref of None \<Rightarrow> [] | Some i \<Rightarrow> [(br_subject r, i)])
     (filter (\<lambda>ref. ref \<notin> fst ` set (obligation_scope_terms (br_subject r) s)) (br_after r)))"

definition row_standard ::
    "retag_settings \<Rightarrow> uuid option \<Rightarrow> proposal \<Rightarrow> scope_change list \<Rightarrow> uuid list \<Rightarrow> library \<Rightarrow>
     library_obligation \<times> batch_row \<times> uuid list \<Rightarrow> bool" where
  "row_standard bs zone p changes opt_in s = (\<lambda>(o', r, is). \<exists>instr source. instrument_of o' s = Inr instr \<and>
     map_of (rev (map (\<lambda>c. (sc_obligation c, sc_source c)) changes)) (ro_id o') = Some source \<and>
     standards_check (bs_is_link bs) zone (pp_kind p) instr (Some is) [(''terms'', source)] None (pp_source_label p)
       (Some opt_in) s = Inr ())"

lemma scope_links_Inr:
  assumes "\<forall>(o', r, is)\<in>set scopes. ro_id o' = br_subject r"
  shows "scope_links bs zone p changes actr step_up added opt_in s scopes = Inr (dropped, links, entries) \<longleftrightarrow>
    list_all (row_standard bs zone p changes opt_in s) scopes \<and>
    dropped = concat (map (\<lambda>(o', r, is). dropped_links s r) scopes) \<and>
    links = concat (map (\<lambda>(o', r, is). added_links added s r) scopes) \<and>
    entries = map (\<lambda>(o', r, is). scope_changed_entry p actr step_up o' r) scopes"
  using assms
proof (induction scopes arbitrary: dropped links entries)
  case (Cons a scopes)
  obtain o' r "is" where a: "a = (o', r, is)" by (cases a) auto
  have o': "ro_id o' = br_subject r" and IH: "\<And>d l e. scope_links bs zone p changes actr step_up added opt_in s scopes = Inr (d, l, e) \<longleftrightarrow>
    list_all (row_standard bs zone p changes opt_in s) scopes \<and>
    d = concat (map (\<lambda>(o', r, is). dropped_links s r) scopes) \<and>
    l = concat (map (\<lambda>(o', r, is). added_links added s r) scopes) \<and>
    e = map (\<lambda>(o', r, is). scope_changed_entry p actr step_up o' r) scopes"
    using Cons by (auto simp: a)
  have parts: "row_standard bs zone p changes opt_in s (o', r, is) \<longleftrightarrow> (\<exists>instr source. instrument_of o' s = Inr instr \<and>
      map_of (rev (map (\<lambda>c. (sc_obligation c, sc_source c)) changes)) (ro_id o') = Some source \<and>
      standards_check (bs_is_link bs) zone (pp_kind p) instr (Some is) [(''terms'', source)] None (pp_source_label p)
        (Some opt_in) s = Inr ())"
    "dropped_links s r = map (\<lambda>(_, i). (ro_id o', i))
      (filter (\<lambda>(ref, _). ref \<notin> set (br_after r)) (obligation_scope_terms (ro_id o') s))"
    "added_links added s r = concat (map (\<lambda>ref. case map_of added ref of None \<Rightarrow> [] | Some i \<Rightarrow> [(ro_id o', i)])
      (filter (\<lambda>ref. ref \<notin> fst ` set (obligation_scope_terms (ro_id o') s)) (br_after r)))"
    unfolding o' by (simp_all add: row_standard_def dropped_links_def added_links_def o')
  show ?case
    by (simp add: a Let_def ebind_eq_Inr or_else_eq_Inr IH parts) blast
qed auto

lemma fold_record [simp]:
  "lb_scope (fold lb_record es s) = lb_scope s" "lb_rows (fold lb_record es s) = lb_rows s"
  "lb_proposals (fold lb_record es s) = lb_proposals s" "lb_obligations (fold lb_record es s) = lb_obligations s"
  "lb_instruments (fold lb_record es s) = lb_instruments s" "lb_active_terms (fold lb_record es s) = lb_active_terms s"
  "lb_runs (fold lb_record es s) = lb_runs s" "lb_provision_keys (fold lb_record es s) = lb_provision_keys s"
  "db_taxonomy (lb_db (fold lb_record es s)) = db_taxonomy (lb_db s)" "db_now (lb_db (fold lb_record es s)) = db_now (lb_db s)"
  "db_vocab (lb_db (fold lb_record es s)) = db_vocab (lb_db s)"
  by (induction es arbitrary: s) (simp_all add: lb_record_def record_event_frame)

lemma fold_record_next: "db_next (lb_db s) \<le> db_next (lb_db (fold lb_record es s))"
proof (induction es arbitrary: s)
  case (Cons e es)
  have "db_next (lb_db s) \<le> db_next (lb_db (lb_record e s))" by (simp add: lb_record_def record_event_frame)
  also have "\<dots> \<le> db_next (lb_db (fold lb_record es (lb_record e s)))" by (rule Cons.IH)
  finally show ?case by simp
qed simp

text \<open>The links after the approved rows are written: each of their obligations has exactly the terms its row
  spells, every other keeps its links.\<close>

definition rows_of_scope :: "batch_row list \<Rightarrow> library \<Rightarrow> (uuid \<times> uuid) set" where
  "rows_of_scope rows s = {(ob, i). if ob \<in> br_subject ` set rows
     then \<exists>r\<in>set rows. br_subject r = ob \<and> (\<exists>ref\<in>set (br_after r). spells s i ref)
     else (ob, i) \<in> set (lb_scope s)}"

lemma picked_spells:
  assumes c: "catalog_ok s" and ts: "set ts \<subseteq> set (tx_terms (tax s))"
  shows "picked (obligation_scope_terms ob s) (by_ref (tax s) ts) ref = Some i \<Longrightarrow> spells s i ref"
    and "map_of (by_ref (tax s) ts) ref = Some i \<Longrightarrow> spells s i ref"
proof -
  have 1: "spells s i ref" if "map_of (by_ref (tax s) ts) ref = Some i"
    using map_of_SomeD [OF that] ts unfolding set_by_ref spells_def by blast
  then show "map_of (by_ref (tax s) ts) ref = Some i \<Longrightarrow> spells s i ref" .
  show "spells s i ref" if "picked (obligation_scope_terms ob s) (by_ref (tax s) ts) ref = Some i"
  proof (cases "map_of (obligation_scope_terms ob s) ref")
    case None
    with that 1 show ?thesis by (simp add: picked_def)
  next
    case (Some j)
    then show ?thesis using that map_of_SomeD [OF Some] set_scope_terms [OF c] by (simp add: picked_def)
  qed
qed

lemma relink_rows:
  assumes c: "catalog_ok s" and ts: "set ts \<subseteq> set (tx_terms (tax s))"
    and sub: "distinct (map br_subject rows)"
    and found: "\<forall>r\<in>set rows. \<forall>ref\<in>set (br_after r). picked (obligation_scope_terms (br_subject r) s) (by_ref (tax s) ts) ref \<noteq> None"
  shows "{l \<in> set (lb_scope s). \<forall>r\<in>set rows. l \<notin> set (dropped_links s r)} \<union>
    (\<Union>r\<in>set rows. set (added_links (by_ref (tax s) ts) s r)) = rows_of_scope rows s" (is "?K \<union> ?L = _")
proof (intro set_eqI iffI)
  note scope = set_scope_terms [OF c]
  fix l assume l: "l \<in> ?K \<union> ?L"
  obtain ob i where lp: "l = (ob, i)" by (cases l) auto
  show "l \<in> rows_of_scope rows s"
  proof (cases "ob \<in> br_subject ` set rows")
    case False
    then have "l \<notin> ?L" by (auto simp: added_links_def lp split: option.splits)
    with l show ?thesis using False by (simp add: rows_of_scope_def lp)
  next
    case True
    then obtain r where r: "r \<in> set rows" "br_subject r = ob" by auto
    from l show ?thesis
    proof
      assume k: "l \<in> ?K"
      then obtain ref where ref: "spells s i ref" using spelled [OF c, of ob i] lp by auto
      then have "(ref, i) \<in> set (obligation_scope_terms ob s)" using k lp scope by auto
      moreover have "(ob, i) \<notin> set (dropped_links s r)" using k r(1) lp by blast
      ultimately have "ref \<in> set (br_after r)" unfolding dropped_links_def using r(2) by force
      then show ?thesis using r ref True unfolding rows_of_scope_def lp by auto
    next
      assume "l \<in> ?L"
      then obtain q ref where q: "q \<in> set rows" "br_subject q = ob" "ref \<in> set (br_after q)" "map_of (by_ref (tax s) ts) ref = Some i"
        by (auto simp: added_links_def lp split: option.splits)
      then show ?thesis using picked_spells(2) [OF c ts q(4)] True unfolding rows_of_scope_def lp by auto
    qed
  qed
next
  note scope = set_scope_terms [OF c]
  fix l assume l: "l \<in> rows_of_scope rows s"
  obtain ob i where lp: "l = (ob, i)" by (cases l) auto
  show "l \<in> ?K \<union> ?L"
  proof (cases "ob \<in> br_subject ` set rows")
    case False
    then have "\<forall>r\<in>set rows. l \<notin> set (dropped_links s r)" by (auto simp: dropped_links_def lp)
    then show ?thesis using l False by (simp add: rows_of_scope_def lp)
  next
    case True
    then obtain r ref where r: "r \<in> set rows" "br_subject r = ob" "ref \<in> set (br_after r)" "spells s i ref"
      using l by (auto simp: rows_of_scope_def lp)
    show ?thesis
    proof (cases "(ob, i) \<in> set (lb_scope s)")
      case linked: True
      have "(ob, i) \<notin> set (dropped_links s q)" if q: "q \<in> set rows" for q
      proof
        assume "(ob, i) \<in> set (dropped_links s q)"
        then obtain ref' where ref': "br_subject q = ob" "ref' \<notin> set (br_after q)" "(ref', i) \<in> set (obligation_scope_terms ob s)"
          by (auto simp: dropped_links_def)
        then have "q = r" using sub q r(1,2) by (auto simp: distinct_map inj_on_def)
        moreover have "ref' = ref" using ref'(3) scope spells_fun(1) [OF c] r(4) by auto
        ultimately show False using ref'(2) r(3) by simp
      qed
      then show ?thesis using linked lp by blast
    next
      case free: False
      have new: "ref \<notin> fst ` set (obligation_scope_terms (br_subject r) s)"
      proof
        assume "ref \<in> fst ` set (obligation_scope_terms (br_subject r) s)"
        then obtain j where "(ob, j) \<in> set (lb_scope s)" "spells s j ref" using scope r(2) by auto
        then show False using free spells_fun(2) [OF c r(4)] by blast
      qed
      then have "map_of (obligation_scope_terms (br_subject r) s) ref = None" by (simp add: map_of_eq_None_iff)
      moreover have "picked (obligation_scope_terms (br_subject r) s) (by_ref (tax s) ts) ref \<noteq> None" using found r(1,3) by blast
      ultimately obtain j where j: "map_of (by_ref (tax s) ts) ref = Some j" by (auto simp: picked_def)
      then have "j = i" using picked_spells(2) [OF c ts j] spells_fun(2) [OF c] r(4) by blast
      then have "l \<in> set (added_links (by_ref (tax s) ts) s r)"
        unfolding added_links_def set_concat set_map set_filter lp using new r(2,3) j
        by (intro UN_I [of "[(ob, i)]"] image_eqI [of _ _ ref]) simp_all
      then show ?thesis using r(1) by blast
    qed
  qed
qed

lemma opt_in_restrict: "set is \<subseteq> set js \<Longrightarrow> set is \<inter> set (opt_in_terms js s) = set (opt_in_terms is s)"
  by (auto simp: opt_in_terms_def)

text \<open>The ids a row leaves its obligation with are those its spellings name.\<close>

lemma row_scopes_spelled:
  assumes c: "catalog_ok s" and ts: "set ts \<subseteq> set (tx_terms (tax s))"
    and rs: "row_scopes (by_ref (tax s) ts) s rows = Inr scopes" and oi: "(o', r, is) \<in> set scopes"
  shows "set is = {i. \<exists>ref\<in>set (br_after r). spells s i ref}" and "\<forall>ref\<in>set (br_after r). \<exists>i. spells s i ref"
    and "\<forall>ref\<in>set (br_after r). picked (obligation_scope_terms (br_subject r) s) (by_ref (tax s) ts) ref \<noteq> None"
proof -
  let ?P = "picked (obligation_scope_terms (br_subject r) s) (by_ref (tax s) ts)"
  have m: "map ?P (br_after r) = map Some is" using row_scopes_Inr(2) [OF rs oi] by blast
  have im: "?P ` set (br_after r) = Some ` set is" using arg_cong [OF m, of set] by simp
  show found: "\<forall>ref\<in>set (br_after r). ?P ref \<noteq> None" using im by blast
  then show "\<forall>ref\<in>set (br_after r). \<exists>i. spells s i ref" using picked_spells(1) [OF c ts] by blast
  show "set is = {i. \<exists>ref\<in>set (br_after r). spells s i ref}"
  proof (intro set_eqI iffI)
    fix i assume "i \<in> set is"
    then have "Some i \<in> ?P ` set (br_after r)" unfolding im by simp
    then obtain ref where "ref \<in> set (br_after r)" "?P ref = Some i" by (metis imageE)
    then show "i \<in> {i. \<exists>ref\<in>set (br_after r). spells s i ref}" using picked_spells(1) [OF c ts] by blast
  next
    fix i assume "i \<in> {i. \<exists>ref\<in>set (br_after r). spells s i ref}"
    then obtain ref where ref: "ref \<in> set (br_after r)" "spells s i ref" by blast
    then obtain j where j: "?P ref = Some j" using found by blast
    then have "j = i" using spells_fun(2) [OF c ref(2) picked_spells(1) [OF c ts j]] by simp
    then have "Some i \<in> Some ` set is" unfolding im [symmetric] using j ref(1) by force
    then show "i \<in> set is" by blast
  qed
qed

text \<open>An approved row as it was checked: the record in force with the scope it was previewed from, and the terms
  it is left with admitted by the standards check.\<close>

definition checked_row ::
    "retag_settings \<Rightarrow> uuid option \<Rightarrow> proposal \<Rightarrow> scope_change list \<Rightarrow> uuid list \<Rightarrow> library \<Rightarrow> batch_row \<Rightarrow> bool" where
  "checked_row bs zone p changes opt_in s r \<longleftrightarrow> (\<exists>o' is. active_shared_obligation (br_subject r) s = Some o' \<and>
     scope_refs (br_subject r) s = br_before r \<and> set is = {i. \<exists>ref\<in>set (br_after r). spells s i ref} \<and>
     (\<forall>ref\<in>set (br_after r). \<exists>i. spells s i ref) \<and>
     set is \<inter> set opt_in = set (opt_in_terms is s) \<and> row_standard bs zone p changes opt_in s (o', r, is))"

text \<open>What is not the links, the index and the audit trail stays.\<close>

definition same_but_scope :: "library \<Rightarrow> library \<Rightarrow> bool" where
  "same_but_scope s t \<longleftrightarrow> tax t = tax s \<and> db_vocab (lb_db t) = db_vocab (lb_db s) \<and> db_now (lb_db t) = db_now (lb_db s) \<and>
    db_next (lb_db s) \<le> db_next (lb_db t) \<and> lb_active_terms t = lb_active_terms s \<and> lb_instruments t = lb_instruments s \<and>
    lb_obligations t = lb_obligations s \<and> lb_provision_keys t = lb_provision_keys s \<and> lb_runs t = lb_runs s \<and>
    lb_proposals t = lb_proposals s \<and> lb_rows t = lb_rows s"

lemma obligation_scope_parts:
  assumes c: "catalog_ok s" and os: "obligation_scope bs zone changes rows p actr step_up s = Inr s'"
  shows "\<exists>ts scopes dropped links entries. set ts \<subseteq> set (tx_terms (tax s)) \<and>
    row_scopes (by_ref (tax s) ts) s rows = Inr scopes \<and>
    scope_links bs zone p changes actr step_up (by_ref (tax s) ts)
      (opt_in_terms (concat (map (\<lambda>(_, _, is). is) scopes)) s) s scopes = Inr (dropped, links, entries) \<and>
    (\<exists>s1. relink dropped links (map br_subject rows) s = Inr s1 \<and> s' = fold lb_record entries s1)"
proof -
  define wanted where "wanted = sort (remdups (concat (map (\<lambda>r. filter (\<lambda>ref. ref \<notin> fst ` set (obligation_scope_terms (br_subject r) s))
           (br_after r)) rows)))"
  from os obtain ts where ts: "(if wanted = [] then Inr [] else terms_of wanted s) = Inr ts"
    and rest: "\<exists>scopes dropped links entries. row_scopes (by_ref (tax s) ts) s rows = Inr scopes \<and>
      scope_links bs zone p changes actr step_up (by_ref (tax s) ts)
        (opt_in_terms (concat (map (\<lambda>(_, _, is). is) scopes)) s) s scopes = Inr (dropped, links, entries) \<and>
      (\<exists>s1. relink dropped links (map br_subject rows) s = Inr s1 \<and> s' = fold lb_record entries s1)"
    unfolding obligation_scope_def Let_def wanted_def [symmetric] by (auto simp: ebind_eq_Inr)
  moreover have "set ts \<subseteq> set (tx_terms (tax s))" using ts terms_of_Inr(1) [of wanted s ts] by (auto split: if_splits)
  ultimately show ?thesis by blast
qed

lemma obligation_scope_effect:
  assumes c: "catalog_ok s" and sub: "distinct (map br_subject rows)"
    and os: "obligation_scope bs zone changes rows p actr step_up s = Inr s'"
  shows "set (lb_scope s') = rows_of_scope rows s" and "distinct (lb_scope s')" and "same_but_scope s s'"
    and "\<exists>opt_in. \<forall>r\<in>set rows. checked_row bs zone p changes opt_in s r"
proof -
  obtain ts scopes dropped links entries s1 where ts: "set ts \<subseteq> set (tx_terms (tax s))"
    and rs: "row_scopes (by_ref (tax s) ts) s rows = Inr scopes"
    and sl: "scope_links bs zone p changes actr step_up (by_ref (tax s) ts)
        (opt_in_terms (concat (map (\<lambda>(_, _, is). is) scopes)) s) s scopes = Inr (dropped, links, entries)"
    and rl: "relink dropped links (map br_subject rows) s = Inr s1" and s': "s' = fold lb_record entries s1"
    using obligation_scope_parts [OF c os] by blast
  note rows = row_scopes_Inr [OF rs]
  have ids: "\<forall>(o', r, is)\<in>set scopes. ro_id o' = br_subject r" using rows(2) by fastforce
  note parts = sl [unfolded scope_links_Inr [OF ids]]
  have of_row: "\<exists>o' is. (o', r, is) \<in> set scopes" if "r \<in> set rows" for r
    using that unfolding rows(1) [symmetric] by force
  have found: "\<forall>r\<in>set rows. \<forall>ref\<in>set (br_after r). picked (obligation_scope_terms (br_subject r) s) (by_ref (tax s) ts) ref \<noteq> None"
    using of_row row_scopes_spelled(3) [OF c ts rs] by blast
  have sets: "set dropped = (\<Union>r\<in>set rows. set (dropped_links s r))"
    "set links = (\<Union>r\<in>set rows. set (added_links (by_ref (tax s) ts) s r))"
    using parts unfolding rows(1) [symmetric] by auto
  have s1: "s1 = s\<lparr>lb_scope := filter (\<lambda>l. l \<notin> set dropped) (lb_scope s) @ links, lb_reindexed := lb_reindexed s @ map br_subject rows\<rparr>"
    "distinct links" "set links \<inter> {l \<in> set (lb_scope s). l \<notin> set dropped} = {}"
    using rl by (auto simp: relink_def Let_def split: if_splits)
  show "set (lb_scope s') = rows_of_scope rows s"
    using relink_rows [OF c ts sub found] by (simp add: s' s1(1) sets set_eq_iff)
  have d: "distinct (lb_scope s)" using c by (simp add: catalog_ok_def Let_def)
  show "distinct (lb_scope s')" using s1(2,3) d by (auto simp: s' s1(1))
  have "db_next (lb_db s) \<le> db_next (lb_db s')" using fold_record_next [of s1 entries] by (simp add: s' s1(1))
  then show "same_but_scope s s'" by (simp add: same_but_scope_def s' s1(1))
  let ?opt = "opt_in_terms (concat (map (\<lambda>(_, _, is). is) scopes)) s"
  show "\<exists>opt_in. \<forall>r\<in>set rows. checked_row bs zone p changes opt_in s r"
  proof (intro exI [of _ ?opt] ballI)
    fix r assume r: "r \<in> set rows"
    obtain o' "is" where oi: "(o', r, is) \<in> set scopes" using of_row [OF r] by blast
    note row = rows(2) [OF oi]
    note spelled = row_scopes_spelled [OF c ts rs oi]
    have "set is \<subseteq> set (concat (map (\<lambda>(_, _, is). is) scopes))" using oi by force
    then have "set is \<inter> set ?opt = set (opt_in_terms is s)" by (rule opt_in_restrict)
    moreover have "row_standard bs zone p changes ?opt s (o', r, is)" using parts oi by (auto simp: list_all_iff)
    ultimately show "checked_row bs zone p changes ?opt s r"
      unfolding checked_row_def using row spelled by blast
  qed
qed

section \<open>Deciding rows\<close>

lemma decide_rows_Inr:
  assumes "decide_rows ids dec reason by at s = Inr s'"
  shows "s' = s\<lparr>lb_rows := map (\<lambda>r. if br_id r \<in> set ids \<and> br_decision r = ROW_PENDING then decided_as dec reason by at r else r) (lb_rows s)\<rparr>"
    and "r \<in> set (lb_rows s) \<Longrightarrow> br_id r \<in> set ids \<Longrightarrow> br_decision r = ROW_PENDING \<Longrightarrow>
      row_guard r (decided_as dec reason by at r) s \<and> row_checks (decided_as dec reason by at r)"
  using assms by (auto simp: decide_rows_def Let_def list_all_iff split: if_splits)

lemma decided_as_simps [simp]:
  "br_id (decided_as dec reason by at r) = br_id r" "br_proposal (decided_as dec reason by at r) = br_proposal r"
  "br_subject (decided_as dec reason by at r) = br_subject r" "br_subject_type (decided_as dec reason by at r) = br_subject_type r"
  "br_before (decided_as dec reason by at r) = br_before r" "br_after (decided_as dec reason by at r) = br_after r"
  "br_decision (decided_as dec reason by at r) = dec" "br_reason (decided_as dec reason by at r) = reason"
  "br_decided_by (decided_as dec reason by at r) = by" "br_decided_at (decided_as dec reason by at r) = Some at"
  "br_created_at (decided_as dec reason by at r) = br_created_at r"
  by (simp_all add: decided_as_def)

definition given_to :: "(batch_row \<times> given) list \<Rightarrow> uuid \<Rightarrow> given option" where
  "given_to chosen = map_of (map (\<lambda>(r, g). (br_id r, g)) chosen)"

lemma settled_given: "settled chosen by now r =
    (case given_to chosen (br_id r) of None \<Rightarrow> r | Some g \<Rightarrow> decided_as (fst g) (snd g) by now r)"
  by (simp add: settled_def given_to_def)

lemma given_to_in:
  assumes "distinct (map (\<lambda>(r, g). br_id r) chosen)"
  shows "given_to chosen i = Some g \<longleftrightarrow> (\<exists>r. (r, g) \<in> set chosen \<and> br_id r = i)"
  using assms by (induction chosen) (auto simp: given_to_def image_iff split: if_splits)

text \<open>The groups one by one: a row is given its decision when its group's turn comes.\<close>

lemma decide_groups_Inr:
  assumes "decide_groups gs chosen by now s = Inr s'" and "distinct gs" and d: "distinct (map (\<lambda>(r, g). br_id r) chosen)"
    and "\<forall>r\<in>set (lb_rows s). \<forall>g\<in>set gs. given_to chosen (br_id r) = Some g \<longrightarrow> br_decision r = ROW_PENDING"
  shows "s' = s\<lparr>lb_rows := map (\<lambda>r. case given_to chosen (br_id r) of None \<Rightarrow> r
      | Some g \<Rightarrow> if g \<in> set gs then decided_as (fst g) (snd g) by now r else r) (lb_rows s)\<rparr> \<and>
    (\<forall>r\<in>set (lb_rows s). \<forall>g\<in>set gs. given_to chosen (br_id r) = Some g \<longrightarrow>
      row_guard r (decided_as (fst g) (snd g) by now r) s \<and> row_checks (decided_as (fst g) (snd g) by now r))"
  using assms(1,2,4)
proof (induction gs arbitrary: s)
  case Nil
  have "map (\<lambda>r. case given_to chosen (br_id r) of None \<Rightarrow> r
      | Some g \<Rightarrow> if g \<in> set [] then decided_as (fst g) (snd g) by now r else r) (lb_rows s) = lb_rows s"
    by (rule map_idI) (simp split: option.splits)
  then show ?case using Nil by simp
next
  case (Cons g gs)
  let ?ids = "map (\<lambda>(r, _). br_id r) (filter (\<lambda>(_, g'). g' = g) chosen)"
  have mem: "i \<in> set ?ids \<longleftrightarrow> given_to chosen i = Some g" for i
    by (cases g) (force simp: given_to_in [OF d])
  obtain s1 where s1: "decide_rows ?ids (fst g) (snd g) by now s = Inr s1" and rest: "decide_groups gs chosen by now s1 = Inr s'"
    using Cons.prems(1) by (auto simp: ebind_eq_Inr)
  note one = decide_rows_Inr [OF s1]
  let ?step = "\<lambda>r. if given_to chosen (br_id r) = Some g then decided_as (fst g) (snd g) by now r else r"
  have rows1: "lb_rows s1 = map ?step (lb_rows s)" and other: "s1 = s\<lparr>lb_rows := lb_rows s1\<rparr>"
    unfolding one(1) mem using Cons.prems(3) by auto
  have pend: "\<forall>r\<in>set (lb_rows s1). \<forall>g'\<in>set gs. given_to chosen (br_id r) = Some g' \<longrightarrow> br_decision r = ROW_PENDING"
    using Cons.prems(2,3) by (auto simp: rows1 split: if_splits)
  have ih: "s' = s1\<lparr>lb_rows := map (\<lambda>r. case given_to chosen (br_id r) of None \<Rightarrow> r
      | Some g \<Rightarrow> if g \<in> set gs then decided_as (fst g) (snd g) by now r else r) (lb_rows s1)\<rparr>"
    and guards: "\<forall>r\<in>set (lb_rows s1). \<forall>g\<in>set gs. given_to chosen (br_id r) = Some g \<longrightarrow>
      row_guard r (decided_as (fst g) (snd g) by now r) s1 \<and> row_checks (decided_as (fst g) (snd g) by now r)"
    using Cons.IH [OF rest _ pend] Cons.prems(2) by auto
  have "g \<notin> set gs" using Cons.prems(2) by simp
  then have "s' = s\<lparr>lb_rows := map (\<lambda>r. case given_to chosen (br_id r) of None \<Rightarrow> r
      | Some g' \<Rightarrow> if g' \<in> set (g # gs) then decided_as (fst g') (snd g') by now r else r) (lb_rows s)\<rparr>"
    unfolding ih by (subst other) (auto simp: rows1 split: option.splits)
  moreover have "row_guard r (decided_as (fst g') (snd g') by now r) s \<and> row_checks (decided_as (fst g') (snd g') by now r)"
    if r: "r \<in> set (lb_rows s)" and g': "g' \<in> set (g # gs)" "given_to chosen (br_id r) = Some g'" for r g'
  proof (cases "g' = g")
    case True
    then show ?thesis using one(2) [OF r, unfolded mem] g'(2) Cons.prems(3) r by auto
  next
    case False
    then have "r \<in> set (lb_rows s1)" using r g'(2) by (force simp: rows1)
    moreover have "lb_proposals s1 = lb_proposals s" by (subst other) simp
    ultimately show ?thesis using guards g' False by (auto simp: row_guard_def)
  qed
  ultimately show ?case by blast
qed

lemma set_fromkeys [simp]: "set (fromkeys xs) = set xs" and distinct_fromkeys [simp]: "distinct (fromkeys xs)"
  by (simp_all add: fromkeys_def)

lemma decide_all_groups:
  assumes "decide_groups (fromkeys (map snd chosen)) chosen by now s = Inr s'" and d: "distinct (map (\<lambda>(r, g). br_id r) chosen)"
    and pend: "\<forall>r\<in>set (lb_rows s). given_to chosen (br_id r) \<noteq> None \<longrightarrow> br_decision r = ROW_PENDING"
  shows "s' = s\<lparr>lb_rows := map (settled chosen by now) (lb_rows s)\<rparr>"
    and "\<forall>r\<in>set (lb_rows s). given_to chosen (br_id r) \<noteq> None \<longrightarrow>
      row_guard r (settled chosen by now r) s \<and> row_checks (settled chosen by now r)"
proof -
  have cover: "given_to chosen i = Some g \<Longrightarrow> g \<in> set (map snd chosen)" for i g
    by (force simp: given_to_in [OF d])
  note all = decide_groups_Inr [OF assms(1) distinct_fromkeys d]
  have "settled chosen by now r = (case given_to chosen (br_id r) of None \<Rightarrow> r
      | Some g \<Rightarrow> if g \<in> set (fromkeys (map snd chosen)) then decided_as (fst g) (snd g) by now r else r)" for r
    using cover [of "br_id r"] by (auto simp: settled_given split: option.splits)
  then show "s' = s\<lparr>lb_rows := map (settled chosen by now) (lb_rows s)\<rparr>"
    using all pend by simp
  show "\<forall>r\<in>set (lb_rows s). given_to chosen (br_id r) \<noteq> None \<longrightarrow>
      row_guard r (settled chosen by now r) s \<and> row_checks (settled chosen by now r)"
  proof (intro ballI impI)
    fix r assume r: "r \<in> set (lb_rows s)" "given_to chosen (br_id r) \<noteq> None"
    then obtain g where g: "given_to chosen (br_id r) = Some g" by blast
    then have "g \<in> set (fromkeys (map snd chosen))" using cover by simp
    moreover have "\<forall>r\<in>set (lb_rows s). \<forall>g\<in>set (fromkeys (map snd chosen)). given_to chosen (br_id r) = Some g \<longrightarrow>
        row_guard r (decided_as (fst g) (snd g) by now r) s \<and> row_checks (decided_as (fst g) (snd g) by now r)"
      using all pend by simp
    ultimately have "row_guard r (decided_as (fst g) (snd g) by now r) s \<and> row_checks (decided_as (fst g) (snd g) by now r)"
      using r(1) g by blast
    then show "row_guard r (settled chosen by now r) s \<and> row_checks (settled chosen by now r)"
      using g by (simp add: settled_given)
  qed
qed

end
