(* ===== verification/Retag_System.thy ===== *)
theory Retag_System
  imports Retag_Laws
begin

text \<open>
  The batches of the library as a system: what one decision does, and the invariant that filing, deciding and
  everything else the program does keep.
\<close>

section \<open>One decision\<close>

definition same_shelf :: "library \<Rightarrow> library \<Rightarrow> bool" where
  "same_shelf s t \<longleftrightarrow> tax t = tax s \<and> db_vocab (lb_db t) = db_vocab (lb_db s) \<and> db_next (lb_db s) \<le> db_next (lb_db t) \<and>
    lb_active_terms t = lb_active_terms s \<and> lb_instruments t = lb_instruments s \<and>
    lb_obligations t = lb_obligations s \<and> lb_provision_keys t = lb_provision_keys s \<and> lb_runs t = lb_runs s"

lemma chosen_rows_Inr:
  assumes "chosen_rows named rest s rows = Inr chosen"
  shows "subseq (map fst chosen) rows" and
    "(r, g) \<in> set chosen \<Longrightarrow> (map_of named (br_id r) = Some g \<or> rest = Some g) \<and> (fst g = ROW_APPROVED \<longrightarrow> \<not> stale s r)"
proof -
  have "subseq (map fst chosen) rows \<and> (\<forall>(r, g)\<in>set chosen. (map_of named (br_id r) = Some g \<or> rest = Some g) \<and>
      (fst g = ROW_APPROVED \<longrightarrow> \<not> stale s r))"
    using assms
  proof (induction rows arbitrary: chosen)
    case (Cons r rows)
    then show ?case
      by (fastforce simp: ebind_eq_Inr split: option.splits if_splits)
  qed simp
  then show "subseq (map fst chosen) rows" and
    "(r, g) \<in> set chosen \<Longrightarrow> (map_of named (br_id r) = Some g \<or> rest = Some g) \<and> (fst g = ROW_APPROVED \<longrightarrow> \<not> stale s r)"
    by blast+
qed

text \<open>A decision that parses is an approval without a reason or a rejection with one.\<close>

definition proper :: "given \<Rightarrow> bool" where
  "proper g \<longleftrightarrow> (fst g = ROW_APPROVED \<and> snd g = None) \<or> (fst g = ROW_REJECTED \<and> snd g \<noteq> None)"

lemma decision_reason_proper: "decision_reason word raw s = Inr g \<Longrightarrow> proper g"
  by (auto simp: decision_reason_def DECISIONS_def proper_def Let_def split: option.splits if_splits)

lemma named_decisions_proper: "named_decisions seen rows s = Inr named \<Longrightarrow> (i, g) \<in> set named \<Longrightarrow> proper g"
  by (induction seen rows s arbitrary: named rule: named_decisions.induct) (auto simp: ebind_eq_Inr dest: decision_reason_proper)

lemma decisions_proper:
  assumes "decisions bd s = Inr (named, rest)"
  shows "(i, g) \<in> set named \<Longrightarrow> proper g" and "rest = Some g \<Longrightarrow> proper g"
  using assms by (auto simp: decisions_def ebind_eq_Inr dest: named_decisions_proper decision_reason_proper split: option.splits)

lemma set_rows_of [simp]: "set (rows_of i s) = {r \<in> set (lb_rows s). br_proposal r = i}"
  by (auto simp: rows_of_def)

lemma distinct_rows_of:
  "distinct (map f (rows_of i s)) \<longleftrightarrow> distinct (map f (filter (\<lambda>r. br_proposal r = i) (lb_rows s)))"
  by (simp add: distinct_map rows_of_def)

text \<open>What was read, checked and chosen by a decision that is answered.\<close>

definition deciding :: "uuid \<Rightarrow> batch_decision \<Rightarrow> reviewer \<Rightarrow> library \<Rightarrow> uuid \<Rightarrow> proposal \<Rightarrow> (batch_row \<times> given) list \<Rightarrow> bool" where
  "deciding i bd rv s u p chosen \<longleftrightarrow> rv_user rv = Some u \<and> p \<in> set (lb_proposals s) \<and> pp_id p = i \<and> pp_owner p = None \<and>
    pp_status p = P_OPEN \<and> pp_user p \<noteq> Some u \<and> requested_by p s \<noteq> Some u \<and> chosen \<noteq> [] \<and>
    subseq (map fst chosen) (filter (\<lambda>r. br_decision r = ROW_PENDING) (rows_of i s)) \<and>
    (\<forall>(r, g)\<in>set chosen. proper g \<and> (fst g = ROW_APPROVED \<longrightarrow> \<not> stale s r))"

lemma decide_Inr:
  assumes "decide bs zone i bd rv step_up s = Inr (p', s')"
  shows "\<exists>u p chosen. zone = None \<and> deciding i bd rv s u p chosen \<and>
    write_decision bs None p (rows_of i s) chosen rv step_up (strip (bd_note bd)) s = Inr (p', s')"
proof -
  from assms obtain named rest p chosen where d: "decisions bd s = Inr (named, rest)" and u: "rv_user rv \<noteq> None" and z: "zone = None"
    and p: "find (\<lambda>p. pp_id p = i \<and> visible zone (pp_owner p)) (lb_proposals s) = Some p" "pp_status p = P_OPEN"
      "pp_user p \<noteq> rv_user rv" "requested_by p s \<noteq> rv_user rv"
    and ch: "chosen_rows named rest s (filter (\<lambda>r. br_decision r = ROW_PENDING) (rows_of i s)) = Inr chosen" "chosen \<noteq> []"
    and w: "write_decision bs zone p (rows_of i s) chosen rv step_up (strip (bd_note bd)) s = Inr (p', s')"
    unfolding decide_def Let_def by (auto simp: inr_simps)
  note rows = chosen_rows_Inr [OF ch(1)]
  have "proper g \<and> (fst g = ROW_APPROVED \<longrightarrow> \<not> stale s r)" if "(r, g) \<in> set chosen" for r g
    using rows(2) [OF that] decisions_proper [OF d, where g = g] by (blast dest: map_of_SomeD)
  then have "deciding i bd rv s (the (rv_user rv)) p chosen"
    using p u ch(2) rows(1) find_Some_in [OF p(1)] z by (auto simp: deciding_def visible_def)
  then show ?thesis using w z by blast
qed

text \<open>The rows approved by a decision.\<close>

definition approved_rows :: "(batch_row \<times> given) list \<Rightarrow> batch_row list" where
  "approved_rows chosen = map fst (filter (\<lambda>(_, g). fst g = ROW_APPROVED) chosen)"

lemma close_batch_Inr:
  assumes "close_batch p rows rv now note s = Inr (p', s')" and "p \<in> set (lb_proposals s)" and "distinct (map pp_id (lb_proposals s))"
  shows "s' = s\<lparr>lb_proposals := put_row pp_id p' (lb_proposals s)\<rparr>"
    and "pp_id p' = pp_id p \<and> pp_is_batch p' = pp_is_batch p \<and> pp_row_count p' = pp_row_count p \<and> pp_user p' = pp_user p \<and>
      pp_owner p' = pp_owner p \<and> pp_agent_run p' = pp_agent_run p \<and> pp_kind p' = pp_kind p"
    and "if list_all (\<lambda>r. br_decision r \<noteq> ROW_PENDING) rows
      then pp_status p' = (if list_ex (\<lambda>r. br_decision r = ROW_APPROVED) rows then P_APPROVED else P_REJECTED) \<and>
        pp_reviewed_by p' = rv_user rv \<and> (pp_applied_at p' \<noteq> None) = list_ex (\<lambda>r. br_decision r = ROW_APPROVED) rows \<and> proposal_checks p'
      else pp_status p' = pp_status p \<and> pp_reviewed_by p' = pp_reviewed_by p \<and> pp_applied_at p' = pp_applied_at p"
proof -
  have same: "put_row pp_id p (lb_proposals s) = lb_proposals s"
    using assms(2,3) by (induction "lb_proposals s") (auto simp: put_row_def distinct_map inj_on_def map_idI)
  show "s' = s\<lparr>lb_proposals := put_row pp_id p' (lb_proposals s)\<rparr>"
    using assms(1) same by (auto simp: close_batch_def save_proposal_def Let_def ebind_eq_Inr split: if_splits)
  show "pp_id p' = pp_id p \<and> pp_is_batch p' = pp_is_batch p \<and> pp_row_count p' = pp_row_count p \<and> pp_user p' = pp_user p \<and>
      pp_owner p' = pp_owner p \<and> pp_agent_run p' = pp_agent_run p \<and> pp_kind p' = pp_kind p"
    using assms(1) by (auto simp: close_batch_def save_proposal_def Let_def ebind_eq_Inr split: if_splits)
  show "if list_all (\<lambda>r. br_decision r \<noteq> ROW_PENDING) rows
      then pp_status p' = (if list_ex (\<lambda>r. br_decision r = ROW_APPROVED) rows then P_APPROVED else P_REJECTED) \<and>
        pp_reviewed_by p' = rv_user rv \<and> (pp_applied_at p' \<noteq> None) = list_ex (\<lambda>r. br_decision r = ROW_APPROVED) rows \<and> proposal_checks p'
      else pp_status p' = pp_status p \<and> pp_reviewed_by p' = pp_reviewed_by p \<and> pp_applied_at p' = pp_applied_at p"
    using assms(1) by (auto simp: close_batch_def save_proposal_def Let_def ebind_eq_Inr split: if_splits)
qed

lemma apply_rows_Inr:
  assumes "apply_rows bs zone p actr step_up rows s = Inr s'"
  shows "\<exists>changes. obligation_scope bs zone changes rows p actr step_up s = Inr s'"
  using assms by (auto simp: apply_rows_def ebind_eq_Inr split: payload.splits)

lemma rows_of_no_scope [simp]: "rows_of_scope [] s = set (lb_scope s)"
  by (auto simp: rows_of_scope_def)

lemma row_guard_proposals: "lb_proposals t = lb_proposals s \<Longrightarrow> row_guard old new t = row_guard old new s"
  by (simp add: row_guard_def)

text \<open>Everything a written decision does: the links of the approved rows, the rows, their batch.\<close>

lemma write_decision_Inr:
  assumes w: "write_decision bs zone p rows chosen rv step_up note s = Inr (p', s')"
    and c: "catalog_ok s" and p: "p \<in> set (lb_proposals s)" "distinct (map pp_id (lb_proposals s))"
    and d: "distinct (map (\<lambda>(r, g). br_id r) chosen)" "distinct (map br_subject (map fst chosen))"
    and pend: "\<forall>r\<in>set (lb_rows s). given_to chosen (br_id r) \<noteq> None \<longrightarrow> br_decision r = ROW_PENDING"
  shows "set (lb_scope s') = rows_of_scope (approved_rows chosen) s" and "distinct (lb_scope s')" and "same_shelf s s'"
    and "lb_rows s' = map (settled chosen (rv_user rv) (db_now (lb_db s))) (lb_rows s)"
    and "lb_proposals s' = put_row pp_id p' (lb_proposals s)"
    and "\<exists>t. close_batch p (map (settled chosen (rv_user rv) (db_now (lb_db s))) rows) rv (db_now (lb_db s)) note t = Inr (p', t\<lparr>lb_proposals := lb_proposals s'\<rparr>) \<and>
      lb_proposals t = lb_proposals s"
    and "\<forall>r\<in>set (lb_rows s). given_to chosen (br_id r) \<noteq> None \<longrightarrow>
      row_guard r (settled chosen (rv_user rv) (db_now (lb_db s)) r) s \<and> row_checks (settled chosen (rv_user rv) (db_now (lb_db s)) r)"
    and "\<exists>changes opt_in. \<forall>r\<in>set (approved_rows chosen). checked_row bs zone p changes opt_in s r"
proof -
  let ?now = "db_now (lb_db s)"
  let ?ap = "approved_rows chosen"
  from w obtain s1 s2 s3 where s1: "(if ?ap = [] then Inr s else apply_rows bs zone p (rv_actor rv) step_up ?ap s) = Inr s1"
    and s2: "decide_groups (fromkeys (map snd chosen)) chosen (rv_user rv) ?now
      (fold lb_record (rejected_entries p rv step_up chosen s) s1) = Inr s2"
    and s3: "close_batch p (map (settled chosen (rv_user rv) ?now) rows) rv ?now note s2 = Inr (p', s3)"
    and s': "\<exists>e. s' = lb_record e s3"
    unfolding write_decision_def Let_def approved_rows_def [symmetric] by (auto simp: ebind_eq_Inr)
  have sub: "distinct (map br_subject ?ap)"
    using d(2) by (auto simp: approved_rows_def distinct_map_filter)
  have scope1: "set (lb_scope s1) = rows_of_scope ?ap s \<and> distinct (lb_scope s1) \<and> same_but_scope s s1"
  proof (cases "?ap = []")
    case True
    then show ?thesis using s1 c by (auto simp: same_but_scope_def catalog_ok_def Let_def)
  next
    case False
    then obtain changes where os: "obligation_scope bs zone changes ?ap p (rv_actor rv) step_up s = Inr s1"
      using s1 apply_rows_Inr by fastforce
    show ?thesis using obligation_scope_effect(1-3) [OF c sub os] by simp
  qed
  show "\<exists>changes opt_in. \<forall>r\<in>set (approved_rows chosen). checked_row bs zone p changes opt_in s r"
  proof (cases "?ap = []")
    case False
    then obtain changes where os: "obligation_scope bs zone changes ?ap p (rv_actor rv) step_up s = Inr s1"
      using s1 apply_rows_Inr by fastforce
    show ?thesis using obligation_scope_effect(4) [OF c sub os] by blast
  qed simp
  let ?t = "fold lb_record (rejected_entries p rv step_up chosen s) s1"
  have t: "lb_rows ?t = lb_rows s" "lb_proposals ?t = lb_proposals s" using scope1 by (simp_all add: same_but_scope_def)
  have "\<forall>r\<in>set (lb_rows ?t). given_to chosen (br_id r) \<noteq> None \<longrightarrow> br_decision r = ROW_PENDING" using pend t by simp
  note groups = decide_all_groups [OF s2 d(1) this]
  have s2': "s2 = ?t\<lparr>lb_rows := map (settled chosen (rv_user rv) ?now) (lb_rows s)\<rparr>" using groups(1) t by simp
  have p2: "p \<in> set (lb_proposals s2)" "distinct (map pp_id (lb_proposals s2))" using p t by (simp_all add: s2')
  note close = close_batch_Inr [OF s3 p2]
  obtain e where e: "s' = lb_record e s3" using s' by blast
  show "set (lb_scope s') = rows_of_scope ?ap s" "distinct (lb_scope s')"
    using scope1 by (simp_all add: e close(1) s2' lb_record_def)
  show "lb_rows s' = map (settled chosen (rv_user rv) ?now) (lb_rows s)"
    by (simp add: e close(1) s2' lb_record_def)
  show props: "lb_proposals s' = put_row pp_id p' (lb_proposals s)"
    using t by (simp add: e close(1) s2' lb_record_def)
  have "db_next (lb_db s1) \<le> db_next (lb_db ?t)" by (rule fold_record_next)
  then have "db_next (lb_db s) \<le> db_next (lb_db ?t)" using scope1 by (simp add: same_but_scope_def)
  then show "same_shelf s s'"
    using scope1 by (simp add: same_shelf_def same_but_scope_def e close(1) s2' lb_record_def record_event_frame)
  have "lb_proposals s2 = lb_proposals s" using t by (simp add: s2')
  then show "\<exists>t. close_batch p (map (settled chosen (rv_user rv) ?now) rows) rv ?now note t = Inr (p', t\<lparr>lb_proposals := lb_proposals s'\<rparr>) \<and>
      lb_proposals t = lb_proposals s"
    using s3 close(1) props by (intro exI [of _ s2]) simp
  show "\<forall>r\<in>set (lb_rows s). given_to chosen (br_id r) \<noteq> None \<longrightarrow>
      row_guard r (settled chosen (rv_user rv) ?now r) s \<and> row_checks (settled chosen (rv_user rv) ?now r)"
    using groups(2) t by (simp add: row_guard_proposals [OF t(2)])
qed

section \<open>Filing\<close>

lemma normalized_changes_Inr:
  assumes "normalized_changes seen cs = Inr out"
  shows "map sc_obligation out = map sc_obligation cs" and "distinct (map sc_obligation out)"
    and "\<forall>c\<in>set out. sc_obligation c \<notin> set seen \<and> set (sc_add c) \<inter> set (sc_remove c) = {}"
proof -
  have "map sc_obligation out = map sc_obligation cs \<and> distinct (map sc_obligation out) \<and>
    (\<forall>c\<in>set out. sc_obligation c \<notin> set seen \<and> set (sc_add c) \<inter> set (sc_remove c) = {})"
    using assms
  proof (induction seen cs arbitrary: out rule: normalized_changes.induct)
    case (2 seen c cs)
    from 2(2) obtain rest where c: "sc_obligation c \<notin> set seen" "set (sc_add c) \<inter> set (sc_remove c) = {}"
      and rest: "normalized_changes (sc_obligation c # seen) cs = Inr rest"
      and out: "out = c\<lparr>sc_add := fromkeys (sc_add c), sc_remove := fromkeys (sc_remove c), sc_source := strip (sc_source c)\<rparr> # rest"
      by (auto simp: inr_simps Let_def)
    have ih: "map sc_obligation rest = map sc_obligation cs \<and> distinct (map sc_obligation rest) \<and>
      (\<forall>c'\<in>set rest. sc_obligation c' \<notin> set (sc_obligation c # seen) \<and> set (sc_add c') \<inter> set (sc_remove c') = {})"
      by (rule 2(1) [OF refl refl refl rest])
    then have "sc_obligation c \<notin> set (map sc_obligation cs)" by (auto simp flip: ih [THEN conjunct1])
    then show ?case using ih c out by auto
  qed simp
  then show "map sc_obligation out = map sc_obligation cs" "distinct (map sc_obligation out)"
    "\<forall>c\<in>set out. sc_obligation c \<notin> set seen \<and> set (sc_add c) \<inter> set (sc_remove c) = {}"
    by blast+
qed

text \<open>Each previewed row: its scope as it is, its scope as the entry asks, checked.\<close>

definition previewed ::
    "retag_settings \<Rightarrow> uuid option \<Rightarrow> (string \<times> uuid) list \<Rightarrow> string \<Rightarrow> library \<Rightarrow> scope_change \<Rightarrow>
     uuid \<times> string list \<times> string list \<Rightarrow> bool" where
  "previewed bs zone term_ids source_label s c row \<longleftrightarrow> (\<exists>after o' instr. row = (sc_obligation c, scope_refs (sc_obligation c) s, sort (remdups (map fst after))) \<and>
     scope_after term_ids c s = Inr after \<and> set (map fst after) \<noteq> set (scope_refs (sc_obligation c) s) \<and>
     active_shared_obligation (sc_obligation c) s = Some o' \<and> instrument_of o' s = Inr instr \<and>
     standards_check (bs_is_link bs) zone OBLIGATION_SCOPE instr (Some (map snd after)) [(''terms'', sc_source c)] None source_label None s = Inr ())"

lemma preview_rows_Inr:
  "preview_rows bs zone term_ids source_label s cs = Inr (rows, []) \<Longrightarrow> list_all2 (previewed bs zone term_ids source_label s) cs rows"
proof (induction cs arbitrary: rows)
  case (Cons c cs)
  then obtain after where after: "scope_after term_ids c s = Inr after" by (auto simp: ebind_eq_Inr Let_def)
  show ?case
  proof (cases "set (map fst after) = set (scope_refs (sc_obligation c) s)")
    case True
    then show ?thesis using Cons.prems after by (auto simp: ebind_eq_Inr)
  next
    case False
    then obtain o' instr rest where "active_shared_obligation (sc_obligation c) s = Some o'" "instrument_of o' s = Inr instr"
      "standards_check (bs_is_link bs) zone OBLIGATION_SCOPE instr (Some (map snd after)) [(''terms'', sc_source c)] None source_label None s = Inr ()"
      "preview_rows bs zone term_ids source_label s cs = Inr (rest, [])"
      "rows = (sc_obligation c, scope_refs (sc_obligation c) s, sort (remdups (map fst after))) # rest"
      using Cons.prems after by (auto simp: ebind_eq_Inr or_else_eq_Inr)
    then show ?thesis using Cons.IH after False by (auto simp: previewed_def)
  qed
qed simp

lemma preview_Inr:
  assumes "preview bs zone cs source_label s = Inr rows"
  shows "\<exists>refs ts. (if refs = [] then Inr [] else terms_of refs s) = Inr ts \<and> set ts \<subseteq> set (tx_terms (tax s)) \<and>
    refuse_mirrored (map tm_dimension ts) s = Inr () \<and> (\<forall>c\<in>set cs. set (sc_add c) \<union> set (sc_remove c) \<subseteq> set refs) \<and>
    list_all2 (previewed bs zone (by_ref (tax s) ts) source_label s) cs rows"
proof -
  define refs where "refs = sort (remdups (concat (map (\<lambda>c. sc_add c @ sc_remove c) cs)))"
  from assms obtain ts same where ts: "(if refs = [] then Inr [] else terms_of refs s) = Inr ts"
    and m: "refuse_mirrored (map tm_dimension ts) s = Inr ()"
    and rows: "preview_rows bs zone (by_ref (tax s) ts) source_label s cs = Inr (rows, [])"
    unfolding preview_def Let_def refs_def [symmetric] by (auto simp: inr_simps)
  have "set ts \<subseteq> set (tx_terms (tax s))" using ts terms_of_Inr(1) [of refs s ts] by (auto split: if_splits)
  moreover have "\<forall>c\<in>set cs. set (sc_add c) \<union> set (sc_remove c) \<subseteq> set refs" by (auto simp: refs_def)
  ultimately show ?thesis using ts m preview_rows_Inr [OF rows] by blast
qed

text \<open>An answered submission: the batch an earlier one filed, or a new one with a pending row per entry.\<close>

definition new_rows :: "(uuid \<times> string list \<times> string list) list \<Rightarrow> library \<Rightarrow> batch_row list" where
  "new_rows rows s = map (\<lambda>(i, row). pending_row (Suc (db_next (lb_db s)) + i) (db_next (lb_db s)) (db_now (lb_db s)) row) (enumerate 0 rows)"

lemma file_batch_Inr:
  assumes "file_batch b pr flags stored rows s = Inr (p, s')"
  shows "p = batch_proposal b pr flags stored (length rows) s \<and> proposal_checks p \<and> \<not> retry_key_taken p s \<and>
    (\<exists>e. s' = lb_record e (s\<lparr>lb_db := (lb_db s)\<lparr>db_next := Suc (pp_id p) + length rows\<rparr>,
        lb_proposals := lb_proposals s @ [p], lb_rows := lb_rows s @ new_rows rows s\<rparr>))"
proof -
  have pid: "pp_id (batch_proposal b pr flags stored (length rows) s) = db_next (lb_db s)" by (simp add: batch_proposal_def)
  show ?thesis
    using assms by (auto simp: file_batch_def Let_def ebind_eq_Inr insert_proposal_def retry_key_taken_def new_rows_def pid split: if_splits)
qed

lemma create_batch_parts:
  assumes "create_batch bs zone b pr s = Inr ((p, fresh), s')"
  obtains run stored where "batch_checked bs zone b pr s = Inr (run, stored)" "\<not> fresh" "p \<in> set (lb_proposals s)" "\<exists>e. s' = lb_record e s"
  | run stored rows flags where "batch_checked bs zone b pr s = Inr (run, stored)" "fresh"
      "batch_replay zone b pr stored s = Inr None" "preview bs zone stored (strip (bi_source_label b)) s = Inr rows"
      "file_batch b pr flags stored rows s = Inr (p, s')"
proof -
  from assms obtain run stored earlier where ch: "batch_checked bs zone b pr s = Inr (run, stored)"
    and re: "batch_replay zone b pr stored s = Inr earlier"
    and rest: "(case earlier of
      Some p \<Rightarrow> Inr ((p, False), lb_record (replayed_entry pr p (the (bi_retry_key b))) s)
    | None \<Rightarrow>
        ebind (preview bs zone stored (strip (bi_source_label b)) s) (\<lambda>rows.
        ebind (case run of None \<Rightarrow> Inr () | Some r \<Rightarrow> spend r (bs_run_max_proposals bs) s) (\<lambda>_.
        ebind (file_batch b pr (screen_all (bs_screen bs) (strip (bi_title b) # bi_model b # strip (bi_source_label b) #
          strip (bi_source_url b) # map sc_source stored)) stored rows s) (\<lambda>(p, s').
        Inr ((p, True), s'))))) = Inr ((p, fresh), s')"
    unfolding create_batch_def by (auto simp: ebind_eq_Inr)
  show ?thesis
  proof (cases earlier)
    case (Some q)
    then have "q \<in> set (lb_proposals s)"
      using re by (auto simp: batch_replay_def already_filed_def ebind_eq_Inr split: option.splits if_splits dest: find_Some_in)
    then show ?thesis using that(1) [OF ch] rest Some by auto
  next
    case None
    then show ?thesis using that(2) [OF ch] re rest by (auto simp: ebind_eq_Inr)
  qed
qed

lemma batch_checked_Inr:
  assumes "batch_checked bs zone b pr s = Inr (run, stored)"
  shows "zone = None" and "normalized bs (bi_changes b) = Inr stored" and "bi_kind b = OBLIGATION_SCOPE"
  using assms by (auto simp: batch_checked_def inr_simps BATCH_KINDS_def)

lemma create_batch_fresh:
  assumes "create_batch bs zone b pr s = Inr ((p, True), s')"
  obtains run stored rows flags e where "batch_checked bs zone b pr s = Inr (run, stored)"
    "batch_replay zone b pr stored s = Inr None" "preview bs None stored (strip (bi_source_label b)) s = Inr rows"
    "p = batch_proposal b pr flags stored (length rows) s" "proposal_checks p" "\<not> retry_key_taken p s"
    "s' = lb_record e (s\<lparr>lb_db := (lb_db s)\<lparr>db_next := Suc (pp_id p) + length rows\<rparr>,
        lb_proposals := lb_proposals s @ [p], lb_rows := lb_rows s @ new_rows rows s\<rparr>)"
  using assms
proof (cases rule: create_batch_parts)
  case (2 run stored rows flags)
  then show ?thesis using that file_batch_Inr [OF 2(5)] batch_checked_Inr(1) [OF 2(1)] by blast
qed simp

lemma create_batch_replayed:
  "create_batch bs zone b pr s = Inr ((p, False), s') \<Longrightarrow> p \<in> set (lb_proposals s) \<and> (\<exists>e. s' = lb_record e s)"
  by (erule create_batch_parts) auto

lemma pending_row_simps [simp]:
  "br_subject (pending_row i p now row) = fst row" "br_id (pending_row i p now row) = i"
  by (simp_all add: pending_row_def split: prod.split)

lemma new_rows_simps:
  "map br_subject (new_rows rows s) = map fst rows" "length (new_rows rows s) = length rows"
  "map br_id (new_rows rows s) = [Suc (db_next (lb_db s))..<Suc (db_next (lb_db s)) + length rows]"
  "r \<in> set (new_rows rows s) \<Longrightarrow> br_proposal r = db_next (lb_db s) \<and> br_decision r = ROW_PENDING \<and> row_checks r \<and>
    br_subject_type r = OBLIGATION_TARGET \<and> (br_subject r, br_before r, br_after r) \<in> set rows"
proof -
  have sub: "map (\<lambda>(i, row). br_subject (pending_row (m + i) q now row)) (enumerate k rows) = map fst rows"
    and ids: "map (\<lambda>(i, row). br_id (pending_row (m + i) q now row)) (enumerate k rows) = map (\<lambda>i. m + i) [k..<k + length rows]" for m q now k
    by (induction rows arbitrary: k) (auto simp: upt_conv_Cons simp del: upt.simps)
  show "map br_subject (new_rows rows s) = map fst rows"
    using sub [of "Suc (db_next (lb_db s))" "db_next (lb_db s)" "db_now (lb_db s)" 0] by (simp add: new_rows_def comp_def case_prod_unfold)
  have "map br_id (new_rows rows s) = map (\<lambda>i. Suc (db_next (lb_db s)) + i) [0..<length rows]"
    using ids [of "Suc (db_next (lb_db s))" "db_next (lb_db s)" "db_now (lb_db s)" 0] by (simp add: new_rows_def comp_def case_prod_unfold)
  then show "map br_id (new_rows rows s) = [Suc (db_next (lb_db s))..<Suc (db_next (lb_db s)) + length rows]"
    by (simp only: map_add_upt [symmetric] add.commute)
  show "length (new_rows rows s) = length rows" by (simp add: new_rows_def)
  show "br_proposal r = db_next (lb_db s) \<and> br_decision r = ROW_PENDING \<and> row_checks r \<and>
    br_subject_type r = OBLIGATION_TARGET \<and> (br_subject r, br_before r, br_after r) \<in> set rows" if "r \<in> set (new_rows rows s)"
    using that by (auto simp: new_rows_def pending_row_def row_checks_def in_set_enumerate_eq) (metis nth_mem)
qed

section \<open>The invariant\<close>

text \<open>A batch and its rows: as many as it counts, each once, each decided by somebody other than the person who
  proposed it; open while a row is pending, and then what its rows say.\<close>

definition good_row :: "proposal \<Rightarrow> batch_row \<Rightarrow> bool" where
  "good_row p r \<longleftrightarrow> row_checks r \<and> br_subject_type r = OBLIGATION_TARGET \<and>
    (br_decision r \<noteq> ROW_PENDING \<longrightarrow> br_decided_by r \<noteq> None \<and> br_decided_by r \<noteq> pp_user p)"

definition good_batch :: "proposal \<Rightarrow> batch_row list \<Rightarrow> bool" where
  "good_batch p rows \<longleftrightarrow> pp_kind p = OBLIGATION_SCOPE \<and> rows \<noteq> [] \<and> length rows = pp_row_count p \<and> distinct (map br_subject rows) \<and>
    list_all (good_row p) rows \<and>
    (if list_ex (\<lambda>r. br_decision r = ROW_PENDING) rows
     then pp_status p = P_OPEN \<and> pp_reviewed_by p = None \<and> pp_applied_at p = None
     else pp_status p = (if list_ex (\<lambda>r. br_decision r = ROW_APPROVED) rows then P_APPROVED else P_REJECTED) \<and>
       pp_reviewed_by p \<noteq> None \<and> pp_reviewed_by p \<noteq> pp_user p \<and>
       (pp_applied_at p \<noteq> None) = list_ex (\<lambda>r. br_decision r = ROW_APPROVED) rows)"

definition batch_rows :: "uuid \<Rightarrow> library \<Rightarrow> batch_row list" where
  "batch_rows i s = filter (\<lambda>r. br_proposal r = i) (lb_rows s)"

definition batches_ok :: "library \<Rightarrow> bool" where
  "batches_ok s \<longleftrightarrow> distinct (map pp_id (lb_proposals s)) \<and> (\<forall>p\<in>set (lb_proposals s). pp_id p < db_next (lb_db s)) \<and>
    distinct (map br_id (lb_rows s)) \<and> (\<forall>r\<in>set (lb_rows s). br_id r < db_next (lb_db s)) \<and>
    (\<forall>r\<in>set (lb_rows s). \<exists>p\<in>set (lb_proposals s). pp_id p = br_proposal r \<and> pp_is_batch p) \<and>
    (\<forall>p\<in>set (lb_proposals s). pp_is_batch p \<longrightarrow> good_batch p (batch_rows (pp_id p) s))"

definition retag_init :: "library \<Rightarrow> bool" where
  "retag_init s \<longleftrightarrow> distinct (map pp_id (lb_proposals s)) \<and>
    (\<forall>p\<in>set (lb_proposals s). pp_id p < db_next (lb_db s) \<and> \<not> pp_is_batch p) \<and> lb_rows s = []"

text \<open>What the rest of the program does: a row of a batch and the batch itself are left alone, no id comes
  back.\<close>

definition retag_elsewhere :: "library \<Rightarrow> library \<Rightarrow> bool" where
  "retag_elsewhere s t \<longleftrightarrow> lb_rows t = lb_rows s \<and> filter pp_is_batch (lb_proposals t) = filter pp_is_batch (lb_proposals s) \<and>
    db_next (lb_db s) \<le> db_next (lb_db t) \<and> distinct (map pp_id (lb_proposals t)) \<and>
    (\<forall>p\<in>set (lb_proposals t). pp_id p < db_next (lb_db t))"

inductive retag_step :: "library \<Rightarrow> library \<Rightarrow> bool" where
  filed: "create_batch bs zone b pr s = Inr (answer, t) \<Longrightarrow> retag_step s t"
| decided: "catalog_ok s \<Longrightarrow> decide bs zone i bd rv step_up s = Inr (p, t) \<Longrightarrow> retag_step s t"
| elsewhere: "retag_elsewhere s t \<Longrightarrow> retag_step s t"

inductive_cases retag_stepE: "retag_step s t"

lemma lb_record_simps [simp]:
  "lb_rows (lb_record e s) = lb_rows s" "lb_proposals (lb_record e s) = lb_proposals s"
  "db_next (lb_db (lb_record e s)) = Suc (Suc (db_next (lb_db s)))" "lb_scope (lb_record e s) = lb_scope s"
  "tax (lb_record e s) = tax s" "lb_obligations (lb_record e s) = lb_obligations s" "lb_instruments (lb_record e s) = lb_instruments s"
  "lb_runs (lb_record e s) = lb_runs s" "lb_active_terms (lb_record e s) = lb_active_terms s"
  by (simp_all add: lb_record_def record_event_frame)

lemma batches_ok_record: "batches_ok s \<Longrightarrow> batches_ok (lb_record e s)"
  by (auto simp: batches_ok_def batch_rows_def)

text \<open>The rows of a new batch are its own: no id comes back.\<close>

lemma own_rows:
  assumes ok: "batches_ok s" and t: "lb_rows t = lb_rows s @ new_rows rows s"
  shows "batch_rows (db_next (lb_db s)) t = new_rows rows s"
proof -
  have "filter (\<lambda>r. br_proposal r = db_next (lb_db s)) (lb_rows s) = []"
    using ok by (fastforce simp: batches_ok_def filter_empty_conv)
  moreover have "filter (\<lambda>r. br_proposal r = db_next (lb_db s)) (new_rows rows s) = new_rows rows s"
    using new_rows_simps(4) by (simp add: filter_id_conv)
  ultimately show ?thesis by (simp add: batch_rows_def t)
qed

lemma filing_keeps:
  assumes ok: "batches_ok s" and c: "create_batch bs zone b pr s = Inr ((p, fresh), t)"
  shows "batches_ok t"
proof (cases fresh)
  case False
  with c have "create_batch bs zone b pr s = Inr ((p, False), t)" by simp
  from create_batch_replayed [OF this] show ?thesis using batches_ok_record [OF ok] by auto
next
  case True
  obtain run stored rows flags e where ch: "batch_checked bs zone b pr s = Inr (run, stored)"
    and pv: "preview bs None stored (strip (bi_source_label b)) s = Inr rows"
    and p: "p = batch_proposal b pr flags stored (length rows) s" "proposal_checks p"
    and t: "t = lb_record e (s\<lparr>lb_db := (lb_db s)\<lparr>db_next := Suc (pp_id p) + length rows\<rparr>,
          lb_proposals := lb_proposals s @ [p], lb_rows := lb_rows s @ new_rows rows s\<rparr>)"
    using create_batch_fresh [OF c [unfolded eqTrueI [OF True]]] by metis
  note n = batch_checked_Inr(2) [OF ch] and k = batch_checked_Inr(3) [OF ch]
  let ?n = "db_next (lb_db s)"
  let ?s = "s\<lparr>lb_db := (lb_db s)\<lparr>db_next := Suc (pp_id p) + length rows\<rparr>,
          lb_proposals := lb_proposals s @ [p], lb_rows := lb_rows s @ new_rows rows s\<rparr>"
  have pid: "pp_id p = ?n" "pp_is_batch p" "pp_row_count p = length rows" "pp_status p = P_OPEN" "pp_reviewed_by p = None" "pp_applied_at p = None"
    "pp_kind p = OBLIGATION_SCOPE"
    by (simp_all add: p(1) batch_proposal_def k)
  have "map fst rows = map sc_obligation stored"
    using preview_Inr [OF pv] unfolding list_all2_conv_all_nth previewed_def by (auto intro!: nth_equalityI)
  moreover have "distinct (map sc_obligation stored)"
    using n normalized_changes_Inr(2) by (auto simp: normalized_def inr_simps)
  ultimately have d: "distinct (map br_subject (new_rows rows s))" by (simp add: new_rows_simps)
  note new = new_rows_simps(4) [of _ rows s]
  have own: "batch_rows ?n ?s = new_rows rows s" by (rule own_rows [OF ok]) simp
  have other: "batch_rows (pp_id q) ?s = batch_rows (pp_id q) s" if "q \<in> set (lb_proposals s)" for q
    using ok new that by (fastforce simp: batch_rows_def batches_ok_def filter_empty_conv)
  have ne: "rows \<noteq> []" using p(2) pid by (auto simp: proposal_checks_def proposal_four_eyes_def)
  then have "new_rows rows s \<noteq> []" using new_rows_simps(2) [of rows s] by auto
  then have good: "good_batch p (new_rows rows s)"
    using d new pid by (auto simp: good_batch_def good_row_def new_rows_simps(2) list_all_iff list_ex_iff)
  have ids: "distinct (map br_id (lb_rows s @ new_rows rows s))" "\<forall>r\<in>set (lb_rows s @ new_rows rows s). br_id r < Suc ?n + length rows"
  proof -
    have "br_id ` set (new_rows rows s) = {Suc ?n..<Suc ?n + length rows}"
      using new_rows_simps(3) [of rows s] by (metis set_map set_upt)
    then show "distinct (map br_id (lb_rows s @ new_rows rows s))" "\<forall>r\<in>set (lb_rows s @ new_rows rows s). br_id r < Suc ?n + length rows"
      using ok by (auto simp: batches_ok_def new_rows_simps(3) simp del: upt_Suc)
  qed
  have "batches_ok ?s"
    using ok ids good own other pid new by (auto simp: batches_ok_def)
  then show ?thesis unfolding t by (rule batches_ok_record)
qed

lemma subseq_distinct_map: "subseq xs ys \<Longrightarrow> distinct (map f ys) \<Longrightarrow> distinct (map f xs)"
  by (induction rule: list_emb.induct) (auto dest: list_emb_set)

lemma deciding_facts:
  assumes ok: "batches_ok s" and dec: "deciding i bd rv s u p chosen"
  shows "pp_is_batch p" and "good_batch p (batch_rows i s)" and "distinct (map (\<lambda>(r, g). br_id r) chosen)"
    and "distinct (map br_subject (map fst chosen))"
    and "(r, g) \<in> set chosen \<Longrightarrow> r \<in> set (lb_rows s) \<and> br_proposal r = i \<and> br_decision r = ROW_PENDING"
    and "r \<in> set (lb_rows s) \<Longrightarrow> given_to chosen (br_id r) = Some g \<Longrightarrow> (r, g) \<in> set chosen"
proof -
  let ?pending = "filter (\<lambda>r. br_decision r = ROW_PENDING) (rows_of i s)"
  have sub: "subseq (map fst chosen) ?pending" and ne: "chosen \<noteq> []" and p: "p \<in> set (lb_proposals s)" "pp_id p = i"
    using dec by (auto simp: deciding_def)
  show in_rows: "r \<in> set (lb_rows s) \<and> br_proposal r = i \<and> br_decision r = ROW_PENDING" if "(r, g) \<in> set chosen" for r g
  proof -
    have "r \<in> set (map fst chosen)" using that by force
    then have "r \<in> set ?pending" using list_emb_set [OF sub] by metis
    then show ?thesis by simp
  qed
  obtain r g where "(r, g) \<in> set chosen" using ne by (metis list.set_intros(1) neq_Nil_conv surj_pair)
  then have "r \<in> set (lb_rows s)" "br_proposal r = i" using in_rows by blast+
  then obtain q where q: "q \<in> set (lb_proposals s)" "pp_id q = i" "pp_is_batch q" using ok by (fastforce simp: batches_ok_def)
  have "q = p" using ok p q by (auto simp: batches_ok_def distinct_map inj_on_def)
  then show b: "pp_is_batch p" using q by simp
  show good: "good_batch p (batch_rows i s)" using ok p b by (auto simp: batches_ok_def)
  have "distinct (map br_id (rows_of i s))" using ok by (simp add: distinct_rows_of batches_ok_def distinct_map_filter)
  then have "distinct (map br_id ?pending)" by (rule distinct_map_filter)
  then have "distinct (map br_id (map fst chosen))" using subseq_distinct_map [OF sub] by blast
  then show d: "distinct (map (\<lambda>(r, g). br_id r) chosen)" by (simp add: comp_def case_prod_unfold)
  have "distinct (map br_subject (rows_of i s))" using good by (simp add: distinct_rows_of good_batch_def batch_rows_def)
  then have "distinct (map br_subject ?pending)" by (rule distinct_map_filter)
  then show "distinct (map br_subject (map fst chosen))" using subseq_distinct_map [OF sub] by blast
  show "(r, g) \<in> set chosen" if r: "r \<in> set (lb_rows s)" and g: "given_to chosen (br_id r) = Some g" for r g
  proof -
    obtain r' where r': "(r', g) \<in> set chosen" "br_id r' = br_id r" using g given_to_in [OF d] by blast
    then have "r' = r" using in_rows [OF r'(1)] r ok by (auto simp: batches_ok_def distinct_map inj_on_def)
    then show ?thesis using r'(1) by simp
  qed
qed

text \<open>What an answered decision leaves: the rows it chose are decided, their batch closed with the last of them,
  and of the library exactly the scopes of the approved rows.\<close>

lemma decide_effect:
  assumes ok: "batches_ok s" and c: "catalog_ok s" and d: "decide bs zone i bd rv step_up s = Inr (p', t)"
  shows "\<exists>u p chosen. deciding i bd rv s u p chosen \<and> set (lb_scope t) = rows_of_scope (approved_rows chosen) s \<and>
    distinct (lb_scope t) \<and> same_shelf s t \<and> lb_rows t = map (settled chosen (Some u) (db_now (lb_db s))) (lb_rows s) \<and>
    lb_proposals t = put_row pp_id p' (lb_proposals s) \<and>
    (\<exists>w note. close_batch p (map (settled chosen (Some u) (db_now (lb_db s))) (rows_of i s)) rv (db_now (lb_db s)) note w =
      Inr (p', w\<lparr>lb_proposals := lb_proposals t\<rparr>) \<and> lb_proposals w = lb_proposals s) \<and>
    (\<forall>r\<in>set (lb_rows s). given_to chosen (br_id r) \<noteq> None \<longrightarrow>
      row_guard r (settled chosen (Some u) (db_now (lb_db s)) r) s \<and> row_checks (settled chosen (Some u) (db_now (lb_db s)) r)) \<and>
    (\<exists>changes opt_in. \<forall>r\<in>set (approved_rows chosen). checked_row bs None p changes opt_in s r)"
proof -
  obtain u p chosen where dec: "deciding i bd rv s u p chosen"
    and w: "write_decision bs None p (rows_of i s) chosen rv step_up (strip (bd_note bd)) s = Inr (p', t)"
    using decide_Inr [OF d] by blast
  note facts = deciding_facts [OF ok dec]
  have p: "p \<in> set (lb_proposals s)" "distinct (map pp_id (lb_proposals s))" and u: "rv_user rv = Some u"
    using dec ok by (auto simp: deciding_def batches_ok_def)
  have pend: "\<forall>r\<in>set (lb_rows s). given_to chosen (br_id r) \<noteq> None \<longrightarrow> br_decision r = ROW_PENDING"
    using facts(5,6) by blast
  note eff = write_decision_Inr [OF w c p facts(3,4) pend, unfolded u]
  show ?thesis
    by (intro exI [of _ u] exI [of _ p] exI [of _ chosen] conjI dec eff exI [of _ "strip (bd_note bd)"]) (use eff(6) in blast)+
qed

lemma settled_keeps [simp]:
  "br_id (settled ch by now r) = br_id r" "br_proposal (settled ch by now r) = br_proposal r"
  "br_subject (settled ch by now r) = br_subject r" "br_subject_type (settled ch by now r) = br_subject_type r"
  "br_before (settled ch by now r) = br_before r" "br_after (settled ch by now r) = br_after r"
  by (simp_all add: settled_given split: option.split)

lemma map_settled [simp]:
  "map br_id (map (settled ch by now) rs) = map br_id rs" "map br_subject (map (settled ch by now) rs) = map br_subject rs"
  by simp_all

lemma closed_good:
  assumes good: "good_batch p rows" and dec: "deciding i bd rv s u p chosen"
    and cl: "close_batch p after rv now note w = Inr (p', w')" "p \<in> set (lb_proposals w)" "distinct (map pp_id (lb_proposals w))"
    and after: "set after = settled chosen (Some u) now ` set rows"
    and checks: "\<forall>r\<in>set rows. given_to chosen (br_id r) \<noteq> None \<longrightarrow> row_checks (settled chosen (Some u) now r)"
  shows "good_batch p' (map (settled chosen (Some u) now) rows)"
proof -
  let ?f = "settled chosen (Some u) now"
  note close = close_batch_Inr [OF cl]
  have u: "rv_user rv = Some u" "pp_user p \<noteq> Some u" "pp_status p = P_OPEN" using dec by (auto simp: deciding_def)
  have pend: "list_ex (\<lambda>r. br_decision r = ROW_PENDING) rows" "pp_reviewed_by p = None" "pp_applied_at p = None"
    using good u(3) by (auto simp: good_batch_def split: if_splits)
  have "good_row p' (?f r)" if r: "r \<in> set rows" for r
  proof (cases "given_to chosen (br_id r)")
    case None
    then show ?thesis using good r close(2) by (auto simp: good_batch_def list_all_iff good_row_def settled_given)
  next
    case (Some g)
    then have "row_checks (?f r)" "br_decided_by (?f r) = Some u" using checks r by (auto simp: settled_given)
    then show ?thesis using good r close(2) u(2) by (auto simp: good_batch_def list_all_iff good_row_def)
  qed
  moreover have "list_all (\<lambda>r. br_decision r \<noteq> ROW_PENDING) after \<longleftrightarrow> \<not> list_ex (\<lambda>r. br_decision r = ROW_PENDING) (map ?f rows)"
    "list_ex (\<lambda>r. br_decision r = ROW_APPROVED) after = list_ex (\<lambda>r. br_decision r = ROW_APPROVED) (map ?f rows)"
    by (auto simp: list_all_iff list_ex_iff after)
  ultimately show ?thesis
    using close(2,3) good u pend unfolding good_batch_def by (auto simp: list_all_iff comp_def split: if_splits)
qed

lemma deciding_keeps:
  assumes ok: "batches_ok s" and c: "catalog_ok s" and d: "decide bs zone i bd rv step_up s = Inr (p', t)"
  shows "batches_ok t"
proof -
  obtain u p chosen w nt where dec: "deciding i bd rv s u p chosen" and shelf: "same_shelf s t"
    and rows: "lb_rows t = map (settled chosen (Some u) (db_now (lb_db s))) (lb_rows s)"
    and props: "lb_proposals t = put_row pp_id p' (lb_proposals s)"
    and cl: "close_batch p (map (settled chosen (Some u) (db_now (lb_db s))) (rows_of i s)) rv (db_now (lb_db s)) nt w =
      Inr (p', w\<lparr>lb_proposals := lb_proposals t\<rparr>)" "lb_proposals w = lb_proposals s"
    and checks: "\<forall>r\<in>set (lb_rows s). given_to chosen (br_id r) \<noteq> None \<longrightarrow>
      row_guard r (settled chosen (Some u) (db_now (lb_db s)) r) s \<and> row_checks (settled chosen (Some u) (db_now (lb_db s)) r)"
    using decide_effect [OF ok c d] by blast
  let ?f = "settled chosen (Some u) (db_now (lb_db s))"
  note facts = deciding_facts [OF ok dec]
  have p: "p \<in> set (lb_proposals s)" "pp_id p = i" and dist: "distinct (map pp_id (lb_proposals s))"
    using dec ok by (auto simp: deciding_def batches_ok_def)
  have p': "pp_id p' = i" "pp_is_batch p'"
    using close_batch_Inr(2) [OF cl(1)] cl(2) p dist facts(1) by auto
  have br: "batch_rows j t = map ?f (batch_rows j s)" for j
    by (simp add: batch_rows_def rows filter_map comp_def)
  have "set (map ?f (rows_of i s)) = ?f ` set (batch_rows i s)" by (auto simp: batch_rows_def)
  then have good: "good_batch p' (batch_rows i t)"
    unfolding br using closed_good [OF facts(2) dec cl(1)] cl(2) p(1) dist checks by (simp add: batch_rows_def)
  have other: "batch_rows j t = batch_rows j s" if "j \<noteq> i" for j
  proof -
    have "?f r = r" if "r \<in> set (batch_rows j s)" for r
    proof -
      have "given_to chosen (br_id r) = None"
        using that \<open>j \<noteq> i\<close> facts(5) [of r] facts(6) [of r] by (cases "given_to chosen (br_id r)") (fastforce simp: batch_rows_def)+
      then show ?thesis by (simp add: settled_given)
    qed
    then show ?thesis unfolding br by (rule map_idI)
  qed
  have next_le: "db_next (lb_db s) \<le> db_next (lb_db t)" using shelf by (simp add: same_shelf_def)
  have q: "q \<in> set (lb_proposals t) \<Longrightarrow> (q = p' \<or> q \<in> set (lb_proposals s) \<and> pp_id q \<noteq> i)" for q
    using p' by (auto simp: props in_set_put_row)
  have "\<exists>q\<in>set (lb_proposals t). pp_id q = br_proposal r \<and> pp_is_batch q" if r: "r \<in> set (lb_rows t)" for r
  proof -
    obtain r0 where "r0 \<in> set (lb_rows s)" "br_proposal r = br_proposal r0" using r by (auto simp: rows)
    then obtain q0 where q0: "q0 \<in> set (lb_proposals s)" "pp_id q0 = br_proposal r" "pp_is_batch q0"
      using ok by (fastforce simp: batches_ok_def)
    show ?thesis
    proof (cases "br_proposal r = i")
      case True
      have "p' \<in> set (lb_proposals t)" unfolding props in_set_put_row using p p'(1) by force
      then show ?thesis using p' True by (intro bexI [of _ p']) auto
    next
      case False
      then show ?thesis using q0 p' by (auto simp: props in_set_put_row intro!: bexI [of _ q0])
    qed
  qed
  moreover have "good_batch q (batch_rows (pp_id q) t)" if "q \<in> set (lb_proposals t)" "pp_is_batch q" for q
    using q [OF that(1)] good other that(2) ok p'(1) by (auto simp: batches_ok_def)
  moreover have "pp_id q < db_next (lb_db t)" if "q \<in> set (lb_proposals t)" for q
    using q [OF that] p p'(1) ok next_le by (fastforce simp: batches_ok_def)
  moreover have "br_id r < db_next (lb_db t)" if "r \<in> set (lb_rows t)" for r
    using that ok next_le by (fastforce simp: batches_ok_def rows)
  moreover have "distinct (map pp_id (lb_proposals t))" using dist by (simp add: props)
  moreover have "distinct (map br_id (lb_rows t))" unfolding rows map_settled using ok by (simp add: batches_ok_def)
  ultimately show ?thesis unfolding batches_ok_def by blast
qed

lemma elsewhere_keeps:
  assumes ok: "batches_ok s" and e: "retag_elsewhere s t"
  shows "batches_ok t"
proof -
  have same: "{p \<in> set (lb_proposals t). pp_is_batch p} = {p \<in> set (lb_proposals s). pp_is_batch p}"
    using e by (metis retag_elsewhere_def set_filter)
  then have b: "p \<in> set (lb_proposals t) \<and> pp_is_batch p \<longleftrightarrow> p \<in> set (lb_proposals s) \<and> pp_is_batch p" for p
    by blast
  have "\<forall>r\<in>set (lb_rows t). br_id r < db_next (lb_db t)" "distinct (map br_id (lb_rows t))"
    using ok e by (fastforce simp: batches_ok_def retag_elsewhere_def)+
  moreover have "\<forall>r\<in>set (lb_rows t). \<exists>p\<in>set (lb_proposals t). pp_id p = br_proposal r \<and> pp_is_batch p"
  proof
    fix r assume "r \<in> set (lb_rows t)"
    then obtain p where "p \<in> set (lb_proposals s) \<and> pp_is_batch p" "pp_id p = br_proposal r"
      using ok e by (fastforce simp: batches_ok_def retag_elsewhere_def)
    then show "\<exists>p\<in>set (lb_proposals t). pp_id p = br_proposal r \<and> pp_is_batch p" using b by blast
  qed
  moreover have "\<forall>p\<in>set (lb_proposals t). pp_is_batch p \<longrightarrow> good_batch p (batch_rows (pp_id p) t)"
  proof (intro ballI impI)
    fix p assume "p \<in> set (lb_proposals t)" "pp_is_batch p"
    then have "p \<in> set (lb_proposals s) \<and> pp_is_batch p" using b by blast
    then show "good_batch p (batch_rows (pp_id p) t)"
      using ok e by (simp add: batches_ok_def retag_elsewhere_def batch_rows_def)
  qed
  ultimately show ?thesis using e by (auto simp: batches_ok_def retag_elsewhere_def)
qed

interpretation retag_sys: invariant_system retag_init retag_step batches_ok
proof
  show "batches_ok s" if "retag_init s" for s using that by (auto simp: retag_init_def batches_ok_def)
  show "batches_ok t" if "retag_step s t" "batches_ok s" for s t
    using that by (cases rule: retag_step.cases) (auto intro: filing_keeps deciding_keeps elsewhere_keeps)
qed

end
