(* ===== verification/Retag_Answers.thy ===== *)
theory Retag_Answers
  imports Retag_System
begin

text \<open>
  When approving is answered: what a filed batch was previewed from is what applying its rows asks for, so every
  check of the one is a check the other has passed.
\<close>

section \<open>The same catalog\<close>

definition same_catalog :: "library \<Rightarrow> library \<Rightarrow> bool" where
  "same_catalog s t \<longleftrightarrow> tax t = tax s \<and> lb_active_terms t = lb_active_terms s \<and> lb_instruments t = lb_instruments s \<and>
    lb_obligations t = lb_obligations s \<and> lb_scope t = lb_scope s"

lemma same_catalog_reads:
  assumes "same_catalog s t"
  shows "obligation_scope_terms ob t = obligation_scope_terms ob s" "scope_refs ob t = scope_refs ob s"
    "active_shared_obligation ob t = active_shared_obligation ob s" "instrument_of o' t = instrument_of o' s"
    "terms_of refs t = terms_of refs s" "refuse_mirrored dims t = refuse_mirrored dims s" "spells t i r = spells s i r"
    "opt_in_terms is t = opt_in_terms is s" "catalog_ok t = catalog_ok s"
    "standards_check f z k instr ids fs rl sl os t = standards_check f z k instr ids fs rl sl os s"
proof -
  have tx: "tax t = tax s" and sc: "lb_scope t = lb_scope s" using assms by (simp_all add: same_catalog_def)
  have st: "obligation_scope_terms ob t = obligation_scope_terms ob s" for ob
    by (simp only: obligation_scope_terms_def tx sc)
  show "obligation_scope_terms ob t = obligation_scope_terms ob s" by (rule st)
  show "scope_refs ob t = scope_refs ob s" by (simp add: scope_refs_def st)
  have nb: "named_by t = named_by s" using assms by (intro ext) (simp add: named_by_def same_catalog_def)
  show "terms_of refs t = terms_of refs s" using assms by (simp add: terms_of_def nb same_catalog_def)
  have oi: "opt_in_terms is t = opt_in_terms is s" for "is" using assms by (simp add: opt_in_terms_def same_catalog_def)
  then show "opt_in_terms is t = opt_in_terms is s" .
  have lo: "lb_obligations t = lb_obligations s" using assms by (simp add: same_catalog_def)
  show "standards_check f z k instr ids fs rl sl os t = standards_check f z k instr ids fs rl sl os s"
    by (simp only: standards_check_def opt_in_count_def oi lo)
qed (use assms in \<open>simp_all add: same_catalog_def active_shared_obligation_def instrument_of_def refuse_mirrored_def
  mirrored_dimensions_def spells_def catalog_ok_def\<close>)

section \<open>The scope an entry asks for\<close>

lemma update_pairs:
  "set (AList.update k v al) \<subseteq> insert (k, v) (set al)" "fst ` set (AList.update k v al) = insert k (fst ` set al)"
  by (induction al) auto

lemma with_terms_Inr:
  assumes "with_terms ids refs al = Inr al'" and "\<forall>(r, i)\<in>set al. P i r" and "\<forall>r i. map_of ids r = Some i \<longrightarrow> P i r"
  shows "(\<forall>(r, i)\<in>set al'. P i r) \<and> fst ` set al' = fst ` set al \<union> set refs"
  using assms(1,2)
proof (induction refs arbitrary: al)
  case (Cons r refs)
  then obtain i where i: "map_of ids r = Some i" and rest: "with_terms ids refs (AList.update r i al) = Inr al'"
    by (auto simp: inr_simps)
  have "P i r" using assms(3) i by blast
  then have "\<forall>(r, i)\<in>set (AList.update r i al). P i r" using Cons.prems(2) update_pairs(1) [of r i al] by blast
  then show ?case using Cons.IH [OF rest] by (simp add: update_pairs(2))
qed simp

lemma scope_after_Inr:
  assumes c: "catalog_ok s" and ts: "set ts \<subseteq> set (tx_terms (tax s))" and a: "scope_after (by_ref (tax s) ts) ch s = Inr al"
  shows "set (map fst al) = (set (scope_refs (sc_obligation ch) s) - set (sc_remove ch)) \<union> set (sc_add ch)"
    and "\<forall>(r, i)\<in>set al. spells s i r"
    and "set (map snd al) = {i. \<exists>ref\<in>set (map fst al). spells s i ref}"
proof -
  let ?kept = "filter (\<lambda>(r, _). r \<notin> set (sc_remove ch)) (obligation_scope_terms (sc_obligation ch) s)"
  have kept: "\<forall>(r, i)\<in>set ?kept. spells s i r" using set_scope_terms [OF c] by auto
  have new: "\<forall>r i. map_of (by_ref (tax s) ts) r = Some i \<longrightarrow> spells s i r" using picked_spells(2) [OF c ts] by blast
  have w: "with_terms (by_ref (tax s) ts) (sc_add ch) ?kept = Inr al" using a by (simp add: scope_after_def)
  note pairs = with_terms_Inr [OF w kept new]
  have "fst ` set ?kept = set (scope_refs (sc_obligation ch) s) - set (sc_remove ch)"
    by (force simp: scope_refs_def)
  then show "set (map fst al) = (set (scope_refs (sc_obligation ch) s) - set (sc_remove ch)) \<union> set (sc_add ch)"
    using pairs by simp
  show sp: "\<forall>(r, i)\<in>set al. spells s i r" using pairs by blast
  show "set (map snd al) = {i. \<exists>ref\<in>set (map fst al). spells s i ref}"
  proof (intro set_eqI iffI)
    fix i assume "i \<in> set (map snd al)"
    then obtain r where r: "(r, i) \<in> set al" by auto
    then have "spells s i r" "r \<in> set (map fst al)" using sp by (blast, force)
    then show "i \<in> {i. \<exists>ref\<in>set (map fst al). spells s i ref}" by blast
  next
    fix i assume "i \<in> {i. \<exists>ref\<in>set (map fst al). spells s i ref}"
    then obtain r where r: "r \<in> set (map fst al)" "spells s i r" by blast
    then obtain j where j: "(r, j) \<in> set al" by auto
    then have "j = i" using sp r(2) spells_fun(2) [OF c] by blast
    then show "i \<in> set (map snd al)" using j by force
  qed
qed

text \<open>The standards check sees a scope only through the set of its terms.\<close>

lemma standards_check_sets:
  assumes "set is = set js" and "set is \<inter> set os = set (opt_in_terms js s)"
  shows "standards_check f z k instr (Some is) fs rl sl (Some os) s = standards_check f z k instr (Some js) fs rl sl None s"
proof -
  have "set (filter (\<lambda>i. i \<in> set os) is) = set (filter (\<lambda>i. i \<in> set (opt_in_terms js s)) js)"
    using assms by auto
  then have "length (remdups (filter (\<lambda>i. i \<in> set os) is)) = length (remdups (filter (\<lambda>i. i \<in> set (opt_in_terms js s)) js))"
    by (simp only: length_remdups_card_conv)
  moreover have "is = [] \<longleftrightarrow> js = []" using assms(1) by (metis set_empty)
  ultimately have "opt_in_count (Some is) (Some os) s = opt_in_count (Some js) None s" by (simp add: opt_in_count_def)
  then show ?thesis by (simp only: standards_check_def option.simps not_False_eq_True simp_thms)
qed

section \<open>Applying is answered\<close>

text \<open>A row that can be applied: its record in force, previewed from the scope it has, every term of it at hand.\<close>

definition appliable :: "(string \<times> uuid) list \<Rightarrow> library \<Rightarrow> batch_row \<Rightarrow> bool" where
  "appliable added s r \<longleftrightarrow> active_shared_obligation (br_subject r) s \<noteq> None \<and> scope_refs (br_subject r) s = br_before r \<and>
    distinct (br_after r) \<and> (\<forall>ref\<in>set (br_after r). picked (obligation_scope_terms (br_subject r) s) added ref \<noteq> None)"

lemma scope_ids_answers:
  "\<forall>ref\<in>set refs. picked before added ref \<noteq> None \<Longrightarrow> \<exists>is. scope_ids before added refs = Inr is"
proof (induction refs)
  case (Cons ref refs)
  then obtain i "is" where "picked before added ref = Some i" "scope_ids before added refs = Inr is" by auto
  then show ?case by (simp add: picked_def)
qed simp

lemma row_scopes_answers: "\<forall>r\<in>set rows. appliable added s r \<Longrightarrow> \<exists>scopes. row_scopes added s rows = Inr scopes"
proof (induction rows)
  case (Cons r rows)
  then obtain scopes o' where scopes: "row_scopes added s rows = Inr scopes"
    and o': "active_shared_obligation (br_subject r) s = Some o'" "scope_refs (br_subject r) s = br_before r"
    by (auto simp: appliable_def)
  have id: "ro_id o' = br_subject r" using find_Some_in [OF o'(1) [unfolded active_shared_obligation_def]] by simp
  obtain "is" where "scope_ids (obligation_scope_terms (br_subject r) s) added (br_after r) = Inr is"
    using Cons.prems scope_ids_answers by (metis appliable_def list.set_intros(1))
  then show ?case using scopes o' id by (simp add: or_else_def ensure_def)
qed simp

lemma distinct_refs_ids:
  assumes "distinct refs" and "\<forall>ref\<in>set refs. \<forall>i. f ref = Some i \<longrightarrow> spells s i ref" and c: "catalog_ok s"
  shows "distinct (concat (map (\<lambda>ref. case f ref of None \<Rightarrow> [] | Some i \<Rightarrow> [(ob, i)]) refs))"
  using assms(1,2)
proof (induction refs)
  case (Cons ref refs)
  then have ih: "distinct (concat (map (\<lambda>ref. case f ref of None \<Rightarrow> [] | Some i \<Rightarrow> [(ob, i)]) refs))" by simp
  show ?case
  proof (cases "f ref")
    case (Some i)
    have "(ob, i) \<notin> set (concat (map (\<lambda>ref. case f ref of None \<Rightarrow> [] | Some i \<Rightarrow> [(ob, i)]) refs))"
    proof
      assume "(ob, i) \<in> set (concat (map (\<lambda>ref. case f ref of None \<Rightarrow> [] | Some i \<Rightarrow> [(ob, i)]) refs))"
      then obtain ref' where "ref' \<in> set refs" "f ref' = Some i" by (auto split: option.splits)
      then have "ref' = ref" using Cons.prems Some spells_fun(1) [OF c] by (metis list.set_intros)
      then show False using \<open>ref' \<in> set refs\<close> Cons.prems(1) by simp
    qed
    then show ?thesis using ih Some by simp
  qed (use ih in simp)
qed simp

lemma added_links_obligation: "l \<in> set (added_links added s r) \<Longrightarrow> fst l = br_subject r"
  by (auto simp: added_links_def split: option.splits)

lemma new_links_fresh:
  assumes c: "catalog_ok s" and ts: "set ts \<subseteq> set (tx_terms (tax s))"
    and rows: "distinct (map br_subject rows)" "\<forall>r\<in>set rows. distinct (br_after r)"
  shows "distinct (concat (map (added_links (by_ref (tax s) ts) s) rows))"
    and "set (concat (map (added_links (by_ref (tax s) ts) s) rows)) \<inter> set (lb_scope s) = {}"
proof -
  let ?added = "by_ref (tax s) ts"
  note sp = picked_spells(2) [OF c ts]
  have one: "distinct (added_links ?added s r)" if "distinct (br_after r)" for r
    unfolding added_links_def by (rule distinct_refs_ids [OF _ _ c]) (use that sp in auto)
  show "distinct (concat (map (added_links ?added s) rows))"
    using rows
  proof (induction rows)
    case (Cons r rows)
    have "set (added_links ?added s r) \<inter> set (concat (map (added_links ?added s) rows)) = {}"
    proof (rule ccontr)
      assume "\<not> ?thesis"
      then obtain l q where "l \<in> set (added_links ?added s r)" "q \<in> set rows" "l \<in> set (added_links ?added s q)" by auto
      then have "q \<in> set rows" "br_subject q = br_subject r" using added_links_obligation by metis+
      then show False using Cons.prems(1) by (metis distinct.simps(2) image_eqI list.simps(9) list.set_map)
    qed
    then show ?case using Cons one by simp
  qed simp
  show "set (concat (map (added_links ?added s) rows)) \<inter> set (lb_scope s) = {}"
  proof (rule ccontr)
    assume "\<not> ?thesis"
    then obtain l r where l: "r \<in> set rows" "l \<in> set (added_links ?added s r)" "l \<in> set (lb_scope s)" by auto
    then obtain ref i where ref: "l = (br_subject r, i)" "map_of ?added ref = Some i"
      "ref \<notin> fst ` set (obligation_scope_terms (br_subject r) s)"
      by (auto simp: added_links_def split: option.splits)
    have "(ref, i) \<in> set (obligation_scope_terms (br_subject r) s)"
      using set_scope_terms [OF c] l(3) sp [OF ref(2)] by (auto simp: ref(1))
    then show False using ref(3) by force
  qed
qed

lemma by_ref_finds: "t \<in> set ts \<Longrightarrow> ref_of x t = Some r \<Longrightarrow> map_of (by_ref x ts) r \<noteq> None"
  using weak_map_of_SomeI [of r "tm_id t" "by_ref x ts"] by (auto simp: set_by_ref)

text \<open>Approving these rows asks for no term the batch was not previewed with.\<close>

lemma wanted_found:
  assumes c: "catalog_ok s" and big: "(if refs = [] then Inr [] else terms_of refs s) = Inr ts" and sub: "set few \<subseteq> set refs"
  shows "\<exists>ts'. (if few = [] then Inr [] else terms_of few s) = Inr ts' \<and> set ts' \<subseteq> set ts \<and>
    set ts' \<subseteq> set (tx_terms (tax s)) \<and> (\<forall>r\<in>set few. map_of (by_ref (tax s) ts') r \<noteq> None)"
proof (cases "few = []")
  case False
  then have "refs \<noteq> []" using sub by auto
  then obtain ts' where ts': "terms_of few s = Inr ts'" "set ts' \<subseteq> set ts" using terms_of_fewer [OF c _ sub] big by auto
  then show ?thesis using terms_of_Inr(1,2) [OF ts'(1)] False by_ref_finds by (metis (no_types, lifting))
qed simp

lemma relink_answers:
  "distinct links \<Longrightarrow> set links \<inter> set (lb_scope s) = {} \<Longrightarrow> \<exists>s'. relink dropped links ids s = Inr s'"
  by (auto simp: relink_def Let_def)

lemma obligation_scope_answers:
  assumes c: "catalog_ok s" and big: "(if refs = [] then Inr [] else terms_of refs s) = Inr ts"
    and mir: "refuse_mirrored (map tm_dimension ts) s = Inr ()" and d: "distinct (map br_subject rows)"
    and rows: "\<forall>r\<in>set rows. active_shared_obligation (br_subject r) s \<noteq> None \<and> scope_refs (br_subject r) s = br_before r \<and>
      distinct (br_after r) \<and> set (br_after r) \<subseteq> fst ` set (obligation_scope_terms (br_subject r) s) \<union> set refs"
    and std: "\<And>r o' is opt_in. r \<in> set rows \<Longrightarrow> active_shared_obligation (br_subject r) s = Some o' \<Longrightarrow>
      set is = {i. \<exists>ref\<in>set (br_after r). spells s i ref} \<Longrightarrow> set is \<inter> set opt_in = set (opt_in_terms is s) \<Longrightarrow>
      row_standard bs zone p changes opt_in s (o', r, is)"
  shows "\<exists>s'. obligation_scope bs zone changes rows p actr step_up s = Inr s'"
proof -
  define wanted where "wanted = sort (remdups (concat (map (\<lambda>r. filter (\<lambda>ref. ref \<notin> fst ` set (obligation_scope_terms (br_subject r) s))
           (br_after r)) rows)))"
  have "set wanted \<subseteq> set refs" using rows by (fastforce simp: wanted_def)
  then obtain ts' where ts': "(if wanted = [] then Inr [] else terms_of wanted s) = Inr ts'" "set ts' \<subseteq> set ts"
    and in_tax: "set ts' \<subseteq> set (tx_terms (tax s))" and found: "\<forall>r\<in>set wanted. map_of (by_ref (tax s) ts') r \<noteq> None"
    using wanted_found [OF c big] by blast
  let ?added = "by_ref (tax s) ts'"
  have m: "refuse_mirrored (map tm_dimension (filter (\<lambda>t. ref_of (tax s) t \<noteq> None) ts')) s = Inr ()"
    by (rule refuse_mirrored_fewer [OF mir]) (use ts'(2) in auto)
  have "picked (obligation_scope_terms (br_subject r) s) ?added ref \<noteq> None" if "r \<in> set rows" "ref \<in> set (br_after r)" for r ref
  proof (cases "map_of (obligation_scope_terms (br_subject r) s) ref")
    case None
    then have "ref \<in> set wanted" using that by (auto simp: wanted_def map_of_eq_None_iff)
    then show ?thesis using found None by (simp add: picked_def)
  qed (simp add: picked_def)
  then have "\<forall>r\<in>set rows. appliable ?added s r" using rows by (simp add: appliable_def)
  then obtain scopes where rs: "row_scopes ?added s rows = Inr scopes" using row_scopes_answers by blast
  let ?opt = "opt_in_terms (concat (map (\<lambda>(_, _, is). is) scopes)) s"
  note row = row_scopes_Inr [OF rs] and spelled = row_scopes_spelled [OF c in_tax rs]
  have ids: "\<forall>(o', r, is)\<in>set scopes. ro_id o' = br_subject r" using row(2) by fastforce
  have "row_standard bs zone p changes ?opt s (o', r, is)" if oi: "(o', r, is) \<in> set scopes" for o' r "is"
  proof (rule std)
    show "r \<in> set rows" unfolding row(1) [symmetric] using oi by force
    show "active_shared_obligation (br_subject r) s = Some o'" using row(2) [OF oi] by blast
    show "set is = {i. \<exists>ref\<in>set (br_after r). spells s i ref}" by (rule spelled(1) [OF oi])
    show "set is \<inter> set ?opt = set (opt_in_terms is s)" by (rule opt_in_restrict) (use oi in force)
  qed
  then have "list_all (row_standard bs zone p changes ?opt s) scopes" by (auto simp: list_all_iff)
  then obtain dropped entries where sl: "scope_links bs zone p changes actr step_up ?added ?opt s scopes =
      Inr (dropped, concat (map (\<lambda>(o', r, is). added_links ?added s r) scopes), entries)"
    using scope_links_Inr [OF ids] by blast
  have "concat (map (\<lambda>(o', r, is). added_links ?added s r) scopes) = concat (map (added_links ?added s) rows)"
    unfolding row(1) [symmetric] by (simp add: comp_def case_prod_unfold)
  moreover have "distinct (concat (map (added_links ?added s) rows))"
    "set (concat (map (added_links ?added s) rows)) \<inter> set (lb_scope s) = {}"
    using new_links_fresh [OF c in_tax d] rows by blast+
  ultimately obtain s1 where "relink dropped (concat (map (\<lambda>(o', r, is). added_links ?added s r) scopes)) (map br_subject rows) s = Inr s1"
    using relink_answers by metis
  then show ?thesis
    using ts'(1) m rs sl unfolding obligation_scope_def Let_def wanted_def [symmetric] by simp
qed

section \<open>Approving every row is answered\<close>

definition approve_all :: batch_decision where
  "approve_all = \<lparr>bd_rows = [], bd_rest = Some ''approved'', bd_rest_code = [], bd_note = []\<rparr>"

abbreviation "APPROVAL \<equiv> (ROW_APPROVED, None)"

lemma approve_all_decisions: "decisions approve_all s = Inr ([], Some APPROVAL)"
  by (simp add: decisions_def approve_all_def decision_reason_def DECISIONS_def ensure_def strip_def)

lemma chosen_all:
  "\<forall>r\<in>set rows. \<not> stale s r \<Longrightarrow> chosen_rows [] (Some APPROVAL) s rows = Inr (map (\<lambda>r. (r, APPROVAL)) rows)"
  by (induction rows) simp_all

lemma decide_rows_answers:
  assumes d: "distinct (map br_id (lb_rows s))" "distinct (map br_id rows)" and rows: "set rows \<subseteq> set (lb_rows s)"
    and fit: "\<forall>r\<in>set rows. br_decision r = ROW_PENDING \<and> row_guard r (decided_as dec reason by at r) s \<and>
      row_checks (decided_as dec reason by at r)"
  shows "\<exists>s'. decide_rows (map br_id rows) dec reason by at s = Inr s'"
proof -
  let ?touched = "filter (\<lambda>r. br_id r \<in> set (map br_id rows) \<and> br_decision r = ROW_PENDING) (lb_rows s)"
  have "r \<in> set rows" if r: "r \<in> set (lb_rows s)" "br_id r \<in> set (map br_id rows)" for r
  proof -
    obtain q where q: "q \<in> set rows" "br_id q = br_id r" using r(2) by auto
    then have "q \<in> set (lb_rows s)" using rows by blast
    then have "q = r" using d(1) r(1) q(2) by (auto simp: distinct_map inj_on_def)
    then show ?thesis using q(1) by simp
  qed
  then have t: "set ?touched = set rows" using rows fit by auto
  have "distinct ?touched" "distinct rows" using d by (simp_all add: distinct_map)
  then have "length ?touched = length rows" using t by (metis distinct_card)
  moreover have "remdups (map br_id rows) = map br_id rows" using d(2) by (simp add: distinct_remdups_id)
  moreover have "list_all (\<lambda>r. row_guard r (decided_as dec reason by at r) s \<and> row_checks (decided_as dec reason by at r)) ?touched"
    unfolding list_all_iff t using fit by blast
  ultimately have "decide_rows (map br_id rows) dec reason by at s = Inr (s\<lparr>lb_rows := map (\<lambda>r.
      if br_id r \<in> set (map br_id rows) \<and> br_decision r = ROW_PENDING then decided_as dec reason by at r else r) (lb_rows s)\<rparr>)"
    by (simp only: decide_rows_def Let_def length_map not_True_eq_False if_False simp_thms)
  then show ?thesis by blast
qed

lemma fromkeys_same: "rows \<noteq> [] \<Longrightarrow> fromkeys (map snd (map (\<lambda>r. (r, g)) rows)) = [g]"
proof -
  have "remdups (replicate (Suc n) g) = [g]" for n by (induction n) simp_all
  then have "rows \<noteq> [] \<Longrightarrow> remdups (replicate (length rows) g) = [g]" by (metis length_0_conv not0_implies_Suc)
  then show "rows \<noteq> [] \<Longrightarrow> fromkeys (map snd (map (\<lambda>r. (r, g)) rows)) = [g]"
    by (simp add: fromkeys_def comp_def map_replicate_const)
qed

lemma given_all: "r \<in> set rows \<Longrightarrow> given_to (map (\<lambda>r. (r, g)) rows) (br_id r) = Some g"
  by (induction rows) (auto simp: given_to_def)

lemma close_batch_answers:
  assumes "\<forall>r\<in>set rows. br_decision r = ROW_APPROVED" and "rows \<noteq> []" and "pp_user p \<noteq> Some u" and "rv_user rv = Some u"
    and "proposal_checks p" and "pp_reviewed_key p = None" "pp_reviewed_agent p = None"
  shows "\<exists>p' s'. close_batch p rows rv now [] s = Inr (p', s') \<and> pp_status p' = P_APPROVED \<and> lb_scope s' = lb_scope s"
  using assms by (cases rows) (auto simp: close_batch_def Let_def save_proposal_def proposal_checks_def proposal_four_eyes_def list_all_iff)

lemma find_by_key_and:
  "distinct (map key xs) \<Longrightarrow> x \<in> set xs \<Longrightarrow> P x \<Longrightarrow> find (\<lambda>y. key y = key x \<and> P y) xs = Some x"
  by (induction xs) auto

lemma decide_answers:
  assumes ok: "batches_ok s" and p: "p \<in> set (lb_proposals s)" "pp_is_batch p" "pp_status p = P_OPEN" "pp_owner p = None"
      "proposal_checks p" "pp_reviewed_key p = None" "pp_reviewed_agent p = None"
    and u: "rv_user rv = Some u" "pp_user p \<noteq> Some u" "requested_by p s \<noteq> Some u"
    and rows: "\<forall>r\<in>set (batch_rows (pp_id p) s). br_decision r = ROW_PENDING \<and> \<not> stale s r"
    and ap: "apply_rows bs None p (rv_actor rv) step_up (rows_of (pp_id p) s) s = Inr s1" "same_but_scope s s1"
  shows "\<exists>p' t. decide bs None (pp_id p) approve_all rv step_up s = Inr (p', t) \<and> pp_status p' = P_APPROVED \<and>
    lb_scope t = lb_scope s1"
proof -
  let ?rows = "rows_of (pp_id p) s"
  let ?chosen = "map (\<lambda>r. (r, APPROVAL)) ?rows"
  let ?now = "db_now (lb_db s)"
  have set_rows: "set ?rows = set (batch_rows (pp_id p) s)" by (auto simp: batch_rows_def)
  have good: "good_batch p (batch_rows (pp_id p) s)" using ok p by (auto simp: batches_ok_def)
  then have ne: "?rows \<noteq> []" using set_rows by (metis good_batch_def set_empty)
  have dist: "distinct (map br_id (lb_rows s))" "distinct (map pp_id (lb_proposals s))" using ok by (simp_all add: batches_ok_def)
  then have dr: "distinct (map br_id ?rows)" by (simp add: distinct_rows_of distinct_map_filter)
  have pend: "filter (\<lambda>r. br_decision r = ROW_PENDING) ?rows = ?rows" using rows set_rows by (simp add: filter_id_conv)
  have ch: "chosen_rows [] (Some APPROVAL) s ?rows = Inr ?chosen" by (rule chosen_all) (use rows set_rows in simp)
  have keep: "lb_rows s1 = lb_rows s" "lb_proposals s1 = lb_proposals s" using ap(2) by (simp_all add: same_but_scope_def)
  have "row_guard r (decided_as ROW_APPROVED None (Some u) ?now r) s1 \<and> row_checks (decided_as ROW_APPROVED None (Some u) ?now r)"
    if r: "r \<in> set ?rows" for r
  proof -
    have "q = p" if "q \<in> set (lb_proposals s)" "pp_id q = br_proposal r" for q
      using that r p(1) dist(2) by (auto simp: distinct_map inj_on_def)
    then show ?thesis using rows set_rows r u(2) by (auto simp: row_guard_def row_checks_def keep)
  qed
  then obtain s2 where s2: "decide_rows (map br_id ?rows) ROW_APPROVED None (Some u) ?now s1 = Inr s2"
    using decide_rows_answers [of s1 ?rows ROW_APPROVED None "Some u" ?now] dist(1) dr rows set_rows by (auto simp: keep)
  have groups: "decide_groups (fromkeys (map snd ?chosen)) ?chosen (Some u) ?now s1 = Inr s2"
    unfolding fromkeys_same [OF ne] using s2 by (simp add: filter_map comp_def)
  have "settled ?chosen (Some u) ?now r = decided_as ROW_APPROVED None (Some u) ?now r" if "r \<in> set ?rows" for r
    using given_all [OF that, of APPROVAL] by (simp add: settled_given)
  then have all: "\<forall>r\<in>set (map (settled ?chosen (Some u) ?now) ?rows). br_decision r = ROW_APPROVED" by auto
  obtain p' s3 where close: "close_batch p (map (settled ?chosen (Some u) ?now) ?rows) rv ?now [] s2 = Inr (p', s3)"
    "pp_status p' = P_APPROVED" "lb_scope s3 = lb_scope s2"
    using close_batch_answers [OF all _ u(2,1) p(5-7), of ?now s2] ne by auto
  have scope: "lb_scope s2 = lb_scope s1" using decide_rows_Inr(1) [OF s2] by simp
  have parts: "map fst (filter (\<lambda>(_, g). fst g = ROW_APPROVED) ?chosen) = ?rows" "rejected_entries p rv step_up ?chosen s = []"
    by (simp_all add: rejected_entries_def comp_def filter_map)
  have w: "write_decision bs None p ?rows ?chosen rv step_up [] s = Inr (p', lb_record (batch_decided_entry p' rv step_up
      (length ?chosen) (map (settled ?chosen (Some u) ?now) ?rows) s3) s3)"
    unfolding write_decision_def Let_def parts u(1) using ne ap(1) groups close(1) by simp
  have find: "find (\<lambda>q. pp_id q = pp_id p \<and> visible None (pp_owner q)) (lb_proposals s) = Some p"
    using find_by_key_and [of pp_id "lb_proposals s" p "\<lambda>q. visible None (pp_owner q)"] dist(2) p(1,4) by (simp add: visible_def)
  show ?thesis
    unfolding decide_def Let_def approve_all_decisions
    using u p find pend ch ne w close(2,3) by (simp add: ensure_def or_else_def approve_all_def strip_def list.pred_True scope)
qed

section \<open>What a filed batch was previewed from\<close>

lemma previewed_row:
  assumes c: "catalog_ok s" and ts: "set ts \<subseteq> set (tx_terms (tax s))"
    and pv: "previewed bs zone (by_ref (tax s) ts) label s ch (ob, before, after)"
  shows "sc_obligation ch = ob" "active_shared_obligation ob s \<noteq> None" "scope_refs ob s = before" "distinct after"
    and "set after = (set before - set (sc_remove ch)) \<union> set (sc_add ch)"
    and "active_shared_obligation ob s = Some o' \<Longrightarrow> set is = {i. \<exists>ref\<in>set after. spells s i ref} \<Longrightarrow>
      set is \<inter> set opt_in = set (opt_in_terms is s) \<Longrightarrow> \<exists>instr. instrument_of o' s = Inr instr \<and>
      standards_check (bs_is_link bs) zone OBLIGATION_SCOPE instr (Some is) [(''terms'', sc_source ch)] None label (Some opt_in) s = Inr ()"
proof -
  obtain al o'' instr where row: "sc_obligation ch = ob" "before = scope_refs ob s" "after = sort (remdups (map fst al))"
    and al: "scope_after (by_ref (tax s) ts) ch s = Inr al" and o'': "active_shared_obligation ob s = Some o''"
    and instr: "instrument_of o'' s = Inr instr"
    and chk: "standards_check (bs_is_link bs) zone OBLIGATION_SCOPE instr (Some (map snd al)) [(''terms'', sc_source ch)] None label None s = Inr ()"
    using pv unfolding previewed_def by auto
  note al = scope_after_Inr [OF c ts al]
  show "sc_obligation ch = ob" "active_shared_obligation ob s \<noteq> None" "scope_refs ob s = before" "distinct after"
    using row o'' by simp_all
  show "set after = (set before - set (sc_remove ch)) \<union> set (sc_add ch)" using al(1) row by simp
  assume o': "active_shared_obligation ob s = Some o'" and "is": "set is = {i. \<exists>ref\<in>set after. spells s i ref}"
    and opt: "set is \<inter> set opt_in = set (opt_in_terms is s)"
  have same: "set is = set (map snd al)" using al(3) "is" row(3) by simp
  then have "opt_in_terms is s = opt_in_terms (map snd al) s" unfolding opt_in_terms_def by simp
  then have "standards_check (bs_is_link bs) zone OBLIGATION_SCOPE instr (Some is) [(''terms'', sc_source ch)] None label (Some opt_in) s = Inr ()"
    using standards_check_sets [OF same] opt chk by simp
  then show "\<exists>instr. instrument_of o' s = Inr instr \<and>
      standards_check (bs_is_link bs) zone OBLIGATION_SCOPE instr (Some is) [(''terms'', sc_source ch)] None label (Some opt_in) s = Inr ()"
    using instr o' o'' by auto
qed

text \<open>The entries a batch stores are those of the request, each term once.\<close>

lemma normalized_entries:
  "normalized_changes seen cs = Inr out \<Longrightarrow>
    list_all2 (\<lambda>c c'. sc_obligation c' = sc_obligation c \<and> set (sc_add c') = set (sc_add c) \<and> set (sc_remove c') = set (sc_remove c)) cs out"
proof (induction seen cs arbitrary: out rule: normalized_changes.induct)
  case (2 seen c cs)
  then obtain rest where rest: "normalized_changes (sc_obligation c # seen) cs = Inr rest"
    and out: "out = c\<lparr>sc_add := fromkeys (sc_add c), sc_remove := fromkeys (sc_remove c), sc_source := strip (sc_source c)\<rparr> # rest"
    by (auto simp: inr_simps Let_def)
  have "list_all2 (\<lambda>c c'. sc_obligation c' = sc_obligation c \<and> set (sc_add c') = set (sc_add c) \<and> set (sc_remove c') = set (sc_remove c)) cs rest"
    by (rule 2(1) [OF refl refl refl rest])
  then show ?case by (simp add: out)
qed simp

lemma list_all2_partner:
  "list_all2 P xs ys \<Longrightarrow> x \<in> set xs \<Longrightarrow> \<exists>y\<in>set ys. P x y" "list_all2 P xs ys \<Longrightarrow> y \<in> set ys \<Longrightarrow> \<exists>x\<in>set xs. P x y"
  by (induction rule: list_all2_induct) auto

lemma new_rows_preview:
  assumes "list_all2 P cs rows"
  shows "r \<in> set (new_rows rows s) \<Longrightarrow> \<exists>c\<in>set cs. P c (br_subject r, br_before r, br_after r)"
    and "c \<in> set cs \<Longrightarrow> \<exists>r\<in>set (new_rows rows s). P c (br_subject r, br_before r, br_after r)"
proof -
  show "\<exists>c\<in>set cs. P c (br_subject r, br_before r, br_after r)" if r: "r \<in> set (new_rows rows s)"
    using list_all2_partner(2) [OF assms] new_rows_simps(4) [OF r] by blast
  assume "c \<in> set cs"
  then obtain k where k: "k < length cs" "c = cs ! k" by (metis in_set_conv_nth)
  then have r: "new_rows rows s ! k \<in> set (new_rows rows s)" "k < length rows"
    using assms by (simp_all add: new_rows_simps(2) list_all2_lengthD)
  have "(br_subject (new_rows rows s ! k), br_before (new_rows rows s ! k), br_after (new_rows rows s ! k)) = rows ! k"
    using r(2) by (simp add: new_rows_def nth_enumerate_eq pending_row_def split: prod.split)
  then show "\<exists>r\<in>set (new_rows rows s). P c (br_subject r, br_before r, br_after r)"
    using r assms k by (metis list_all2_conv_all_nth)
qed

lemma last_of_distinct:
  "distinct (map fst kv) \<Longrightarrow> (k, v) \<in> set kv \<Longrightarrow> map_of (rev kv) k = Some v"
  by (rule map_of_is_SomeI) (simp_all flip: rev_map)

end
