(* ===== verification/Retag_Example.thy ===== *)
theory Retag_Example
  imports Retag_Answers Case_Example
begin

text \<open>
  A library of two instruments and three obligations, and one batch that re-tags two of them: filed by one
  person, decided row by row by another.  The theorems on re-tags are evaluated here.
\<close>

definition ex_library :: library where
  "ex_library = \<lparr>lb_db = ex_db\<lparr>db_vocab := [vocab 9 ''rejection_reason'' None ''wrong'' ''''],
       db_taxonomy := \<lparr>tx_dimensions = [\<lparr>dm_id = 1, dm_key = ''service'', dm_kind = SCOPE, dm_restricts = True, dm_active = True\<rparr>,
           \<lparr>dm_id = 2, dm_key = ''standard'', dm_kind = OPT_IN, dm_restricts = True, dm_active = True\<rparr>],
         tx_terms = [\<lparr>tm_id = 1, tm_key = ''custody'', tm_dimension = 1, tm_jurisdiction = None\<rparr>,
           \<lparr>tm_id = 2, tm_key = ''advice'', tm_dimension = 1, tm_jurisdiction = None\<rparr>,
           \<lparr>tm_id = 3, tm_key = ''iso'', tm_dimension = 2, tm_jurisdiction = None\<rparr>],
         tx_footprint = [], tx_jurisdictions = []\<rparr>\<rparr>,
     lb_active_terms = [1, 2, 3],
     lb_instruments = [\<lparr>in_id = 50, in_official_ref = ''Act'', in_level_kind = ''law''\<rparr>,
       \<lparr>in_id = 51, in_official_ref = ''ISO'', in_level_kind = ''standard''\<rparr>],
     lb_obligations = [\<lparr>ro_id = 40, ro_key = ''a'', ro_owner = None, ro_active = True, ro_instrument = 50\<rparr>,
       \<lparr>ro_id = 41, ro_key = ''b'', ro_owner = None, ro_active = True, ro_instrument = 51\<rparr>,
       \<lparr>ro_id = 42, ro_key = ''c'', ro_owner = None, ro_active = True, ro_instrument = 50\<rparr>],
     lb_scope = [(40, 1), (41, 3), (42, 2)], lb_provision_keys = [], lb_runs = [], lb_proposals = [], lb_rows = [],
     lb_reindexed = []\<rparr>"

definition ex_retag :: retag_settings where
  "ex_retag = \<lparr>bs_is_link = (\<lambda>x. take 8 x = ''https://''), bs_screen = (\<lambda>_. []), bs_batch_max_rows = 9, bs_run_max_proposals = 9\<rparr>"

text \<open>The first obligation moves from one service to the other, the standard gets a service beside its standard
  term.\<close>

definition ex_batch :: batch_input where
  "ex_batch = \<lparr>bi_kind = OBLIGATION_SCOPE, bi_title = ''Tags'',
     bi_changes = [\<lparr>sc_obligation = 40, sc_add = [''service:advice''], sc_remove = [''service:custody''], sc_source = ''https://a''\<rparr>,
       \<lparr>sc_obligation = 41, sc_add = [''service:advice''], sc_remove = [], sc_source = ''https://b''\<rparr>],
     bi_agent_run = None, bi_retry_key = Some ''k'', bi_model = [], bi_source_label = [], bi_source_url = []\<rparr>"

definition ex_proposer :: proposer where
  "ex_proposer = \<lparr>pr_actor = rq_actor (req 1), pr_user = Some 1, pr_api_key = None, pr_agent = None\<rparr>"

definition ex_reviewer :: reviewer where
  "ex_reviewer = \<lparr>rv_actor = rq_actor (req 2), rv_user = Some 2\<rparr>"

definition ex_answer :: "error + (proposal \<times> bool) \<times> library" where
  "ex_answer = create_batch ex_retag None ex_batch ex_proposer ex_library"

abbreviation "ex_filed \<equiv> snd (projr ex_answer)"
abbreviation "ex_proposal \<equiv> fst (fst (projr ex_answer))"

lemma ex_filing: "create_batch ex_retag None ex_batch ex_proposer ex_library = Inr ((ex_proposal, True), ex_filed)"
proof -
  have "\<not> isl ex_answer \<and> snd (fst (projr ex_answer))" by code_simp
  then have "ex_answer = Inr (projr ex_answer)" "projr ex_answer = ((ex_proposal, True), ex_filed)"
    by (simp_all add: prod_eq_iff)
  then show ?thesis by (simp add: ex_answer_def)
qed

text \<open>One row is approved, the other rejected with a reason.\<close>

definition ex_decision :: batch_decision where
  "ex_decision = \<lparr>bd_rows = [(21, ''rejected'', ''wrong'')], bd_rest = Some ''approved'', bd_rest_code = [], bd_note = ''ok''\<rparr>"

definition ex_outcome :: "error + proposal \<times> library" where
  "ex_outcome = decide ex_retag None 20 ex_decision ex_reviewer None ex_filed"

abbreviation "ex_decided \<equiv> snd (projr ex_outcome)"
abbreviation "ex_closed \<equiv> fst (projr ex_outcome)"

lemma ex_deciding: "decide ex_retag None 20 ex_decision ex_reviewer None ex_filed = Inr (ex_closed, ex_decided)"
proof -
  have "\<not> isl ex_outcome" by code_simp
  then have "ex_outcome = Inr (projr ex_outcome)" by simp
  then show ?thesis by (simp add: ex_outcome_def)
qed

lemma ex_catalogs: "catalog_ok ex_library" "catalog_ok ex_filed" "catalog_ok ex_decided"
  by code_simp+

lemma ex_retag_init: "retag_init ex_library"
  by code_simp

lemma ex_retag_runs: "retag_step\<^sup>*\<^sup>* ex_library ex_filed" "retag_step ex_filed ex_decided" "retag_step\<^sup>*\<^sup>* ex_library ex_decided"
proof -
  show 1: "retag_step\<^sup>*\<^sup>* ex_library ex_filed" by (rule r_into_rtranclp, rule retag_step.filed) (rule ex_filing)
  show 2: "retag_step ex_filed ex_decided" by (rule retag_step.decided [OF ex_catalogs(2) ex_deciding])
  show "retag_step\<^sup>*\<^sup>* ex_library ex_decided" using 1 2 by (rule rtranclp.rtrancl_into_rtrancl)
qed

text \<open>The request again, after the batch was decided.\<close>

definition ex_again :: "error + (proposal \<times> bool) \<times> library" where
  "ex_again = create_batch ex_retag None ex_batch ex_proposer ex_decided"

lemma ex_later: "retag_step\<^sup>*\<^sup>* ex_decided (snd (projr ex_again))"
proof (rule r_into_rtranclp, rule retag_step.filed)
  have "\<not> isl ex_again" by code_simp
  then have "ex_again = Inr (projr ex_again)" by simp
  then show "create_batch ex_retag None ex_batch ex_proposer ex_decided = Inr (fst (projr ex_again), snd (projr ex_again))"
    by (simp add: ex_again_def)
qed

end
