(* ===== verification/Retag_Theorems.thy ===== *)
theory Retag_Theorems
  imports Retag_Example
begin

text \<open>
  What a re-tag promises: the library gets what was previewed and nothing else, nobody decides what they
  proposed, a standard keeps its one term, and a batch that was filed can be approved.
\<close>

section \<open>What a decision writes\<close>

definition newly_approved :: "library \<Rightarrow> batch_row \<Rightarrow> bool" where
  "newly_approved s r' \<longleftrightarrow> br_decision r' = ROW_APPROVED \<and>
    (\<exists>r\<in>set (lb_rows s). br_id r = br_id r' \<and> br_decision r = ROW_PENDING)"

lemma reachable_batches: "retag_init s0 \<Longrightarrow> retag_step\<^sup>*\<^sup>* s0 s \<Longrightarrow> batches_ok s"
  by (rule retag_sys.inv_reachable)

lemma spells_shelf: "same_shelf s t \<Longrightarrow> spells t i r \<longleftrightarrow> spells s i r"
  by (simp add: spells_def same_shelf_def)

lemma catalog_shelf:
  assumes c: "catalog_ok s" and sh: "same_shelf s t" and l: "set (lb_scope t) = rows_of_scope rows s" "distinct (lb_scope t)"
  shows "catalog_ok t"
proof -
  have "\<exists>tm\<in>set (tx_terms (tax s)). tm_id tm = i" if "(ob, i) \<in> set (lb_scope t)" for ob i
    using that c unfolding l(1) rows_of_scope_def spells_def by (auto simp: catalog_ok_def Let_def split: if_splits)
  then show ?thesis using c sh l(2) by (auto simp: catalog_ok_def Let_def same_shelf_def)
qed

text \<open>The rows a decision approves are those it chose for approval.\<close>

lemma newly_approved_iff:
  assumes ok: "batches_ok s" and dec: "deciding i bd rv s u p chosen"
    and rows: "lb_rows t = map (settled chosen (Some u) now) (lb_rows s)"
  shows "r' \<in> set (lb_rows t) \<and> newly_approved s r' \<longleftrightarrow> r' \<in> settled chosen (Some u) now ` set (approved_rows chosen)"
proof
  note facts = deciding_facts [OF ok dec]
  let ?f = "settled chosen (Some u) now"
  assume r': "r' \<in> set (lb_rows t) \<and> newly_approved s r'"
  then obtain r where r: "r \<in> set (lb_rows s)" "r' = ?f r" by (auto simp: rows)
  obtain q where q: "q \<in> set (lb_rows s)" "br_id q = br_id r'" "br_decision q = ROW_PENDING"
    using r' by (auto simp: newly_approved_def)
  have "q = r" using q(1,2) r ok by (auto simp: batches_ok_def distinct_map inj_on_def)
  with q(3) r' r(2) obtain g where g: "given_to chosen (br_id r) = Some g" "fst g = ROW_APPROVED"
    by (cases "given_to chosen (br_id r)") (auto simp: newly_approved_def settled_given)
  then have "(r, g) \<in> set chosen" using facts(6) r(1) by blast
  then have "r \<in> set (approved_rows chosen)" using g(2) by (force simp: approved_rows_def)
  then show "r' \<in> ?f ` set (approved_rows chosen)" using r(2) by blast
next
  note facts = deciding_facts [OF ok dec]
  let ?f = "settled chosen (Some u) now"
  assume "r' \<in> ?f ` set (approved_rows chosen)"
  then obtain r g where r: "(r, g) \<in> set chosen" "fst g = ROW_APPROVED" "r' = ?f r" by (auto simp: approved_rows_def)
  have in_s: "r \<in> set (lb_rows s)" "br_decision r = ROW_PENDING" using facts(5) [OF r(1)] by simp_all
  have "given_to chosen (br_id r) = Some g" using r(1) given_to_in [OF facts(3)] by blast
  then have "br_decision r' = ROW_APPROVED" using r(2,3) by (simp add: settled_given)
  then show "r' \<in> set (lb_rows t) \<and> newly_approved s r'"
    using in_s r(3) by (auto simp: rows newly_approved_def)
qed

lemma row_links:
  assumes d: "distinct (map br_subject rows)" and r: "r \<in> set rows"
  shows "(br_subject r, i) \<in> rows_of_scope rows s \<longleftrightarrow> (\<exists>ref\<in>set (br_after r). spells s i ref)"
proof -
  have "q = r" if "q \<in> set rows" "br_subject q = br_subject r" for q
    using d r that by (auto simp: distinct_map inj_on_def)
  then show ?thesis using r by (auto simp: rows_of_scope_def)
qed

lemma scope_after_decision:
  assumes c: "catalog_ok s" and sh: "same_shelf s t" and l: "set (lb_scope t) = rows_of_scope rows s" "distinct (lb_scope t)"
    and ck: "\<forall>r\<in>set rows. checked_row bs zone p changes opt_in s r" and d: "distinct (map br_subject rows)"
  shows "r \<in> set rows \<Longrightarrow> set (scope_refs (br_subject r) t) = set (br_after r)"
    and "ob \<notin> br_subject ` set rows \<Longrightarrow> set (scope_refs ob t) = set (scope_refs ob s)"
proof -
  note ct = catalog_shelf [OF c sh l]
  show "set (scope_refs ob t) = set (scope_refs ob s)" if "ob \<notin> br_subject ` set rows"
    using that by (simp add: set_scope_refs [OF c] set_scope_refs [OF ct] l(1) rows_of_scope_def spells_shelf [OF sh])
  assume r: "r \<in> set rows"
  have "(br_subject r, i) \<in> set (lb_scope t) \<longleftrightarrow> (\<exists>ref\<in>set (br_after r). spells s i ref)" for i
    unfolding l(1) by (rule row_links [OF d r])
  moreover have "\<forall>ref\<in>set (br_after r). \<exists>i. spells s i ref" using ck r by (auto simp: checked_row_def)
  ultimately show "set (scope_refs (br_subject r) t) = set (br_after r)"
    unfolding set_scope_refs [OF ct] spells_shelf [OF sh] using spells_fun(1) [OF c] by blast
qed

lemma in_set_filter_one: "filter P xs = [x] \<Longrightarrow> y \<in> set xs \<and> P y \<longleftrightarrow> y = x"
  by (drule arg_cong [of _ _ set]) auto

text \<open>C17: A decision writes what was previewed and nothing else.  Take any state the batches reach and a decision
  that is answered there.  The obligation of a row it approves had the scope the reviewer was shown as
  \<open>before\<close> and has exactly the one shown as \<open>after\<close>; every other obligation keeps its scope; and a row is left
  as it was, or was pending and carries the reviewer and one of the two outcomes, a rejection with its reason.\<close>

theorem decisions_write_the_preview:
  assumes "retag_init s0" and "retag_step\<^sup>*\<^sup>* s0 s" and c: "catalog_ok s"
    and d: "decide bs zone i bd rv step_up s = Inr (p', t)"
  shows "(\<forall>r'\<in>set (lb_rows t). newly_approved s r' \<longrightarrow>
      scope_refs (br_subject r') s = br_before r' \<and> set (scope_refs (br_subject r') t) = set (br_after r')) \<and>
    (\<forall>ob. (\<exists>r'\<in>set (lb_rows t). newly_approved s r' \<and> br_subject r' = ob) \<or> set (scope_refs ob t) = set (scope_refs ob s)) \<and>
    list_all2 (\<lambda>r r'. r' = r \<or> (br_decision r = ROW_PENDING \<and> br_proposal r = i \<and> br_decided_by r' = rv_user rv \<and>
      (br_decision r', br_reason r' = None) \<in> {(ROW_APPROVED, True), (ROW_REJECTED, False)} \<and>
      (br_id r', br_subject r', br_before r', br_after r') = (br_id r, br_subject r, br_before r, br_after r)))
      (lb_rows s) (lb_rows t)"
proof (intro conjI)
  have ok: "batches_ok s" using reachable_batches assms(1,2) .
  obtain u p chosen where dec: "deciding i bd rv s u p chosen" and l: "set (lb_scope t) = rows_of_scope (approved_rows chosen) s" "distinct (lb_scope t)"
    and sh: "same_shelf s t" and rows: "lb_rows t = map (settled chosen (Some u) (db_now (lb_db s))) (lb_rows s)"
    and ck: "\<exists>changes opt_in. \<forall>r\<in>set (approved_rows chosen). checked_row bs None p changes opt_in s r"
    using decide_effect [OF ok c d] by blast
  obtain changes opt_in where ck: "\<forall>r\<in>set (approved_rows chosen). checked_row bs None p changes opt_in s r" using ck by blast
  note facts = deciding_facts [OF ok dec] and na = newly_approved_iff [OF ok dec rows]
  have dd: "distinct (map br_subject (approved_rows chosen))" using facts(4) by (auto simp: approved_rows_def distinct_map_filter)
  note after = scope_after_decision [OF c sh l ck dd]
  show "\<forall>r'\<in>set (lb_rows t). newly_approved s r' \<longrightarrow>
      scope_refs (br_subject r') s = br_before r' \<and> set (scope_refs (br_subject r') t) = set (br_after r')"
  proof (intro ballI impI)
    fix r' assume "r' \<in> set (lb_rows t)" "newly_approved s r'"
    then obtain r where r: "r \<in> set (approved_rows chosen)" "r' = settled chosen (Some u) (db_now (lb_db s)) r" using na by blast
    then show "scope_refs (br_subject r') s = br_before r' \<and> set (scope_refs (br_subject r') t) = set (br_after r')"
      using after(1) [OF r(1)] ck by (auto simp: checked_row_def)
  qed
  show "\<forall>ob. (\<exists>r'\<in>set (lb_rows t). newly_approved s r' \<and> br_subject r' = ob) \<or> set (scope_refs ob t) = set (scope_refs ob s)"
  proof (intro allI disjCI)
    fix ob assume moved: "set (scope_refs ob t) \<noteq> set (scope_refs ob s)"
    have "ob \<in> br_subject ` set (approved_rows chosen)"
      by (rule ccontr) (use moved after(2) [of ob] in simp)
    then obtain r where r: "r \<in> set (approved_rows chosen)" "br_subject r = ob" by (metis imageE)
    let ?r = "settled chosen (Some u) (db_now (lb_db s)) r"
    have "?r \<in> set (lb_rows t) \<and> newly_approved s ?r" using na r(1) by blast
    moreover have "br_subject ?r = ob" using r(2) by simp
    ultimately show "\<exists>r'\<in>set (lb_rows t). newly_approved s r' \<and> br_subject r' = ob" by blast
  qed
  have "settled chosen (Some u) now r = r \<or> (br_decision r = ROW_PENDING \<and> br_proposal r = i \<and>
      br_decided_by (settled chosen (Some u) now r) = rv_user rv \<and>
      (br_decision (settled chosen (Some u) now r), br_reason (settled chosen (Some u) now r) = None) \<in> {(ROW_APPROVED, True), (ROW_REJECTED, False)})"
    if r: "r \<in> set (lb_rows s)" for r now
  proof (cases "given_to chosen (br_id r)")
    case (Some g)
    then have rg: "(r, g) \<in> set chosen" using facts(6) r by blast
    have "proper g" and u: "rv_user rv = Some u" using dec rg unfolding deciding_def by blast+
    then show ?thesis using facts(5) [OF rg] by (auto simp: Some u settled_given proper_def)
  qed (simp add: settled_given)
  then show "list_all2 (\<lambda>r r'. r' = r \<or> (br_decision r = ROW_PENDING \<and> br_proposal r = i \<and> br_decided_by r' = rv_user rv \<and>
      (br_decision r', br_reason r' = None) \<in> {(ROW_APPROVED, True), (ROW_REJECTED, False)} \<and>
      (br_id r', br_subject r', br_before r', br_after r') = (br_id r, br_subject r, br_before r, br_after r)))
      (lb_rows s) (lb_rows t)"
    unfolding rows by (simp add: list_all2_map2 list.rel_refl_strong)
qed

theorem decisions_write_the_preview_witness:
  "scope_refs 41 ex_filed = [''standard:iso''] \<and> set (scope_refs 41 ex_decided) = {''service:advice'', ''standard:iso''} \<and>
    set (scope_refs 40 ex_decided) = set (scope_refs 40 ex_filed)"
proof -
  let ?new = "filter (newly_approved ex_filed) (lb_rows ex_decided)"
  have "map (\<lambda>r. (br_subject r, br_before r, br_after r)) ?new = [(41, [''standard:iso''], [''service:advice'', ''standard:iso''])]"
    by code_simp
  then obtain r where r: "?new = [r]" "br_subject r = 41" "br_before r = [''standard:iso'']" "br_after r = [''service:advice'', ''standard:iso'']"
    by auto
  then have new: "r' \<in> set (lb_rows ex_decided) \<and> newly_approved ex_filed r' \<longleftrightarrow> r' = r" for r' by (metis in_set_filter_one)
  note all = decisions_write_the_preview [OF ex_retag_init ex_retag_runs(1) ex_catalogs(2) ex_deciding]
  have "scope_refs 41 ex_filed = [''standard:iso''] \<and> set (scope_refs 41 ex_decided) = {''service:advice'', ''standard:iso''}"
    using conjunct1 [OF all] new [of r] r(2-4) by auto
  moreover have "\<not> (\<exists>r'\<in>set (lb_rows ex_decided). newly_approved ex_filed r' \<and> br_subject r' = 40)"
  proof
    assume "\<exists>r'\<in>set (lb_rows ex_decided). newly_approved ex_filed r' \<and> br_subject r' = 40"
    then obtain r' where "r' \<in> set (lb_rows ex_decided) \<and> newly_approved ex_filed r'" "br_subject r' = 40" by blast
    then show False using new r(2) by simp
  qed
  then have "set (scope_refs 40 ex_decided) = set (scope_refs 40 ex_filed)"
    using spec [OF conjunct1 [OF conjunct2 [OF all]], of 40] by blast
  ultimately show ?thesis by blast
qed

section \<open>Four eyes and the end of a batch\<close>

text \<open>C19: In every state the batches reach, a batch is open exactly while a row of it is pending, is approved when
  one of its rows was and rejected otherwise, and neither the batch nor any of its rows was decided by the
  person who proposed it.\<close>

theorem batches_end_with_their_rows:
  assumes "retag_init s0" and "retag_step\<^sup>*\<^sup>* s0 s" and "p \<in> set (lb_proposals s)" and "pp_is_batch p"
  shows "pp_status p = (if \<exists>r\<in>set (batch_rows (pp_id p) s). br_decision r = ROW_PENDING then P_OPEN
      else if \<exists>r\<in>set (batch_rows (pp_id p) s). br_decision r = ROW_APPROVED then P_APPROVED else P_REJECTED) \<and>
    length (batch_rows (pp_id p) s) = pp_row_count p \<and> 0 < pp_row_count p \<and>
    (pp_status p = P_OPEN \<or> (pp_reviewed_by p \<noteq> None \<and> pp_reviewed_by p \<noteq> pp_user p)) \<and>
    (\<forall>r\<in>set (batch_rows (pp_id p) s). br_decision r = ROW_PENDING \<or> (br_decided_by r \<noteq> None \<and> br_decided_by r \<noteq> pp_user p))"
proof -
  have "batches_ok s" using reachable_batches assms(1,2) .
  then have good: "good_batch p (batch_rows (pp_id p) s)" using assms(3,4) by (auto simp: batches_ok_def)
  then have "0 < pp_row_count p" by (metis good_batch_def length_greater_0_conv)
  moreover have "\<forall>r\<in>set (batch_rows (pp_id p) s). br_decision r = ROW_PENDING \<or> (br_decided_by r \<noteq> None \<and> br_decided_by r \<noteq> pp_user p)"
    using good unfolding good_batch_def good_row_def list_all_iff by blast
  ultimately show ?thesis
    using good by (cases "list_ex (\<lambda>r. br_decision r = ROW_PENDING) (batch_rows (pp_id p) s)")
      (simp_all add: good_batch_def list_ex_iff)
qed

theorem batches_end_with_their_rows_witness:
  "pp_status ex_closed = P_APPROVED \<and> pp_row_count ex_closed = 2 \<and> pp_reviewed_by ex_closed \<noteq> pp_user ex_closed"
proof -
  have p: "ex_closed \<in> set (lb_proposals ex_decided)" "pp_is_batch ex_closed \<and> pp_id ex_closed = 20" by code_simp+
  have rows: "map br_decision (batch_rows 20 ex_decided) = [ROW_REJECTED, ROW_APPROVED]" by code_simp
  then obtain x y where xy: "batch_rows 20 ex_decided = [x, y]" "br_decision x = ROW_REJECTED" "br_decision y = ROW_APPROVED"
    unfolding map_eq_Cons_conv by blast
  show ?thesis
    using batches_end_with_their_rows [OF ex_retag_init ex_retag_runs(3) p(1) conjunct1 [OF p(2)], unfolded conjunct2 [OF p(2)] xy(1)] xy(2,3)
    by auto
qed

text \<open>A row is decided once.\<close>

lemma decided_stays_step:
  assumes "retag_step s t" and ok: "batches_ok s" and r: "r \<in> set (lb_rows s) \<and> br_decision r \<noteq> ROW_PENDING"
  shows "r \<in> set (lb_rows t) \<and> br_decision r \<noteq> ROW_PENDING"
  using assms(1)
proof (cases rule: retag_step.cases)
  case (filed bs zone b pr answer)
  then obtain p fresh where cb: "create_batch bs zone b pr s = Inr ((p, fresh), t)" by (cases answer) simp
  show ?thesis
  proof (cases fresh)
    case True
    with cb have "create_batch bs zone b pr s = Inr ((p, True), t)" by simp
    then show ?thesis by (rule create_batch_fresh) (use r in simp)
  next
    case False
    with cb have "create_batch bs zone b pr s = Inr ((p, False), t)" by simp
    from create_batch_replayed [OF this] show ?thesis using r by auto
  qed
next
  case (decided bs zone i bd rv step_up p)
  then obtain u p0 chosen where dec: "deciding i bd rv s u p0 chosen"
    and rows: "lb_rows t = map (settled chosen (Some u) (db_now (lb_db s))) (lb_rows s)"
    using decide_effect [OF ok] by blast
  have "given_to chosen (br_id r) = None"
    using deciding_facts(5,6) [OF ok dec] r by (metis not_Some_eq)
  then have "settled chosen (Some u) (db_now (lb_db s)) r = r" by (simp add: settled_given)
  then show ?thesis using r by (metis image_eqI list.set_map rows)
next
  case elsewhere
  then show ?thesis using r by (simp add: retag_elsewhere_def)
qed

text \<open>A decision is made once: whatever is filed or decided later, by whoever, and whatever the rest of the
  program does, a decided row stays as it was decided.\<close>

theorem decisions_are_final:
  assumes "retag_init s0" and "retag_step\<^sup>*\<^sup>* s0 s" and "retag_step\<^sup>*\<^sup>* s t"
    and "r \<in> set (lb_rows s)" and "br_decision r \<noteq> ROW_PENDING"
  shows "r \<in> set (lb_rows t)"
proof -
  have "r \<in> set (lb_rows t) \<and> br_decision r \<noteq> ROW_PENDING"
    by (rule retag_sys.stable_run [OF assms(3) reachable_batches [OF assms(1,2)]])
      (use assms(4,5) decided_stays_step in blast)+
  then show ?thesis ..
qed

theorem decisions_are_final_witness:
  "br_decision (hd (lb_rows ex_decided)) = ROW_REJECTED \<and> hd (lb_rows ex_decided) \<in> set (lb_rows (snd (projr ex_again)))"
proof -
  have r: "hd (lb_rows ex_decided) \<in> set (lb_rows ex_decided)" "br_decision (hd (lb_rows ex_decided)) = ROW_REJECTED"
    by code_simp+
  then show ?thesis using decisions_are_final [OF ex_retag_init ex_retag_runs(3) ex_later r(1)] by simp
qed

section \<open>Standards\<close>

text \<open>How many opt-in terms an obligation carries.\<close>

definition opt_in_links :: "uuid \<Rightarrow> library \<Rightarrow> nat" where
  "opt_in_links ob s = length (remdups (opt_in_terms (map snd (filter (\<lambda>l. fst l = ob) (lb_scope s))) s))"

definition standards_ok :: "library \<Rightarrow> bool" where
  "standards_ok s \<longleftrightarrow> (\<forall>o'\<in>set (lb_obligations s). ro_owner o' = None \<and> ro_active o' \<longrightarrow>
    (\<forall>instr\<in>set (lb_instruments s). instrument_of o' s = Inr instr \<longrightarrow>
      opt_in_links (ro_id o') s = (if in_level_kind instr = ''standard'' then 1 else 0)))"

lemma standards_check_count:
  assumes "standards_check is_link zone kind instr (Some is) fs ref_label source_label (Some opt_in) s = Inr ()"
    and "kind = OBLIGATION_SCOPE" and "set is \<inter> set opt_in = set (opt_in_terms is s)"
  shows "length (remdups (opt_in_terms is s)) = (if in_level_kind instr = ''standard'' then 1 else 0)"
proof -
  have "set (filter (\<lambda>i. i \<in> set opt_in) is) = set (opt_in_terms is s)" using assms(3) by auto
  then have "length (remdups (filter (\<lambda>i. i \<in> set opt_in) is)) = length (remdups (opt_in_terms is s))"
    by (simp only: length_remdups_card_conv)
  then have n: "opt_in_count (Some is) (Some opt_in) s = length (remdups (opt_in_terms is s))"
    by (auto simp: opt_in_count_def opt_in_terms_def)
  show ?thesis
    using assms(1) unfolding standards_check_def Let_def n assms(2)
    by (auto simp: inr_simps OBLIGATION_KINDS_def split: if_splits)
qed

lemma opt_in_terms_same: "tax t = tax s \<Longrightarrow> opt_in_terms is t = opt_in_terms is s"
  by (simp add: opt_in_terms_def)

lemma opt_in_links_set:
  "opt_in_links ob s = card (set (opt_in_terms is s))" if "set is = {i. (ob, i) \<in> set (lb_scope s)}"
proof -
  have "set (map snd (filter (\<lambda>l. fst l = ob) (lb_scope s))) = set is" using that by force
  then have "set (opt_in_terms (map snd (filter (\<lambda>l. fst l = ob) (lb_scope s))) s) = set (opt_in_terms is s)"
    unfolding opt_in_terms_def by simp
  then show ?thesis by (simp add: opt_in_links_def length_remdups_card_conv)
qed

lemma row_keeps_term:
  assumes ok: "batches_ok s" and c: "catalog_ok s" and dec: "deciding i bd rv s u p chosen"
    and l: "set (lb_scope t) = rows_of_scope (approved_rows chosen) s" and sh: "same_shelf s t"
    and r: "r \<in> set (approved_rows chosen)" "br_subject r = ro_id o'" and ck: "checked_row bs None p changes opt_in s r"
    and o': "o' \<in> set (lb_obligations s)" and instr: "instrument_of o' s = Inr instr"
  shows "opt_in_links (ro_id o') t = (if in_level_kind instr = ''standard'' then 1 else 0)"
proof -
  obtain o'' "is" where o'': "active_shared_obligation (br_subject r) s = Some o''"
    and "is": "set is = {i. \<exists>ref\<in>set (br_after r). spells s i ref}" "set is \<inter> set opt_in = set (opt_in_terms is s)"
    and rs: "row_standard bs None p changes opt_in s (o'', r, is)"
    using ck unfolding checked_row_def by blast
  have "o'' \<in> set (lb_obligations s) \<and> ro_id o'' = ro_id o'"
    using find_Some_in [OF o'' [unfolded active_shared_obligation_def]] r(2) by simp
  then have "o'' = o'" using c o' by (auto simp: catalog_ok_def Let_def distinct_map inj_on_def)
  then obtain source where chk: "standards_check (bs_is_link bs) None (pp_kind p) instr (Some is) [(''terms'', source)] None
      (pp_source_label p) (Some opt_in) s = Inr ()"
    using rs instr by (auto simp: row_standard_def)
  have kind: "pp_kind p = OBLIGATION_SCOPE" using deciding_facts(2) [OF ok dec] by (simp add: good_batch_def)
  have "distinct (map br_subject (approved_rows chosen))"
    using deciding_facts(4) [OF ok dec] by (auto simp: approved_rows_def distinct_map_filter)
  then have "(ro_id o', i) \<in> set (lb_scope t) \<longleftrightarrow> (\<exists>ref\<in>set (br_after r). spells s i ref)" for i
    using row_links [OF _ r(1)] unfolding l r(2) by simp
  then have "set is = {i. (ro_id o', i) \<in> set (lb_scope t)}" by (simp add: "is"(1))
  moreover have tax: "tax t = tax s" using sh by (simp add: same_shelf_def)
  ultimately have "opt_in_links (ro_id o') t = length (remdups (opt_in_terms is s))"
    using opt_in_links_set [of "is" "ro_id o'" t] by (simp add: opt_in_terms_same [OF tax] length_remdups_card_conv)
  then show ?thesis using standards_check_count [OF chk kind "is"(2)] by simp
qed

text \<open>C20: A standard keeps its one term.  If every obligation in force of the shared library carries exactly one opt-in
  term when its instrument is a standard and none when it is not, then so it is after any decision that is
  answered, whatever rows it approves together.\<close>

theorem standards_keep_their_term:
  assumes "retag_init s0" and "retag_step\<^sup>*\<^sup>* s0 s" and c: "catalog_ok s" and st: "standards_ok s"
    and d: "decide bs zone i bd rv step_up s = Inr (p', t)"
  shows "standards_ok t"
  unfolding standards_ok_def
proof (intro ballI impI)
  have ok: "batches_ok s" using reachable_batches assms(1,2) .
  obtain u p chosen where dec: "deciding i bd rv s u p chosen"
    and l: "set (lb_scope t) = rows_of_scope (approved_rows chosen) s" and sh: "same_shelf s t"
    and ex: "\<exists>changes opt_in. \<forall>r\<in>set (approved_rows chosen). checked_row bs None p changes opt_in s r"
    using decide_effect [OF ok c d] by blast
  obtain changes opt_in where ck: "\<forall>r\<in>set (approved_rows chosen). checked_row bs None p changes opt_in s r" using ex by blast
  have shelf: "tax t = tax s" "lb_obligations t = lb_obligations s" "lb_instruments t = lb_instruments s"
    using sh by (simp_all add: same_shelf_def)
  fix o' instr
  assume "o' \<in> set (lb_obligations t)" and live: "ro_owner o' = None \<and> ro_active o'"
    and "instrument_of o' t = Inr instr" and "instr \<in> set (lb_instruments t)"
  then have o': "o' \<in> set (lb_obligations s)" and instr: "instrument_of o' s = Inr instr" "instr \<in> set (lb_instruments s)"
    by (simp_all add: instrument_of_def shelf)
  let ?links = "\<lambda>s. map snd (filter (\<lambda>l. fst l = ro_id o') (lb_scope s))"
  have links: "set (?links s) = {i. (ro_id o', i) \<in> set (lb_scope s)}" for s by force
  show "opt_in_links (ro_id o') t = (if in_level_kind instr = ''standard'' then 1 else 0)"
  proof (cases "ro_id o' \<in> br_subject ` set (approved_rows chosen)")
    case False
    then have "set (?links s) = {i. (ro_id o', i) \<in> set (lb_scope t)}" unfolding links l by (simp add: rows_of_scope_def)
    then have "opt_in_links (ro_id o') t = opt_in_links (ro_id o') s"
      using opt_in_links_set [of "?links s" "ro_id o'" t] opt_in_links_set [OF links, of s]
      by (simp only: opt_in_terms_same [OF shelf(1)])
    then show ?thesis using st o' live instr by (simp add: standards_ok_def)
  next
    case True
    then obtain r where r: "r \<in> set (approved_rows chosen)" "br_subject r = ro_id o'" by (metis imageE)
    show ?thesis by (rule row_keeps_term [OF ok c dec l sh r bspec [OF ck r(1)] o' instr(1)])
  qed
qed

theorem standards_keep_their_term_witness: "standards_ok ex_filed \<and> standards_ok ex_decided"
proof -
  have ok: "standards_ok ex_filed" by code_simp
  then show ?thesis
    using standards_keep_their_term [OF ex_retag_init ex_retag_runs(1) ex_catalogs(2) ok ex_deciding] by blast
qed

section \<open>A filed batch can be approved\<close>

definition filed_as ::
    "retag_settings \<Rightarrow> batch_input \<Rightarrow> proposer \<Rightarrow> library \<Rightarrow> proposal \<Rightarrow> library \<Rightarrow> scope_change list \<Rightarrow> string list \<Rightarrow>
     taxonomy_term list \<Rightarrow> bool" where
  "filed_as bs b pr s p t stored refs ts \<longleftrightarrow> same_catalog s t \<and> normalized bs (bi_changes b) = Inr stored \<and>
    (\<exists>flags n. p = batch_proposal b pr flags stored n s) \<and> pp_kind p = OBLIGATION_SCOPE \<and> proposal_checks p \<and>
    p \<in> set (lb_proposals t) \<and> (if refs = [] then Inr [] else terms_of refs s) = Inr ts \<and> set ts \<subseteq> set (tx_terms (tax s)) \<and>
    refuse_mirrored (map tm_dimension ts) s = Inr () \<and> (\<forall>c\<in>set stored. set (sc_add c) \<union> set (sc_remove c) \<subseteq> set refs) \<and>
    (\<exists>rows. batch_rows (pp_id p) t = new_rows rows s \<and>
      list_all2 (previewed bs None (by_ref (tax s) ts) (strip (bi_source_label b)) s) stored rows)"

lemma filed_as:
  assumes ok: "batches_ok s" and cb: "create_batch bs zone b pr s = Inr ((p, True), t)"
  shows "\<exists>stored refs ts. filed_as bs b pr s p t stored refs ts"
proof -
  obtain run stored rows flags e where ch: "batch_checked bs zone b pr s = Inr (run, stored)"
    and pv: "preview bs None stored (strip (bi_source_label b)) s = Inr rows"
    and p: "p = batch_proposal b pr flags stored (length rows) s" "proposal_checks p"
    and t: "t = lb_record e (s\<lparr>lb_db := (lb_db s)\<lparr>db_next := Suc (pp_id p) + length rows\<rparr>,
          lb_proposals := lb_proposals s @ [p], lb_rows := lb_rows s @ new_rows rows s\<rparr>)"
    using create_batch_fresh [OF cb] by metis
  note n = batch_checked_Inr(2) [OF ch] and k = batch_checked_Inr(3) [OF ch]
  have st: "same_catalog s t" "p \<in> set (lb_proposals t)" by (simp_all add: same_catalog_def t)
  have pid: "pp_id p = db_next (lb_db s)" "pp_kind p = OBLIGATION_SCOPE" by (simp_all add: p(1) batch_proposal_def k)
  have own: "batch_rows (pp_id p) t = new_rows rows s" unfolding pid(1) by (rule own_rows [OF ok]) (simp add: t)
  obtain refs ts where pre: "(if refs = [] then Inr [] else terms_of refs s) = Inr ts" "set ts \<subseteq> set (tx_terms (tax s))"
    "refuse_mirrored (map tm_dimension ts) s = Inr ()" "\<forall>c\<in>set stored. set (sc_add c) \<union> set (sc_remove c) \<subseteq> set refs"
    "list_all2 (previewed bs None (by_ref (tax s) ts) (strip (bi_source_label b)) s) stored rows"
    using preview_Inr [OF pv] by blast
  have "filed_as bs b pr s p t stored refs ts"
    unfolding filed_as_def
  proof (intro conjI)
    show "\<exists>flags n. p = batch_proposal b pr flags stored n s" using p(1) by blast
    show "\<exists>rows. batch_rows (pp_id p) t = new_rows rows s \<and>
        list_all2 (previewed bs None (by_ref (tax s) ts) (strip (bi_source_label b)) s) stored rows"
      using own pre(5) by blast
  qed (fact st n pid(2) p(2) pre)+
  then show ?thesis by blast
qed

lemma filed_row:
  assumes c: "catalog_ok s" and f: "filed_as bs b pr s p t stored refs ts" and r: "r \<in> set (batch_rows (pp_id p) t)"
  shows "\<exists>ch\<in>set stored. previewed bs None (by_ref (tax s) ts) (strip (bi_source_label b)) s ch (br_subject r, br_before r, br_after r)"
    and "br_decision r = ROW_PENDING" and "\<not> stale t r"
proof -
  obtain rows where rows: "batch_rows (pp_id p) t = new_rows rows s"
    "list_all2 (previewed bs None (by_ref (tax s) ts) (strip (bi_source_label b)) s) stored rows"
    and sc: "same_catalog s t" and ts: "set ts \<subseteq> set (tx_terms (tax s))"
    using f by (auto simp: filed_as_def)
  show pv: "\<exists>ch\<in>set stored. previewed bs None (by_ref (tax s) ts) (strip (bi_source_label b)) s ch (br_subject r, br_before r, br_after r)"
    using new_rows_preview(1) [OF rows(2)] r rows(1) by simp
  show "br_decision r = ROW_PENDING" using new_rows_simps(4) [of r rows s] r rows(1) by simp
  obtain ch where "previewed bs None (by_ref (tax s) ts) (strip (bi_source_label b)) s ch (br_subject r, br_before r, br_after r)"
    using pv by blast
  from previewed_row(2,3) [OF c ts this] show "\<not> stale t r" by (simp add: stale_def same_catalog_reads [OF sc])
qed

text \<open>Applying all rows of a batch right after it was filed.\<close>

lemma filed_rows_apply:
  assumes c: "catalog_ok s" and f: "filed_as bs b pr s p t stored refs ts" and d: "distinct (map br_subject (rows_of (pp_id p) t))"
  shows "\<exists>t1. obligation_scope bs None stored (rows_of (pp_id p) t) p actr step_up t = Inr t1"
proof -
  have sc: "same_catalog s t" and ts: "set ts \<subseteq> set (tx_terms (tax s))" and refs: "\<forall>ch\<in>set stored. set (sc_add ch) \<subseteq> set refs"
    and kind: "pp_kind p = OBLIGATION_SCOPE" and label: "pp_source_label p = strip (bi_source_label b)"
    and n: "distinct (map sc_obligation stored)"
    using f normalized_changes_Inr(2) by (auto simp: filed_as_def batch_proposal_def normalized_def inr_simps)
  have tx: "tax t = tax s" using sc by (simp add: same_catalog_def)
  note reads = same_catalog_reads [OF sc]
  have row: "\<exists>ch\<in>set stored. previewed bs None (by_ref (tax s) ts) (strip (bi_source_label b)) s ch (br_subject r, br_before r, br_after r)"
    if "r \<in> set (rows_of (pp_id p) t)" for r
    using filed_row(1) [OF c f] that by (auto simp: batch_rows_def)
  show ?thesis
  proof (rule obligation_scope_answers [where refs = refs and ts = ts])
    show "catalog_ok t" "(if refs = [] then Inr [] else terms_of refs t) = Inr ts" "refuse_mirrored (map tm_dimension ts) t = Inr ()"
      unfolding reads using c f by (auto simp: filed_as_def)
    show "distinct (map br_subject (rows_of (pp_id p) t))" by (rule d)
    show "\<forall>r\<in>set (rows_of (pp_id p) t). active_shared_obligation (br_subject r) t \<noteq> None \<and> scope_refs (br_subject r) t = br_before r \<and>
      distinct (br_after r) \<and> set (br_after r) \<subseteq> fst ` set (obligation_scope_terms (br_subject r) t) \<union> set refs"
    proof
      fix r assume r: "r \<in> set (rows_of (pp_id p) t)"
      obtain ch where ch: "ch \<in> set stored"
        and pv: "previewed bs None (by_ref (tax s) ts) (strip (bi_source_label b)) s ch (br_subject r, br_before r, br_after r)"
        using row [OF r] by blast
      note facts = previewed_row [OF c ts pv]
      have "set (br_before r) = fst ` set (obligation_scope_terms (br_subject r) s)"
        unfolding facts(3) [symmetric] by (simp add: scope_refs_def)
      then show "active_shared_obligation (br_subject r) t \<noteq> None \<and> scope_refs (br_subject r) t = br_before r \<and>
        distinct (br_after r) \<and> set (br_after r) \<subseteq> fst ` set (obligation_scope_terms (br_subject r) t) \<union> set refs"
        unfolding reads using facts(2-5) refs ch by blast
    qed
    fix r o' "is" opt_in
    assume r: "r \<in> set (rows_of (pp_id p) t)" and o': "active_shared_obligation (br_subject r) t = Some o'"
      and "is": "set is = {i. \<exists>ref\<in>set (br_after r). spells t i ref}" "set is \<inter> set opt_in = set (opt_in_terms is t)"
    obtain ch where ch: "ch \<in> set stored"
      and pv: "previewed bs None (by_ref (tax s) ts) (strip (bi_source_label b)) s ch (br_subject r, br_before r, br_after r)"
      using row [OF r] by blast
    have id: "ro_id o' = sc_obligation ch"
      using find_Some_in [OF o' [unfolded active_shared_obligation_def]] previewed_row(1) [OF c ts pv] by simp
    have "map_of (rev (map (\<lambda>c. (sc_obligation c, sc_source c)) stored)) (ro_id o') = Some (sc_source ch)"
      unfolding id by (rule last_of_distinct) (use n ch in \<open>auto simp: comp_def\<close>)
    moreover have "\<exists>instr. instrument_of o' s = Inr instr \<and> standards_check (bs_is_link bs) None OBLIGATION_SCOPE instr (Some is)
        [(''terms'', sc_source ch)] None (strip (bi_source_label b)) (Some opt_in) s = Inr ()"
      by (rule previewed_row(6) [OF c ts pv]) (use o' "is" in \<open>simp_all add: reads\<close>)
    ultimately show "row_standard bs None p stored opt_in t (o', r, is)" by (auto simp: row_standard_def reads kind label)
  qed
qed

lemma asked_row:
  assumes c: "catalog_ok s" and f: "filed_as bs b pr s p t stored refs ts" and ch: "ch \<in> set (bi_changes b)"
  shows "\<exists>r\<in>set (batch_rows (pp_id p) t). br_subject r = sc_obligation ch \<and>
    set (br_after r) = (set (scope_refs (sc_obligation ch) s) - set (sc_remove ch)) \<union> set (sc_add ch)"
proof -
  obtain rows where rows: "batch_rows (pp_id p) t = new_rows rows s"
    "list_all2 (previewed bs None (by_ref (tax s) ts) (strip (bi_source_label b)) s) stored rows"
    and n: "normalized_changes [] (bi_changes b) = Inr stored" and ts: "set ts \<subseteq> set (tx_terms (tax s))"
    using f by (auto simp: filed_as_def normalized_def inr_simps)
  obtain ch' where ch': "ch' \<in> set stored" "sc_obligation ch' = sc_obligation ch" "set (sc_add ch') = set (sc_add ch)"
    "set (sc_remove ch') = set (sc_remove ch)"
    using list_all2_partner(1) [OF normalized_entries [OF n] ch] by blast
  obtain r where r: "r \<in> set (batch_rows (pp_id p) t)"
    and pv: "previewed bs None (by_ref (tax s) ts) (strip (bi_source_label b)) s ch' (br_subject r, br_before r, br_after r)"
    using new_rows_preview(2) [OF rows(2) ch'(1)] unfolding rows(1) by blast
  show ?thesis using r previewed_row(1,3,5) [OF c ts pv] ch'(2-4) by auto
qed

lemma filed_subject:
  assumes c: "catalog_ok s" and f: "filed_as bs b pr s p t stored refs ts" and r: "r \<in> set (batch_rows (pp_id p) t)"
  shows "br_subject r \<in> sc_obligation ` set (bi_changes b)"
proof -
  have n: "normalized_changes [] (bi_changes b) = Inr stored" and ts: "set ts \<subseteq> set (tx_terms (tax s))"
    using f by (auto simp: filed_as_def normalized_def inr_simps)
  obtain ch where ch: "ch \<in> set stored"
    and pv: "previewed bs None (by_ref (tax s) ts) (strip (bi_source_label b)) s ch (br_subject r, br_before r, br_after r)"
    using filed_row(1) [OF c f r] by blast
  have "sc_obligation ` set stored = sc_obligation ` set (bi_changes b)" using normalized_changes_Inr(1) [OF n] by (metis set_map)
  moreover have "br_subject r \<in> sc_obligation ` set stored" using previewed_row(1) [OF c ts pv] imageI [OF ch, of sc_obligation] by simp
  ultimately show ?thesis by simp
qed

text \<open>C18: A filed batch can be approved.  Whatever batch is filed in any state the batches reach, a reviewer other than
  its proposer and the person who asked for it can approve every row of it right away: the decision is answered,
  the batch is approved, each obligation of the request has lost the terms it asked to remove and gained the
  terms it asked to add, and every other obligation keeps its scope.\<close>

theorem filed_batches_can_be_approved:
  assumes "retag_init s0" and "retag_step\<^sup>*\<^sup>* s0 s" and c: "catalog_ok s"
    and cb: "create_batch bs zone b pr s = Inr ((p, True), t)"
    and rv: "rv_user rv = Some u" and "pr_user pr \<noteq> Some u" and rq: "requested_by p t \<noteq> Some u"
  shows "\<exists>p' t'. decide bs None (pp_id p) approve_all rv step_up t = Inr (p', t') \<and> pp_status p' = P_APPROVED \<and>
    (\<forall>ch\<in>set (bi_changes b). set (scope_refs (sc_obligation ch) t') =
      (set (scope_refs (sc_obligation ch) s) - set (sc_remove ch)) \<union> set (sc_add ch)) \<and>
    (\<forall>ob. ob \<in> sc_obligation ` set (bi_changes b) \<or> set (scope_refs ob t') = set (scope_refs ob s))"
proof -
  have ok: "batches_ok s" using reachable_batches assms(1,2) .
  obtain stored refs ts where f: "filed_as bs b pr s p t stored refs ts" using filed_as [OF ok cb] by blast
  have okt: "batches_ok t" by (rule filing_keeps [OF ok cb])
  have sc: "same_catalog s t" and p: "p \<in> set (lb_proposals t)" "proposal_checks p"
    and fields: "pp_is_batch p" "pp_status p = P_OPEN" "pp_owner p = None" "pp_reviewed_key p = None" "pp_reviewed_agent p = None"
      "pp_user p = pr_user pr" "pp_payload p = Scope_payload stored" "pp_corrected p = None"
    using f by (auto simp: filed_as_def batch_proposal_def normalized_def inr_simps)
  note reads = same_catalog_reads [OF sc]
  have ct: "catalog_ok t" using c by (simp add: reads)
  let ?rows = "rows_of (pp_id p) t"
  have set_rows: "set ?rows = set (batch_rows (pp_id p) t)" by (auto simp: batch_rows_def)
  have "good_batch p (batch_rows (pp_id p) t)" using okt p(1) fields(1) by (simp add: batches_ok_def)
  then have d: "distinct (map br_subject ?rows)" by (simp add: distinct_rows_of good_batch_def batch_rows_def)
  obtain t1 where t1: "obligation_scope bs None stored ?rows p (rv_actor rv) step_up t = Inr t1"
    using filed_rows_apply [OF c f d] by blast
  note eff = obligation_scope_effect [OF ct d t1]
  have ap: "apply_rows bs None p (rv_actor rv) step_up ?rows t = Inr t1" by (simp add: apply_rows_def fields t1 ensure_def)
  have nu: "pp_user p \<noteq> Some u" using assms(6) fields(6) by simp
  have pend: "\<forall>r\<in>set (batch_rows (pp_id p) t). br_decision r = ROW_PENDING \<and> \<not> stale t r" using filed_row(2,3) [OF c f] by blast
  obtain p' t' where dec: "decide bs None (pp_id p) approve_all rv step_up t = Inr (p', t')" "pp_status p' = P_APPROVED"
    "lb_scope t' = lb_scope t1"
    using decide_answers [OF okt p(1) fields(1-3) p(2) fields(4,5) rv nu rq pend ap eff(3)] by blast
  have sh: "same_shelf t t'" using decide_effect [OF okt ct dec(1)] by blast
  obtain opt_in where ck: "\<forall>r\<in>set ?rows. checked_row bs None p stored opt_in t r" using eff(4) by blast
  note after = scope_after_decision [OF ct sh _ _ ck d, unfolded dec(3), OF eff(1,2)]
  have "set (scope_refs (sc_obligation ch) t') = (set (scope_refs (sc_obligation ch) s) - set (sc_remove ch)) \<union> set (sc_add ch)"
    if ch: "ch \<in> set (bi_changes b)" for ch
  proof -
    obtain r where r: "r \<in> set ?rows" "br_subject r = sc_obligation ch"
      "set (br_after r) = (set (scope_refs (sc_obligation ch) s) - set (sc_remove ch)) \<union> set (sc_add ch)"
      using asked_row [OF c f ch] unfolding set_rows by blast
    show ?thesis using after(1) [OF r(1)] r(2,3) by simp
  qed
  moreover have "set (scope_refs ob t') = set (scope_refs ob s)" if "ob \<notin> sc_obligation ` set (bi_changes b)" for ob
  proof -
    have "ob \<notin> br_subject ` set ?rows" using filed_subject [OF c f] that set_rows by blast
    then show ?thesis using after(2) by (simp add: reads)
  qed
  ultimately show ?thesis using dec by blast
qed

theorem filed_batches_can_be_approved_witness:
  "\<exists>p' t'. decide ex_retag None 20 approve_all ex_reviewer None ex_filed = Inr (p', t') \<and> pp_status p' = P_APPROVED \<and>
    set (scope_refs 40 t') = {''service:advice''} \<and> set (scope_refs 42 t') = {''service:advice''}"
proof -
  have "pp_id ex_proposal = 20" "pr_user ex_proposer \<noteq> Some 2" "requested_by ex_proposal ex_filed \<noteq> Some 2" "rv_user ex_reviewer = Some 2"
    "map sc_obligation (bi_changes ex_batch) = [40, 41]" "sc_obligation (hd (bi_changes ex_batch)) = 40"
    "set (scope_refs 40 ex_library) - set (sc_remove (hd (bi_changes ex_batch))) = {}"
    "sc_add (hd (bi_changes ex_batch)) = [''service:advice'']" "scope_refs 42 ex_library = [''service:advice'']"
    "hd (bi_changes ex_batch) \<in> set (bi_changes ex_batch)"
    by code_simp+
  note facts = this
  obtain p' t' where d: "decide ex_retag None 20 approve_all ex_reviewer None ex_filed = Inr (p', t')" "pp_status p' = P_APPROVED"
    and ch: "\<forall>ch\<in>set (bi_changes ex_batch). set (scope_refs (sc_obligation ch) t') =
      (set (scope_refs (sc_obligation ch) ex_library) - set (sc_remove ch)) \<union> set (sc_add ch)"
    and other: "\<forall>ob. ob \<in> sc_obligation ` set (bi_changes ex_batch) \<or> set (scope_refs ob t') = set (scope_refs ob ex_library)"
    using filed_batches_can_be_approved [OF ex_retag_init rtranclp.rtrancl_refl ex_catalogs(1) ex_filing facts(4,2,3), of None,
      unfolded facts(1)] by blast
  have "set (scope_refs 40 t') = {''service:advice''}" using bspec [OF ch facts(10)] unfolding facts(6-8) by simp
  moreover have "42 \<notin> sc_obligation ` set (bi_changes ex_batch)" unfolding set_map [symmetric] facts(5) by simp
  then have "set (scope_refs 42 t') = {''service:advice''}" using other facts(9) by auto
  ultimately show ?thesis using d by blast
qed

section \<open>A retried request\<close>

lemma find_snoc: "find P xs = None \<Longrightarrow> P x \<Longrightarrow> find P (xs @ [x]) = Some x"
  by (induction xs) (auto split: if_splits)

lemma batch_checked_same: "lb_runs t = lb_runs s \<Longrightarrow> batch_checked bs zone b pr t = batch_checked bs zone b pr s"
  by (simp add: batch_checked_def batch_run_def require_open_run_of_key_def own_run_def)

text \<open>A request sent again under its retry key files nothing.  When a batch was filed for a request that carries one,
  the same request from the same proposer is answered with that batch, marked as not new, and the proposals, the
  rows, the scopes and the runs stay; only the audit trail records the replay.\<close>

theorem retries_answer_the_batch:
  assumes cb: "create_batch bs zone b pr s = Inr ((p, True), t)" and key: "bi_retry_key b = Some k" "k \<noteq> []"
  shows "create_batch bs zone b pr t = Inr ((p, False), lb_record (replayed_entry pr p k) t) \<and>
    lb_proposals (lb_record (replayed_entry pr p k) t) = lb_proposals s @ [p] \<and>
    lb_rows (lb_record (replayed_entry pr p k) t) = lb_rows t \<and> lb_scope (lb_record (replayed_entry pr p k) t) = lb_scope s"
proof -
  obtain run stored rows flags e where ch: "batch_checked bs zone b pr s = Inr (run, stored)"
    and re: "batch_replay zone b pr stored s = Inr None"
    and p: "p = batch_proposal b pr flags stored (length rows) s"
    and t: "t = lb_record e (s\<lparr>lb_db := (lb_db s)\<lparr>db_next := Suc (pp_id p) + length rows\<rparr>,
          lb_proposals := lb_proposals s @ [p], lb_rows := lb_rows s @ new_rows rows s\<rparr>)"
    by (rule create_batch_fresh [OF cb])
  note z = batch_checked_Inr(1) [OF ch]
  have kept: "lb_proposals t = lb_proposals s @ [p]" "lb_scope t = lb_scope s" "lb_runs t = lb_runs s" by (simp_all add: t)
  have none: "already_filed zone pr k s = None" and len: "length k \<le> IDEMPOTENCY_KEY_MAX_CHARS"
    using re key by (auto simp: batch_replay_def inr_simps split: option.splits if_splits)
  have "already_filed zone pr k t = Some p"
    unfolding already_filed_def kept
    by (rule find_snoc [OF none [unfolded already_filed_def]]) (simp add: p batch_proposal_def visible_def z key)
  moreover have "(pp_is_batch p, pp_kind p, pp_title p, pp_payload p) = (True, bi_kind b, strip (bi_title b), Scope_payload stored)"
    by (simp add: p batch_proposal_def)
  ultimately have "batch_replay zone b pr stored t = Inr (Some p)"
    using key len by (simp add: batch_replay_def ensure_def)
  moreover have "batch_checked bs zone b pr t = Inr (run, stored)" using ch by (simp add: batch_checked_same [OF kept(3)])
  ultimately show ?thesis by (simp add: create_batch_def key kept)
qed

theorem retries_answer_the_batch_witness:
  "\<exists>t. create_batch ex_retag None ex_batch ex_proposer ex_filed = Inr ((ex_proposal, False), t) \<and> lb_rows t = lb_rows ex_filed"
  using retries_answer_the_batch [OF ex_filing, of "''k''"] by (auto simp: ex_batch_def)

end
