(* ===== verification/Session_Store.thy ===== *)
theory Session_Store
  imports Case_Routes
begin

text \<open>
  The rows behind signing in: people, their sessions, the grants of platform support, the session policy of a
  bank, step-ups and the security log (\<^verbatim>\<open>identity/models.py\<close>, \<^verbatim>\<open>tenants/models.py\<close>), the constraints the database
  keeps on them, and the tokens of \<^verbatim>\<open>identity/tokens.py\<close>.  The clock, the keys, the banks, the memberships and
  the audit trail are those of \<open>db\<close>.
\<close>

section \<open>Rows\<close>

datatype session_kind = ENROLMENT | FULL | SUPPORT

fun session_kind_value :: "session_kind \<Rightarrow> string" where
  "session_kind_value ENROLMENT = ''enrolment''"
| "session_kind_value FULL = ''full''"
| "session_kind_value SUPPORT = ''support''"

datatype login_method = EMAIL_CODE | PASSKEY | API_KEY | PERSONAL_TOKEN

datatype login_event_kind =
    CODE_SENT | CODE_REFUSED_ENROLLED | CODE_FAILED | CODE_LOCKED | ENROLLED | SIGNIN | SIGNIN_FAILED
  | STEP_UP | STEP_UP_FAILED | REFRESH_REPLAY | SESSION_REVOKED | REENROLMENT_ISSUED | KEY_USED | KEY_REVOKED
  | KEY_CREATED | KEY_SCOPES_WITHHELD | FEED_USED | TOKEN_CREATED | TOKEN_USED | TOKEN_REVOKED
  | CREDENTIAL_RATE_LIMITED | ACCESS_TOKEN_REFUSED

record user_row =
  us_id :: uuid
  us_name :: string
  us_status :: user_status

record user_session =
  ss_id :: uuid
  ss_user :: uuid
  ss_tenant :: "uuid option"
  ss_kind :: session_kind
  ss_refresh_hash :: string
  ss_previous_hash :: "string option"
  ss_rotated_at :: "instant option"
  ss_created_at :: instant
  ss_last_seen_at :: instant
  ss_expires_at :: instant
  ss_revoked_at :: "instant option"
  ss_revoked_reason :: string
  ss_support :: "uuid option"

record step_up_row =
  su_id :: uuid
  su_session :: uuid
  su_created_at :: instant

text \<open>The security log; the address and the device of a request are not kept.\<close>

record login_event =
  le_tenant :: "uuid option"
  le_user :: uuid
  le_method :: login_method
  le_event :: login_event_kind
  le_success :: bool
  le_reason :: string

datatype access_level = READ_LEVEL | WRITE_LEVEL

datatype grant_status = G_REQUESTED | G_APPROVED | G_DECLINED | G_REVOKED | G_EXPIRED

record support_access =
  sa_id :: uuid
  sa_tenant :: uuid
  sa_platform_user :: uuid
  sa_reason :: string
  sa_ticket_ref :: string
  sa_level :: access_level
  sa_status :: grant_status
  sa_hours :: nat
  sa_requested_at :: instant
  sa_request_expires_at :: "instant option"
  sa_approved_by :: "uuid option"
  sa_approved_step_up :: "uuid option"
  sa_started_at :: "instant option"
  sa_expires_at :: "instant option"
  sa_ended_at :: "instant option"
  sa_ended_by :: "uuid option"

record security_policy =
  sp_tenant :: uuid
  sp_idle_minutes :: "nat option"
  sp_absolute_hours :: "nat option"

text \<open>\<open>iy_platform_roles\<close>: a person's platform role assignments, each as the permissions of its active role.
  \<open>iy_drawn\<close> counts the secrets drawn from \<^verbatim>\<open>secrets\<close>.\<close>

record identity =
  iy_db :: db
  iy_users :: "user_row list"
  iy_sessions :: "user_session list"
  iy_grants :: "support_access list"
  iy_policies :: "security_policy list"
  iy_platform_roles :: "(uuid \<times> string list) list"
  iy_step_ups :: "step_up_row list"
  iy_log :: "login_event list"
  iy_drawn :: nat

interpretation session_tbl: keyed_table iy_sessions "\<lambda>rs. iy_sessions_update (\<lambda>_. rs)" ss_id
  by unfold_locales simp

interpretation grant_tbl: keyed_table iy_grants "\<lambda>rs. iy_grants_update (\<lambda>_. rs)" sa_id
  by unfold_locales simp

abbreviation now_of :: "identity \<Rightarrow> instant" where
  "now_of s \<equiv> db_now (iy_db s)"

definition iy_record :: "audit_entry \<Rightarrow> identity \<Rightarrow> identity" where
  "iy_record e s = s\<lparr>iy_db := record_event e (iy_db s)\<rparr>"

definition user_name :: "uuid \<Rightarrow> identity \<Rightarrow> string" where
  "user_name u s = (case find (\<lambda>r. us_id r = u) (iy_users s) of None \<Rightarrow> [] | Some r \<Rightarrow> us_name r)"

definition actor_of :: "uuid \<Rightarrow> identity \<Rightarrow> actor_ref" where
  "actor_of u s = \<lparr>ac_kind = USER, ac_id = Some u, ac_label = user_name u s\<rparr>"

text \<open>\<^verbatim>\<open>log_event\<close>\<close>

definition log_event ::
    "login_event_kind \<Rightarrow> login_method \<Rightarrow> bool \<Rightarrow> uuid \<Rightarrow> uuid option \<Rightarrow> string \<Rightarrow> identity \<Rightarrow> identity" where
  "log_event ev method ok u tenant reason s = s\<lparr>iy_log := iy_log s @
     [\<lparr>le_tenant = tenant, le_user = u, le_method = method, le_event = ev, le_success = ok, le_reason = reason\<rparr>]\<rparr>"

section \<open>Constraints\<close>

text \<open>\<^verbatim>\<open>user_session_support_stands_on_a_grant\<close>\<close>

definition session_check :: "user_session \<Rightarrow> bool" where
  "session_check x \<longleftrightarrow> (ss_kind x = SUPPORT \<and> ss_support x \<noteq> None \<and> ss_tenant x \<noteq> None) \<or>
     (ss_kind x \<noteq> SUPPORT \<and> ss_support x = None)"

text \<open>The two CHECKs of a grant, and the composite keys that make its approver and whoever ended it members
  of the bank.\<close>

definition grant_checks :: "support_access \<Rightarrow> identity \<Rightarrow> bool" where
  "grant_checks g s \<longleftrightarrow>
    (sa_approved_by g = None \<or> sa_approved_by g \<noteq> Some (sa_platform_user g)) \<and>
    (sa_level g = READ_LEVEL \<or> sa_approved_by g = None) \<and>
    (\<forall>u\<in>set_option (sa_approved_by g) \<union> set_option (sa_ended_by g).
       \<exists>m\<in>set (db_members (iy_db s)). m_tenant m = sa_tenant g \<and> m_user m = u)"

text \<open>The trigger \<^verbatim>\<open>support_access_guard\<close>.\<close>

definition grant_guard :: "support_access \<Rightarrow> support_access \<Rightarrow> bool" where
  "grant_guard old new \<longleftrightarrow>
    (sa_id new, sa_tenant new, sa_platform_user new, sa_reason new, sa_ticket_ref new, sa_level new, sa_hours new) =
      (sa_id old, sa_tenant old, sa_platform_user old, sa_reason old, sa_ticket_ref old, sa_level old, sa_hours old) \<and>
    (sa_requested_at new, sa_request_expires_at new) = (sa_requested_at old, sa_request_expires_at old) \<and>
    (sa_started_at old = None \<or> (sa_approved_by new, sa_approved_step_up new, sa_started_at new, sa_expires_at new) =
      (sa_approved_by old, sa_approved_step_up old, sa_started_at old, sa_expires_at old)) \<and>
    (sa_ended_at old = None \<or> (sa_ended_at new, sa_ended_by new) = (sa_ended_at old, sa_ended_by old))"

definition save_grant :: "support_access \<Rightarrow> support_access \<Rightarrow> identity \<Rightarrow> error + identity" where
  "save_grant old new s =
    (if grant_guard old new \<and> grant_checks new s then Inr (s\<lparr>iy_grants := put_row sa_id new (iy_grants s)\<rparr>)
     else Inl Integrity_error)"

section \<open>Tokens (identity/tokens.py)\<close>

text \<open>The hash, the signature, the source of random secrets and the two directions between a key and its hexadecimal
  text are Python's and the settings the deployment's.  \<open>ts_secret n\<close> is the \<open>n\<close>-th secret drawn, \<open>ts_sign\<close> the
  encoded HMAC under the secret key.\<close>

record token_settings =
  ts_sha256 :: "string \<Rightarrow> string"
  ts_sign :: "string \<Rightarrow> string"
  ts_secret :: "nat \<Rightarrow> string"
  ts_hex :: "uuid \<Rightarrow> string"
  ts_uuid :: "string \<Rightarrow> uuid option"
  ts_access_minutes :: nat
  ts_grace_seconds :: nat
  ts_idle_default :: nat
  ts_idle_min :: nat
  ts_idle_max :: nat
  ts_absolute_default :: nat
  ts_absolute_max :: nat
  ts_support_max_hours :: nat
  ts_request_hours :: nat

definition one_second :: instant where
  "one_second = 1000000"

record access_claims =
  cl_session :: uuid
  cl_kind :: string
  cl_tenant :: "uuid option"
  cl_expires_at :: int

abbreviation "ACCESS_TOKEN_VERSION \<equiv> ''v2''"

text \<open>\<^verbatim>\<open>int(t.timestamp())\<close> truncates towards zero; \<open>show_int\<close> is the text of an integer.\<close>

definition epoch :: "instant \<Rightarrow> int" where
  "epoch t = (if 0 \<le> t then t div one_second else - ((- t) div one_second))"

definition show_int :: "int \<Rightarrow> string" where
  "show_int i = (if i < 0 then CHR ''-'' # show_nat (nat (- i)) else show_nat (nat i))"

definition access_payload :: "token_settings \<Rightarrow> uuid \<Rightarrow> string \<Rightarrow> uuid option \<Rightarrow> int \<Rightarrow> string" where
  "access_payload ts i kind tenant expires_at =
    ACCESS_TOKEN_VERSION @ ''.'' @ ts_hex ts i @ ''.'' @ kind @ ''.'' @
      (case tenant of None \<Rightarrow> [] | Some t \<Rightarrow> ts_hex ts t) @ ''.'' @ show_int expires_at"

definition issue_access_token :: "token_settings \<Rightarrow> uuid \<Rightarrow> string \<Rightarrow> uuid option \<Rightarrow> instant \<Rightarrow> string \<times> nat" where
  "issue_access_token ts i kind tenant now =
    (let expires_at = epoch (now + int (ts_access_minutes ts) * minute);
         payload = access_payload ts i kind tenant expires_at in
     (payload @ ''.'' @ ts_sign ts payload, ts_access_minutes ts * 60))"

definition parse_access_token :: "token_settings \<Rightarrow> string \<Rightarrow> instant \<Rightarrow> access_claims option" where
  "parse_access_token ts token now =
    (case split_on (CHR ''.'') token of
       [version, sid, kind, tenant, expiry, signature] \<Rightarrow>
         if version \<noteq> ACCESS_TOKEN_VERSION then None
         else if ts_sign ts (version @ ''.'' @ sid @ ''.'' @ kind @ ''.'' @ tenant @ ''.'' @ expiry) \<noteq> signature then None
         else (case (py_int expiry, ts_uuid ts sid, if tenant = [] then Some None else map_option Some (ts_uuid ts tenant)) of
                 (Some expires_at, Some i, Some t) \<Rightarrow>
                   if expires_at \<le> epoch now then None
                   else Some \<lparr>cl_session = i, cl_kind = kind, cl_tenant = t, cl_expires_at = expires_at\<rparr>
               | _ \<Rightarrow> None)
     | _ \<Rightarrow> None)"

text \<open>A fresh refresh token of a session, with the hash the row keeps.\<close>

definition new_refresh_token :: "token_settings \<Rightarrow> uuid \<Rightarrow> identity \<Rightarrow> (string \<times> string) \<times> identity" where
  "new_refresh_token ts i s =
    (let secret = ts_secret ts (iy_drawn s) in
     ((ts_hex ts i @ ''.'' @ secret, ts_sha256 ts secret), s\<lparr>iy_drawn := Suc (iy_drawn s)\<rparr>))"

definition parse_refresh_token :: "token_settings \<Rightarrow> string \<Rightarrow> (uuid \<times> string) option" where
  "parse_refresh_token ts value =
    (case dropWhile (\<lambda>c. c \<noteq> CHR ''.'') value of
       [] \<Rightarrow> None
     | _ # secret \<Rightarrow> if secret = [] then None
         else map_option (\<lambda>i. (i, ts_sha256 ts secret)) (ts_uuid ts (takeWhile (\<lambda>c. c \<noteq> CHR ''.'') value)))"

end
