(* ===== verification/Support.thy ===== *)
theory Support
  imports Session_Store
begin

text \<open>
  Support access, \<^verbatim>\<open>backend/apps/tenants/support_access.py\<close>: platform support asks to read one bank, the bank
  approves with a passkey, declines or revokes.  Mails are not modelled; entering under a grant is in
  \<open>Sessions\<close>.
\<close>

datatype support_state = S_RECOVERY | S_PENDING | S_ACTIVE | S_DECLINED | S_REVOKED | S_LAPSED | S_ENDED

fun support_state_value :: "support_state \<Rightarrow> string" where
  "support_state_value S_RECOVERY = ''recovery''"
| "support_state_value S_PENDING = ''pending''"
| "support_state_value S_ACTIVE = ''active''"
| "support_state_value S_DECLINED = ''declined''"
| "support_state_value S_REVOKED = ''revoked''"
| "support_state_value S_LAPSED = ''lapsed''"
| "support_state_value S_ENDED = ''ended''"

text \<open>\<^verbatim>\<open>state_of\<close>: the stored status read against the clock.\<close>

definition past :: "instant option \<Rightarrow> instant \<Rightarrow> bool" where
  "past at now \<longleftrightarrow> (case at of None \<Rightarrow> True | Some t \<Rightarrow> t \<le> now)"

definition state_of :: "support_access \<Rightarrow> instant \<Rightarrow> support_state" where
  "state_of g now =
    (if sa_level g = WRITE_LEVEL then S_RECOVERY
     else case sa_status g of
       G_REQUESTED \<Rightarrow> if past (sa_request_expires_at g) now then S_LAPSED else S_PENDING
     | G_APPROVED \<Rightarrow> if past (sa_expires_at g) now then S_ENDED else S_ACTIVE
     | G_EXPIRED \<Rightarrow> if sa_started_at g \<noteq> None then S_ENDED else S_LAPSED
     | G_DECLINED \<Rightarrow> S_DECLINED
     | G_REVOKED \<Rightarrow> S_REVOKED)"

definition pending_requests :: "uuid \<Rightarrow> uuid option \<Rightarrow> identity \<Rightarrow> support_access list" where
  "pending_requests tenant excluding s = filter (\<lambda>g. sa_tenant g = tenant \<and> sa_status g = G_REQUESTED \<and>
     sa_level g = READ_LEVEL \<and> \<not> past (sa_request_expires_at g) (now_of s) \<and> Some (sa_platform_user g) \<noteq> excluding)
     (iy_grants s)"

text \<open>\<^verbatim>\<open>grant_of\<close> and \<^verbatim>\<open>live_grant\<close>, inside the bank.\<close>

definition grant_of :: "uuid \<Rightarrow> uuid \<Rightarrow> identity \<Rightarrow> error + support_access" where
  "grant_of tenant i s = or_else (find (\<lambda>g. sa_tenant g = tenant \<and> sa_id g = i) (iy_grants s)) (Problem 404 ''not_found'')"

definition live_grant :: "uuid \<Rightarrow> uuid \<Rightarrow> identity \<Rightarrow> support_access option" where
  "live_grant tenant i s =
    (case find (\<lambda>g. sa_tenant g = tenant \<and> sa_id g = i) (iy_grants s) of
       None \<Rightarrow> None
     | Some g \<Rightarrow> if state_of g (now_of s) = S_ACTIVE then Some g else None)"

record support_body =
  sy_purpose :: string
  sy_ticket_ref :: string
  sy_hours :: nat

definition support_request :: "token_settings \<Rightarrow> uuid \<Rightarrow> uuid \<Rightarrow> support_body \<Rightarrow> identity \<Rightarrow> support_access" where
  "support_request ts tenant requester body s =
    \<lparr>sa_id = db_next (iy_db s), sa_tenant = tenant, sa_platform_user = requester, sa_reason = strip (sy_purpose body),
     sa_ticket_ref = sy_ticket_ref body, sa_level = READ_LEVEL, sa_status = G_REQUESTED, sa_hours = sy_hours body,
     sa_requested_at = now_of s, sa_request_expires_at = Some (now_of s + int (ts_request_hours ts) * hour),
     sa_approved_by = None, sa_approved_step_up = None, sa_started_at = None, sa_expires_at = None,
     sa_ended_at = None, sa_ended_by = None\<rparr>"

definition request_access ::
    "token_settings \<Rightarrow> uuid \<Rightarrow> uuid \<Rightarrow> actor_ref \<Rightarrow> support_body \<Rightarrow> identity \<Rightarrow> error + support_access \<times> identity" where
  "request_access ts tenant requester actr body s =
    ebind (ensure (\<exists>t\<in>set (db_tenants (iy_db s)). tn_id t = tenant) (Problem 404 ''not_found'')) (\<lambda>_.
    ebind (ensure (strip (sy_purpose body) \<noteq> []) (Validation ''validation_error'')) (\<lambda>_.
    ebind (ensure (sy_hours body \<le> ts_support_max_hours ts) (Validation ''validation_error'')) (\<lambda>_.
    let g = support_request ts tenant requester body s;
        s1 = s\<lparr>iy_db := (iy_db s)\<lparr>db_next := Suc (sa_id g)\<rparr>, iy_grants := iy_grants s @ [g]\<rparr> in
    Inr (g, iy_record (entry ''support_access.requested'' actr ''support_access'' (Some (sa_id g)) (user_name requester s)
      ''Platform support asked to read the bank.'' (Some tenant) []
      [(''purpose'', JStr (sa_reason g)), (''ticketRef'', JStr (sa_ticket_ref g)), (''hours'', JInt (int (sa_hours g))),
       (''platformUserId'', JId requester)]) s1))))"

definition refuse_unless :: "support_access \<Rightarrow> support_state \<Rightarrow> instant \<Rightarrow> error + unit" where
  "refuse_unless g st now = ensure (state_of g now = st) (Validation ''invalid_transition'')"

definition ends_at :: "support_access \<Rightarrow> instant option" where
  "ends_at g = (if sa_status g = G_REVOKED then sa_ended_at g else sa_expires_at g)"

definition support_decided ::
    "support_access \<Rightarrow> support_state \<Rightarrow> string \<Rightarrow> actor_ref \<Rightarrow> string \<Rightarrow> uuid option \<Rightarrow> identity \<Rightarrow> identity" where
  "support_decided g was action actr summary step_up s =
    iy_record ((entry action actr ''support_access'' (Some (sa_id g)) (user_name (sa_platform_user g) s) summary
      (Some (sa_tenant g)) [(''state'', JStr (support_state_value was))]
      [(''state'', JStr (support_state_value (state_of g (now_of s)))), (''platformUserId'', JId (sa_platform_user g)),
       (''decidedBy'', jopt JId (ac_id actr)), (''endsAt'', jopt JTime (ends_at g))])\<lparr>r_step_up := step_up\<rparr>) s"

definition approve_support ::
    "uuid \<Rightarrow> actor_ref \<Rightarrow> uuid \<Rightarrow> uuid \<Rightarrow> identity \<Rightarrow> error + support_access \<times> identity" where
  "approve_support tenant actr i step_up s =
    ebind (grant_of tenant i s) (\<lambda>g.
    ebind (refuse_unless g S_PENDING (now_of s)) (\<lambda>_.
    ebind (ensure (ac_id actr \<noteq> Some (sa_platform_user g)) (Validation ''four_eyes_violation'')) (\<lambda>_.
    let g' = g\<lparr>sa_status := G_APPROVED, sa_approved_by := ac_id actr, sa_approved_step_up := Some step_up,
               sa_started_at := Some (now_of s), sa_expires_at := Some (now_of s + int (sa_hours g) * hour)\<rparr> in
    ebind (save_grant g g' s) (\<lambda>s1.
    Inr (g', support_decided g' S_PENDING ''support_access.approved'' actr
      ''The bank let platform support read it for the window asked for.'' (Some step_up) s1)))))"

text \<open>\<^verbatim>\<open>_end\<close>\<close>

definition end_grant :: "support_access \<Rightarrow> grant_status \<Rightarrow> actor_ref \<Rightarrow> identity \<Rightarrow> error + support_access \<times> identity" where
  "end_grant g status actr s =
    (let g' = g\<lparr>sa_status := status, sa_ended_at := Some (now_of s), sa_ended_by := ac_id actr\<rparr> in
     ebind (save_grant g g' s) (\<lambda>s1. Inr (g', s1)))"

definition decline_support :: "uuid \<Rightarrow> actor_ref \<Rightarrow> uuid \<Rightarrow> identity \<Rightarrow> error + support_access \<times> identity" where
  "decline_support tenant actr i s =
    ebind (grant_of tenant i s) (\<lambda>g.
    ebind (refuse_unless g S_PENDING (now_of s)) (\<lambda>_.
    ebind (end_grant g G_DECLINED actr s) (\<lambda>(g', s1).
    Inr (g', support_decided g' S_PENDING ''support_access.declined'' actr ''The bank refused platform support's request.''
      None s1))))"

definition revoke_support :: "uuid \<Rightarrow> actor_ref \<Rightarrow> uuid \<Rightarrow> identity \<Rightarrow> error + support_access \<times> identity" where
  "revoke_support tenant actr i s =
    ebind (grant_of tenant i s) (\<lambda>g.
    ebind (refuse_unless g S_ACTIVE (now_of s)) (\<lambda>_.
    ebind (end_grant g G_REVOKED actr s) (\<lambda>(g', s1).
    Inr (g', support_decided g' S_ACTIVE ''support_access.revoked'' actr ''The bank ended platform support's access.''
      None s1))))"

section \<open>What a bank is shown\<close>

definition decided_at :: "support_access \<Rightarrow> instant option" where
  "decided_at g = (if sa_ended_by g \<noteq> None then sa_ended_at g else if sa_approved_by g \<noteq> None then sa_started_at g else None)"

record support_view =
  sv_id :: uuid
  sv_state :: support_state
  sv_purpose :: string
  sv_ticket_ref :: string
  sv_hours :: nat
  sv_person :: uuid
  sv_requested_at :: instant
  sv_decided_by :: "uuid option"
  sv_decided_at :: "instant option"
  sv_ends_at :: "instant option"

text \<open>\<^verbatim>\<open>_out\<close>: a refusal or an end is shown before an approval.\<close>

definition support_view_of :: "instant \<Rightarrow> support_access \<Rightarrow> support_view" where
  "support_view_of now g =
    \<lparr>sv_id = sa_id g, sv_state = state_of g now, sv_purpose = sa_reason g, sv_ticket_ref = sa_ticket_ref g,
     sv_hours = sa_hours g, sv_person = sa_platform_user g, sv_requested_at = sa_requested_at g,
     sv_decided_by = (case sa_ended_by g of None \<Rightarrow> sa_approved_by g | Some u \<Rightarrow> Some u), sv_decided_at = decided_at g,
     sv_ends_at = ends_at g\<rparr>"

text \<open>Newest first.\<close>

definition newest_first :: "support_access list \<Rightarrow> support_access list" where
  "newest_first gs = rev (sort_key sa_requested_at (sort_key sa_id gs))"

definition list_for_tenant :: "uuid \<Rightarrow> nat \<Rightarrow> nat \<Rightarrow> identity \<Rightarrow> support_view list \<times> nat" where
  "list_for_tenant tenant limit offset s =
    (let grants = filter (\<lambda>g. sa_tenant g = tenant) (iy_grants s) in
     (map (support_view_of (now_of s)) (take limit (drop offset (newest_first grants))), length grants))"

end
