(* ===== verification/Sessions.thy ===== *)
theory Sessions
  imports Support
begin

text \<open>
  Sessions, \<^verbatim>\<open>backend/apps/identity/session_logic.py\<close>, with entering a bank under a grant
  (\<^verbatim>\<open>tenants/support_access.py\<close>) and the routes of support access (\<^verbatim>\<open>tenants/api.py\<close>).  A refusal of these handlers is
  answered inside the request's transaction, so what they wrote stays: they return the state beside the answer.
\<close>

type_synonym 'a answered = "(error + 'a) \<times> identity"

abbreviation "unauthenticated_again \<equiv> Validation ''unauthenticated''"
abbreviation "support_over \<equiv> Problem 401 ''support_access_ended''"

section \<open>Limits\<close>

text \<open>A limit of zero is no limit of the bank's own: \<^verbatim>\<open>or\<close> takes the default for it.\<close>

definition set_or :: "nat option \<Rightarrow> nat \<Rightarrow> nat" where
  "set_or x d = (case x of None \<Rightarrow> d | Some n \<Rightarrow> if n = 0 then d else n)"

definition limits :: "token_settings \<Rightarrow> uuid option \<Rightarrow> identity \<Rightarrow> instant \<times> instant" where
  "limits ts tenant s =
    (let policy = (case tenant of None \<Rightarrow> None | Some t \<Rightarrow> find (\<lambda>p. sp_tenant p = t) (iy_policies s));
         idle = (case policy of None \<Rightarrow> ts_idle_default ts | Some p \<Rightarrow> set_or (sp_idle_minutes p) (ts_idle_default ts));
         absolute = (case policy of None \<Rightarrow> ts_absolute_default ts
                     | Some p \<Rightarrow> set_or (sp_absolute_hours p) (ts_absolute_default ts)) in
     (int (max (min idle (ts_idle_max ts)) (ts_idle_min ts)) * minute, int (min absolute (ts_absolute_max ts)) * hour))"

section \<open>Creating\<close>

definition choose_tenant :: "uuid \<Rightarrow> identity \<Rightarrow> uuid option" where
  "choose_tenant u s = map_option m_tenant (find (\<lambda>m. m_user m = u \<and> m_deactivated_at m = None) (db_members (iy_db s)))"

record session_bundle =
  sb_session :: user_session
  sb_access :: string
  sb_expires_in :: nat
  sb_refresh :: string

definition open_session ::
    "token_settings \<Rightarrow> uuid \<Rightarrow> session_kind \<Rightarrow> uuid option \<Rightarrow> uuid option \<Rightarrow> instant \<Rightarrow> identity \<Rightarrow> session_bundle \<times> identity" where
  "open_session ts u kind tenant grant expires_at s =
    (let i = db_next (iy_db s); ((value, hash), s1) = new_refresh_token ts i s;
         (access, expires_in) = issue_access_token ts i (session_kind_value kind) tenant (now_of s);
         x = \<lparr>ss_id = i, ss_user = u, ss_tenant = tenant, ss_kind = kind, ss_refresh_hash = hash, ss_previous_hash = None,
              ss_rotated_at = None, ss_created_at = now_of s, ss_last_seen_at = now_of s, ss_expires_at = expires_at,
              ss_revoked_at = None, ss_revoked_reason = [], ss_support = grant\<rparr> in
     (\<lparr>sb_session = x, sb_access = access, sb_expires_in = expires_in, sb_refresh = value\<rparr>,
      s1\<lparr>iy_db := (iy_db s1)\<lparr>db_next := Suc i\<rparr>, iy_sessions := iy_sessions s1 @ [x]\<rparr>))"

definition session_entry :: "user_session \<Rightarrow> string \<Rightarrow> actor_ref \<Rightarrow> string \<Rightarrow> jobj \<Rightarrow> identity \<Rightarrow> audit_entry" where
  "session_entry x action actr summary aft s =
    entry action actr ''user_session'' (Some (ss_id x)) (user_name (ss_user x) s) summary (ss_tenant x) [] aft"

definition capitalized :: "session_kind \<Rightarrow> string" where
  "capitalized kind = (case kind of ENROLMENT \<Rightarrow> ''Enrolment'' | FULL \<Rightarrow> ''Full'' | SUPPORT \<Rightarrow> ''Support'')"

definition create_session ::
    "token_settings \<Rightarrow> uuid \<Rightarrow> session_kind \<Rightarrow> uuid option \<Rightarrow> identity \<Rightarrow> session_bundle \<times> identity" where
  "create_session ts u kind tenant s =
    (let (b, s1) = open_session ts u kind tenant None (now_of s + snd (limits ts tenant s)) s; x = sb_session b in
     (b, iy_record (session_entry x ''session.created'' (actor_of u s1) (capitalized kind @ '' session started.'')
       [(''kind'', JStr (session_kind_value kind)), (''expiresAt'', JTime (ss_expires_at x))] s1) s1))"

section \<open>Revoking\<close>

definition revoke_session :: "user_session \<Rightarrow> string \<Rightarrow> actor_ref \<Rightarrow> identity \<Rightarrow> identity" where
  "revoke_session x reason actr s =
    (if ss_revoked_at x \<noteq> None then s
     else
       let x' = x\<lparr>ss_revoked_at := Some (now_of s), ss_revoked_reason := reason\<rparr>;
           s1 = log_event SESSION_REVOKED (if ss_kind x = FULL then PASSKEY else EMAIL_CODE) True (ss_user x) (ss_tenant x) reason
             (s\<lparr>iy_sessions := put_row ss_id x' (iy_sessions s)\<rparr>) in
       iy_record (session_entry x ''session.revoked'' actr (''Session revoked ('' @ reason @ '').'')
         [(''reason'', JStr reason)] s1) s1)"

text \<open>The sessions a bank's own zone or no zone shows: its own, and those of no bank.\<close>

definition in_zone :: "uuid option \<Rightarrow> user_session \<Rightarrow> bool" where
  "in_zone zone x \<longleftrightarrow> ss_tenant x = None \<or> ss_tenant x = zone"

definition revoke_all :: "uuid option \<Rightarrow> uuid \<Rightarrow> uuid option \<Rightarrow> string \<Rightarrow> actor_ref \<Rightarrow> identity \<Rightarrow> nat \<times> identity" where
  "revoke_all zone u tenant reason actr s =
    (let hit = filter (\<lambda>x. in_zone zone x \<and> ss_user x = u \<and> ss_revoked_at x = None \<and>
           (tenant = None \<or> ss_tenant x = tenant)) (iy_sessions s) in
     (length hit, fold (\<lambda>x. revoke_session x reason actr) hit s))"

definition revoke_own_session :: "uuid option \<Rightarrow> uuid \<Rightarrow> uuid \<Rightarrow> identity \<Rightarrow> error + identity" where
  "revoke_own_session zone caller i s =
    ebind (or_else (find (\<lambda>x. in_zone zone x \<and> ss_id x = i \<and> ss_user x = caller) (iy_sessions s)) (Validation ''not_found''))
      (\<lambda>x. Inr (revoke_session x ''revoked_by_user'' (actor_of (ss_user x) s) s))"

text \<open>Newest first.\<close>

definition live_sessions :: "uuid option \<Rightarrow> uuid \<Rightarrow> uuid option \<Rightarrow> identity \<Rightarrow> user_session list" where
  "live_sessions zone u tenant s = rev (sort_key ss_last_seen_at (sort_key ss_id (filter (\<lambda>x. in_zone zone x \<and> ss_user x = u \<and>
     ss_revoked_at x = None \<and> now_of s < ss_expires_at x \<and> ss_kind x = FULL \<and> (tenant = None \<or> ss_tenant x = tenant))
     (iy_sessions s))))"

section \<open>From an access token to a principal\<close>

definition live :: "user_session \<Rightarrow> instant \<Rightarrow> bool" where
  "live x now \<longleftrightarrow> ss_revoked_at x = None \<and> now < ss_expires_at x"

definition SUPPORT_PERMISSIONS :: "string list" where
  "SUPPORT_PERMISSIONS = [''library.read'', ''watch.read'', ''roadmap.read'', ''register.read'', ''cases.read'',
     ''reports.read'', ''audit.read'']"

definition TENANT_PERMISSIONS :: "string list" where
  "TENANT_PERMISSIONS = [''library.read'', ''watch.read'', ''roadmap.read'', ''search.use'', ''comments.write'',
     ''problems.report'', ''register.read'', ''cases.read'', ''reports.read'', ''audit.read'', ''footprint.request'',
     ''footprint.approve'', ''cases.triage'', ''cases.work'', ''cases.contribute'', ''cases.signoff'', ''register.edit'',
     ''gaps.edit'', ''applicability.approve'', ''risk.accept.approve'', ''proposals.create'', ''private_records.approve'',
     ''exports.create'', ''ai_log.read'', ''members.manage'', ''roles.manage'', ''security.manage'', ''vocab.manage'',
     ''workflow.manage'', ''agents.manage'', ''integrations.manage'', ''agent_access.manage'', ''tokens.create'']"

definition PLATFORM_PERMISSIONS :: "string list" where
  "PLATFORM_PERMISSIONS = [''proposals.review'', ''library_vocab.manage'', ''sources.manage'', ''eval.manage'',
     ''tenants.manage'', ''agent_definitions.manage'', ''support_access.grant'', ''system.health'']"

text \<open>A principal with what it says of its session.\<close>

record session_principal = principal +
  q_staff :: bool
  q_session :: "uuid option"
  q_session_created_at :: "instant option"
  q_support :: "uuid option"

definition read_session :: "uuid option \<Rightarrow> uuid \<Rightarrow> identity \<Rightarrow> user_session option" where
  "read_session zone i s = find (\<lambda>x. in_zone zone x \<and> ss_id x = i) (iy_sessions s)"

text \<open>The latest step-up of a session.\<close>

definition latest_step_up :: "uuid \<Rightarrow> identity \<Rightarrow> step_up_row option" where
  "latest_step_up i s = (case filter (\<lambda>r. su_session r = i) (iy_step_ups s) of [] \<Rightarrow> None
     | rs \<Rightarrow> Some (last (sort_key su_created_at (sort_key su_id rs))))"

definition bare_principal :: "principal_kind \<Rightarrow> user_session \<Rightarrow> identity \<Rightarrow> session_principal" where
  "bare_principal kind x s =
    \<lparr>p_kind = kind, p_subject = ss_user x, p_name = user_name (ss_user x) s, p_tenant = ss_tenant x, p_permissions = [],
     p_scopes = [], p_step_up_at = None, p_step_up_assertion = None, q_staff = False, q_session = Some (ss_id x),
     q_session_created_at = None, q_support = None\<rparr>"

definition granted :: "string list list \<Rightarrow> string list \<Rightarrow> string list" where
  "granted roles zone = filter (\<lambda>p. p \<in> set zone) (remdups (concat roles))"

definition build_principal :: "user_session \<Rightarrow> identity \<Rightarrow> session_principal option" where
  "build_principal x s =
    (let base = bare_principal P_USER x s; step_up = latest_step_up (ss_id x) s;
         full = base\<lparr>p_step_up_at := map_option su_created_at step_up, p_step_up_assertion := map_option su_id step_up,
           q_session_created_at := Some (ss_created_at x)\<rparr> in
     case ss_kind x of
       ENROLMENT \<Rightarrow> Some (bare_principal P_ENROLMENT x s)
     | SUPPORT \<Rightarrow> Some (base\<lparr>p_permissions := SUPPORT_PERMISSIONS, q_session_created_at := Some (ss_created_at x),
         q_support := ss_support x\<rparr>)
     | FULL \<Rightarrow>
         (case ss_tenant x of
            Some t \<Rightarrow>
              (case find (\<lambda>m. m_tenant m = t \<and> m_user m = ss_user x \<and> m_deactivated_at m = None) (db_members (iy_db s)) of
                 None \<Rightarrow> None
               | Some m \<Rightarrow> Some (full\<lparr>p_permissions := granted (m_roles m) TENANT_PERMISSIONS\<rparr>))
          | None \<Rightarrow>
              let roles = map snd (filter (\<lambda>(u, _). u = ss_user x) (iy_platform_roles s)) in
              Some (full\<lparr>p_permissions := granted roles PLATFORM_PERMISSIONS, q_staff := (roles \<noteq> [])\<rparr>)))"

abbreviation "TENANT_CLAIM_MISMATCH \<equiv> ''tenant_claim_mismatch''"

text \<open>\<^verbatim>\<open>_refuse_claim\<close>: a signed token that names another bank than its session's ends the session.\<close>

definition refuse_claim :: "access_claims \<Rightarrow> identity \<Rightarrow> identity" where
  "refuse_claim cl s =
    (case find (\<lambda>x. ss_id x = cl_session cl) (iy_sessions s) of
       None \<Rightarrow> s
     | Some x \<Rightarrow>
         if ss_tenant x = cl_tenant cl then s
         else revoke_session x TENANT_CLAIM_MISMATCH (system_actor ''access-token'')
           (log_event ACCESS_TOKEN_REFUSED (if ss_kind x = ENROLMENT then EMAIL_CODE else PASSKEY) False (ss_user x) (ss_tenant x)
             TENANT_CLAIM_MISMATCH s))"

definition grant_live :: "user_session \<Rightarrow> identity \<Rightarrow> bool" where
  "grant_live x s = (case (ss_tenant x, ss_support x) of (Some t, Some g) \<Rightarrow> live_grant t g s \<noteq> None | _ \<Rightarrow> False)"

definition user_deactivated :: "uuid \<Rightarrow> identity \<Rightarrow> bool" where
  "user_deactivated u s \<longleftrightarrow> (\<exists>r\<in>set (iy_users s). us_id r = u \<and> us_status r = DEACTIVATED)"

definition resolve_access_token ::
    "token_settings \<Rightarrow> string \<Rightarrow> principal_kind \<Rightarrow> identity \<Rightarrow> session_principal option answered" where
  "resolve_access_token ts token want s =
    (case parse_access_token ts token (now_of s) of
       None \<Rightarrow> (Inr None, s)
     | Some cl \<Rightarrow>
         if cl_kind cl \<notin> (if want = P_ENROLMENT then {''enrolment''} else {''full'', ''support''}) then (Inr None, s)
         else (case read_session (cl_tenant cl) (cl_session cl) s of
           None \<Rightarrow> (Inr None, refuse_claim cl s)
         | Some x \<Rightarrow>
             if ss_tenant x \<noteq> cl_tenant cl then (Inr None, refuse_claim cl s)
             else let support = (cl_kind cl = ''support'') in
               if \<not> (session_kind_value (ss_kind x) = cl_kind cl \<and> ss_revoked_at x = None \<and>
                      (support \<or> live x (now_of s)) \<and> \<not> user_deactivated (ss_user x) s)
               then (Inr None, s)
               else if support \<and> (ss_expires_at x \<le> now_of s \<or> \<not> grant_live x s) then (Inl support_over, s)
               else (Inr (build_principal x s), s)))"

section \<open>Refreshing and signing out\<close>

definition load_by_refresh :: "token_settings \<Rightarrow> string option \<Rightarrow> identity \<Rightarrow> (user_session \<times> string) option" where
  "load_by_refresh ts value s =
    (case parse_refresh_token ts (case value of None \<Rightarrow> [] | Some v \<Rightarrow> v) of
       None \<Rightarrow> None
     | Some (i, presented) \<Rightarrow> map_option (\<lambda>x. (x, presented)) (find (\<lambda>x. ss_id x = i) (iy_sessions s)))"

text \<open>The secret a session rotated away from, and whether its grace has passed.\<close>

definition is_previous :: "user_session \<Rightarrow> string \<Rightarrow> bool" where
  "is_previous x presented \<longleftrightarrow> ss_previous_hash x = Some presented"

definition within_grace :: "token_settings \<Rightarrow> user_session \<Rightarrow> instant \<Rightarrow> bool" where
  "within_grace ts x now \<longleftrightarrow> (case ss_rotated_at x of None \<Rightarrow> False
     | Some at \<Rightarrow> now - at \<le> int (ts_grace_seconds ts) * one_second)"

definition ended :: "user_session \<Rightarrow> string \<Rightarrow> error \<Rightarrow> identity \<Rightarrow> 'a answered" where
  "ended x reason e s = (Inl e, revoke_session x reason (actor_of (ss_user x) s) s)"

definition refreshed_entry :: "user_session \<Rightarrow> string \<Rightarrow> identity \<Rightarrow> audit_entry" where
  "refreshed_entry x summary s = session_entry x ''session.refreshed'' (actor_of (ss_user x) s) summary [] s"

text \<open>\<^verbatim>\<open>refresh\<close>: the access token, its lifetime and, unless a replay is answered, the next refresh token.\<close>

definition rotate_session ::
    "token_settings \<Rightarrow> user_session \<Rightarrow> instant \<Rightarrow> identity \<Rightarrow> (string \<times> nat \<times> string option) answered" where
  "rotate_session ts x deadline s =
    (let ((value, hash), s1) = new_refresh_token ts (ss_id x) s; now = now_of s;
         x' = x\<lparr>ss_expires_at := deadline, ss_previous_hash := Some (ss_refresh_hash x), ss_refresh_hash := hash,
           ss_rotated_at := Some now, ss_last_seen_at := now\<rparr>;
         s2 = s1\<lparr>iy_sessions := put_row ss_id x' (iy_sessions s1)\<rparr>;
         (access, expires_in) = issue_access_token ts (ss_id x) (session_kind_value (ss_kind x)) (ss_tenant x) now in
     (Inr (access, expires_in, Some value), iy_record (refreshed_entry x ''Refresh token rotated.'' s2) s2))"

definition refresh ::
    "token_settings \<Rightarrow> string option \<Rightarrow> identity \<Rightarrow> (string \<times> nat \<times> string option) answered" where
  "refresh ts value s =
    (let now = now_of s in
     case load_by_refresh ts value s of
       None \<Rightarrow> (Inl unauthenticated_again, s)
     | Some (x, presented) \<Rightarrow>
         if \<not> live x now then (Inl unauthenticated_again, s)
         else if is_previous x presented \<and> ss_rotated_at x \<noteq> None
         then
           if within_grace ts x now
           then (let (access, expires_in) = issue_access_token ts (ss_id x) (session_kind_value (ss_kind x)) (ss_tenant x) now in
                 (Inr (access, expires_in, None),
                  iy_record (refreshed_entry x ''Refresh replayed inside the grace window (concurrent tab).'' s) s))
           else (let (e, s1) = ended x ''refresh_replay'' unauthenticated_again s in
                 (e, log_event REFRESH_REPLAY PASSKEY False (ss_user x) (ss_tenant x) ''refresh_replay'' s1))
         else if presented \<noteq> ss_refresh_hash x then (Inl unauthenticated_again, s)
         else
           let (idle_limit, absolute_limit) = limits ts (ss_tenant x) s;
               deadline = min (ss_expires_at x) (ss_created_at x + absolute_limit) in
           if deadline \<le> now then ended x ''absolute'' unauthenticated_again s
           else if idle_limit < now - ss_last_seen_at x then ended x ''idle'' unauthenticated_again s
           else if ss_kind x = SUPPORT \<and> \<not> grant_live x s then ended x ''support_access_ended'' support_over s
           else rotate_session ts x deadline s)"

text \<open>\<^verbatim>\<open>_holds_secret\<close>\<close>

definition holds_secret :: "token_settings \<Rightarrow> user_session \<Rightarrow> string \<Rightarrow> instant \<Rightarrow> bool" where
  "holds_secret ts x presented now \<longleftrightarrow> presented = ss_refresh_hash x \<or> (within_grace ts x now \<and> is_previous x presented)"

definition sign_out :: "token_settings \<Rightarrow> string option \<Rightarrow> identity \<Rightarrow> identity" where
  "sign_out ts value s =
    (let nobody = iy_record (entry ''session.sign_out_without_session'' (system_actor ''sign-out'') ''user_session'' None []
           ''Sign-out with no live session.'' None [] []) s in
     case load_by_refresh ts value s of
       None \<Rightarrow> nobody
     | Some (x, presented) \<Rightarrow>
         if ss_revoked_at x \<noteq> None \<or> \<not> holds_secret ts x presented (now_of s) then nobody
         else revoke_session x ''sign_out'' (actor_of (ss_user x) s) s)"

section \<open>Entering a bank under a grant\<close>

text \<open>\<^verbatim>\<open>own_grants\<close> and \<^verbatim>\<open>my_grants\<close>: a platform session reads the grants that name it and no other.\<close>

definition own_grants :: "session_principal \<Rightarrow> error + unit" where
  "own_grants p = ensure (p_kind p = P_USER \<and> p_tenant p = None \<and> q_staff p) (Problem 404 ''not_found'')"

text \<open>A platform person's own grants, across banks, as the console shows them: never by whom they were decided.\<close>

definition console_view_of :: "instant \<Rightarrow> support_access \<Rightarrow> uuid \<times> support_view" where
  "console_view_of now g = (sa_tenant g, (support_view_of now g)\<lparr>sv_decided_by := None\<rparr>)"

definition my_grants :: "session_principal \<Rightarrow> nat \<Rightarrow> nat \<Rightarrow> identity \<Rightarrow> error + (uuid \<times> support_view) list \<times> nat" where
  "my_grants p limit offset s = ebind (own_grants p) (\<lambda>_.
    let rows = filter (\<lambda>g. sa_platform_user g = p_subject p) (iy_grants s) in
    Inr (map (console_view_of (now_of s)) (take limit (drop offset (newest_first rows))), length rows))"

definition create_support_session ::
    "token_settings \<Rightarrow> uuid \<Rightarrow> support_access \<Rightarrow> uuid \<Rightarrow> identity \<Rightarrow> error + session_bundle \<times> identity" where
  "create_support_session ts u g replacing s =
    ebind (or_else (find (\<lambda>x. ss_id x = replacing \<and> ss_user x = u \<and> ss_tenant x = None) (iy_sessions s)) Server_error) (\<lambda>console.
    ebind (or_else (sa_expires_at g) Server_error) (\<lambda>until.
    let s1 = revoke_session console ''support_entered'' (actor_of u s) s;
        (b, s2) = open_session ts u SUPPORT (Some (sa_tenant g)) (Some (sa_id g)) until s1; x = sb_session b in
    Inr (b, iy_record (session_entry x ''session.created'' (actor_of u s2) ''Support session started.''
      [(''kind'', JStr (session_kind_value SUPPORT)), (''expiresAt'', JTime until), (''grantId'', JId (sa_id g))] s2) s2)))"

definition enter ::
    "token_settings \<Rightarrow> session_principal \<Rightarrow> uuid \<Rightarrow> uuid \<Rightarrow> identity \<Rightarrow> error + session_bundle \<times> identity" where
  "enter ts p i step_up s =
    ebind (own_grants p) (\<lambda>_.
    ebind (or_else (find (\<lambda>g. sa_platform_user g = p_subject p \<and> sa_id g = i) (iy_grants s)) (Problem 404 ''not_found'')) (\<lambda>g.
    ebind (ensure (state_of g (now_of s) = S_ACTIVE) (Problem 404 ''not_found'')) (\<lambda>_.
    ebind (or_else (q_session p) Server_error) (\<lambda>replacing.
    ebind (create_support_session ts (p_subject p) g replacing s) (\<lambda>(b, s1).
    Inr (b, iy_record ((entry ''support_access.entered'' (actor_of (p_subject p) s) ''support_access'' (Some (sa_id g))
      (user_name (p_subject p) s) ''Platform support entered the bank read-only under its grant.'' (Some (sa_tenant g)) []
      [(''platformUserId'', JId (p_subject p)), (''sessionId'', JId (ss_id (sb_session b))),
       (''endsAt'', JTime (ss_expires_at (sb_session b)))])\<lparr>r_step_up := Some step_up\<rparr>) s1))))))"

section \<open>Routes (tenants/api.py)\<close>

abbreviation "SECURITY_MANAGE \<equiv> ''security.manage''"
abbreviation "SUPPORT_ACCESS_GRANT \<equiv> ''support_access.grant''"

abbreviation plain :: "session_principal \<Rightarrow> principal" where
  "plain p \<equiv> principal.truncate p"

definition approve_support_access ::
    "nat \<Rightarrow> session_principal \<Rightarrow> uuid \<Rightarrow> identity \<Rightarrow> error + support_access \<times> identity" where
  "approve_support_access freshness p i s =
    requires_permission SECURITY_MANAGE (plain p) (\<lambda>_.
    ebind (enforce_step_up freshness (plain p) (iy_db s)) (\<lambda>assertion.
    ebind (caller_tenant (plain p)) (\<lambda>t.
    approve_support t (actor_for (plain p)) i assertion s)))"

definition decline_support_access :: "session_principal \<Rightarrow> uuid \<Rightarrow> identity \<Rightarrow> error + support_access \<times> identity" where
  "decline_support_access p i s = requires_permission SECURITY_MANAGE (plain p) (\<lambda>_.
    ebind (caller_tenant (plain p)) (\<lambda>t. decline_support t (actor_for (plain p)) i s))"

definition revoke_support_access :: "session_principal \<Rightarrow> uuid \<Rightarrow> identity \<Rightarrow> error + support_access \<times> identity" where
  "revoke_support_access p i s = requires_permission SECURITY_MANAGE (plain p) (\<lambda>_.
    ebind (caller_tenant (plain p)) (\<lambda>t. revoke_support t (actor_for (plain p)) i s))"

definition request_console_support_access ::
    "token_settings \<Rightarrow> session_principal \<Rightarrow> uuid \<Rightarrow> support_body \<Rightarrow> identity \<Rightarrow> error + support_access \<times> identity" where
  "request_console_support_access ts p tenant body s = requires_permission SUPPORT_ACCESS_GRANT (plain p) (\<lambda>_.
    ebind (caller_user (plain p)) (\<lambda>u. request_access ts tenant u (actor_for (plain p)) body s))"

definition enter_console_support_access ::
    "token_settings \<Rightarrow> nat \<Rightarrow> session_principal \<Rightarrow> uuid \<Rightarrow> identity \<Rightarrow> error + session_bundle \<times> identity" where
  "enter_console_support_access ts freshness p i s =
    requires_permission SUPPORT_ACCESS_GRANT (plain p) (\<lambda>_.
    ebind (enforce_step_up freshness (plain p) (iy_db s)) (\<lambda>assertion. enter ts p i assertion s))"

end
