(* ===== verification/Session_System.thy ===== *)
theory Session_System
  imports Sessions
begin

text \<open>
  Sessions and grants as a machine.  \<open>doors\<close> is what decides who gets in: the clock, the next key, how many secrets
  were drawn, the sessions and the grants.  \<open>door_move\<close> says in nine rules all that may ever happen to them,
  \<open>doors_ok\<close> is what stays true, and every handler is a run of those moves (\<open>door_step_runs\<close>).
\<close>

section \<open>The machine\<close>

record doors =
  d_now :: instant
  d_next :: uuid
  d_drawn :: nat
  d_sessions :: "user_session list"
  d_grants :: "support_access list"

definition doors_of :: "identity \<Rightarrow> doors" where
  "doors_of s = \<lparr>d_now = now_of s, d_next = db_next (iy_db s), d_drawn = iy_drawn s, d_sessions = iy_sessions s,
     d_grants = iy_grants s\<rparr>"

lemma doors_of_sel [simp]: "d_now (doors_of s) = now_of s" "d_next (doors_of s) = db_next (iy_db s)"
  "d_drawn (doors_of s) = iy_drawn s" "d_sessions (doors_of s) = iy_sessions s" "d_grants (doors_of s) = iy_grants s"
  by (simp_all add: doors_of_def)

definition secret_hash :: "token_settings \<Rightarrow> nat \<Rightarrow> string" where
  "secret_hash ts n = ts_sha256 ts (ts_secret ts n)"

text \<open>A secret is never drawn twice and no two of them share a hash.\<close>

definition fresh_secrets :: "token_settings \<Rightarrow> bool" where
  "fresh_secrets ts \<longleftrightarrow> inj (secret_hash ts)"

text \<open>A row as it is written when a session opens.\<close>

definition opened_session :: "token_settings \<Rightarrow> doors \<Rightarrow> user_session \<Rightarrow> bool" where
  "opened_session ts d x \<longleftrightarrow> ss_id x = d_next d \<and> ss_refresh_hash x = secret_hash ts (d_drawn d) \<and> ss_previous_hash x = None \<and>
    ss_rotated_at x = None \<and> ss_created_at x = d_now d \<and> ss_revoked_at x = None"

definition asked_grant :: "token_settings \<Rightarrow> support_access \<Rightarrow> bool" where
  "asked_grant ts g \<longleftrightarrow> sa_level g = READ_LEVEL \<and> sa_status g = G_REQUESTED \<and> sa_hours g \<le> ts_support_max_hours ts \<and>
    sa_approved_by g = None \<and> sa_started_at g = None \<and> sa_expires_at g = None \<and> sa_ended_at g = None"

definition revoked_at :: "instant \<Rightarrow> string \<Rightarrow> user_session \<Rightarrow> user_session" where
  "revoked_at now reason x = x\<lparr>ss_revoked_at := Some now, ss_revoked_reason := reason\<rparr>"

definition rotated :: "token_settings \<Rightarrow> doors \<Rightarrow> instant \<Rightarrow> user_session \<Rightarrow> user_session" where
  "rotated ts d deadline x = x\<lparr>ss_expires_at := deadline, ss_previous_hash := Some (ss_refresh_hash x),
     ss_refresh_hash := secret_hash ts (d_drawn d), ss_rotated_at := Some (d_now d), ss_last_seen_at := d_now d\<rparr>"

definition approved :: "instant \<Rightarrow> uuid \<Rightarrow> uuid \<Rightarrow> support_access \<Rightarrow> support_access" where
  "approved now who step_up g = g\<lparr>sa_status := G_APPROVED, sa_approved_by := Some who, sa_approved_step_up := Some step_up,
     sa_started_at := Some now, sa_expires_at := Some (now + int (sa_hours g) * hour)\<rparr>"

definition closed :: "grant_status \<Rightarrow> instant \<Rightarrow> uuid option \<Rightarrow> support_access \<Rightarrow> support_access" where
  "closed status now who g = g\<lparr>sa_status := status, sa_ended_at := Some now, sa_ended_by := who\<rparr>"

inductive door_move :: "token_settings \<Rightarrow> doors \<Rightarrow> doors \<Rightarrow> bool" for ts where
  Pass: "d_now d \<le> now \<Longrightarrow> d_next d \<le> n \<Longrightarrow> d_drawn d \<le> k \<Longrightarrow> door_move ts d (d\<lparr>d_now := now, d_next := n, d_drawn := k\<rparr>)"
| Open: "opened_session ts d x \<Longrightarrow> ss_kind x \<noteq> SUPPORT \<Longrightarrow> ss_support x = None \<Longrightarrow>
    ss_expires_at x \<le> d_now d + int (ts_absolute_max ts) * hour \<Longrightarrow>
    door_move ts d (d\<lparr>d_next := Suc (d_next d), d_drawn := Suc (d_drawn d), d_sessions := d_sessions d @ [x]\<rparr>)"
| Enter: "opened_session ts d x \<Longrightarrow> ss_kind x = SUPPORT \<Longrightarrow> g \<in> set (d_grants d) \<Longrightarrow> state_of g (d_now d) = S_ACTIVE \<Longrightarrow>
    ss_support x = Some (sa_id g) \<Longrightarrow> ss_tenant x = Some (sa_tenant g) \<Longrightarrow> ss_user x = sa_platform_user g \<Longrightarrow>
    sa_expires_at g = Some (ss_expires_at x) \<Longrightarrow>
    door_move ts d (d\<lparr>d_next := Suc (d_next d), d_drawn := Suc (d_drawn d), d_sessions := d_sessions d @ [x]\<rparr>)"
| Revoke: "x \<in> set (d_sessions d) \<Longrightarrow> ss_revoked_at x = None \<Longrightarrow>
    door_move ts d (d\<lparr>d_sessions := put_row ss_id (revoked_at (d_now d) reason x) (d_sessions d)\<rparr>)"
| Rotate: "x \<in> set (d_sessions d) \<Longrightarrow> live x (d_now d) \<Longrightarrow> deadline \<le> ss_expires_at x \<Longrightarrow>
    (ss_kind x = SUPPORT \<Longrightarrow> \<exists>g\<in>set (d_grants d). ss_support x = Some (sa_id g) \<and> state_of g (d_now d) = S_ACTIVE) \<Longrightarrow>
    door_move ts d (d\<lparr>d_drawn := Suc (d_drawn d), d_sessions := put_row ss_id (rotated ts d deadline x) (d_sessions d)\<rparr>)"
| Ask: "asked_grant ts g \<Longrightarrow> sa_id g = d_next d \<Longrightarrow>
    door_move ts d (d\<lparr>d_next := Suc (d_next d), d_grants := d_grants d @ [g]\<rparr>)"
| Recover: "sa_level g = WRITE_LEVEL \<Longrightarrow> sa_status g = G_EXPIRED \<Longrightarrow> sa_id g = d_next d \<Longrightarrow>
    door_move ts d (d\<lparr>d_next := Suc (d_next d), d_grants := d_grants d @ [g]\<rparr>)"
| Approve: "g \<in> set (d_grants d) \<Longrightarrow> state_of g (d_now d) = S_PENDING \<Longrightarrow> who \<noteq> sa_platform_user g \<Longrightarrow>
    sa_started_at g = None \<Longrightarrow>
    door_move ts d (d\<lparr>d_grants := put_row sa_id (approved (d_now d) who step_up g) (d_grants d)\<rparr>)"
| Close: "g \<in> set (d_grants d) \<Longrightarrow> (status = G_DECLINED \<and> state_of g (d_now d) = S_PENDING) \<or>
      (status = G_REVOKED \<and> state_of g (d_now d) = S_ACTIVE) \<Longrightarrow>
    door_move ts d (d\<lparr>d_grants := put_row sa_id (closed status (d_now d) who g) (d_grants d)\<rparr>)"

section \<open>What stays true\<close>

definition drawn_hash :: "token_settings \<Rightarrow> nat \<Rightarrow> string \<Rightarrow> bool" where
  "drawn_hash ts n h \<longleftrightarrow> (\<exists>k<n. h = secret_hash ts k)"

definition stands_on :: "support_access list \<Rightarrow> user_session \<Rightarrow> bool" where
  "stands_on gs x \<longleftrightarrow> (\<exists>g\<in>set gs. ss_support x = Some (sa_id g) \<and> ss_tenant x = Some (sa_tenant g) \<and>
     ss_user x = sa_platform_user g \<and> sa_level g = READ_LEVEL \<and>
     (\<exists>e. sa_expires_at g = Some e \<and> ss_expires_at x \<le> e))"

definition session_ok :: "token_settings \<Rightarrow> doors \<Rightarrow> user_session \<Rightarrow> bool" where
  "session_ok ts d x \<longleftrightarrow> ss_id x < d_next d \<and> ss_created_at x \<le> d_now d \<and> session_check x \<and>
    drawn_hash ts (d_drawn d) (ss_refresh_hash x) \<and>
    (\<forall>h. ss_previous_hash x = Some h \<longrightarrow> drawn_hash ts (d_drawn d) h \<and> h \<noteq> ss_refresh_hash x) \<and>
    ((ss_previous_hash x = None) = (ss_rotated_at x = None)) \<and>
    (\<forall>t. ss_rotated_at x = Some t \<longrightarrow> t \<le> d_now d) \<and>
    (if ss_kind x = SUPPORT then stands_on (d_grants d) x
     else ss_expires_at x \<le> ss_created_at x + int (ts_absolute_max ts) * hour)"

text \<open>A grant without a start was never approved; one with a start was approved by someone else, with a passkey, for
  the hours asked for.\<close>

definition window_of :: "token_settings \<Rightarrow> support_access \<Rightarrow> bool" where
  "window_of ts g \<longleftrightarrow> (case sa_started_at g of
      None \<Rightarrow> sa_approved_by g = None \<and> sa_expires_at g = None \<and> sa_status g \<noteq> G_APPROVED \<and> sa_status g \<noteq> G_REVOKED
    | Some t \<Rightarrow> (\<exists>who. sa_approved_by g = Some who \<and> who \<noteq> sa_platform_user g) \<and> sa_approved_step_up g \<noteq> None \<and>
        sa_expires_at g = Some (t + int (sa_hours g) * hour) \<and> sa_status g \<noteq> G_REQUESTED)"

definition grant_ok :: "token_settings \<Rightarrow> doors \<Rightarrow> support_access \<Rightarrow> bool" where
  "grant_ok ts d g \<longleftrightarrow> sa_id g < d_next d \<and> (sa_level g = READ_LEVEL \<longrightarrow>
    sa_hours g \<le> ts_support_max_hours ts \<and> window_of ts g \<and> (sa_status g = G_REVOKED \<longrightarrow> sa_ended_at g \<noteq> None))"

definition doors_ok :: "token_settings \<Rightarrow> doors \<Rightarrow> bool" where
  "doors_ok ts d \<longleftrightarrow> fresh_secrets ts \<and> distinct (map ss_id (d_sessions d)) \<and> distinct (map sa_id (d_grants d)) \<and>
    (\<forall>x\<in>set (d_sessions d). session_ok ts d x) \<and> (\<forall>g\<in>set (d_grants d). grant_ok ts d g)"

definition doors_init :: "token_settings \<Rightarrow> doors \<Rightarrow> bool" where
  "doors_init ts d \<longleftrightarrow> fresh_secrets ts \<and> d_sessions d = [] \<and> d_grants d = []"

lemma drawn_hash_mono: "drawn_hash ts m h \<Longrightarrow> m \<le> n \<Longrightarrow> drawn_hash ts n h"
  by (auto simp: drawn_hash_def intro: less_le_trans)

lemma fresh_hash: "fresh_secrets ts \<Longrightarrow> drawn_hash ts n h \<Longrightarrow> h \<noteq> secret_hash ts n"
  by (auto simp: drawn_hash_def fresh_secrets_def inj_eq)

lemma drawn_next: "drawn_hash ts (Suc n) (secret_hash ts n)"
  by (auto simp: drawn_hash_def)

lemma session_ok_mono:
  "session_ok ts d x \<Longrightarrow> d_next d \<le> d_next e \<Longrightarrow> d_now d \<le> d_now e \<Longrightarrow> d_drawn d \<le> d_drawn e \<Longrightarrow>
    (ss_kind x = SUPPORT \<Longrightarrow> stands_on (d_grants d) x \<Longrightarrow> stands_on (d_grants e) x) \<Longrightarrow> session_ok ts e x"
  unfolding session_ok_def by (auto intro: drawn_hash_mono order_trans less_le_trans)

lemma grant_ok_mono: "grant_ok ts d g \<Longrightarrow> d_next d \<le> d_next e \<Longrightarrow> grant_ok ts e g"
  by (auto simp: grant_ok_def)

section \<open>Every move keeps it\<close>

lemma stands_on_append: "stands_on gs x \<Longrightarrow> stands_on (gs @ hs) x"
  by (auto simp: stands_on_def)

lemma stands_on_put:
  assumes "stands_on gs x" and "g \<in> set gs" and "distinct (map sa_id gs)" and "sa_id g' = sa_id g" and "sa_tenant g' = sa_tenant g"
    and "sa_platform_user g' = sa_platform_user g" and "sa_level g' = sa_level g"
    and "sa_expires_at g = None \<or> sa_expires_at g' = sa_expires_at g"
  shows "stands_on (put_row sa_id g' gs) x"
proof -
  from assms(1) obtain h e where h: "h \<in> set gs" "ss_support x = Some (sa_id h)" "ss_tenant x = Some (sa_tenant h)"
    "ss_user x = sa_platform_user h" "sa_level h = READ_LEVEL" "sa_expires_at h = Some e" "ss_expires_at x \<le> e"
    unfolding stands_on_def by blast
  show ?thesis
  proof (cases "sa_id h = sa_id g")
    case True
    then have "h = g" using assms(2,3) h(1) by (simp add: distinct_map inj_on_def)
    moreover have "g' \<in> set (put_row sa_id g' gs)" using assms(2,4) by (auto simp: in_set_put_row)
    ultimately show ?thesis using h assms(4-8) unfolding stands_on_def by (intro bexI [of _ g']) auto
  next
    case False
    then have "h \<in> set (put_row sa_id g' gs)" using h(1) assms(4) by (simp add: in_set_put_row)
    then show ?thesis using h unfolding stands_on_def by blast
  qed
qed

lemma distinct_snoc_id: "distinct (map key rows) \<Longrightarrow> \<forall>r\<in>set rows. key r < (n::nat) \<Longrightarrow> key x = n \<Longrightarrow> distinct (map key (rows @ [x]))"
  by auto

lemma session_ok_in: "doors_ok ts d \<Longrightarrow> x \<in> set (d_sessions d) \<Longrightarrow> session_ok ts d x"
  and grant_ok_in: "doors_ok ts d \<Longrightarrow> g \<in> set (d_grants d) \<Longrightarrow> grant_ok ts d g"
  by (simp_all add: doors_ok_def)

lemma doors_ok_open:
  assumes ok: "doors_ok ts d" and x: "opened_session ts d x" and c: "session_check x"
    and w: "if ss_kind x = SUPPORT then stands_on (d_grants d) x else ss_expires_at x \<le> d_now d + int (ts_absolute_max ts) * hour"
  shows "doors_ok ts (d\<lparr>d_next := Suc (d_next d), d_drawn := Suc (d_drawn d), d_sessions := d_sessions d @ [x]\<rparr>)"
    (is "doors_ok ts ?e")
proof -
  have "session_ok ts ?e x"
    using x c w by (auto simp: session_ok_def opened_session_def drawn_next)
  moreover have "session_ok ts ?e y" if "y \<in> set (d_sessions d)" for y
    using ok that by (auto simp: doors_ok_def intro: session_ok_mono [of ts d])
  moreover have "grant_ok ts ?e g" if "g \<in> set (d_grants d)" for g
    using ok that by (auto simp: doors_ok_def intro: grant_ok_mono [of ts d])
  moreover have "distinct (map ss_id (d_sessions ?e))"
    using ok x by (auto simp: doors_ok_def session_ok_def opened_session_def)
  ultimately show ?thesis using ok by (auto simp: doors_ok_def)
qed

lemma doors_ok_session:
  assumes ok: "doors_ok ts d" and x: "session_ok ts (d\<lparr>d_drawn := k\<rparr>) x'" and k: "d_drawn d \<le> k"
  shows "doors_ok ts (d\<lparr>d_drawn := k, d_sessions := put_row ss_id x' (d_sessions d)\<rparr>)" (is "doors_ok ts ?e")
proof -
  have "session_ok ts ?e y" if "y \<in> set (d_sessions d)" for y
    using ok that k by (auto simp: doors_ok_def intro: session_ok_mono [of ts d])
  moreover have "session_ok ts ?e x'" using x by (auto simp: session_ok_def)
  moreover have "grant_ok ts ?e g" if "g \<in> set (d_grants d)" for g
    using ok that by (auto simp: doors_ok_def intro: grant_ok_mono [of ts d])
  ultimately show ?thesis using ok by (auto simp: doors_ok_def in_set_put_row)
qed

lemma doors_ok_grant:
  assumes ok: "doors_ok ts d" and g: "g \<in> set (d_grants d)" and g': "grant_ok ts d g'" "sa_id g' = sa_id g"
    "sa_tenant g' = sa_tenant g" "sa_platform_user g' = sa_platform_user g" "sa_level g' = sa_level g"
    "sa_expires_at g = None \<or> sa_expires_at g' = sa_expires_at g"
  shows "doors_ok ts (d\<lparr>d_grants := put_row sa_id g' (d_grants d)\<rparr>)" (is "doors_ok ts ?e")
proof -
  have dg: "distinct (map sa_id (d_grants d))" using ok by (simp add: doors_ok_def)
  have "session_ok ts ?e y" if "y \<in> set (d_sessions d)" for y
    using ok that stands_on_put [OF _ g dg g'(2-6)] by (auto simp: doors_ok_def intro: session_ok_mono [of ts d])
  moreover have "grant_ok ts ?e h" if "h \<in> set (put_row sa_id g' (d_grants d))" for h
    using ok that g'(1) by (auto simp: doors_ok_def in_set_put_row intro: grant_ok_mono [of ts d])
  ultimately show ?thesis using ok by (simp add: doors_ok_def)
qed

lemma doors_ok_new_grant:
  assumes ok: "doors_ok ts d" and g: "sa_id g = d_next d" "grant_ok ts (d\<lparr>d_next := Suc (d_next d)\<rparr>) g"
  shows "doors_ok ts (d\<lparr>d_next := Suc (d_next d), d_grants := d_grants d @ [g]\<rparr>)" (is "doors_ok ts ?e")
proof -
  have "session_ok ts ?e y" if "y \<in> set (d_sessions d)" for y
    by (rule session_ok_mono [OF session_ok_in [OF ok that]]) (simp_all add: stands_on_append)
  moreover have "grant_ok ts ?e h" if "h \<in> set (d_grants d)" for h
    using ok that by (auto simp: doors_ok_def intro: grant_ok_mono [of ts d])
  moreover have "grant_ok ts ?e g" using g by (simp add: grant_ok_def)
  moreover have "distinct (map sa_id (d_grants ?e))"
    using ok g by (auto simp: doors_ok_def grant_ok_def)
  ultimately show ?thesis using ok by (auto simp: doors_ok_def)
qed

lemma state_of_open:
  "state_of g now = S_PENDING \<longleftrightarrow> sa_level g = READ_LEVEL \<and> sa_status g = G_REQUESTED \<and> \<not> past (sa_request_expires_at g) now"
  "state_of g now = S_ACTIVE \<longleftrightarrow> sa_level g = READ_LEVEL \<and> sa_status g = G_APPROVED \<and> \<not> past (sa_expires_at g) now"
  by (auto simp: state_of_def split: grant_status.splits access_level.splits if_splits) (metis access_level.exhaust)+

lemma door_move_ok: "door_move ts d e \<Longrightarrow> doors_ok ts d \<Longrightarrow> doors_ok ts e"
proof (induction rule: door_move.induct)
  case (Pass d now n k)
  then have "\<forall>x\<in>set (d_sessions d). session_ok ts (d\<lparr>d_now := now, d_next := n, d_drawn := k\<rparr>) x"
    by (auto simp: doors_ok_def intro: session_ok_mono [of ts d])
  with Pass show ?case by (auto simp: doors_ok_def intro: grant_ok_mono)
next
  case (Open d x)
  then show ?case by (intro doors_ok_open) (auto simp: session_check_def)
next
  case (Enter d x g)
  then show ?case by (intro doors_ok_open) (auto simp: session_check_def stands_on_def state_of_open)
next
  case (Revoke x d reason)
  then have "session_ok ts (d\<lparr>d_drawn := d_drawn d\<rparr>) (revoked_at (d_now d) reason x)"
    using session_ok_in [of ts d x]
    by (simp add: session_ok_def revoked_at_def session_check_def stands_on_def split: if_splits)
  from doors_ok_session [OF Revoke.prems this] show ?case by simp
next
  case (Rotate x d deadline)
  have fresh: "fresh_secrets ts" using Rotate.prems by (simp add: doors_ok_def)
  have x: "session_ok ts d x" using Rotate session_ok_in by blast
  have "session_ok ts (d\<lparr>d_drawn := Suc (d_drawn d)\<rparr>) (rotated ts d deadline x)"
    using x Rotate.hyps(3) fresh_hash [OF fresh]
    by (auto simp: session_ok_def rotated_def session_check_def drawn_next stands_on_def
        intro: drawn_hash_mono order_trans split: if_splits)
  from doors_ok_session [OF Rotate.prems this] show ?case by simp
next
  case (Ask g d)
  then show ?case by (intro doors_ok_new_grant) (auto simp: grant_ok_def asked_grant_def window_of_def)
next
  case (Recover g d)
  then show ?case by (intro doors_ok_new_grant) (auto simp: grant_ok_def)
next
  case (Approve g d who step_up)
  then have "grant_ok ts d (approved (d_now d) who step_up g)" and "sa_expires_at g = None"
    using grant_ok_in [of ts d g] by (auto simp: grant_ok_def approved_def window_of_def state_of_open split: option.splits)
  with Approve show ?case by (intro doors_ok_grant) (auto simp: approved_def)
next
  case (Close g d status who)
  then have "grant_ok ts d (closed status (d_now d) who g)"
    using grant_ok_in [of ts d g] by (auto simp: grant_ok_def closed_def window_of_def state_of_open split: option.splits)
  with Close show ?case by (intro doors_ok_grant) (auto simp: closed_def)
qed

lemma doors_init_ok: "doors_init ts d \<Longrightarrow> doors_ok ts d"
  by (simp add: doors_init_def doors_ok_def)

interpretation doors_sys: invariant_system "doors_init ts" "door_move ts" "doors_ok ts" for ts
  by unfold_locales (auto intro: doors_init_ok door_move_ok)

section \<open>Everything that can happen\<close>

text \<open>What the rest of the program does: it writes no session, and of the grants only the record of a recovery, a
  row that lets nobody in; the clock and the counters do not go back.\<close>

definition iy_elsewhere :: "identity \<Rightarrow> identity \<Rightarrow> bool" where
  "iy_elsewhere s t \<longleftrightarrow> iy_sessions t = iy_sessions s \<and> now_of s \<le> now_of t \<and> iy_drawn s \<le> iy_drawn t \<and>
    ((iy_grants t = iy_grants s \<and> db_next (iy_db s) \<le> db_next (iy_db t)) \<or>
     (\<exists>g. iy_grants t = iy_grants s @ [g] \<and> sa_level g = WRITE_LEVEL \<and> sa_status g = G_EXPIRED \<and>
        sa_id g = db_next (iy_db s) \<and> db_next (iy_db s) < db_next (iy_db t)))"

inductive door_step :: "token_settings \<Rightarrow> identity \<Rightarrow> identity \<Rightarrow> bool" for ts where
  signed_in: "create_session ts u kind tenant s = (b, s') \<Longrightarrow> kind \<noteq> SUPPORT \<Longrightarrow> door_step ts s s'"
| refreshed: "refresh ts value s = (out, s') \<Longrightarrow> door_step ts s s'"
| signed_out: "door_step ts s (sign_out ts value s)"
| revoked: "x \<in> set (iy_sessions s) \<Longrightarrow> door_step ts s (revoke_session x reason actr s)"
| revoked_own: "revoke_own_session zone u i s = Inr s' \<Longrightarrow> door_step ts s s'"
| revoked_all: "revoke_all zone u tenant reason actr s = (n, s') \<Longrightarrow> door_step ts s s'"
| resolved: "resolve_access_token ts token want s = (out, s') \<Longrightarrow> door_step ts s s'"
| support_asked: "request_console_support_access ts p tenant body s = Inr (g, s') \<Longrightarrow> door_step ts s s'"
| support_approved: "approve_support_access freshness p i s = Inr (g, s') \<Longrightarrow> door_step ts s s'"
| support_declined: "decline_support_access p i s = Inr (g, s') \<Longrightarrow> door_step ts s s'"
| support_revoked: "revoke_support_access p i s = Inr (g, s') \<Longrightarrow> door_step ts s s'"
| support_entered: "enter_console_support_access ts freshness p i s = Inr (b, s') \<Longrightarrow> door_step ts s s'"
| other: "iy_elsewhere s s' \<Longrightarrow> door_step ts s s'"

abbreviation moves :: "token_settings \<Rightarrow> identity \<Rightarrow> identity \<Rightarrow> bool" where
  "moves ts s t \<equiv> (door_move ts)\<^sup>*\<^sup>* (doors_of s) (doors_of t)"

lemma doors_of_record [simp]: "doors_of (iy_record e s) = (doors_of s)\<lparr>d_next := Suc (Suc (db_next (iy_db s)))\<rparr>"
  by (simp add: doors_of_def iy_record_def frame_simps)

lemma doors_of_log [simp]: "doors_of (log_event ev m ok u t r s) = doors_of s"
  by (simp add: doors_of_def log_event_def)

lemma moves_count: "door_move ts d (d\<lparr>d_next := Suc (Suc (d_next d))\<rparr>)"
  using door_move.Pass [of d "d_now d" "Suc (Suc (d_next d))" "d_drawn d" ts] by simp

lemma moves_record: "moves ts s (iy_record e s)"
  using moves_count [of ts "doors_of s"] by simp

lemma moves_after_record: "(door_move ts)\<^sup>*\<^sup>* d (doors_of s) \<Longrightarrow> (door_move ts)\<^sup>*\<^sup>* d (doors_of (iy_record e s))"
  by (rule rtranclp_trans [OF _ moves_record])

lemma moves_revoke:
  assumes "x \<in> set (iy_sessions s)"
  shows "moves ts s (revoke_session x reason actr s)"
proof (cases "ss_revoked_at x = None")
  case True
  let ?s = "s\<lparr>iy_sessions := put_row ss_id (revoked_at (now_of s) reason x) (iy_sessions s)\<rparr>"
  have "door_move ts (doors_of s) (doors_of ?s)"
    using door_move.Revoke [of x "doors_of s" ts reason] assms True by (simp add: doors_of_def)
  then have "moves ts s ?s" by blast
  then show ?thesis
    using True by (auto simp: revoke_session_def Let_def revoked_at_def [symmetric] intro!: moves_after_record simp del: doors_of_record)
qed (simp add: revoke_session_def)

lemma revoke_session_rows:
  "iy_sessions (revoke_session x reason actr s) =
    (if ss_revoked_at x = None then put_row ss_id (revoked_at (now_of s) reason x) (iy_sessions s) else iy_sessions s)"
  by (simp add: revoke_session_def Let_def iy_record_def log_event_def revoked_at_def)

lemma moves_revoke_many:
  assumes "set xs \<subseteq> set (iy_sessions s)" and "distinct (map ss_id xs)"
  shows "moves ts s (fold (\<lambda>x. revoke_session x reason actr) xs s)"
  using assms
proof (induction xs arbitrary: s)
  case (Cons x xs)
  then have "y \<in> set (iy_sessions (revoke_session x reason actr s))" if "y \<in> set xs" for y
    using that by (cases "ss_id y = ss_id x") (auto simp: revoke_session_rows in_set_put_row revoked_at_def image_iff)
  then have "set xs \<subseteq> set (iy_sessions (revoke_session x reason actr s))" by blast
  with Cons moves_revoke [of x s ts reason actr] show ?case
    by (auto intro: rtranclp_trans)
qed simp

lemma limits_bound: "snd (limits ts tenant s) \<le> int (ts_absolute_max ts) * hour"
  by (simp add: limits_def Let_def hour_def minute_def)

lemma open_session_doors:
  assumes "open_session ts u kind tenant grant until s = (b, s')"
  shows "opened_session ts (doors_of s) (sb_session b)" and "doors_of s' = (doors_of s)\<lparr>d_next := Suc (db_next (iy_db s)),
      d_drawn := Suc (iy_drawn s), d_sessions := iy_sessions s @ [sb_session b]\<rparr>"
    and "ss_user (sb_session b) = u" "ss_kind (sb_session b) = kind" "ss_tenant (sb_session b) = tenant"
    "ss_support (sb_session b) = grant" "ss_expires_at (sb_session b) = until"
  using assms by (auto simp: open_session_def opened_session_def Let_def new_refresh_token_def secret_hash_def doors_of_def split: prod.splits)

lemma moves_create:
  assumes c: "create_session ts u kind tenant s = (b, s')" and k: "kind \<noteq> SUPPORT"
  shows "moves ts s s'"
proof -
  obtain b1 s1 where o: "open_session ts u kind tenant None (now_of s + snd (limits ts tenant s)) s = (b1, s1)"
    by (cases "open_session ts u kind tenant None (now_of s + snd (limits ts tenant s)) s")
  note d = open_session_doors [OF o]
  have "door_move ts (doors_of s) (doors_of s1)"
    using door_move.Open [OF d(1)] d k limits_bound [of ts tenant s] by simp
  then show ?thesis
    using c o by (auto simp: create_session_def Let_def intro!: moves_after_record simp del: doors_of_record)
qed

lemma load_by_refresh_Some:
  assumes "load_by_refresh ts value s = Some (x, presented)"
  shows "x \<in> set (iy_sessions s)" and "\<exists>v. value = Some v \<and> parse_refresh_token ts v = Some (ss_id x, presented)"
  using assms by (auto simp: load_by_refresh_def parse_refresh_token_def dest!: find_Some_in split: option.splits prod.splits)

text \<open>The four ways a refresh goes.\<close>

lemma refresh_ways:
  assumes "refresh ts value s = (out, s')"
  obtains (refused) e where "out = Inl e" "s' = s"
  | (replayed) x presented at a n e where "load_by_refresh ts value s = Some (x, presented)" "live x (now_of s)"
      "is_previous x presented" "ss_rotated_at x = Some at" "now_of s - at \<le> int (ts_grace_seconds ts) * one_second"
      "out = Inr (a, n, None)" "s' = iy_record e s"
  | (stopped) x presented reason actr e where "load_by_refresh ts value s = Some (x, presented)" "live x (now_of s)"
      "out = Inl e" "doors_of s' = doors_of (revoke_session x reason actr s)"
  | (turned) x deadline where "load_by_refresh ts value s = Some (x, ss_refresh_hash x)" "live x (now_of s)"
      "(out, s') = rotate_session ts x deadline s" "deadline \<le> ss_expires_at x" "ss_kind x = SUPPORT \<Longrightarrow> grant_live x s"
      "now_of s < deadline"
proof (cases "load_by_refresh ts value s")
  case None
  then show ?thesis using assms refused by (auto simp: refresh_def)
next
  case (Some xp)
  obtain x presented where xp: "xp = (x, presented)" by (cases xp)
  obtain idle absolute where l: "limits ts (ss_tenant x) s = (idle, absolute)" by (cases "limits ts (ss_tenant x) s")
  let ?deadline = "min (ss_expires_at x) (ss_created_at x + absolute)"
  note r = assms [unfolded refresh_def Let_def Some xp option.case prod.case l]
  show ?thesis
  proof (cases "live x (now_of s)")
    case False
    then show ?thesis using r refused by auto
  next
    case live: True
    show ?thesis
    proof (cases "is_previous x presented \<and> ss_rotated_at x \<noteq> None")
      case True
      then show ?thesis
        using r live Some xp replayed stopped
        by (auto simp: within_grace_def ended_def Let_def simp del: doors_of_record split: prod.splits if_splits option.splits)
    next
      case no: False
      show ?thesis
      proof (cases "(out, s') = rotate_session ts x ?deadline s \<and> presented = ss_refresh_hash x \<and>
          (ss_kind x = SUPPORT \<longrightarrow> grant_live x s) \<and> now_of s < ?deadline")
        case True
        then show ?thesis using turned [of x ?deadline] live Some xp by auto
      next
        case False
        then show ?thesis
          using r no live Some xp refused stopped
          by (auto simp: ended_def not_le split: if_splits)
      qed
    qed
  qed
qed

lemma moves_rotate:
  assumes x: "x \<in> set (iy_sessions s)" and t: "live x (now_of s)" "deadline \<le> ss_expires_at x"
    and g: "ss_kind x = SUPPORT \<Longrightarrow> grant_live x s" and r: "(out, s') = rotate_session ts x deadline s"
  shows "moves ts s s'"
proof -
  let ?d = "doors_of s"
  have g: "\<exists>g\<in>set (d_grants ?d). ss_support x = Some (sa_id g) \<and> state_of g (d_now ?d) = S_ACTIVE" if "ss_kind x = SUPPORT"
    using g [OF that] by (auto simp: grant_live_def live_grant_def dest!: find_Some_in split: option.splits if_splits)
  define s2 where "s2 = s\<lparr>iy_drawn := Suc (iy_drawn s), iy_sessions := put_row ss_id (rotated ts ?d deadline x) (iy_sessions s)\<rparr>"
  have "door_move ts ?d (doors_of s2)"
    using door_move.Rotate [of x ?d deadline ts] x t g by (simp add: s2_def doors_of_def)
  moreover have "\<exists>e. s' = iy_record e s2"
    using r by (auto simp: rotate_session_def Let_def new_refresh_token_def s2_def rotated_def secret_hash_def split: prod.splits)
  ultimately show ?thesis by (auto intro!: moves_after_record simp del: doors_of_record)
qed

lemma moves_refresh:
  assumes "refresh ts value s = (out, s')"
  shows "moves ts s s'"
  using assms
proof (cases rule: refresh_ways)
  case (replayed x presented at a n e)
  then show ?thesis using moves_record by simp
next
  case (stopped x presented reason actr e)
  then show ?thesis using moves_revoke [OF load_by_refresh_Some(1) [OF stopped(1)]] by auto
next
  case (turned x deadline)
  then show ?thesis using moves_rotate load_by_refresh_Some(1) by blast
qed simp

lemma moves_sign_out: "moves ts s (sign_out ts value s)"
  using load_by_refresh_Some(1)
  by (auto simp: sign_out_def Let_def simp del: doors_of_record intro: moves_record moves_revoke split: option.splits)

lemma moves_revoke_all:
  assumes "distinct (map ss_id (iy_sessions s))" and "revoke_all zone u tenant reason actr s = (n, s')"
  shows "moves ts s s'"
  using assms by (auto simp: revoke_all_def Let_def intro!: moves_revoke_many distinct_map_filter)

lemma moves_resolve:
  assumes "resolve_access_token ts token want s = (out, s')"
  shows "moves ts s s'"
proof -
  have "moves ts s (refuse_claim cl s)" for cl
  proof (cases "find (\<lambda>x. ss_id x = cl_session cl) (iy_sessions s)")
    case (Some x)
    let ?l = "log_event ACCESS_TOKEN_REFUSED (if ss_kind x = ENROLMENT then EMAIL_CODE else PASSKEY) False (ss_user x)
      (ss_tenant x) TENANT_CLAIM_MISMATCH s"
    have "x \<in> set (iy_sessions ?l)" using Some by (auto simp: log_event_def dest: find_Some_in)
    from moves_revoke [OF this, of ts TENANT_CLAIM_MISMATCH "system_actor ''access-token''"] Some show ?thesis
      by (auto simp: refuse_claim_def)
  qed (simp add: refuse_claim_def)
  then show ?thesis
    using assms by (auto simp: resolve_access_token_def Let_def split: option.splits if_splits)
qed

lemma moves_request:
  assumes "request_access ts tenant u actr body s = Inr (g, s')"
  shows "moves ts s s'"
proof -
  let ?s = "s\<lparr>iy_db := (iy_db s)\<lparr>db_next := Suc (sa_id g)\<rparr>, iy_grants := iy_grants s @ [g]\<rparr>"
  have g: "asked_grant ts g" "sa_id g = db_next (iy_db s)" and s': "\<exists>e. s' = iy_record e ?s"
    using assms by (auto simp: request_access_def inr_simps Let_def support_request_def asked_grant_def)
  have "door_move ts (doors_of s) (doors_of ?s)"
    using door_move.Ask [of ts g "doors_of s"] g by (simp add: doors_of_def)
  with s' show ?thesis by (auto intro!: moves_after_record simp del: doors_of_record)
qed

lemma save_grant_Inr: "save_grant old new s = Inr t \<longleftrightarrow>
    grant_guard old new \<and> grant_checks new s \<and> t = s\<lparr>iy_grants := put_row sa_id new (iy_grants s)\<rparr>"
  by (auto simp: save_grant_def)

lemma grant_of_Inr: "grant_of tenant i s = Inr g \<Longrightarrow> g \<in> set (iy_grants s) \<and> sa_tenant g = tenant \<and> sa_id g = i"
  by (auto simp: grant_of_def inr_simps dest: find_Some_in)

lemma moves_approve:
  assumes ok: "doors_ok ts (doors_of s)" and a: "approve_support tenant actr i step_up s = Inr (g', s')" and id: "ac_id actr = Some who"
  shows "moves ts s s'"
proof -
  from a id obtain g e where g: "g \<in> set (iy_grants s)" "state_of g (now_of s) = S_PENDING" "who \<noteq> sa_platform_user g"
    and g': "g' = approved (now_of s) who step_up g" and s': "s' = iy_record e (s\<lparr>iy_grants := put_row sa_id g' (iy_grants s)\<rparr>)"
    by (auto simp: approve_support_def inr_simps Let_def refuse_unless_def save_grant_Inr support_decided_def approved_def dest!: grant_of_Inr)
  have "sa_started_at g = None"
    using grant_ok_in [OF ok, of g] g(1,2) by (auto simp: grant_ok_def window_of_def state_of_open split: option.splits)
  then have "door_move ts (doors_of s) (doors_of (s\<lparr>iy_grants := put_row sa_id g' (iy_grants s)\<rparr>))"
    using door_move.Approve [of g "doors_of s" who ts step_up] g g' by (simp add: doors_of_def)
  then show ?thesis using s' by (auto intro!: moves_after_record simp del: doors_of_record)
qed

lemma moves_close:
  assumes g: "g \<in> set (iy_grants s)" "(status = G_DECLINED \<and> state_of g (now_of s) = S_PENDING) \<or>
      (status = G_REVOKED \<and> state_of g (now_of s) = S_ACTIVE)" and e: "end_grant g status actr s = Inr (g', t)"
  shows "moves ts s (iy_record ent t)"
proof -
  have g': "g' = closed status (now_of s) (ac_id actr) g" and t: "t = s\<lparr>iy_grants := put_row sa_id g' (iy_grants s)\<rparr>"
    using e by (auto simp: end_grant_def Let_def inr_simps save_grant_Inr closed_def)
  have "door_move ts (doors_of s) (doors_of t)"
    using door_move.Close [of g "doors_of s" status ts "ac_id actr"] g g' t by (simp add: doors_of_def)
  then show ?thesis by (auto intro!: moves_after_record simp del: doors_of_record)
qed

lemma moves_decline: "decline_support tenant actr i s = Inr (g', s') \<Longrightarrow> moves ts s s'"
  and moves_revoke_support: "revoke_support tenant actr i s = Inr (g', s') \<Longrightarrow> moves ts s s'"
  unfolding decline_support_def revoke_support_def refuse_unless_def support_decided_def
  by (auto simp: inr_simps simp del: doors_of_record dest!: grant_of_Inr intro: moves_close)

lemma create_support_session_Inr:
  assumes "create_support_session ts u g replacing s = Inr (b, t)"
  obtains console until s2 e where "console \<in> set (iy_sessions s)" "ss_id console = replacing" "sa_expires_at g = Some until"
    "open_session ts u SUPPORT (Some (sa_tenant g)) (Some (sa_id g)) until
      (revoke_session console ''support_entered'' (actor_of u s) s) = (b, s2)" "t = iy_record e s2"
proof -
  from assms obtain y until where y: "find (\<lambda>x. ss_id x = replacing \<and> ss_user x = u \<and> ss_tenant x = None) (iy_sessions s) = Some y"
      and u: "sa_expires_at g = Some until"
    unfolding create_support_session_def by (auto simp: inr_simps)
  obtain b' s2 where "open_session ts u SUPPORT (Some (sa_tenant g)) (Some (sa_id g)) until
      (revoke_session y ''support_entered'' (actor_of u s) s) = (b', s2)" by fastforce
  then show thesis
    using assms u y find_Some_in [OF y] that [of y until s2] by (auto simp: create_support_session_def Let_def)
qed

lemma moves_enter:
  assumes "enter ts p i step_up s = Inr (b, s')"
  shows "moves ts s s'"
proof -
  from assms obtain g replacing t e' where g: "g \<in> set (iy_grants s)" "sa_platform_user g = p_subject p"
      "state_of g (now_of s) = S_ACTIVE" and cs: "create_support_session ts (p_subject p) g replacing s = Inr (b, t)"
    and s': "s' = iy_record e' t"
    unfolding enter_def by (auto simp: inr_simps simp del: doors_of_record dest!: find_Some_in)
  from create_support_session_Inr [OF cs] obtain console until s2 e where c: "console \<in> set (iy_sessions s)"
    and g': "sa_expires_at g = Some until"
    and o: "open_session ts (p_subject p) SUPPORT (Some (sa_tenant g)) (Some (sa_id g)) until
      (revoke_session console ''support_entered'' (actor_of (p_subject p) s) s) = (b, s2)" and t: "t = iy_record e s2" by metis
  define s1 where s1: "s1 = revoke_session console ''support_entered'' (actor_of (p_subject p) s) s"
  note o = o [folded s1]
  note d = open_session_doors [OF o]
  have same: "iy_grants s1 = iy_grants s" "now_of s1 = now_of s"
    by (simp_all add: s1 revoke_session_def Let_def iy_record_def log_event_def frame_simps)
  have "door_move ts (doors_of s1) (doors_of s2)"
    using door_move.Enter [OF d(1), of g] d(2-) g g' same by simp
  moreover have "moves ts s s1" using moves_revoke [OF c] s1 by simp
  ultimately have "moves ts s s2" by simp
  then show ?thesis unfolding s' t by (intro moves_after_record)
qed

lemma moves_elsewhere:
  assumes "iy_elsewhere s t"
  shows "moves ts s t"
proof -
  consider (same) "iy_grants t = iy_grants s" "db_next (iy_db s) \<le> db_next (iy_db t)"
    | (recover) g where "iy_grants t = iy_grants s @ [g]" "sa_level g = WRITE_LEVEL" "sa_status g = G_EXPIRED"
        "sa_id g = db_next (iy_db s)" "Suc (db_next (iy_db s)) \<le> db_next (iy_db t)"
    using assms by (auto simp: iy_elsewhere_def)
  then show ?thesis
  proof cases
    case same
    then have "door_move ts (doors_of s) (doors_of t)"
      using assms door_move.Pass [of "doors_of s" "now_of t" "db_next (iy_db t)" "iy_drawn t" ts]
      by (simp add: iy_elsewhere_def doors_of_def)
    then show ?thesis by blast
  next
    case recover
    let ?d = "(doors_of s)\<lparr>d_next := Suc (db_next (iy_db s)), d_grants := iy_grants s @ [g]\<rparr>"
    have "door_move ts (doors_of s) ?d"
      using recover door_move.Recover [of g "doors_of s" ts] by simp
    moreover have "door_move ts ?d (doors_of t)"
      using assms recover door_move.Pass [of ?d "now_of t" "db_next (iy_db t)" "iy_drawn t" ts]
      by (simp add: iy_elsewhere_def doors_of_def)
    ultimately show ?thesis by (rule converse_rtranclp_into_rtranclp [OF _ r_into_rtranclp])
  qed
qed

lemma door_step_runs: "door_step ts s t \<Longrightarrow> doors_ok ts (doors_of s) \<Longrightarrow> moves ts s t"
proof (induction rule: door_step.induct)
  case (revoked_own zone u i s s')
  then show ?case
    by (auto simp: revoke_own_session_def inr_simps dest!: find_Some_in intro: moves_revoke)
next
  case (revoked_all zone u tenant reason actr s n s')
  then show ?case by (auto simp: doors_ok_def intro: moves_revoke_all)
next
  case (support_asked p tenant body s g s')
  then show ?case by (auto simp: request_console_support_access_def inr_simps intro: moves_request)
next
  case (support_approved freshness p i s g s')
  then show ?case
    by (auto simp: approve_support_access_def inr_simps actor_for_def intro: moves_approve)
next
  case (support_declined p i s g s')
  then show ?case by (auto simp: decline_support_access_def inr_simps intro: moves_decline)
next
  case (support_revoked p i s g s')
  then show ?case by (auto simp: revoke_support_access_def inr_simps intro: moves_revoke_support)
next
  case (support_entered freshness p i s b s')
  then show ?case by (auto simp: enter_console_support_access_def inr_simps intro: moves_enter)
qed (blast intro: moves_create moves_refresh moves_sign_out moves_revoke moves_resolve moves_elsewhere)+

abbreviation happens :: "token_settings \<Rightarrow> identity \<Rightarrow> identity \<Rightarrow> bool" where
  "happens ts s t \<equiv> (door_step ts)\<^sup>*\<^sup>* s t"

definition identity_init :: "token_settings \<Rightarrow> identity \<Rightarrow> bool" where
  "identity_init ts s \<longleftrightarrow> doors_init ts (doors_of s)"

definition identity_ok :: "token_settings \<Rightarrow> identity \<Rightarrow> bool" where
  "identity_ok ts s \<longleftrightarrow> doors_ok ts (doors_of s)"

interpretation door_sys: invariant_system "identity_init ts" "door_step ts" "identity_ok ts" for ts
proof
  show "identity_ok ts s" if "identity_init ts s" for s
    using that by (simp add: identity_init_def identity_ok_def doors_init_ok)
  show "identity_ok ts t" if "door_step ts s t" "identity_ok ts s" for s t
    using door_step_runs [of ts s t] doors_sys.inv_run [of ts "doors_of s" "doors_of t"] that by (simp add: identity_ok_def)
qed

lemma door_runs: "(door_step ts)\<^sup>*\<^sup>* s t \<Longrightarrow> identity_ok ts s \<Longrightarrow> moves ts s t"
proof (induction rule: rtranclp_induct)
  case (step t u)
  have "identity_ok ts t" using door_sys.inv_run step.hyps(1) step.prems by blast
  then show ?case using step door_step_runs [of ts t u] by (auto simp: identity_ok_def intro: rtranclp_trans)
qed simp

end
