(* ===== verification/Session_Laws.thy ===== *)
theory Session_Laws
  imports Session_System Text_Laws
begin

text \<open>
  What no later step undoes (a revoked session, a spent refresh secret, a revoked grant, who a session is for and when
  it ends), what a resolved token says, and that tokens written are tokens read.
\<close>

section \<open>For good\<close>

text \<open>The row of a session after one move is its row before, or that row revoked or rotated.\<close>

lemma session_after_move:
  assumes "door_move ts d e" and "y \<in> set (d_sessions e)"
  shows "y \<in> set (d_sessions d) \<or> opened_session ts d y \<or>
    (\<exists>x\<in>set (d_sessions d). ss_revoked_at x = None \<and>
      ((\<exists>reason. y = revoked_at (d_now d) reason x \<and> d_drawn e = d_drawn d) \<or>
       (\<exists>deadline. y = rotated ts d deadline x \<and> deadline \<le> ss_expires_at x \<and> d_drawn e = Suc (d_drawn d))))"
  using assms by (cases rule: door_move.cases) (auto simp: in_set_put_row live_def)

lemma move_counts: "door_move ts d e \<Longrightarrow> d_now d \<le> d_now e \<and> d_next d \<le> d_next e \<and> d_drawn d \<le> d_drawn e"
  by (cases rule: door_move.cases) auto

lemma ids_one: "doors_ok ts d \<Longrightarrow> x \<in> set (d_sessions d) \<Longrightarrow> y \<in> set (d_sessions d) \<Longrightarrow> ss_id x = ss_id y \<Longrightarrow> x = y"
  and grants_one: "doors_ok ts d \<Longrightarrow> g \<in> set (d_grants d) \<Longrightarrow> h \<in> set (d_grants d) \<Longrightarrow> sa_id g = sa_id h \<Longrightarrow> g = h"
  by (auto simp: doors_ok_def distinct_map inj_on_def)

lemma session_persists:
  assumes "door_move ts d e" and "doors_ok ts d" and "x \<in> set (d_sessions d)"
  shows "x \<in> set (d_sessions e) \<or> (ss_revoked_at x = None \<and>
      ((\<exists>reason. revoked_at (d_now d) reason x \<in> set (d_sessions e)) \<or>
       (\<exists>deadline\<le>ss_expires_at x. rotated ts d deadline x \<in> set (d_sessions e))))"
  using assms(1)
proof (cases rule: door_move.cases)
  case (Revoke y reason)
  show ?thesis
  proof (cases "ss_id x = ss_id y")
    case True
    then have "x = y" using ids_one assms(2,3) Revoke(2) by blast
    with Revoke show ?thesis by (auto simp: in_set_put_row revoked_at_def)
  qed (use Revoke assms(3) in \<open>auto simp: in_set_put_row revoked_at_def\<close>)
next
  case (Rotate y deadline)
  show ?thesis
  proof (cases "ss_id x = ss_id y")
    case True
    then have "x = y" using ids_one assms(2,3) Rotate(2) by blast
    with Rotate show ?thesis by (auto simp: in_set_put_row rotated_def live_def)
  qed (use Rotate assms(3) in \<open>auto simp: in_set_put_row rotated_def\<close>)
qed (use assms(3) in auto)

lemma revoked_stays:
  assumes "(door_move ts)\<^sup>*\<^sup>* d e" and "doors_ok ts d" and "x \<in> set (d_sessions d) \<and> ss_revoked_at x \<noteq> None"
  shows "x \<in> set (d_sessions e) \<and> ss_revoked_at x \<noteq> None"
  using assms
proof (rule doors_sys.stable_run)
  show "x \<in> set (d_sessions v) \<and> ss_revoked_at x \<noteq> None"
    if "door_move ts u v" "doors_ok ts u" "x \<in> set (d_sessions u) \<and> ss_revoked_at x \<noteq> None" for u v
    using session_persists [of ts u v x] that by blast
qed

text \<open>Whose session it is, of what bank and kind and on what grant never changes, and its end only comes nearer.\<close>

definition continues :: "user_session \<Rightarrow> user_session \<Rightarrow> bool" where
  "continues x y \<longleftrightarrow> ss_id y = ss_id x \<and> ss_user y = ss_user x \<and> ss_tenant y = ss_tenant x \<and> ss_kind y = ss_kind x \<and>
    ss_support y = ss_support x \<and> ss_created_at y = ss_created_at x \<and> ss_expires_at y \<le> ss_expires_at x"

lemma session_continues:
  assumes "(door_move ts)\<^sup>*\<^sup>* d e" and "doors_ok ts d" and "x \<in> set (d_sessions d)"
  shows "\<exists>y\<in>set (d_sessions e). continues x y"
proof (rule doors_sys.stable_run [OF assms(1,2), where Q = "\<lambda>e. \<exists>y\<in>set (d_sessions e). continues x y"])
  show "\<exists>y\<in>set (d_sessions d). continues x y" using assms(3) by (auto simp: continues_def)
  show "\<exists>y\<in>set (d_sessions v). continues x y"
    if "door_move ts u v" "doors_ok ts u" "\<exists>y\<in>set (d_sessions u). continues x y" for u v
  proof -
    from that(3) obtain y where y: "y \<in> set (d_sessions u)" "continues x y" by blast
    have "continues x (revoked_at (d_now u) reason y)" "deadline \<le> ss_expires_at y \<Longrightarrow> continues x (rotated ts u deadline y)" for reason deadline
      using y(2) by (auto simp: continues_def revoked_at_def rotated_def)
    with session_persists [OF that(1,2) y(1)] y(2) show ?thesis by blast
  qed
qed

text \<open>A secret a session rotated away from is never its current one again, and is known as its previous one only
  with the moment of that rotation.\<close>

definition spent_secret :: "token_settings \<Rightarrow> uuid \<Rightarrow> string \<Rightarrow> instant \<Rightarrow> doors \<Rightarrow> bool" where
  "spent_secret ts i h at d \<longleftrightarrow> drawn_hash ts (d_drawn d) h \<and> (\<forall>y\<in>set (d_sessions d). ss_id y = i \<longrightarrow>
     ss_refresh_hash y \<noteq> h \<and> (ss_previous_hash y = Some h \<longrightarrow> ss_rotated_at y = Some at))"

lemma spent_stays:
  assumes "(door_move ts)\<^sup>*\<^sup>* d e" and "doors_ok ts d" and "spent_secret ts i h at d"
  shows "spent_secret ts i h at e"
  using assms
proof (rule doors_sys.stable_run)
  show "spent_secret ts i h at v" if m: "door_move ts u v" and ok: "doors_ok ts u" and sp: "spent_secret ts i h at u" for u v
  proof -
    have fresh: "fresh_secrets ts" using ok by (simp add: doors_ok_def)
    have new: "secret_hash ts (d_drawn u) \<noteq> h" using sp fresh_hash [OF fresh, of "d_drawn u" h] by (auto simp: spent_secret_def)
    have "ss_refresh_hash y \<noteq> h \<and> (ss_previous_hash y = Some h \<longrightarrow> ss_rotated_at y = Some at)"
      if y: "y \<in> set (d_sessions v)" "ss_id y = i" for y
      using session_after_move [OF m y(1)] sp new y(2)
      by (auto simp: spent_secret_def opened_session_def revoked_at_def rotated_def)
    moreover have "drawn_hash ts (d_drawn v) h"
      using sp move_counts [OF m] by (auto simp: spent_secret_def intro: drawn_hash_mono)
    ultimately show ?thesis by (auto simp: spent_secret_def)
  qed
qed

lemma grant_stays:
  assumes "(door_move ts)\<^sup>*\<^sup>* d e" and "doors_ok ts d" and "g \<in> set (d_grants d) \<and> sa_status g = G_REVOKED"
  shows "g \<in> set (d_grants e) \<and> sa_status g = G_REVOKED"
  using assms
proof (rule doors_sys.stable_run)
  show "g \<in> set (d_grants v) \<and> sa_status g = G_REVOKED"
    if m: "door_move ts u v" and ok: "doors_ok ts u" and g: "g \<in> set (d_grants u) \<and> sa_status g = G_REVOKED" for u v
    using m
  proof (cases rule: door_move.cases)
    case (Approve h who step_up)
    then have "sa_id g \<noteq> sa_id h" using g grants_one [OF ok, of g h] by (auto simp: state_of_open)
    then show ?thesis using Approve g by (auto simp: in_set_put_row approved_def)
  next
    case (Close h status who)
    then have "sa_id g \<noteq> sa_id h" using g grants_one [OF ok, of g h] by (auto simp: state_of_open)
    then show ?thesis using Close g by (auto simp: in_set_put_row closed_def)
  qed (use g in auto)
qed

section \<open>What a token that resolves says\<close>

lemma kind_value_inj [simp]: "session_kind_value a = session_kind_value b \<longleftrightarrow> a = b"
  by (cases a; cases b) auto

lemma kind_values [simp]: "session_kind_value k = ''support'' \<longleftrightarrow> k = SUPPORT" "session_kind_value k = ''full'' \<longleftrightarrow> k = FULL"
  "session_kind_value k = ''enrolment'' \<longleftrightarrow> k = ENROLMENT"
  by (cases k; simp)+

lemma resolve_Inr:
  assumes "resolve_access_token ts token want s = (Inr (Some p), s')"
  obtains x where "x \<in> set (iy_sessions s)" "s' = s" "live x (now_of s)" "build_principal x s = Some p"
    "\<not> user_deactivated (ss_user x) s" "ss_kind x = SUPPORT \<Longrightarrow> grant_live x s" "(ss_kind x = ENROLMENT) = (want = P_ENROLMENT)"
proof -
  obtain cl where parse: "parse_access_token ts token (now_of s) = Some cl"
    using assms by (cases "parse_access_token ts token (now_of s)") (auto simp: resolve_access_token_def)
  note r0 = assms [unfolded resolve_access_token_def Let_def parse option.case]
  have cl: "cl_kind cl \<in> (if want = P_ENROLMENT then {''enrolment''} else {''full'', ''support''})"
    using r0 by (rule contrapos_pp) (simp only: if_True not_False_eq_True prod.inject sum.inject option.distinct simp_thms)
  obtain x where x: "read_session (cl_tenant cl) (cl_session cl) s = Some x"
    using r0 cl by (cases "read_session (cl_tenant cl) (cl_session cl) s") simp_all
  have u: "session_kind_value (ss_kind x) = cl_kind cl" "ss_revoked_at x = None" "cl_kind cl = ''support'' \<or> live x (now_of s)"
      "\<not> user_deactivated (ss_user x) s"
      "\<not> (cl_kind cl = ''support'' \<and> (ss_expires_at x \<le> now_of s \<or> \<not> grant_live x s))"
    and r: "build_principal x s = Some p" "s' = s"
    using r0 cl x by (simp_all split: if_splits) (elim conjE, hypsubst, assumption)+
  have "live x (now_of s)" and "ss_kind x = SUPPORT \<Longrightarrow> grant_live x s"
    using u by (auto simp: live_def)
  moreover have "(ss_kind x = ENROLMENT) = (want = P_ENROLMENT)"
    using cl u(1) by (cases "ss_kind x") (auto split: if_splits)
  moreover have "x \<in> set (iy_sessions s)" using x by (auto simp: read_session_def dest: find_Some_in)
  ultimately show thesis using that r u(4) by blast
qed

lemma build_principal_Some:
  assumes "build_principal x s = Some p"
  shows "q_session p = Some (ss_id x)" and "p_subject p = ss_user x" and "p_tenant p = ss_tenant x"
    and "q_support p = (if ss_kind x = SUPPORT then ss_support x else None)"
    and "p_kind p = (if ss_kind x = ENROLMENT then P_ENROLMENT else P_USER)"
    and "ss_kind x \<noteq> FULL \<Longrightarrow> p_step_up_at p = None \<and> p_step_up_assertion p = None"
    and "p_permissions p = (case ss_kind x of ENROLMENT \<Rightarrow> [] | SUPPORT \<Rightarrow> SUPPORT_PERMISSIONS | FULL \<Rightarrow> p_permissions p)"
  using assms by (auto simp: build_principal_def bare_principal_def Let_def split: session_kind.splits option.splits)

lemma build_principal_member:
  assumes "build_principal x s = Some p" and "ss_kind x = FULL" and "ss_tenant x = Some t"
  shows "\<exists>m\<in>set (db_members (iy_db s)). m_tenant m = t \<and> m_user m = ss_user x \<and> m_deactivated_at m = None \<and>
    p_permissions p = granted (m_roles m) TENANT_PERMISSIONS \<and> \<not> q_staff p"
  using assms by (auto simp: build_principal_def bare_principal_def Let_def split: option.splits dest!: find_Some_in)

lemma build_principal_platform:
  assumes "build_principal x s = Some p" and "ss_kind x = FULL" and "ss_tenant x = None"
  shows "set (p_permissions p) \<subseteq> set PLATFORM_PERMISSIONS \<and> (q_staff p \<longleftrightarrow> (\<exists>r\<in>set (iy_platform_roles s). fst r = ss_user x))"
  using assms by (auto simp: build_principal_def bare_principal_def Let_def granted_def filter_empty_conv) force+

lemma grant_live_Some: "grant_live x s \<Longrightarrow> \<exists>g\<in>set (iy_grants s). ss_support x = Some (sa_id g) \<and> ss_tenant x = Some (sa_tenant g) \<and>
    state_of g (now_of s) = S_ACTIVE"
  by (auto simp: grant_live_def live_grant_def dest!: find_Some_in split: option.splits if_splits)

section \<open>Tokens written and read\<close>

text \<open>What the program relies on of Python's texts: a key's hexadecimal text is read back, is not empty and holds no
  dot, no signature holds one, and no secret is empty.\<close>

definition token_texts :: "token_settings \<Rightarrow> bool" where
  "token_texts ts \<longleftrightarrow> (\<forall>i. ts_uuid ts (ts_hex ts i) = Some i \<and> ts_hex ts i \<noteq> [] \<and> CHR ''.'' \<notin> set (ts_hex ts i)) \<and>
    (\<forall>s. CHR ''.'' \<notin> set (ts_sign ts s)) \<and> (\<forall>n. ts_secret ts n \<noteq> [])"

lemma py_int_show_int: "py_int (show_int n) = Some n"
proof (cases "n < 0")
  case True
  let ?w = "show_nat (nat (- n))"
  obtain c cs where c: "?w = c # cs" using shown(1) by (cases ?w) auto
  have "c \<noteq> CHR ''-''" "c \<noteq> CHR ''+''" using shown(2) [of c "nat (- n)"] by (simp_all add: c)
  moreover have "strip ?w = ?w" using shown(2) by (blast intro: strip_none)
  ultimately have "py_int ?w = unsigned_value ?w" by (simp add: py_int_def c)
  then have "unsigned_value ?w = Some (- n)" using py_int_show [of "nat (- n)"] True by simp
  moreover have "strip (CHR ''-'' # show_nat (nat (- n))) = CHR ''-'' # show_nat (nat (- n))"
    using shown(2) [of _ "nat (- n)"] by (intro strip_none) (auto simp: is_space_def code_def)
  ultimately show ?thesis using True by (simp add: py_int_def show_int_def)
qed (simp add: show_int_def py_int_show)

lemma show_int_no_dot: "CHR ''.'' \<notin> set (show_int n)"
  using shown(2) [of "CHR ''.''"] by (auto simp: show_int_def)

lemma kind_value_no_dot: "CHR ''.'' \<notin> set (session_kind_value k)"
  by (cases k) auto

lemma split_on_dot: "CHR ''.'' \<notin> set w \<Longrightarrow> split_on (CHR ''.'') (w @ ''.'' @ rest) = w # split_on (CHR ''.'') rest"
  using split_on_part by simp

lemma epoch_near: "t - 1000000 < 1000000 * epoch t \<and> 1000000 * epoch t < t + 1000000"
proof (cases "0 \<le> t")
  case True
  have "t = 1000000 * (t div 1000000) + t mod 1000000" "0 \<le> t mod 1000000" "t mod 1000000 < 1000000" by simp_all
  with True show ?thesis unfolding epoch_def one_second_def by (simp only: if_True) linarith
next
  case False
  have "- t = 1000000 * ((- t) div 1000000) + (- t) mod 1000000" "0 \<le> (- t) mod 1000000" "(- t) mod 1000000 < 1000000" by simp_all
  with False show ?thesis unfolding epoch_def one_second_def by (simp only: if_False) linarith
qed

lemma epoch_later:
  assumes "0 < m"
  shows "epoch now < epoch (now + int m * minute)"
proof -
  have "60000000 \<le> int m * minute" using assms by (simp add: minute_def)
  with epoch_near [of now] epoch_near [of "now + int m * minute"] show ?thesis by linarith
qed

lemma access_token_read:
  assumes t: "token_texts ts" and m: "0 < ts_access_minutes ts"
  shows "\<exists>e. parse_access_token ts (fst (issue_access_token ts i (session_kind_value k) tenant now)) now =
    Some \<lparr>cl_session = i, cl_kind = session_kind_value k, cl_tenant = tenant, cl_expires_at = e\<rparr>"
proof -
  let ?e = "epoch (now + int (ts_access_minutes ts) * minute)"
  let ?t = "case tenant of None \<Rightarrow> [] | Some t \<Rightarrow> ts_hex ts t"
  let ?p = "access_payload ts i (session_kind_value k) tenant ?e"
  have dots: "CHR ''.'' \<notin> set ACCESS_TOKEN_VERSION" "CHR ''.'' \<notin> set (ts_hex ts i)" "CHR ''.'' \<notin> set (session_kind_value k)"
    "CHR ''.'' \<notin> set ?t" "CHR ''.'' \<notin> set (show_int ?e)" "CHR ''.'' \<notin> set (ts_sign ts ?p)"
    using t kind_value_no_dot show_int_no_dot by (auto simp: token_texts_def split: option.splits)
  have "split_on (CHR ''.'') (?p @ ''.'' @ ts_sign ts ?p) =
      [ACCESS_TOKEN_VERSION, ts_hex ts i, session_kind_value k, ?t, show_int ?e, ts_sign ts ?p]"
    unfolding access_payload_def append_assoc
    by (simp only: split_on_dot [OF dots(1)] split_on_dot [OF dots(2)] split_on_dot [OF dots(3)] split_on_dot [OF dots(4)]
        split_on_dot [OF dots(5)] split_on_last [OF dots(6) [unfolded access_payload_def]])
  moreover have "(if ?t = [] then Some None else map_option Some (ts_uuid ts ?t)) = Some tenant"
    using t by (auto simp: token_texts_def split: option.splits)
  moreover have "ts_uuid ts (ts_hex ts i) = Some i" using t by (simp add: token_texts_def)
  moreover have "epoch now < ?e" by (rule epoch_later [OF m])
  ultimately show ?thesis
    by (simp add: issue_access_token_def Let_def parse_access_token_def py_int_show_int access_payload_def)
qed

lemma refresh_token_read:
  assumes "token_texts ts"
  shows "parse_refresh_token ts (ts_hex ts i @ ''.'' @ ts_secret ts n) = Some (i, secret_hash ts n)"
proof -
  have d: "\<forall>c\<in>set (ts_hex ts i). c \<noteq> CHR ''.''" using assms by (auto simp: token_texts_def)
  then have "dropWhile (\<lambda>c. c \<noteq> CHR ''.'') (ts_hex ts i @ ''.'' @ ts_secret ts n) = CHR ''.'' # ts_secret ts n"
    and "takeWhile (\<lambda>c. c \<noteq> CHR ''.'') (ts_hex ts i @ ''.'' @ ts_secret ts n) = ts_hex ts i"
    by (simp_all add: dropWhile_append2 takeWhile_append2)
  then show ?thesis using assms by (simp add: parse_refresh_token_def token_texts_def secret_hash_def)
qed

end
