(* ===== verification/Session_Example.thy ===== *)
theory Session_Example
  imports Session_Laws
begin

text \<open>
  Ann of bank 1 signs in and refreshes, her old token is replayed in time and too late; platform support asks to read
  the bank, Ann lets it in and puts it out again.  The theorems on sessions are applied here.
\<close>

section \<open>Settings and the first state\<close>

text \<open>The \<open>n\<close>-th secret is \<open>n + 1\<close> letters, its hash the secret itself; a key is written in decimal.\<close>

definition ex_ts :: token_settings where
  "ex_ts = \<lparr>ts_sha256 = (\<lambda>x. x), ts_sign = (\<lambda>_. ''sig''), ts_secret = (\<lambda>n. replicate (Suc n) (CHR ''a'')), ts_hex = show_nat,
     ts_uuid = (\<lambda>x. map_option nat (py_int x)), ts_access_minutes = 10, ts_grace_seconds = 30, ts_idle_default = 60,
     ts_idle_min = 15, ts_idle_max = 480, ts_absolute_default = 12, ts_absolute_max = 24, ts_support_max_hours = 8,
     ts_request_hours = 72\<rparr>"

lemma ex_fresh: "fresh_secrets ex_ts"
  by (auto simp: fresh_secrets_def secret_hash_def ex_ts_def inj_on_def dest: arg_cong [where f = length])

lemma ex_texts: "token_texts ex_ts"
  using shown by (auto simp: token_texts_def ex_ts_def py_int_show)

definition ex_bank :: db where
  "ex_bank = \<lparr>db_next = 20, db_now = 5,
    db_tenants = [\<lparr>tn_id = 1, tn_active = True, tn_triage_target_hours = 2, tn_today = 0\<rparr>],
    db_members = [\<lparr>m_id = 1, m_tenant = 1, m_user = 1, m_user_name = ''Ann'', m_user_status = ACTIVE, m_deactivated_at = None,
      m_roles = [[SECURITY_MANAGE]], m_prefs = [], m_languages = [], m_out_of_office_until = None, m_delegate = None\<rparr>],
    db_vocab = [], db_taxonomy = \<lparr>tx_dimensions = [], tx_terms = [], tx_footprint = [], tx_jurisdictions = []\<rparr>,
    db_changes = [], db_obligations = [], db_tenant_obligations = [], db_tenant_agents = [], db_cases = [], db_links = [],
    db_assessments = [], db_actions = [], db_transitions = [], db_evidence = [], db_notifications = [], db_storage = [],
    db_scan_queue = [], db_audit = [], db_outbox = []\<rparr>"

definition ex_door :: identity where
  "ex_door = \<lparr>iy_db = ex_bank,
     iy_users = [\<lparr>us_id = 1, us_name = ''Ann'', us_status = ACTIVE\<rparr>, \<lparr>us_id = 9, us_name = ''Support'', us_status = ACTIVE\<rparr>],
     iy_sessions = [], iy_grants = [], iy_policies = [\<lparr>sp_tenant = 1, sp_idle_minutes = Some 30, sp_absolute_hours = None\<rparr>],
     iy_platform_roles = [(9, [SUPPORT_ACCESS_GRANT])],
     iy_step_ups = [\<lparr>su_id = 3, su_session = 20, su_created_at = 5\<rparr>, \<lparr>su_id = 4, su_session = 23, su_created_at = 5\<rparr>],
     iy_log = [], iy_drawn = 0\<rparr>"

lemma ex_door_init: "identity_init ex_ts ex_door"
  by (simp add: identity_init_def doors_init_def ex_fresh ex_door_def)

section \<open>Ann signs in and refreshes\<close>

definition ex_signed_in :: "session_bundle \<times> identity" where
  "ex_signed_in = create_session ex_ts 1 FULL (Some 1) ex_door"

abbreviation "ex_in \<equiv> snd ex_signed_in"
abbreviation "ex_token \<equiv> sb_refresh (fst ex_signed_in)"
abbreviation "ex_session \<equiv> sb_session (fst ex_signed_in)"

definition ex_refreshed :: "(string \<times> nat \<times> string option) answered" where
  "ex_refreshed = refresh ex_ts (Some ex_token) ex_in"

abbreviation "ex_turned \<equiv> snd ex_refreshed"

text \<open>A minute later.\<close>

definition ex_late :: identity where
  "ex_late = ex_turned\<lparr>iy_db := (iy_db ex_turned)\<lparr>db_now := db_now (iy_db ex_turned) + minute\<rparr>\<rparr>"

definition ex_replayed :: "(string \<times> nat \<times> string option) answered" where
  "ex_replayed = refresh ex_ts (Some ex_token) ex_late"

lemma ex_happens_in: "happens ex_ts ex_door ex_in"
  by (intro r_into_rtranclp door_step.signed_in [of ex_ts 1 FULL "Some 1" ex_door "fst ex_signed_in"]) (simp_all add: ex_signed_in_def)

lemma ex_happens_turned: "happens ex_ts ex_door ex_turned"
  by (rule rtranclp.rtrancl_into_rtrancl [OF ex_happens_in door_step.refreshed [of ex_ts "Some ex_token" ex_in "fst ex_refreshed"]])
    (simp add: ex_refreshed_def)

lemma ex_happens_late: "happens ex_ts ex_door ex_late"
proof -
  have "iy_elsewhere ex_turned ex_late" by (simp add: iy_elsewhere_def ex_late_def minute_def)
  then show ?thesis using ex_happens_turned door_step.other by (metis rtranclp.rtrancl_into_rtrancl)
qed

lemma ex_happens_replayed: "happens ex_ts ex_door (snd ex_replayed)"
  by (rule rtranclp.rtrancl_into_rtrancl [OF ex_happens_late door_step.refreshed [of ex_ts "Some ex_token" ex_late "fst ex_replayed"]])
    (simp add: ex_replayed_def)

section \<open>Support asks, enters and is put out\<close>

definition ex_support_in :: "session_bundle \<times> identity" where
  "ex_support_in = create_session ex_ts 9 FULL None ex_in"

abbreviation "ex_console \<equiv> snd ex_support_in"

text \<open>The two as they come with their requests, both freshly stepped up.\<close>

definition ex_ann :: session_principal where
  "ex_ann = \<lparr>p_kind = P_USER, p_subject = 1, p_name = ''Ann'', p_tenant = Some 1, p_permissions = [SECURITY_MANAGE], p_scopes = [],
     p_step_up_at = Some 5, p_step_up_assertion = Some 3, q_staff = False, q_session = Some 20, q_session_created_at = Some 5,
     q_support = None\<rparr>"

definition ex_support :: session_principal where
  "ex_support = \<lparr>p_kind = P_USER, p_subject = 9, p_name = ''Support'', p_tenant = None, p_permissions = [SUPPORT_ACCESS_GRANT],
     p_scopes = [], p_step_up_at = Some 5, p_step_up_assertion = Some 4, q_staff = True, q_session = Some 23,
     q_session_created_at = Some 5, q_support = None\<rparr>"

definition ex_ask :: "error + support_access \<times> identity" where
  "ex_ask = request_console_support_access ex_ts ex_support 1
     \<lparr>sy_purpose = ''why'', sy_ticket_ref = ''T1'', sy_hours = 2\<rparr> ex_console"

abbreviation "ex_asked \<equiv> snd (projr ex_ask)"
abbreviation "ex_grant \<equiv> 26 :: uuid"

definition ex_approval :: "error + support_access \<times> identity" where
  "ex_approval = approve_support_access 5 ex_ann ex_grant ex_asked"

abbreviation "ex_approved \<equiv> snd (projr ex_approval)"

definition ex_entry :: "error + session_bundle \<times> identity" where
  "ex_entry = enter_console_support_access ex_ts 5 ex_support ex_grant ex_approved"

abbreviation "ex_entered \<equiv> snd (projr ex_entry)"

text \<open>What entering comes down to: the console session is revoked, the support session opened.\<close>

definition ex_left :: identity where
  "ex_left = revoke_session (sb_session (fst ex_support_in)) ''support_entered'' (actor_of 9 ex_approved) ex_approved"

definition ex_opened :: "session_bundle \<times> identity" where
  "ex_opened = open_session ex_ts 9 SUPPORT (Some 1) (Some ex_grant) 7200000005 ex_left"

lemma answered_pair: "\<not> isl r \<Longrightarrow> r = Inr (fst (projr r), snd (projr r))"
  by (cases r) auto

lemma ex_answers: "\<not> isl ex_ask" "\<not> isl ex_approval"
proof -
  show "\<not> isl ex_ask" by code_simp
  show "\<not> isl ex_approval" by code_simp
qed

abbreviation "ex_given \<equiv> fst (projr ex_approval)"

lemma ex_entry_is: "\<exists>e e'. ex_entry = Inr (fst ex_opened, iy_record e' (iy_record e (snd ex_opened)))"
proof -
  have g: "find (\<lambda>g. sa_platform_user g = 9 \<and> sa_id g = ex_grant) (iy_grants ex_approved) = Some ex_given" by code_simp
  have a: "state_of ex_given (now_of ex_approved) = S_ACTIVE \<and> sa_expires_at ex_given = Some 7200000005 \<and>
      sa_tenant ex_given = 1 \<and> sa_id ex_given = ex_grant \<and> now_of ex_approved = 5" by code_simp
  have c: "find (\<lambda>x. ss_id x = 23 \<and> ss_user x = 9 \<and> ss_tenant x = None) (iy_sessions ex_approved) =
      Some (sb_session (fst ex_support_in))" by code_simp
  have o: "open_session ex_ts 9 SUPPORT (Some (Suc 0)) (Some ex_grant) 7200000005 ex_left = ex_opened"
    by (simp add: ex_opened_def)
  show ?thesis
    using g a c
    by (auto simp: ex_entry_def enter_console_support_access_def requires_permission_def has_permission_def ex_support_def
        principal.truncate_def enforce_step_up_def minute_def enter_def own_grants_def create_support_session_def Let_def
        ex_left_def [symmetric] o split_beta) (intro exI, rule refl)
qed

lemma ex_entered_at: "\<exists>e e'. ex_entered = iy_record e' (iy_record e (snd ex_opened))"
proof -
  from ex_entry_is obtain e e' where r: "ex_entry = Inr (fst ex_opened, iy_record e' (iy_record e (snd ex_opened)))" by blast
  have "ex_entered = iy_record e' (iy_record e (snd ex_opened))" unfolding r by (simp only: sum.sel snd_conv)
  then show ?thesis by blast
qed

lemma ex_happens_console: "happens ex_ts ex_door ex_console"
  by (rule rtranclp.rtrancl_into_rtrancl [OF ex_happens_in door_step.signed_in [of ex_ts 9 FULL None ex_in "fst ex_support_in"]])
    (simp_all add: ex_support_in_def)

lemma ex_happens_entered: "happens ex_ts ex_door ex_entered"
proof -
  have "door_step ex_ts ex_console ex_asked"
    using answered_pair [OF ex_answers(1)] by (intro door_step.support_asked) (simp only: ex_ask_def)
  moreover have "door_step ex_ts ex_asked ex_approved"
    using answered_pair [OF ex_answers(2)] by (intro door_step.support_approved) (simp only: ex_approval_def)
  moreover have "door_step ex_ts ex_approved ex_entered"
    using ex_entry_is by (intro door_step.support_entered) (auto simp: ex_entry_def)
  ultimately show ?thesis using ex_happens_console by (meson rtranclp.rtrancl_into_rtrancl)
qed

lemma ex_entered_is: "now_of ex_entered = now_of (snd ex_opened)" "iy_users ex_entered = iy_users (snd ex_opened)"
  "iy_sessions ex_entered = iy_sessions (snd ex_opened)" "iy_grants ex_entered = iy_grants (snd ex_opened)"
  "db_members (iy_db ex_entered) = db_members (iy_db (snd ex_opened))"
proof -
  from ex_entered_at obtain e e' where r: "ex_entered = iy_record e' (iy_record e (snd ex_opened))" by blast
  show "now_of ex_entered = now_of (snd ex_opened)" "iy_users ex_entered = iy_users (snd ex_opened)"
    "iy_sessions ex_entered = iy_sessions (snd ex_opened)" "iy_grants ex_entered = iy_grants (snd ex_opened)"
    "db_members (iy_db ex_entered) = db_members (iy_db (snd ex_opened))"
    unfolding r by (simp_all add: iy_record_def frame_simps)
qed

lemma ex_reading: "\<exists>p. resolve_access_token ex_ts (sb_access (fst ex_opened)) P_USER ex_entered = (Inr (Some p), ex_entered) \<and>
    q_support p = Some ex_grant \<and> q_session p = Some 33 \<and> p_tenant p = Some 1"
proof -
  let ?x = "sb_session (fst ex_opened)"
  have parse: "map_option (\<lambda>c. (cl_session c, cl_kind c, cl_tenant c)) (parse_access_token ex_ts (sb_access (fst ex_opened)) 5) =
      Some (33, ''support'', Some 1)" by code_simp
  have row: "find (\<lambda>y. in_zone (Some 1) y \<and> ss_id y = 33) (iy_sessions (snd ex_opened)) = Some ?x" by code_simp
  have x: "ss_id ?x = 33 \<and> ss_user ?x = 9 \<and> ss_tenant ?x = Some 1 \<and> ss_kind ?x = SUPPORT \<and> ss_support ?x = Some ex_grant \<and>
      ss_revoked_at ?x = None \<and> ss_expires_at ?x = 7200000005 \<and> now_of (snd ex_opened) = 5 \<and>
      list_all (\<lambda>u. us_status u = ACTIVE) (iy_users (snd ex_opened))" by code_simp
  have g: "live_grant 1 ex_grant (snd ex_opened) \<noteq> None" by code_simp
  then have "live_grant 1 ex_grant ex_entered \<noteq> None" unfolding live_grant_def ex_entered_is .
  then have "grant_live ?x ex_entered" using x by (simp add: grant_live_def)
  moreover have "\<not> user_deactivated 9 ex_entered"
    using x unfolding user_deactivated_def ex_entered_is by (auto simp: list_all_iff)
  ultimately show ?thesis
    using parse row x ex_entered_is
    by (auto simp: resolve_access_token_def read_session_def build_principal_def bare_principal_def Let_def)
qed

lemma ex_read_session: "\<exists>x\<in>set (iy_sessions ex_entered). ss_id x = 33 \<and> ss_user x = 9 \<and> ss_expires_at x = 7200000005"
proof -
  have "list_ex (\<lambda>x. ss_id x = 33 \<and> ss_user x = 9 \<and> ss_expires_at x = 7200000005) (iy_sessions (snd ex_opened))" by code_simp
  then show ?thesis unfolding ex_entered_is by (simp add: list_ex_iff)
qed

lemma ex_shut: "\<exists>g t. revoke_support_access ex_ann ex_grant ex_entered = Inr (g, t)"
proof -
  have g: "find (\<lambda>g. sa_tenant g = 1 \<and> sa_id g = ex_grant) (iy_grants (snd ex_opened)) = Some ex_given" by code_simp
  have a: "state_of ex_given (now_of (snd ex_opened)) = S_ACTIVE \<and> sa_tenant ex_given = 1 \<and> sa_level ex_given = READ_LEVEL \<and>
      sa_approved_by ex_given = Some 1 \<and> sa_platform_user ex_given = 9 \<and> sa_ended_at ex_given = None \<and>
      map (\<lambda>m. (m_tenant m, m_user m)) (db_members (iy_db (snd ex_opened))) = [(1, 1)]" by code_simp
  then obtain m where m: "db_members (iy_db (snd ex_opened)) = [m]" "m_tenant m = 1" "m_user m = 1" by auto
  show ?thesis
    using g a m
    by (simp add: revoke_support_access_def requires_permission_def has_permission_def ex_ann_def principal.truncate_def
        caller_tenant_def revoke_support_def grant_of_def refuse_unless_def end_grant_def save_grant_def grant_guard_def
        grant_checks_def actor_for_def ex_entered_is Let_def)
qed

text \<open>Ann's session before the late replay, and after it.\<close>

lemma ex_before: "\<exists>x. iy_sessions ex_late = [x] \<and> ss_id x = 20 \<and> ss_revoked_at x = None \<and> ss_expires_at x = 43200000005 \<and>
    ss_previous_hash x = Some ''a'' \<and> ss_rotated_at x = Some 5 \<and> now_of ex_late = 60000005"
proof -
  have "map (\<lambda>x. (ss_id x, ss_revoked_at x, ss_expires_at x, ss_previous_hash x, ss_rotated_at x)) (iy_sessions ex_late) =
      [(20, None, 43200000005, Some ''a'', Some 5)] \<and> now_of ex_late = 60000005" by code_simp
  then show ?thesis by auto
qed

lemma ex_after: "\<exists>x. iy_sessions (snd ex_replayed) = [x] \<and> ss_id x = 20 \<and> ss_revoked_at x = Some 60000005"
proof -
  have "map (\<lambda>x. (ss_id x, ss_revoked_at x)) (iy_sessions (snd ex_replayed)) = [(20, Some 60000005)]" by code_simp
  then show ?thesis by auto
qed

lemma ex_tokens: "parse_refresh_token ex_ts ex_token = Some (20, ''a'')" "parse_refresh_token ex_ts ''20.aa'' = Some (20, ''aa'')"
proof -
  show "parse_refresh_token ex_ts ex_token = Some (20, ''a'')" by code_simp
  show "parse_refresh_token ex_ts ''20.aa'' = Some (20, ''aa'')" by code_simp
qed

lemma answered_triple: "\<not> isl (fst r) \<Longrightarrow> \<exists>a n w. r = (Inr (a, n, w), snd r) \<and> w = snd (snd (projr (fst r)))"
  by (cases r; cases "fst r") auto

lemma ex_exchanged: "\<exists>a n w. refresh ex_ts (Some ex_token) ex_in = (Inr (a, n, Some w), ex_turned)"
proof -
  have "\<not> isl (fst ex_refreshed) \<and> snd (snd (projr (fst ex_refreshed))) \<noteq> None" by code_simp
  then obtain a n w where "ex_refreshed = (Inr (a, n, Some w), ex_turned)" using answered_triple [of ex_refreshed] by force
  then show ?thesis unfolding ex_refreshed_def [symmetric] by blast
qed

lemma ex_twice: "\<exists>a n w t. refresh ex_ts (Some ex_token) ex_turned = (Inr (a, n, w), t)"
proof -
  have "\<not> isl (fst (refresh ex_ts (Some ex_token) ex_turned))" by code_simp
  then show ?thesis using answered_triple [of "refresh ex_ts (Some ex_token) ex_turned"] by blast
qed

end
