(* ===== verification/Session_Theorems.thy ===== *)
theory Session_Theorems
  imports Session_Example
begin

text \<open>
  What the sessions and the support access of the program guarantee, for every order of sign-ins, refreshes, requests,
  decisions and revocations, each with the lemma on the machine it rests on.
\<close>

section \<open>Reachable states\<close>

lemma reached_ok:
  assumes "identity_init ts s0" and "happens ts s0 s"
  shows "doors_ok ts (doors_of s)"
  using door_sys.inv_reachable [OF assms] by (simp add: identity_ok_def)

lemma happens_moves: "happens ts s t \<Longrightarrow> doors_ok ts (doors_of s) \<Longrightarrow> moves ts s t \<and> doors_ok ts (doors_of t)"
  using door_runs [of ts s t] door_sys.inv_run [of ts s t] by (simp add: identity_ok_def)

lemma refresh_Inr:
  assumes "refresh ts (Some v) s = (Inr out, s')"
  obtains x presented where "load_by_refresh ts (Some v) s = Some (x, presented)" "live x (now_of s)"
  using assms by (cases rule: refresh_ways) auto

lemma refresh_of_revoked:
  assumes "load_by_refresh ts value s = Some (x, presented)" and "ss_revoked_at x \<noteq> None"
  shows "refresh ts value s = (Inl unauthenticated_again, s)"
  using assms by (simp add: refresh_def live_def)

lemma load_by_refresh_row:
  assumes "doors_ok ts (doors_of s)" and "x \<in> set (iy_sessions s)" and "parse_refresh_token ts v = Some (ss_id x, h)"
  shows "load_by_refresh ts (Some v) s = Some (x, h)"
  using assms session_tbl.rows_set_rows find_by_key [of ss_id "iy_sessions s" x] by (simp add: load_by_refresh_def doors_ok_def)

section \<open>A revoked session\<close>

lemma revoked_is_out:
  assumes ok: "doors_ok ts (doors_of s)" and x: "x \<in> set (iy_sessions s)" "ss_revoked_at x \<noteq> None" and r: "happens ts s t"
  shows "x \<in> set (iy_sessions t)" and "resolve_access_token ts token want t = (Inr (Some p), t') \<Longrightarrow> q_session p \<noteq> Some (ss_id x)"
    and "parse_refresh_token ts v = Some (ss_id x, h) \<Longrightarrow> refresh ts (Some v) t = (Inl unauthenticated_again, t)"
proof -
  note m = happens_moves [OF r ok]
  have in_t: "x \<in> set (iy_sessions t)" using revoked_stays [of ts "doors_of s" "doors_of t" x] m ok x by simp
  then show "x \<in> set (iy_sessions t)" .
  show "q_session p \<noteq> Some (ss_id x)" if res: "resolve_access_token ts token want t = (Inr (Some p), t')"
  proof
    assume q: "q_session p = Some (ss_id x)"
    from resolve_Inr [OF res] obtain y where y: "y \<in> set (iy_sessions t)" "live y (now_of t)" "build_principal y t = Some p"
      by metis
    then have "ss_id y = ss_id x" using build_principal_Some(1) q by fastforce
    then have "y = x" using ids_one [of ts "doors_of t" y x] m y(1) in_t by simp
    with y(2) x(2) show False by (simp add: live_def)
  qed
  show "refresh ts (Some v) t = (Inl unauthenticated_again, t)" if "parse_refresh_token ts v = Some (ss_id x, h)"
    using refresh_of_revoked load_by_refresh_row m in_t that x(2) by blast
qed

text \<open>C27: a session once revoked is over for good: whatever happens afterwards, its row stays as it was revoked, no access
  token, however it was obtained, resolves to a principal of it, and every refresh token that names it is refused and
  changes nothing.\<close>

theorem revoked_sessions_stay_out:
  assumes "identity_init ts s0" and "happens ts s0 s" and "x \<in> set (iy_sessions s)" and "ss_revoked_at x \<noteq> None"
    and "happens ts s t"
  shows "x \<in> set (iy_sessions t) \<and>
    (\<forall>token want p t'. resolve_access_token ts token want t = (Inr (Some p), t') \<longrightarrow> q_session p \<noteq> Some (ss_id x)) \<and>
    (\<forall>v h. parse_refresh_token ts v = Some (ss_id x, h) \<longrightarrow> refresh ts (Some v) t = (Inl unauthenticated_again, t))"
  using revoked_is_out [OF reached_ok [OF assms(1,2)] assms(3-5)] by blast

theorem revoked_sessions_stay_out_witness:
  "\<exists>x\<in>set (iy_sessions (snd ex_replayed)). ss_id x = 20 \<and> ss_revoked_at x = Some 60000005 \<and>
    refresh ex_ts (Some ''20.aa'') (snd ex_replayed) = (Inl unauthenticated_again, snd ex_replayed)"
proof -
  obtain x where x: "x \<in> set (iy_sessions (snd ex_replayed))" "ss_id x = 20" "ss_revoked_at x = Some 60000005" using ex_after by auto
  have "ss_revoked_at x \<noteq> None" using x(3) by simp
  from revoked_sessions_stay_out [OF ex_door_init ex_happens_replayed x(1) this rtranclp.rtrancl_refl] x ex_tokens(2)
  show ?thesis by (intro bexI [of _ x]) simp_all
qed

section \<open>A spent refresh token\<close>

lemma refresh_rotates:
  assumes "refresh ts value s = (Inr (a, n, Some w), s')"
  obtains x deadline where "load_by_refresh ts value s = Some (x, ss_refresh_hash x)" "live x (now_of s)"
    "deadline \<le> ss_expires_at x" "now_of s < deadline" "ss_kind x = SUPPORT \<Longrightarrow> grant_live x s"
    "iy_sessions s' = put_row ss_id (rotated ts (doors_of s) deadline x) (iy_sessions s)" "iy_drawn s' = Suc (iy_drawn s)"
  using assms
proof (cases rule: refresh_ways)
  case (turned x deadline)
  then have "iy_sessions s' = put_row ss_id (rotated ts (doors_of s) deadline x) (iy_sessions s)" "iy_drawn s' = Suc (iy_drawn s)"
    by (auto simp: rotate_session_def Let_def new_refresh_token_def iy_record_def rotated_def secret_hash_def split: prod.splits)
  with turned that show thesis by blast
qed auto

lemma rotation_spends:
  assumes ok: "doors_ok ts (doors_of s)" and r: "refresh ts (Some v) s = (Inr (a, n, Some w), s')"
  obtains i h where "parse_refresh_token ts v = Some (i, h)" "spent_secret ts i h (now_of s) (doors_of s')"
proof -
  from refresh_rotates [OF r] obtain x deadline where l: "load_by_refresh ts (Some v) s = Some (x, ss_refresh_hash x)"
    and s': "iy_sessions s' = put_row ss_id (rotated ts (doors_of s) deadline x) (iy_sessions s)" "iy_drawn s' = Suc (iy_drawn s)"
    by metis
  have x: "x \<in> set (iy_sessions s)" and v: "parse_refresh_token ts v = Some (ss_id x, ss_refresh_hash x)"
    using load_by_refresh_Some [OF l] by auto
  have fresh: "fresh_secrets ts" and d: "drawn_hash ts (iy_drawn s) (ss_refresh_hash x)"
    using ok session_ok_in [OF ok, of x] x by (simp_all add: doors_ok_def session_ok_def)
  have "spent_secret ts (ss_id x) (ss_refresh_hash x) (now_of s) (doors_of s')"
    using s' d fresh_hash [OF fresh d] drawn_hash_mono [OF d, of "Suc (iy_drawn s)"]
    by (auto simp: spent_secret_def in_set_put_row rotated_def)
  with v that show thesis by blast
qed



section \<open>A stolen token\<close>

lemma replay_late:
  assumes "load_by_refresh ts value s = Some (x, h)" and "live x (now_of s)" and "ss_previous_hash x = Some h"
    and "ss_rotated_at x = Some at" and "at + int (ts_grace_seconds ts) * one_second < now_of s"
  shows "refresh ts value s = (Inl unauthenticated_again, log_event REFRESH_REPLAY PASSKEY False (ss_user x) (ss_tenant x) ''refresh_replay''
    (revoke_session x ''refresh_replay'' (actor_of (ss_user x) s) s))"
  using assms by (simp add: refresh_def is_previous_def within_grace_def ended_def Let_def)

text \<open>C29: the secret a session rotated away from, presented after the grace, ends the session: the refresh is refused,
  the session is revoked then and there for a replay, the security log says so, and from then on neither an access token
  nor a refresh token of it, the thief's or the owner's, is answered.\<close>

theorem late_replays_end_the_session:
  assumes "identity_init ts s0" and "happens ts s0 s" and "x \<in> set (iy_sessions s)" and "live x (now_of s)"
    and "parse_refresh_token ts v = Some (ss_id x, h)" and "ss_previous_hash x = Some h" and "ss_rotated_at x = Some at"
    and "at + int (ts_grace_seconds ts) * one_second < now_of s" and "refresh ts (Some v) s = (out, s')" and "happens ts s' t"
  shows "out = Inl unauthenticated_again \<and>
    (\<exists>y\<in>set (iy_sessions s'). ss_id y = ss_id x \<and> ss_revoked_at y = Some (now_of s) \<and> ss_revoked_reason y = ''refresh_replay'') \<and>
    (\<exists>e\<in>set (iy_log s'). le_event e = REFRESH_REPLAY \<and> le_user e = ss_user x \<and> \<not> le_success e) \<and>
    (\<forall>token want p t'. resolve_access_token ts token want t = (Inr (Some p), t') \<longrightarrow> q_session p \<noteq> Some (ss_id x)) \<and>
    (\<forall>w k. parse_refresh_token ts w = Some (ss_id x, k) \<longrightarrow> refresh ts (Some w) t = (Inl unauthenticated_again, t))"
proof -
  have ok: "doors_ok ts (doors_of s)" by (rule reached_ok [OF assms(1,2)])
  have l: "load_by_refresh ts (Some v) s = Some (x, h)" by (rule load_by_refresh_row [OF ok assms(3,5)])
  note r = replay_late [OF l assms(4,6-8)]
  have ok': "doors_ok ts (doors_of s')" using happens_moves ok door_step.refreshed [OF assms(9)] by blast
  let ?y = "revoked_at (now_of s) ''refresh_replay'' x"
  have out: "out = Inl unauthenticated_again" and s': "s' = log_event REFRESH_REPLAY PASSKEY False (ss_user x) (ss_tenant x)
      ''refresh_replay'' (revoke_session x ''refresh_replay'' (actor_of (ss_user x) s) s)"
    using r assms(9) by simp_all
  have y: "?y \<in> set (iy_sessions s')" "ss_id ?y = ss_id x" "ss_revoked_at ?y = Some (now_of s)" "ss_revoked_reason ?y = ''refresh_replay''"
    using s' assms(3,4) by (auto simp: log_event_def revoke_session_rows live_def in_set_put_row revoked_at_def)
  have e: "\<exists>e\<in>set (iy_log s'). le_event e = REFRESH_REPLAY \<and> le_user e = ss_user x \<and> \<not> le_success e"
    using s' by (simp add: log_event_def)
  have "\<forall>token want p t'. resolve_access_token ts token want t = (Inr (Some p), t') \<longrightarrow> q_session p \<noteq> Some (ss_id x)"
    and "\<forall>w k. parse_refresh_token ts w = Some (ss_id x, k) \<longrightarrow> refresh ts (Some w) t = (Inl unauthenticated_again, t)"
    using revoked_is_out(2,3) [OF ok' y(1) _ assms(10)] y(2,3) by simp_all
  with out y e show ?thesis by blast
qed

theorem late_replays_end_the_session_witness:
  "fst ex_replayed = Inl unauthenticated_again \<and>
    refresh ex_ts (Some ''20.aa'') (snd ex_replayed) = (Inl unauthenticated_again, snd ex_replayed)"
proof -
  obtain x where x: "x \<in> set (iy_sessions ex_late)" "ss_id x = 20" "ss_revoked_at x = None" "ss_expires_at x = 43200000005"
    "ss_previous_hash x = Some ''a''" "ss_rotated_at x = Some 5" "now_of ex_late = 60000005" using ex_before by auto
  have l: "live x (now_of ex_late)" using x by (simp add: live_def)
  have p: "parse_refresh_token ex_ts ex_token = Some (ss_id x, ''a'')" using ex_tokens(1) x(2) by simp
  have g: "5 + int (ts_grace_seconds ex_ts) * one_second < now_of ex_late" using x(7) by (simp add: ex_ts_def one_second_def)
  have r: "refresh ex_ts (Some ex_token) ex_late = (fst ex_replayed, snd ex_replayed)" by (simp add: ex_replayed_def)
  from late_replays_end_the_session [OF ex_door_init ex_happens_late x(1) l p x(5,6) g r rtranclp.rtrancl_refl] ex_tokens(2) x(2)
  show ?thesis by simp
qed

section \<open>When a session ends\<close>

lemma resolved_row:
  assumes ok: "doors_ok ts (doors_of t)" and y: "y \<in> set (iy_sessions t)"
    and r: "resolve_access_token ts token want t = (Inr (Some p), t')" and q: "q_session p = Some (ss_id y)"
  shows "live y (now_of t)" and "build_principal y t = Some p" and "ss_kind y = SUPPORT \<Longrightarrow> grant_live y t"
proof -
  from resolve_Inr [OF r] obtain z where z: "z \<in> set (iy_sessions t)" "live z (now_of t)" "build_principal z t = Some p"
    "ss_kind z = SUPPORT \<Longrightarrow> grant_live z t" by metis
  have "z = y" using ids_one [OF ok, of z y] z(1) y build_principal_Some(1) [OF z(3)] q by simp
  with z show "live y (now_of t)" "build_principal y t = Some p" "ss_kind y = SUPPORT \<Longrightarrow> grant_live y t" by auto
qed



section \<open>Support\<close>

text \<open>C31: whoever reads a bank as platform support does so under a grant of that bank, asked for by that very person,
  approved by somebody else with a passkey, and still inside the hours asked for, which the platform bounds; such a
  principal holds exactly the seven reads and can pass no step-up.\<close>

theorem support_reads_under_a_grant:
  assumes "identity_init ts s0" and "happens ts s0 s" and "resolve_access_token ts token want s = (Inr (Some p), s')"
    and "q_support p = Some i"
  shows "(\<exists>g\<in>set (iy_grants s). sa_id g = i \<and> p_tenant p = Some (sa_tenant g) \<and> sa_platform_user g = p_subject p \<and>
      sa_status g = G_APPROVED \<and> (\<exists>who. sa_approved_by g = Some who \<and> who \<noteq> p_subject p) \<and> sa_approved_step_up g \<noteq> None \<and>
      sa_hours g \<le> ts_support_max_hours ts \<and> (\<exists>since. sa_started_at g = Some since \<and> now_of s < since + int (sa_hours g) * hour)) \<and>
    p_permissions p = SUPPORT_PERMISSIONS \<and> (\<forall>minutes d. enforce_step_up minutes (plain p) d = Inl (Problem 403 ''step_up_required''))"
proof -
  have ok: "doors_ok ts (doors_of s)" by (rule reached_ok [OF assms(1,2)])
  from resolve_Inr [OF assms(3)] obtain x where x: "x \<in> set (iy_sessions s)" "build_principal x s = Some p"
    "ss_kind x = SUPPORT \<Longrightarrow> grant_live x s" by metis
  note b = build_principal_Some [OF x(2)]
  have k: "ss_kind x = SUPPORT" "ss_support x = Some i" using b(4) assms(4) by (auto split: if_splits)
  obtain g where g: "g \<in> set (iy_grants s)" "ss_support x = Some (sa_id g)" "ss_tenant x = Some (sa_tenant g)"
    "state_of g (now_of s) = S_ACTIVE" using grant_live_Some [OF x(3) [OF k(1)]] by blast
  obtain h where h: "h \<in> set (iy_grants s)" "ss_support x = Some (sa_id h)" "ss_user x = sa_platform_user h"
    using session_ok_in [OF ok, of x] x(1) k(1) by (auto simp: session_ok_def stands_on_def)
  have "h = g" using grants_one [OF ok, of h g] g h by simp
  then have u: "sa_platform_user g = p_subject p" using h(3) b(2) by simp
  have "grant_ok ts (doors_of s) g" using grant_ok_in [OF ok] g(1) by simp
  then have w: "sa_hours g \<le> ts_support_max_hours ts" "window_of ts g" "sa_status g = G_APPROVED" "\<not> past (sa_expires_at g) (now_of s)"
    using g(4) by (auto simp: grant_ok_def state_of_open)
  then have "(\<exists>who. sa_approved_by g = Some who \<and> who \<noteq> p_subject p) \<and> sa_approved_step_up g \<noteq> None \<and>
      (\<exists>since. sa_started_at g = Some since \<and> now_of s < since + int (sa_hours g) * hour)"
    using u by (auto simp: window_of_def past_def split: option.splits)
  moreover have "enforce_step_up minutes (plain p) d = Inl (Problem 403 ''step_up_required'')" for minutes d
    using b(6) k(1) by (simp add: enforce_step_up_def principal.truncate_def)
  moreover have "p_permissions p = SUPPORT_PERMISSIONS" using b(7) k(1) by simp
  ultimately show ?thesis using g(1,2) k(2) u w(1,3) b(3) g(3) by (intro conjI bexI [of _ g]) auto
qed

theorem support_reads_under_a_grant_witness:
  "\<exists>p. resolve_access_token ex_ts (sb_access (fst ex_opened)) P_USER ex_entered = (Inr (Some p), ex_entered) \<and>
    p_permissions p = SUPPORT_PERMISSIONS \<and> (\<exists>g\<in>set (iy_grants ex_entered). sa_id g = ex_grant \<and> sa_status g = G_APPROVED)"
proof -
  obtain p where p: "resolve_access_token ex_ts (sb_access (fst ex_opened)) P_USER ex_entered = (Inr (Some p), ex_entered)"
    "q_support p = Some ex_grant" using ex_reading by blast
  from support_reads_under_a_grant [OF ex_door_init ex_happens_entered p] p(1) show ?thesis by blast
qed

lemma revoke_support_Inr:
  assumes "revoke_support_access q i s = Inr (g, s')"
  shows "g \<in> set (iy_grants s') \<and> sa_id g = i \<and> sa_status g = G_REVOKED"
proof -
  from assms obtain t where "revoke_support t (actor_for (plain q)) i s = Inr (g, s')"
    by (auto simp: revoke_support_access_def inr_simps)
  then obtain h e where h: "h \<in> set (iy_grants s)" "sa_id h = i" and g: "g = closed G_REVOKED (now_of s) (ac_id (actor_for (plain q))) h"
    and s': "s' = iy_record e (s\<lparr>iy_grants := put_row sa_id g (iy_grants s)\<rparr>)"
    by (auto simp: revoke_support_def inr_simps end_grant_def Let_def save_grant_Inr support_decided_def closed_def simp del: doors_of_record dest!: grant_of_Inr)
  then show ?thesis by (auto simp: iy_record_def in_set_put_row closed_def)
qed

lemma revoked_grant_is_shut:
  assumes ok: "doors_ok ts (doors_of t)" and g: "g \<in> set (iy_grants t)" "sa_status g = G_REVOKED" and x: "ss_support x = Some (sa_id g)"
  shows "\<not> grant_live x t"
proof
  assume "grant_live x t"
  then obtain h where "h \<in> set (iy_grants t)" "ss_support x = Some (sa_id h)" "state_of h (now_of t) = S_ACTIVE"
    using grant_live_Some by blast
  with grants_one [OF ok, of h g] g x show False by (simp add: state_of_open)
qed



section \<open>Who may do what\<close>

lemma granted_subset: "set (granted roles zone) \<subseteq> set zone" "set (granted roles zone) \<subseteq> (\<Union>r\<in>set roles. set r)"
  by (auto simp: granted_def)

lemma support_permissions_tenant: "set SUPPORT_PERMISSIONS \<subseteq> set TENANT_PERMISSIONS"
  by (simp add: SUPPORT_PERMISSIONS_def TENANT_PERMISSIONS_def)

text \<open>C33: the permissions of a session are those of its zone: in no bank, platform permissions of a person with a
  platform role or none at all; in a bank, permissions of banks only, and but for support only those the roles of an
  active membership of that very person in that very bank name.  A platform permission is never held inside a bank.\<close>

theorem permissions_stay_in_their_zone:
  assumes "identity_init ts s0" and "happens ts s0 s" and "resolve_access_token ts token want s = (Inr (Some p), s')"
  shows "case p_tenant p of
      None \<Rightarrow> set (p_permissions p) \<subseteq> set PLATFORM_PERMISSIONS \<and>
        (p_permissions p = [] \<or> (\<exists>r\<in>set (iy_platform_roles s). fst r = p_subject p))
    | Some t \<Rightarrow> set (p_permissions p) \<subseteq> set TENANT_PERMISSIONS \<and> (p_kind p = P_ENROLMENT \<or> q_support p \<noteq> None \<or>
        (\<exists>m\<in>set (db_members (iy_db s)). m_tenant m = t \<and> m_user m = p_subject p \<and> m_deactivated_at m = None \<and>
           set (p_permissions p) \<subseteq> (\<Union>r\<in>set (m_roles m). set r)))"
proof -
  have ok: "doors_ok ts (doors_of s)" by (rule reached_ok [OF assms(1,2)])
  from resolve_Inr [OF assms(3)] obtain x where x: "x \<in> set (iy_sessions s)" "build_principal x s = Some p" by metis
  note b = build_principal_Some [OF x(2)]
  have check: "session_check x" using session_ok_in [OF ok, of x] x(1) by (simp add: session_ok_def)
  show ?thesis
  proof (cases "ss_tenant x")
    case None
    then have "ss_kind x \<noteq> SUPPORT" using check by (auto simp: session_check_def)
    then have "ss_kind x = ENROLMENT \<or> ss_kind x = FULL" by (cases "ss_kind x") auto
    then show ?thesis
    proof
      assume "ss_kind x = FULL"
      moreover have "p_permissions p \<noteq> [] \<Longrightarrow> \<exists>r\<in>set (iy_platform_roles s). fst r = ss_user x"
        using x(2) \<open>ss_kind x = FULL\<close> None
        by (auto simp: build_principal_def bare_principal_def Let_def granted_def filter_empty_conv) force
      ultimately show ?thesis using build_principal_platform [OF x(2)] None b(2,3) by auto
    qed (use b None in auto)
  next
    case (Some t)
    show ?thesis
    proof (cases "ss_kind x")
      case FULL
      from build_principal_member [OF x(2) FULL Some] obtain m where "m \<in> set (db_members (iy_db s))" "m_tenant m = t"
        "m_user m = ss_user x" "m_deactivated_at m = None" "p_permissions p = granted (m_roles m) TENANT_PERMISSIONS" by blast
      moreover from this(5) have "set (p_permissions p) \<subseteq> set TENANT_PERMISSIONS" "set (p_permissions p) \<subseteq> (\<Union>r\<in>set (m_roles m). set r)"
        by (simp_all only: granted_subset)
      ultimately show ?thesis using Some b(2,3) by auto
    next
      case SUPPORT
      then show ?thesis using b check Some support_permissions_tenant by (auto simp: session_check_def)
    qed (use b Some in auto)
  qed
qed

theorem permissions_stay_in_their_zone_witness:
  "\<exists>p. resolve_access_token ex_ts (sb_access (fst ex_opened)) P_USER ex_entered = (Inr (Some p), ex_entered) \<and>
    p_tenant p = Some 1 \<and> set (p_permissions p) \<subseteq> set TENANT_PERMISSIONS"
proof -
  obtain p where p: "resolve_access_token ex_ts (sb_access (fst ex_opened)) P_USER ex_entered = (Inr (Some p), ex_entered)"
    "p_tenant p = Some 1" using ex_reading by blast
  from permissions_stay_in_their_zone [OF ex_door_init ex_happens_entered p(1)] p show ?thesis by simp
qed

section \<open>The handlers and the machine\<close>

text \<open>C34: seen through the clock, the counters, the sessions and the grants, whatever the handlers do is a run of the nine moves of
  the machine of sessions, none of which lengthens a session, unrevokes one or reopens a grant.\<close>

theorem handlers_refine_the_doors:
  assumes "identity_init ts s0" and "happens ts s0 s"
  shows "doors_init ts (doors_of s0) \<and> (door_move ts)\<^sup>*\<^sup>* (doors_of s0) (doors_of s)"
  using assms door_runs [of ts s0 s] door_sys.inv_init [of ts s0] by (simp add: identity_init_def)

theorem handlers_refine_the_doors_witness:
  "(door_move ex_ts)\<^sup>*\<^sup>* (doors_of ex_door) (doors_of ex_entered) \<and> (\<exists>x\<in>set (d_sessions (doors_of ex_entered)). ss_id x = 33)"
  using handlers_refine_the_doors [OF ex_door_init ex_happens_entered] ex_read_session by auto

section \<open>A sign-in\<close>

lemma created_bundle:
  assumes "create_session ts u kind tenant s = (b, s')"
  obtains s1 e where "open_session ts u kind tenant None (now_of s + snd (limits ts tenant s)) s = (b, s1)"
    "s' = iy_record e s1"
  using assms by (auto simp: create_session_def Let_def split: prod.splits)

lemma open_session_bundle:
  assumes "open_session ts u kind tenant grant until s = (b, s1)"
  shows "sb_access b = fst (issue_access_token ts (ss_id (sb_session b)) (session_kind_value kind) tenant (now_of s))"
    and "sb_refresh b = ts_hex ts (ss_id (sb_session b)) @ ''.'' @ ts_secret ts (iy_drawn s)"
    and "ss_last_seen_at (sb_session b) = now_of s"
    and "s1 = s\<lparr>iy_db := (iy_db s)\<lparr>db_next := Suc (db_next (iy_db s))\<rparr>, iy_sessions := iy_sessions s @ [sb_session b],
      iy_drawn := Suc (iy_drawn s)\<rparr>"
  using assms by (auto simp: open_session_def Let_def new_refresh_token_def split: prod.splits)

lemma limits_idle: "0 \<le> fst (limits ts tenant s)"
  by (simp add: limits_def Let_def minute_def)

lemma find_last_new: "\<forall>x\<in>set xs. \<not> P x \<Longrightarrow> P y \<Longrightarrow> find P (xs @ [y]) = Some y"
  by (induction xs) auto

text \<open>C35: signing in works: the access token just issued, presented at once, resolves to a principal of the new session,
  for the person who signed in, in the bank chosen, and changes nothing; and the refresh token issued with it is
  exchanged for a new one.  This needs of the person no more than an account in use and, in a bank, an active
  membership.\<close>

theorem signed_in_tokens_resolve:
  assumes "identity_init ts s0" and "happens ts s0 s" and "token_texts ts" and "0 < ts_access_minutes ts"
    and "create_session ts u kind tenant s = (b, s')" and "kind \<noteq> SUPPORT"
    and "now_of s < ss_expires_at (sb_session b)" and "\<not> user_deactivated u s"
    and "kind = FULL \<Longrightarrow> \<forall>t\<in>set_option tenant. \<exists>m\<in>set (db_members (iy_db s)). m_tenant m = t \<and> m_user m = u \<and> m_deactivated_at m = None"
  shows "(\<exists>p. resolve_access_token ts (sb_access b) (if kind = ENROLMENT then P_ENROLMENT else P_USER) s' = (Inr (Some p), s') \<and>
      q_session p = Some (ss_id (sb_session b)) \<and> p_subject p = u \<and> p_tenant p = tenant) \<and>
    (\<exists>a n w s''. refresh ts (Some (sb_refresh b)) s' = (Inr (a, n, Some w), s''))"
proof -
  have ok: "doors_ok ts (doors_of s)" by (rule reached_ok [OF assms(1,2)])
  obtain s1 e where o: "open_session ts u kind tenant None (now_of s + snd (limits ts tenant s)) s = (b, s1)" and s': "s' = iy_record e s1"
    by (rule created_bundle [OF assms(5)])
  let ?x = "sb_session b"
  note d = open_session_doors [OF o] and t = open_session_bundle [OF o]
  have row: "ss_id ?x = db_next (iy_db s)" "ss_refresh_hash ?x = secret_hash ts (iy_drawn s)" "ss_previous_hash ?x = None"
    "ss_created_at ?x = now_of s" "ss_revoked_at ?x = None"
    using d(1) by (auto simp: opened_session_def)
  have same: "now_of s' = now_of s" "iy_users s' = iy_users s" "db_members (iy_db s') = db_members (iy_db s)"
    "iy_sessions s' = iy_sessions s @ [?x]" and policies: "iy_policies s' = iy_policies s"
    using s' t(4) by (simp_all add: iy_record_def frame_simps)
  have lim: "limits ts tenant s' = limits ts tenant s" by (simp only: limits_def policies)
  have ids: "\<forall>y\<in>set (iy_sessions s). ss_id y \<noteq> ss_id ?x"
    using session_ok_in [OF ok] row(1) by (fastforce simp: session_ok_def)
  have read: "read_session tenant (ss_id ?x) s' = Some ?x" "find (\<lambda>y. ss_id y = ss_id ?x) (iy_sessions s') = Some ?x"
    unfolding read_session_def same(4) using ids d(5) by (auto simp: in_zone_def intro: find_last_new)
  have live: "live ?x (now_of s')" using row(5) same(1) assms(7) by (simp add: live_def)
  obtain cl where cl: "parse_access_token ts (sb_access b) (now_of s') = Some cl" "cl_session cl = ss_id ?x"
    "cl_kind cl = session_kind_value kind" "cl_tenant cl = tenant"
    using access_token_read [OF assms(3,4), of "ss_id ?x" kind tenant "now_of s"] t(1) same(1) by auto
  have "build_principal ?x s' \<noteq> None"
    using d(3-5) assms(6,9) same(3)
    by (cases kind; cases tenant) (auto simp: build_principal_def Let_def find_None_all split: option.splits)
  then obtain p where p: "build_principal ?x s' = Some p" by blast
  have "resolve_access_token ts (sb_access b) (if kind = ENROLMENT then P_ENROLMENT else P_USER) s' = (Inr (Some p), s')"
    using cl read(1) live d(3-5) row(5) assms(6,8) p same(2)
    by (cases kind) (simp_all add: resolve_access_token_def Let_def user_deactivated_def)
  then have res: "\<exists>p. resolve_access_token ts (sb_access b) (if kind = ENROLMENT then P_ENROLMENT else P_USER) s' = (Inr (Some p), s') \<and>
      q_session p = Some (ss_id ?x) \<and> p_subject p = u \<and> p_tenant p = tenant"
    using build_principal_Some(1-3) [OF p] d(3,5) by auto
  have load: "load_by_refresh ts (Some (sb_refresh b)) s' = Some (?x, ss_refresh_hash ?x)"
    using refresh_token_read [OF assms(3)] t(2) read(2) row(2) by (simp add: load_by_refresh_def)
  obtain idle absolute where l: "limits ts tenant s = (idle, absolute)" by (cases "limits ts tenant s")
  have "0 \<le> idle" using limits_idle [of ts tenant s] l by simp
  then have "refresh ts (Some (sb_refresh b)) s' = rotate_session ts ?x (min (ss_expires_at ?x) (ss_created_at ?x + absolute)) s'"
    using load live row same(1) lim d(4,5,7) t(3) l assms(6,7) by (simp add: refresh_def Let_def is_previous_def)
  then have "\<exists>a n w s''. refresh ts (Some (sb_refresh b)) s' = (Inr (a, n, Some w), s'')"
    by (auto simp: rotate_session_def Let_def split: prod.splits)
  with res show ?thesis by blast
qed

theorem signed_in_tokens_resolve_witness:
  "\<exists>p. resolve_access_token ex_ts (sb_access (fst ex_signed_in)) P_USER ex_in = (Inr (Some p), ex_in) \<and> p_subject p = 1 \<and>
    p_tenant p = Some 1"
proof -
  have c: "create_session ex_ts 1 FULL (Some 1) ex_door = (fst ex_signed_in, ex_in)" by (simp add: ex_signed_in_def)
  have m: "0 < ts_access_minutes ex_ts" by (simp add: ex_ts_def)
  have e: "now_of ex_door < ss_expires_at (sb_session (fst ex_signed_in))" by code_simp
  have u: "\<not> user_deactivated 1 ex_door" by (simp add: user_deactivated_def ex_door_def)
  have t: "\<forall>t\<in>set_option (Some 1). \<exists>m\<in>set (db_members (iy_db ex_door)). m_tenant m = t \<and> m_user m = 1 \<and> m_deactivated_at m = None"
    by (simp add: ex_door_def ex_bank_def)
  from signed_in_tokens_resolve [OF ex_door_init rtranclp.rtrancl_refl ex_texts m c session_kind.distinct(5) e u t]
  show ?thesis by auto
qed

end
