(* ===== verification/Gaps.thy ===== *)
theory Gaps
  imports Case_Routes
begin

text \<open>
  Gaps of a bank and the acceptance of their risk: \<^verbatim>\<open>backend/apps/register/gaps.py\<close>, the rows of
  \<^verbatim>\<open>register/models.py\<close> it reads and writes, their constraints and trigger (\<^verbatim>\<open>register/migrations/0002\<close>), the entry a
  first gap creates (\<^verbatim>\<open>register/logic.py\<close>) and the routes (\<^verbatim>\<open>register/api.py\<close>).  The bank's lists are the
  vocabulary rows of \<open>db\<close>; labels are not modelled.
\<close>

section \<open>Rows\<close>

datatype applicability = APPLIES | DOES_NOT_APPLY | NOT_ASSESSED

fun applicability_value :: "applicability \<Rightarrow> string" where
  "applicability_value APPLIES = ''applies''"
| "applicability_value DOES_NOT_APPLY = ''does_not_apply''"
| "applicability_value NOT_ASSESSED = ''not_assessed''"

datatype gap_category = G_OPEN | G_REMEDIATING | G_RISK_ACCEPTED | G_CLOSED

fun gap_category_value :: "gap_category \<Rightarrow> string" where
  "gap_category_value G_OPEN = ''open''"
| "gap_category_value G_REMEDIATING = ''remediating''"
| "gap_category_value G_RISK_ACCEPTED = ''risk_accepted''"
| "gap_category_value G_CLOSED = ''closed''"

record register_entry =
  re_id :: uuid
  re_tenant :: uuid
  re_obligation :: uuid
  re_applicability :: applicability
  re_status :: uuid

record register_scope =
  rc_id :: uuid
  rc_entry :: uuid
  rc_org_unit :: uuid
  rc_product :: "uuid option"
  rc_applicability :: applicability

record soa_unit =
  un_id :: uuid
  un_scope :: uuid
  un_applicability :: applicability
  un_removed_at :: "instant option"

record gap =
  gp_id :: uuid
  gp_tenant :: uuid
  gp_entry :: uuid
  gp_org_unit :: "uuid option"
  gp_unit :: "uuid option"
  gp_title :: string
  gp_description :: string
  gp_severity :: uuid
  gp_source :: uuid
  gp_status :: uuid
  gp_identified_by :: uuid
  gp_identified_at :: instant
  gp_owner :: "uuid option"
  gp_owner_team :: "uuid option"
  gp_target_date :: "day option"
  gp_remediation :: string
  gp_reason :: "uuid option"
  gp_note :: string
  gp_requested_by :: "uuid option"
  gp_requested_at :: "instant option"
  gp_accepted_by :: "uuid option"
  gp_accepted_at :: "instant option"
  gp_closed_by :: "uuid option"
  gp_closed_at :: "instant option"
  gp_version :: nat

text \<open>\<open>gr_obligations\<close>: the obligations with the bank a private one belongs to and how it is named.  \<open>gr_entities\<close>: the
  legal entities with their bank.  \<open>gr_system\<close>: the system rows of the gap statuses.\<close>

record gap_register =
  gr_db :: db
  gr_obligations :: "(uuid \<times> uuid option \<times> string) list"
  gr_entities :: "(uuid \<times> uuid) list"
  gr_system :: "uuid list"
  gr_entries :: "register_entry list"
  gr_scopes :: "register_scope list"
  gr_units :: "soa_unit list"
  gr_gaps :: "gap list"

interpretation gap_tbl: keyed_table gr_gaps "\<lambda>rs. gr_gaps_update (\<lambda>_. rs)" gp_id
  by unfold_locales simp

definition gr_record :: "audit_entry \<Rightarrow> gap_register \<Rightarrow> gap_register" where
  "gr_record e s = s\<lparr>gr_db := record_event e (gr_db s)\<rparr>"

section \<open>Constraints\<close>

definition gap_complete :: "gap \<Rightarrow> bool" where
  "gap_complete g \<longleftrightarrow> gp_accepted_by g = None \<or>
    (gp_reason g \<noteq> None \<and> gp_requested_by g \<noteq> None \<and> gp_accepted_at g \<noteq> None)"

definition gap_one_owner_kind :: "gap \<Rightarrow> bool" where
  "gap_one_owner_kind g \<longleftrightarrow> gp_owner g = None \<or> gp_owner_team g = None"

text \<open>A comparison with a missing value does not refuse.\<close>

definition gap_four_eyes :: "gap \<Rightarrow> bool" where
  "gap_four_eyes g \<longleftrightarrow> gp_accepted_by g = None \<or> gp_requested_by g = None \<or> gp_accepted_by g \<noteq> gp_requested_by g"

text \<open>The trigger \<^verbatim>\<open>gap_accepted_guard\<close>.\<close>

definition kind_of_status :: "uuid \<Rightarrow> db \<Rightarrow> string" where
  "kind_of_status i d = (case find (\<lambda>v. v_id v = i \<and> v_list v = ''gap_status'') (db_vocab d) of None \<Rightarrow> [] | Some v \<Rightarrow> v_kind v)"

definition accepted_guard :: "gap \<Rightarrow> db \<Rightarrow> bool" where
  "accepted_guard g d \<longleftrightarrow> gp_accepted_by g \<noteq> None \<or> kind_of_status (gp_status g) d \<noteq> gap_category_value G_RISK_ACCEPTED"

definition gap_checks :: "gap \<Rightarrow> db \<Rightarrow> bool" where
  "gap_checks g d \<longleftrightarrow> gap_complete g \<and> gap_one_owner_kind g \<and> gap_four_eyes g \<and> accepted_guard g d"

definition save_gap :: "gap \<Rightarrow> gap_register \<Rightarrow> error + gap_register" where
  "save_gap g s = (if gap_checks g (gr_db s) then Inr (s\<lparr>gr_gaps := put_row gp_id g (gr_gaps s)\<rparr>) else Inl Integrity_error)"

section \<open>What a write names\<close>

abbreviation "GAP_OPEN \<equiv> gap_category_value G_OPEN"

definition MOVABLE :: "string list" where
  "MOVABLE = [gap_category_value G_OPEN, gap_category_value G_REMEDIATING]"

definition PATCH_TARGETS :: "string list" where
  "PATCH_TARGETS = MOVABLE @ [gap_category_value G_CLOSED]"

definition REOPENABLE :: "string list" where
  "REOPENABLE = [gap_category_value G_CLOSED, gap_category_value G_RISK_ACCEPTED]"

text \<open>\<^verbatim>\<open>_category_row\<close>: the one system row of a category.\<close>

definition category_row :: "uuid \<Rightarrow> gap_category \<Rightarrow> gap_register \<Rightarrow> error + uuid" where
  "category_row tenant c s =
    (case filter (\<lambda>v. v_list v = ''gap_status'' \<and> v_tenant v = Some tenant \<and> v_kind v = gap_category_value c \<and>
        v_id v \<in> set (gr_system s)) (db_vocab (gr_db s)) of
       [v] \<Rightarrow> Inr (v_id v)
     | _ \<Rightarrow> Inl Server_error)"

definition gap_member :: "uuid \<Rightarrow> uuid \<Rightarrow> gap_register \<Rightarrow> error + uuid" where
  "gap_member tenant u s = ebind (ensure (\<exists>m\<in>set (db_members (gr_db s)). m_tenant m = tenant \<and> m_user m = u \<and>
     active_member m) (Validation ''unknown_member'')) (\<lambda>_. Inr u)"

text \<open>The owner columns a write sets, or nothing.\<close>

definition gap_owner ::
    "uuid \<Rightarrow> uuid option \<Rightarrow> string option \<Rightarrow> gap_register \<Rightarrow> error + (uuid option \<times> uuid option) option" where
  "gap_owner tenant owner team s =
    (case (owner, team) of
       (Some _, Some _) \<Rightarrow> Inl (Validation ''validation_error'')
     | (Some u, None) \<Rightarrow> ebind (gap_member tenant u s) (\<lambda>u. Inr (Some (Some u, None)))
     | (None, Some k) \<Rightarrow> ebind (vocab_row_of ''team'' k tenant None (gr_db s)) (\<lambda>v. Inr (Some (None, Some (v_id v))))
     | (None, None) \<Rightarrow> Inr None)"

definition refuse_does_not_apply :: "applicability \<Rightarrow> error + unit" where
  "refuse_does_not_apply a = ensure (a \<noteq> DOES_NOT_APPLY) (Problem 409 ''does_not_apply'')"

definition gap_entity :: "uuid \<Rightarrow> register_entry option \<Rightarrow> uuid \<Rightarrow> gap_register \<Rightarrow> error + unit" where
  "gap_entity tenant existing unit_of s =
    ebind (ensure ((unit_of, tenant) \<in> set (gr_entities s)) (Validation ''not_found'')) (\<lambda>_.
    case existing of None \<Rightarrow> Inr ()
    | Some en \<Rightarrow>
        (case find (\<lambda>c. rc_entry c = re_id en \<and> rc_org_unit c = unit_of \<and> rc_product c = None) (gr_scopes s) of
           None \<Rightarrow> Inr ()
         | Some c \<Rightarrow> refuse_does_not_apply (rc_applicability c)))"

text \<open>\<^verbatim>\<open>_unit\<close>: a live unit of the obligation, and the legal entity it is in.\<close>

definition unit_scope :: "uuid \<Rightarrow> uuid \<Rightarrow> soa_unit \<Rightarrow> gap_register \<Rightarrow> register_scope option" where
  "unit_scope tenant obligation u s =
    find (\<lambda>c. rc_id c = un_scope u \<and> (\<exists>en\<in>set (gr_entries s). re_id en = rc_entry c \<and> re_tenant en = tenant \<and>
      re_obligation en = obligation)) (gr_scopes s)"

definition gap_unit :: "uuid \<Rightarrow> uuid \<Rightarrow> uuid \<Rightarrow> uuid option \<Rightarrow> gap_register \<Rightarrow> error + uuid" where
  "gap_unit tenant obligation i org_unit s =
    ebind (or_else (find (\<lambda>u. un_id u = i \<and> un_removed_at u = None \<and> unit_scope tenant obligation u s \<noteq> None) (gr_units s))
      (Validation ''unknown_unit'')) (\<lambda>u.
    ebind (or_else (unit_scope tenant obligation u s) (Validation ''unknown_unit'')) (\<lambda>c.
    ebind (ensure (org_unit = None \<or> org_unit = Some (rc_org_unit c)) (Validation ''unknown_unit'')) (\<lambda>_.
    ebind (refuse_does_not_apply (un_applicability u)) (\<lambda>_. Inr (rc_org_unit c)))))"

definition locked_gap :: "uuid \<Rightarrow> uuid \<Rightarrow> gap_register \<Rightarrow> error + gap" where
  "locked_gap tenant i s = or_else (find (\<lambda>g. gp_id g = i \<and> gp_tenant g = tenant) (gr_gaps s)) (Validation ''not_found'')"

definition category_of :: "gap \<Rightarrow> gap_register \<Rightarrow> string" where
  "category_of g s = kind_of_status (gp_status g) (gr_db s)"

definition who :: "actor_ref \<Rightarrow> error + uuid" where
  "who actr = or_else (ac_id actr) (Validation ''forbidden'')"

text \<open>\<^verbatim>\<open>_facts\<close>: what an audit row may say of a gap.\<close>

definition key_of :: "uuid \<Rightarrow> db \<Rightarrow> string" where
  "key_of i d = (case find (\<lambda>v. v_id v = i) (db_vocab d) of None \<Rightarrow> [] | Some v \<Rightarrow> v_key v)"

definition gap_facts :: "gap \<Rightarrow> gap_register \<Rightarrow> jobj" where
  "gap_facts g s =
    [(''severity'', JStr (key_of (gp_severity g) (gr_db s))), (''source'', JStr (key_of (gp_source g) (gr_db s))),
     (''status'', JStr (key_of (gp_status g) (gr_db s))), (''ownerId'', jopt JId (gp_owner g)),
     (''ownerTeam'', jopt (\<lambda>t. JStr (key_of t (gr_db s))) (gp_owner_team g)), (''targetDate'', jopt JDay (gp_target_date g)),
     (''orgUnitId'', jopt JId (gp_org_unit g)), (''unitId'', jopt JId (gp_unit g))]"

definition gap_entry :: "string \<Rightarrow> actor_ref \<Rightarrow> gap \<Rightarrow> string \<Rightarrow> jobj \<Rightarrow> jobj \<Rightarrow> audit_entry" where
  "gap_entry action actr g summary bef aft = entry action actr ''gap'' (Some (gp_id g)) (gp_title g) summary (Some (gp_tenant g)) bef aft"

section \<open>Recording and amending\<close>

text \<open>\<^verbatim>\<open>ensure_register_entry\<close>, with \<^verbatim>\<open>ensure_register_entries\<close> for the one obligation.\<close>

definition new_entry :: "uuid \<Rightarrow> uuid \<Rightarrow> uuid \<Rightarrow> gap_register \<Rightarrow> register_entry" where
  "new_entry tenant obligation status s =
    \<lparr>re_id = db_next (gr_db s), re_tenant = tenant, re_obligation = obligation, re_applicability = NOT_ASSESSED, re_status = status\<rparr>"

definition existing_entry :: "uuid \<Rightarrow> uuid \<Rightarrow> gap_register \<Rightarrow> register_entry option" where
  "existing_entry tenant obligation s = find (\<lambda>en. re_tenant en = tenant \<and> re_obligation en = obligation) (gr_entries s)"

definition ensure_register_entry ::
    "uuid \<Rightarrow> uuid \<Rightarrow> actor_ref \<Rightarrow> gap_register \<Rightarrow> error + register_entry \<times> gap_register" where
  "ensure_register_entry tenant obligation actr s =
    (case existing_entry tenant obligation s of
       Some en \<Rightarrow> Inr (en, s)
     | None \<Rightarrow>
         ebind (or_else (find (\<lambda>(i, owner, _). i = obligation \<and> (owner = None \<or> owner = Some tenant)) (gr_obligations s))
           (Validation ''not_found'')) (\<lambda>(_, _, heading).
         (case filter (\<lambda>v. v_list v = ''compliance_status'' \<and> v_tenant v = Some tenant \<and> v_default v \<and> v_active v)
            (db_vocab (gr_db s)) of
            [st] \<Rightarrow>
              (let en = new_entry tenant obligation (v_id st) s in
               Inr (en, gr_record (entry ''register.entry_created'' actr ''tenant_obligation'' (Some (re_id en)) heading
                   ''Register entry created.'' (Some tenant) [] [(''obligationId'', JId obligation),
                     (''applicability'', JStr (applicability_value (re_applicability en)))])
                 (s\<lparr>gr_db := (gr_db s)\<lparr>db_next := Suc (re_id en)\<rparr>, gr_entries := gr_entries s @ [en]\<rparr>)))
          | _ \<Rightarrow> Inl Server_error)))"

record gap_body =
  gb_title :: string
  gb_description :: "string option"
  gb_severity :: string
  gb_source :: string
  gb_org_unit :: "uuid option"
  gb_unit :: "uuid option"
  gb_owner :: "uuid option"
  gb_owner_team :: "string option"
  gb_target_date :: "day option"
  gb_remediation :: "string option"

definition or_blank :: "string option \<Rightarrow> string" where
  "or_blank x = (case x of None \<Rightarrow> [] | Some t \<Rightarrow> t)"

definition fresh_gap ::
    "uuid \<Rightarrow> register_entry \<Rightarrow> uuid option \<Rightarrow> gap_body \<Rightarrow> uuid \<Rightarrow> uuid \<Rightarrow> uuid \<Rightarrow> (uuid option \<times> uuid option) option \<Rightarrow> uuid \<Rightarrow> gap_register \<Rightarrow> gap" where
  "fresh_gap tenant en org_unit body severity source status own person s =
    \<lparr>gp_id = db_next (gr_db s), gp_tenant = tenant, gp_entry = re_id en, gp_org_unit = org_unit, gp_unit = gb_unit body,
     gp_title = gb_title body, gp_description = or_blank (gb_description body), gp_severity = severity, gp_source = source,
     gp_status = status, gp_identified_by = person, gp_identified_at = db_now (gr_db s),
     gp_owner = (case own of None \<Rightarrow> None | Some o' \<Rightarrow> fst o'), gp_owner_team = (case own of None \<Rightarrow> None | Some o' \<Rightarrow> snd o'),
     gp_target_date = gb_target_date body, gp_remediation = or_blank (gb_remediation body), gp_reason = None, gp_note = [],
     gp_requested_by = None, gp_requested_at = None, gp_accepted_by = None, gp_accepted_at = None, gp_closed_by = None,
     gp_closed_at = None, gp_version = 1\<rparr>"

definition insert_gap :: "gap \<Rightarrow> gap_register \<Rightarrow> error + gap_register" where
  "insert_gap g s = (if gap_checks g (gr_db s)
     then Inr (s\<lparr>gr_db := (gr_db s)\<lparr>db_next := Suc (gp_id g)\<rparr>, gr_gaps := gr_gaps s @ [g]\<rparr>) else Inl Integrity_error)"

definition create_gap ::
    "uuid \<Rightarrow> actor_ref \<Rightarrow> uuid \<Rightarrow> gap_body \<Rightarrow> gap_register \<Rightarrow> error + gap \<times> gap_register" where
  "create_gap tenant actr obligation body s =
    (let existing = existing_entry tenant obligation s in
     ebind (case existing of None \<Rightarrow> Inr () | Some en \<Rightarrow> refuse_does_not_apply (re_applicability en)) (\<lambda>_.
     ebind (case gb_unit body of None \<Rightarrow> Inr (gb_org_unit body)
            | Some u \<Rightarrow> ebind (gap_unit tenant obligation u (gb_org_unit body) s) (\<lambda>e. Inr (Some e))) (\<lambda>org_unit.
     ebind (case org_unit of None \<Rightarrow> Inr () | Some e \<Rightarrow> gap_entity tenant existing e s) (\<lambda>_.
     ebind (vocab_row_of ''risk_rating'' (gb_severity body) tenant None (gr_db s)) (\<lambda>sev.
     ebind (vocab_row_of ''gap_source'' (gb_source body) tenant None (gr_db s)) (\<lambda>src.
     ebind (gap_owner tenant (gb_owner body) (gb_owner_team body) s) (\<lambda>own.
     ebind (ensure_register_entry tenant obligation actr s) (\<lambda>(en, s1).
     ebind (category_row tenant G_OPEN s1) (\<lambda>status.
     ebind (who actr) (\<lambda>person.
     let g = fresh_gap tenant en org_unit body (v_id sev) (v_id src) status own person s1 in
     ebind (insert_gap g s1) (\<lambda>s2.
     Inr (g, gr_record (gap_entry ''register.gap_recorded'' actr g ''Gap recorded.'' []
       ((''obligationId'', JId obligation) # gap_facts g s2)) s2))))))))))))"

record gap_patch =
  gq_title :: "string option"
  gq_description :: "string option"
  gq_severity :: "string option"
  gq_status :: "string option"
  gq_owner :: "uuid option"
  gq_owner_team :: "string option"
  gq_target_date :: "day option"
  gq_remediation :: "string option"

text \<open>\<^verbatim>\<open>ACCEPTED_FACTS\<close>: whether a patch sends one of the facts an acceptance is given on.\<close>

definition sends_accepted_facts :: "gap_patch \<Rightarrow> bool" where
  "sends_accepted_facts q \<longleftrightarrow> gq_title q \<noteq> None \<or> gq_description q \<noteq> None \<or> gq_remediation q \<noteq> None \<or>
    gq_severity q \<noteq> None \<or> gq_target_date q \<noteq> None"

text \<open>\<^verbatim>\<open>_no_acceptance\<close>\<close>

definition no_acceptance :: "gap \<Rightarrow> gap" where
  "no_acceptance g = g\<lparr>gp_reason := None, gp_note := [], gp_requested_by := None, gp_requested_at := None,
     gp_accepted_by := None, gp_accepted_at := None\<rparr>"

definition given_or :: "'a option \<Rightarrow> 'a \<Rightarrow> 'a" where
  "given_or x d = (case x of None \<Rightarrow> d | Some v \<Rightarrow> v)"

text \<open>The plain fields, the severity and the owner of a patch.\<close>

definition patched_gap :: "gap_patch \<Rightarrow> uuid option \<Rightarrow> (uuid option \<times> uuid option) option \<Rightarrow> gap \<Rightarrow> gap" where
  "patched_gap q severity own g =
    g\<lparr>gp_title := given_or (gq_title q) (gp_title g), gp_description := given_or (gq_description q) (gp_description g),
      gp_remediation := given_or (gq_remediation q) (gp_remediation g),
      gp_target_date := (case gq_target_date q of None \<Rightarrow> gp_target_date g | Some t \<Rightarrow> Some t),
      gp_severity := given_or severity (gp_severity g), gp_owner := (case own of None \<Rightarrow> gp_owner g | Some o' \<Rightarrow> fst o'),
      gp_owner_team := (case own of None \<Rightarrow> gp_owner_team g | Some o' \<Rightarrow> snd o')\<rparr>"

text \<open>The status a patch moves a gap to: closing it stamps who and when, and drops a waiting acceptance.\<close>

definition moved_gap ::
    "uuid \<Rightarrow> actor_ref \<Rightarrow> gap \<Rightarrow> string option \<Rightarrow> gap_register \<Rightarrow> gap \<Rightarrow> error + gap" where
  "moved_gap tenant actr old status s g =
    (case status of
       None \<Rightarrow> Inr g
     | Some k \<Rightarrow>
         ebind (vocab_row_of ''gap_status'' k tenant None (gr_db s)) (\<lambda>target.
         ebind (ensure (category_of old s \<in> set MOVABLE \<and> v_kind target \<in> set PATCH_TARGETS)
           (Validation ''invalid_transition'')) (\<lambda>_.
         if v_kind target = gap_category_value G_CLOSED
         then ebind (who actr) (\<lambda>person. Inr ((no_acceptance g)\<lparr>gp_status := v_id target, gp_closed_by := Some person,
                gp_closed_at := Some (db_now (gr_db s))\<rparr>))
         else Inr (g\<lparr>gp_status := v_id target\<rparr>))))"

definition edited_fields :: "gap_patch \<Rightarrow> string list" where
  "edited_fields q = map fst (filter snd [(''title'', gq_title q \<noteq> None), (''description'', gq_description q \<noteq> None),
     (''remediation'', gq_remediation q \<noteq> None)])"

definition update_gap ::
    "uuid \<Rightarrow> actor_ref \<Rightarrow> uuid \<Rightarrow> gap_patch \<Rightarrow> nat option \<Rightarrow> gap_register \<Rightarrow> error + gap \<times> gap_register" where
  "update_gap tenant actr i q expected s =
    ebind (locked_gap tenant i s) (\<lambda>g.
    ebind (ensure (expected = Some (gp_version g)) (Validation ''stale_write'')) (\<lambda>_.
    ebind (if sends_accepted_facts q
           then ebind (ensure (category_of g s \<noteq> gap_category_value G_RISK_ACCEPTED) (Validation ''invalid_transition''))
             (\<lambda>_. ensure (gp_requested_by g = None) (Validation ''request_pending''))
           else Inr ()) (\<lambda>_.
    ebind (case gq_severity q of None \<Rightarrow> Inr None
           | Some k \<Rightarrow> ebind (vocab_row_of ''risk_rating'' k tenant None (gr_db s)) (\<lambda>v. Inr (Some (v_id v)))) (\<lambda>severity.
    ebind (gap_owner tenant (gq_owner q) (gq_owner_team q) s) (\<lambda>own.
    ebind (moved_gap tenant actr g (gq_status q) s (patched_gap q severity own g)) (\<lambda>g1.
    let g2 = g1\<lparr>gp_version := Suc (gp_version g)\<rparr> in
    ebind (save_gap g2 s) (\<lambda>s1.
    Inr (g2, gr_record (gap_entry ''register.gap_amended'' actr g2 ''Gap amended.'' (gap_facts g s)
      (gap_facts g2 s1 @ [(''edited'', JList (map JStr (edited_fields q)))])) s1))))))))"

section \<open>Risk acceptance behind four eyes\<close>

record acceptance_body =
  ra_reason :: string
  ra_note :: "string option"

definition request_risk_acceptance ::
    "uuid \<Rightarrow> actor_ref \<Rightarrow> uuid \<Rightarrow> acceptance_body \<Rightarrow> gap_register \<Rightarrow> error + gap \<times> gap_register" where
  "request_risk_acceptance tenant actr i body s =
    ebind (locked_gap tenant i s) (\<lambda>g.
    ebind (ensure (category_of g s \<in> set MOVABLE) (Validation ''invalid_transition'')) (\<lambda>_.
    ebind (ensure (gp_requested_by g = None) (Validation ''request_pending'')) (\<lambda>_.
    ebind (vocab_row_of ''risk_acceptance_reason'' (ra_reason body) tenant None (gr_db s)) (\<lambda>reason.
    ebind (who actr) (\<lambda>person.
    let g2 = g\<lparr>gp_reason := Some (v_id reason), gp_note := or_blank (ra_note body), gp_requested_by := Some person,
               gp_requested_at := Some (db_now (gr_db s)), gp_version := Suc (gp_version g)\<rparr> in
    ebind (save_gap g2 s) (\<lambda>s1.
    Inr (g2, gr_record (gap_entry ''register.gap_risk_acceptance_requested'' actr g2 ''Risk acceptance requested.'' []
      [(''reason'', JStr (v_key reason)), (''requestedBy'', JId person)]) s1)))))))"

definition approve_risk_acceptance ::
    "uuid \<Rightarrow> actor_ref \<Rightarrow> uuid \<Rightarrow> uuid \<Rightarrow> gap_register \<Rightarrow> error + gap \<times> gap_register" where
  "approve_risk_acceptance tenant actr i step_up s =
    ebind (locked_gap tenant i s) (\<lambda>g.
    ebind (ensure (gp_requested_by g \<noteq> None \<and> gp_accepted_by g = None \<and> category_of g s \<in> set MOVABLE)
      (Validation ''invalid_transition'')) (\<lambda>_.
    ebind (who actr) (\<lambda>approver.
    ebind (ensure (gp_requested_by g \<noteq> Some approver) (Validation ''four_eyes_violation'')) (\<lambda>_.
    ebind (category_row tenant G_RISK_ACCEPTED s) (\<lambda>status.
    let g2 = g\<lparr>gp_status := status, gp_accepted_by := Some approver, gp_accepted_at := Some (db_now (gr_db s)),
               gp_version := Suc (gp_version g)\<rparr> in
    ebind (save_gap g2 s) (\<lambda>s1.
    Inr (g2, gr_record ((gap_entry ''register.gap_risk_accepted'' actr g2 ''Risk accepted.'' (gap_facts g s)
      (gap_facts g2 s1 @ [(''reason'', jopt (\<lambda>r. JStr (key_of r (gr_db s))) (gp_reason g2)),
         (''requestedBy'', jopt JId (gp_requested_by g2)), (''approvedBy'', JId approver)]))\<lparr>r_step_up := Some step_up\<rparr>) s1)))))))"

definition reopen_gap :: "uuid \<Rightarrow> actor_ref \<Rightarrow> uuid \<Rightarrow> gap_register \<Rightarrow> error + gap \<times> gap_register" where
  "reopen_gap tenant actr i s =
    ebind (locked_gap tenant i s) (\<lambda>g.
    ebind (ensure (category_of g s \<in> set REOPENABLE) (Validation ''invalid_transition'')) (\<lambda>_.
    ebind (category_row tenant G_OPEN s) (\<lambda>status.
    let g2 = (no_acceptance g)\<lparr>gp_closed_by := None, gp_closed_at := None, gp_status := status, gp_version := Suc (gp_version g)\<rparr> in
    ebind (save_gap g2 s) (\<lambda>s1.
    Inr (g2, gr_record (gap_entry ''register.gap_reopened'' actr g2 ''Gap reopened.'' (gap_facts g s) (gap_facts g2 s1)) s1)))))"

section \<open>Reading\<close>

text \<open>By target date, the gaps without one last, then by id.\<close>

definition by_target_date :: "gap list \<Rightarrow> gap list" where
  "by_target_date gs =
    (let sorted = sort_key gp_id gs in
     sort_key (\<lambda>g. case gp_target_date g of None \<Rightarrow> 0 | Some t \<Rightarrow> t) (filter (\<lambda>g. gp_target_date g \<noteq> None) sorted) @
     filter (\<lambda>g. gp_target_date g = None) sorted)"

definition gap_page :: "nat \<Rightarrow> nat \<Rightarrow> gap list \<Rightarrow> gap list \<times> nat" where
  "gap_page limit offset gs = (take limit (drop offset (by_target_date gs)), length gs)"

definition list_obligation_gaps :: "uuid \<Rightarrow> uuid \<Rightarrow> nat \<Rightarrow> nat \<Rightarrow> gap_register \<Rightarrow> error + gap list \<times> nat" where
  "list_obligation_gaps tenant obligation limit offset s =
    ebind (ensure (\<exists>(i, owner, _)\<in>set (gr_obligations s). i = obligation \<and> (owner = None \<or> owner = Some tenant))
      (Validation ''not_found'')) (\<lambda>_.
    Inr (gap_page limit offset (filter (\<lambda>g. gp_tenant g = tenant \<and>
      (\<exists>en\<in>set (gr_entries s). re_id en = gp_entry g \<and> re_obligation en = obligation)) (gr_gaps s))))"

record gap_query =
  gl_status :: "string option"
  gl_severity :: "string option"
  gl_owner :: "uuid option"
  gl_entity :: "uuid option"
  gl_from :: "day option"
  gl_to :: "day option"

text \<open>A filter that is not given lets everything through; a gap without a target date is in no range of dates.\<close>

definition wanted :: "gap_query \<Rightarrow> gap_register \<Rightarrow> gap \<Rightarrow> bool" where
  "wanted q s g \<longleftrightarrow>
    (case gl_status q of None \<Rightarrow> True | Some k \<Rightarrow> key_of (gp_status g) (gr_db s) = k) \<and>
    (case gl_severity q of None \<Rightarrow> True | Some k \<Rightarrow> key_of (gp_severity g) (gr_db s) = k) \<and>
    (case gl_owner q of None \<Rightarrow> True | Some u \<Rightarrow> gp_owner g = Some u) \<and>
    (case gl_entity q of None \<Rightarrow> True | Some e \<Rightarrow> gp_org_unit g = Some e) \<and>
    (case gl_from q of None \<Rightarrow> True | Some d \<Rightarrow> (case gp_target_date g of None \<Rightarrow> False | Some t \<Rightarrow> d \<le> t)) \<and>
    (case gl_to q of None \<Rightarrow> True | Some d \<Rightarrow> (case gp_target_date g of None \<Rightarrow> False | Some t \<Rightarrow> t \<le> d))"

definition list_gaps :: "uuid \<Rightarrow> gap_query \<Rightarrow> nat \<Rightarrow> nat \<Rightarrow> gap_register \<Rightarrow> gap list \<times> nat" where
  "list_gaps tenant q limit offset s =
    gap_page limit offset (filter (\<lambda>g. gp_tenant g = tenant \<and> wanted q s g) (gr_gaps s))"

section \<open>Routes (register/api.py)\<close>

abbreviation "GAPS_EDIT \<equiv> ''gaps.edit''"
abbreviation "RISK_ACCEPT_APPROVE \<equiv> ''risk.accept.approve''"

definition create_gap_route where
  "create_gap_route p obligation body s = requires_permission GAPS_EDIT p (\<lambda>_.
    ebind (caller_tenant p) (\<lambda>t. create_gap t (actor_for p) obligation body s))"

definition update_gap_route where
  "update_gap_route p ifm i q s = requires_permission GAPS_EDIT p (\<lambda>_.
    ebind (caller_tenant p) (\<lambda>t. ebind (if_match ifm) (\<lambda>expected. update_gap t (actor_for p) i q expected s)))"

definition request_risk_acceptance_route where
  "request_risk_acceptance_route p i body s = requires_permission GAPS_EDIT p (\<lambda>_.
    ebind (caller_tenant p) (\<lambda>t. request_risk_acceptance t (actor_for p) i body s))"

definition approve_risk_acceptance_route where
  "approve_risk_acceptance_route freshness p i s = requires_permission RISK_ACCEPT_APPROVE p (\<lambda>_.
    ebind (enforce_step_up freshness p (gr_db s)) (\<lambda>assertion.
    ebind (caller_tenant p) (\<lambda>t. approve_risk_acceptance t (actor_for p) i assertion s)))"

definition reopen_gap_route where
  "reopen_gap_route p i s = requires_permission GAPS_EDIT p (\<lambda>_.
    ebind (caller_tenant p) (\<lambda>t. reopen_gap t (actor_for p) i s))"

end
