(* ===== verification/Gap_System.thy ===== *)
theory Gap_System
  imports Gaps
begin

text \<open>
  Gaps as a system: what may happen to one gap, in five rules (\<open>gap_change\<close>), every route as one of them
  (\<open>gap_step_effect\<close>), and the invariant they keep.
\<close>

section \<open>What may happen to a gap\<close>

abbreviation "open_kinds \<equiv> set MOVABLE"
abbreviation "accepted_kind \<equiv> gap_category_value G_RISK_ACCEPTED"
abbreviation "closed_kind \<equiv> gap_category_value G_CLOSED"

lemma gap_category_inj [simp]: "gap_category_value a = gap_category_value b \<longleftrightarrow> a = b"
  by (cases a; cases b) auto

lemma open_kinds [simp]: "accepted_kind \<notin> open_kinds" "closed_kind \<notin> open_kinds" "GAP_OPEN \<in> open_kinds"
  by (auto simp: MOVABLE_def)

text \<open>The facts a risk acceptance is given on, and the request itself.\<close>

definition same_facts :: "gap \<Rightarrow> gap \<Rightarrow> bool" where
  "same_facts g h \<longleftrightarrow> gp_title h = gp_title g \<and> gp_description h = gp_description g \<and> gp_remediation h = gp_remediation g \<and>
    gp_severity h = gp_severity g \<and> gp_target_date h = gp_target_date g"

definition same_request :: "gap \<Rightarrow> gap \<Rightarrow> bool" where
  "same_request g h \<longleftrightarrow> gp_requested_by h = gp_requested_by g \<and> gp_requested_at h = gp_requested_at g \<and>
    gp_reason h = gp_reason g \<and> gp_note h = gp_note g"

definition same_acceptance :: "gap \<Rightarrow> gap \<Rightarrow> bool" where
  "same_acceptance g h \<longleftrightarrow> gp_accepted_by h = gp_accepted_by g \<and> gp_accepted_at h = gp_accepted_at g"

definition same_gap :: "gap \<Rightarrow> gap \<Rightarrow> bool" where
  "same_gap g h \<longleftrightarrow> gp_id h = gp_id g \<and> gp_tenant h = gp_tenant g \<and> gp_entry h = gp_entry g \<and> gp_identified_by h = gp_identified_by g \<and>
    gp_version h = Suc (gp_version g)"

definition unasked :: "gap \<Rightarrow> bool" where
  "unasked g \<longleftrightarrow> gp_requested_by g = None \<and> gp_requested_at g = None \<and> gp_reason g = None \<and> gp_accepted_by g = None \<and>
    gp_accepted_at g = None"

text \<open>The rules; the fifth only when an approval is answered (\<open>approving\<close>).\<close>

inductive gap_change :: "(uuid \<Rightarrow> string) \<Rightarrow> bool \<Rightarrow> gap \<Rightarrow> gap \<Rightarrow> bool" for kind approving where
  Amend: "same_gap g h \<Longrightarrow> same_request g h \<Longrightarrow> same_acceptance g h \<Longrightarrow> gp_closed_by h = gp_closed_by g \<Longrightarrow>
    gp_requested_by g \<noteq> None \<or> kind (gp_status g) = accepted_kind \<Longrightarrow> same_facts g h \<Longrightarrow>
    gp_status h = gp_status g \<or> (kind (gp_status g) \<in> open_kinds \<and> kind (gp_status h) \<in> open_kinds) \<Longrightarrow> gap_change kind approving g h"
| Edit: "same_gap g h \<Longrightarrow> same_request g h \<Longrightarrow> same_acceptance g h \<Longrightarrow> gp_closed_by h = gp_closed_by g \<Longrightarrow>
    gp_requested_by g = None \<Longrightarrow> kind (gp_status g) \<noteq> accepted_kind \<Longrightarrow>
    gp_status h = gp_status g \<or> (kind (gp_status g) \<in> open_kinds \<and> kind (gp_status h) \<in> open_kinds) \<Longrightarrow> gap_change kind approving g h"
| Close: "same_gap g h \<Longrightarrow> unasked h \<Longrightarrow> kind (gp_status g) \<in> open_kinds \<Longrightarrow> kind (gp_status h) = closed_kind \<Longrightarrow>
    gp_closed_by h \<noteq> None \<Longrightarrow> gap_change kind approving g h"
| Request: "same_gap g h \<Longrightarrow> same_facts g h \<Longrightarrow> same_acceptance g h \<Longrightarrow> gp_closed_by h = gp_closed_by g \<Longrightarrow>
    gp_status h = gp_status g \<Longrightarrow> kind (gp_status g) \<in> open_kinds \<Longrightarrow> gp_requested_by g = None \<Longrightarrow> gp_requested_by h \<noteq> None \<Longrightarrow>
    gp_requested_at h \<noteq> None \<Longrightarrow> gp_reason h \<noteq> None \<Longrightarrow> gap_change kind approving g h"
| Approve: "approving \<Longrightarrow> same_gap g h \<Longrightarrow> same_facts g h \<Longrightarrow> same_request g h \<Longrightarrow> gp_closed_by h = gp_closed_by g \<Longrightarrow>
    kind (gp_status g) \<in> open_kinds \<Longrightarrow> gp_accepted_by g = None \<Longrightarrow> gp_requested_by g \<noteq> None \<Longrightarrow>
    gp_accepted_by h \<noteq> None \<Longrightarrow> gp_accepted_by h \<noteq> gp_requested_by h \<Longrightarrow> gp_accepted_at h \<noteq> None \<Longrightarrow>
    kind (gp_status h) = accepted_kind \<Longrightarrow> gap_change kind approving g h"
| Reopen: "same_gap g h \<Longrightarrow> same_facts g h \<Longrightarrow> unasked h \<Longrightarrow> gp_closed_by h = None \<Longrightarrow>
    kind (gp_status g) \<in> set REOPENABLE \<Longrightarrow> kind (gp_status h) = GAP_OPEN \<Longrightarrow> gap_change kind approving g h"

section \<open>The steps\<close>

abbreviation kinds :: "gap_register \<Rightarrow> uuid \<Rightarrow> string" where
  "kinds s i \<equiv> kind_of_status i (gr_db s)"

text \<open>The rows of the bank's gap statuses have keys of their own.\<close>

definition statuses_ok :: "gap_register \<Rightarrow> bool" where
  "statuses_ok s \<longleftrightarrow> (\<forall>v\<in>set (db_vocab (gr_db s)). v_list v = ''gap_status'' \<longrightarrow> kinds s (v_id v) = v_kind v)"

text \<open>What the rest of the program does: it leaves the gaps alone, and a gap status is relabelled or retired but keeps
  its kind.\<close>

definition gaps_elsewhere :: "gap_register \<Rightarrow> gap_register \<Rightarrow> bool" where
  "gaps_elsewhere s t \<longleftrightarrow> gr_gaps t = gr_gaps s \<and> db_next (gr_db s) \<le> db_next (gr_db t) \<and> statuses_ok t \<and>
    (\<forall>g\<in>set (gr_gaps s). kinds t (gp_status g) = kinds s (gp_status g))"

inductive gap_step :: "gap_register \<Rightarrow> gap_register \<Rightarrow> bool" where
  recorded: "create_gap_route p obligation body s = Inr (g, s') \<Longrightarrow> gap_step s s'"
| amended: "update_gap_route p ifm i q s = Inr (g, s') \<Longrightarrow> gap_step s s'"
| requested: "request_risk_acceptance_route p i rbody s = Inr (g, s') \<Longrightarrow> gap_step s s'"
| approved: "approve_risk_acceptance_route freshness p i s = Inr (g, s') \<Longrightarrow> gap_step s s'"
| reopened: "reopen_gap_route p i s = Inr (g, s') \<Longrightarrow> gap_step s s'"
| other: "gaps_elsewhere s s' \<Longrightarrow> gap_step s s'"

section \<open>One gap changes at a time\<close>

text \<open>One gap is changed; the gap statuses stay.\<close>

definition one_changed :: "gap_register \<Rightarrow> gap \<Rightarrow> gap \<Rightarrow> gap_register \<Rightarrow> bool" where
  "one_changed s g h t \<longleftrightarrow> g \<in> set (gr_gaps s) \<and> gp_id h = gp_id g \<and> gr_gaps t = put_row gp_id h (gr_gaps s) \<and>
    db_vocab (gr_db t) = db_vocab (gr_db s) \<and> db_next (gr_db s) \<le> db_next (gr_db t) \<and> gap_checks h (gr_db s)"

lemma saved_and_recorded:
  "save_gap h s = Inr s1 \<Longrightarrow> g \<in> set (gr_gaps s) \<Longrightarrow> gp_id h = gp_id g \<Longrightarrow> one_changed s g h (gr_record e s1)"
  by (auto simp: save_gap_def one_changed_def gr_record_def frame_simps split: if_splits)

lemma locked_gap_Inr: "locked_gap tenant i s = Inr g \<Longrightarrow> g \<in> set (gr_gaps s) \<and> gp_id g = i \<and> gp_tenant g = tenant"
  by (auto simp: locked_gap_def inr_simps dest: find_Some_in)

lemma gap_list_row: "vocab_row_of l k t kd d = Inr v \<Longrightarrow> v \<in> set (db_vocab d) \<and> v_list v = l \<and> v_key v = k"
  by (auto simp: vocab_row_of_def vocab_rows_def inr_simps dest!: find_Some_in)

lemma category_row_Inr:
  assumes "category_row tenant c s = Inr i" and "statuses_ok s"
  shows "kinds s i = gap_category_value c"
proof -
  let ?P = "\<lambda>v. v_list v = ''gap_status'' \<and> v_tenant v = Some tenant \<and> v_kind v = gap_category_value c \<and> v_id v \<in> set (gr_system s)"
  from assms(1) obtain v where v: "filter ?P (db_vocab (gr_db s)) = [v]" "i = v_id v"
    by (auto simp: category_row_def split: list.splits)
  then have "v \<in> set (filter ?P (db_vocab (gr_db s)))" by simp
  then show ?thesis using assms(2) v(2) by (auto simp: statuses_ok_def)
qed

lemma no_acceptance_unasked [simp]: "unasked (no_acceptance g)"
  by (simp add: unasked_def no_acceptance_def)

lemma changed_by:
  "save_gap h s = Inr s1 \<Longrightarrow> locked_gap tenant i s = Inr g \<Longrightarrow> gp_id h = gp_id g \<Longrightarrow> gap_change (kinds s) b g h \<Longrightarrow>
    \<exists>g. one_changed s g h (gr_record e s1) \<and> gap_change (kinds s) b g h"
  using saved_and_recorded locked_gap_Inr by blast

lemmas gap_parts = same_gap_def same_facts_def same_request_def same_acceptance_def unasked_def category_of_def

lemma request_effect:
  assumes "request_risk_acceptance tenant actr i body s = Inr (h, t)"
  shows "\<exists>g. one_changed s g h t \<and> gap_change (kinds s) False g h"
  using assms unfolding request_risk_acceptance_def Let_def
  apply (clarsimp simp: inr_simps)
  apply (erule changed_by, assumption, simp)
  apply (rule gap_change.Request; simp add: gap_parts)
  done

lemma approve_effect:
  assumes "approve_risk_acceptance tenant actr i step_up s = Inr (h, t)" and "statuses_ok s"
  shows "\<exists>g. one_changed s g h t \<and> gap_change (kinds s) True g h"
  using assms unfolding approve_risk_acceptance_def Let_def
  apply (clarsimp simp: inr_simps)
  apply (erule changed_by, assumption, simp)
  apply (rule gap_change.Approve; auto simp add: gap_parts category_row_Inr)
  done

lemma reopen_effect:
  assumes "reopen_gap tenant actr i s = Inr (h, t)" and "statuses_ok s"
  shows "\<exists>g. one_changed s g h t \<and> gap_change (kinds s) False g h"
  using assms unfolding reopen_gap_def Let_def
  apply (clarsimp simp: inr_simps)
  apply (erule changed_by, assumption, simp add: no_acceptance_def)
  apply (rule gap_change.Reopen; simp add: gap_parts no_acceptance_def category_row_Inr)
  done

lemma moved_gap_effect:
  assumes "moved_gap tenant actr g st s g1 = Inr h" and ok: "statuses_ok s"
  obtains (stays) "h = g1"
  | (moves) i where "h = g1\<lparr>gp_status := i\<rparr>" "kinds s (gp_status g) \<in> open_kinds" "kinds s i \<in> open_kinds"
  | (closes) i u n where "h = (no_acceptance g1)\<lparr>gp_status := i, gp_closed_by := Some u, gp_closed_at := Some n\<rparr>"
      "kinds s (gp_status g) \<in> open_kinds" "kinds s i = closed_kind"
proof (cases st)
  case None
  then show thesis using assms stays by (simp add: moved_gap_def)
next
  case (Some k)
  with assms(1) obtain v where v: "vocab_row_of ''gap_status'' k tenant None (gr_db s) = Inr v"
    and c: "kinds s (gp_status g) \<in> open_kinds" "v_kind v \<in> set PATCH_TARGETS"
    and h: "(if v_kind v = closed_kind
      then ebind (who actr) (\<lambda>person. Inr ((no_acceptance g1)\<lparr>gp_status := v_id v, gp_closed_by := Some person,
        gp_closed_at := Some (db_now (gr_db s))\<rparr>)) else Inr (g1\<lparr>gp_status := v_id v\<rparr>)) = Inr h"
    by (auto simp: moved_gap_def category_of_def inr_simps)
  have kind: "kinds s (v_id v) = v_kind v" using gap_list_row [OF v] ok by (simp add: statuses_ok_def)
  show thesis
  proof (cases "v_kind v = closed_kind")
    case True
    then show thesis using h c(1) kind closes by (auto simp: inr_simps)
  next
    case False
    then have "v_kind v \<in> open_kinds" using c(2) by (simp add: PATCH_TARGETS_def)
    then show thesis using h False c(1) kind moves [of "v_id v"] by auto
  qed
qed

lemma patched_gap_simps [simp]:
  "gp_id (patched_gap q sev own g) = gp_id g" "gp_status (patched_gap q sev own g) = gp_status g"
  "gp_tenant (patched_gap q sev own g) = gp_tenant g" "gp_entry (patched_gap q sev own g) = gp_entry g"
  "gp_identified_by (patched_gap q sev own g) = gp_identified_by g" "gp_closed_by (patched_gap q sev own g) = gp_closed_by g"
  "same_request g (patched_gap q sev own g)" "same_acceptance g (patched_gap q sev own g)"
  by (simp_all add: patched_gap_def gap_parts)

lemma patched_gap_facts: "\<not> sends_accepted_facts q \<Longrightarrow> same_facts g (patched_gap q None own g)"
  by (simp add: sends_accepted_facts_def patched_gap_def same_facts_def given_or_def)

lemma update_change:
  assumes g1: "gp_id g1 = gp_id g" "gp_status g1 = gp_status g" "gp_tenant g1 = gp_tenant g" "gp_entry g1 = gp_entry g"
      "gp_identified_by g1 = gp_identified_by g" "gp_closed_by g1 = gp_closed_by g" "same_request g g1" "same_acceptance g g1"
    and facts: "same_facts g g1 \<or> (kinds s (gp_status g) \<noteq> accepted_kind \<and> gp_requested_by g = None)"
    and m: "moved_gap tenant actr g st s g1 = Inr h" and ok: "statuses_ok s"
  shows "gp_id h = gp_id g" and "gap_change (kinds s) b g (h\<lparr>gp_version := Suc (gp_version g)\<rparr>)"
proof -
  have kept: "gap_change (kinds s) b g (g1\<lparr>gp_status := i, gp_version := Suc (gp_version g)\<rparr>)"
    if "i = gp_status g \<or> kinds s (gp_status g) \<in> open_kinds \<and> kinds s i \<in> open_kinds" for i
  proof (cases "kinds s (gp_status g) \<noteq> accepted_kind \<and> gp_requested_by g = None")
    case True
    then show ?thesis using g1 that by (intro gap_change.Edit) (simp_all add: gap_parts)
  next
    case False
    then have "same_facts g g1" "gp_requested_by g \<noteq> None \<or> kinds s (gp_status g) = accepted_kind" using facts by auto
    then show ?thesis using g1 that by (intro gap_change.Amend) (simp_all add: gap_parts)
  qed
  from m ok show "gp_id h = gp_id g"
    by (cases rule: moved_gap_effect) (simp_all add: g1 no_acceptance_def)
  from m ok show "gap_change (kinds s) b g (h\<lparr>gp_version := Suc (gp_version g)\<rparr>)"
  proof (cases rule: moved_gap_effect)
    case stays
    have "g1\<lparr>gp_status := gp_status g\<rparr> = g1" using g1(2) by (cases g1) simp
    then show ?thesis using kept [of "gp_status g"] stays by simp
  next
    case (moves i)
    then show ?thesis using kept [of i] by simp
  next
    case (closes i u n)
    then show ?thesis using g1 by (intro gap_change.Close) (simp_all add: gap_parts no_acceptance_def)
  qed
qed

lemma update_facts:
  assumes "(if sends_accepted_facts q
           then ebind (ensure (category_of g s \<noteq> accepted_kind) (Validation ''invalid_transition''))
             (\<lambda>_. ensure (gp_requested_by g = None) (Validation ''request_pending''))
           else Inr ()) = Inr u"
    and "(case gq_severity q of None \<Rightarrow> Inr None
           | Some k \<Rightarrow> ebind (vocab_row_of ''risk_rating'' k tenant None d) (\<lambda>v. Inr (Some (v_id v)))) = Inr severity"
  shows "same_facts g (patched_gap q severity own g) \<or> (kinds s (gp_status g) \<noteq> accepted_kind \<and> gp_requested_by g = None)"
proof (cases "sends_accepted_facts q")
  case True
  then show ?thesis using assms(1) by (simp add: category_of_def inr_simps)
next
  case False
  then have "severity = None" using assms(2) by (simp add: sends_accepted_facts_def)
  then show ?thesis using patched_gap_facts [OF False] by blast
qed

lemma patched_change:
  assumes kept: "same_facts g (patched_gap q severity own g) \<or> (kinds s (gp_status g) \<noteq> accepted_kind \<and> gp_requested_by g = None)"
    and m: "moved_gap tenant actr g st s (patched_gap q severity own g) = Inr h" and ok: "statuses_ok s"
  shows "gp_id (h\<lparr>gp_version := Suc (gp_version g)\<rparr>) = gp_id g" and "gap_change (kinds s) b g (h\<lparr>gp_version := Suc (gp_version g)\<rparr>)"
  using update_change [OF _ _ _ _ _ _ _ _ kept m ok] by simp_all

lemma update_effect:
  assumes "update_gap tenant actr i q expected s = Inr (h, t)" and ok: "statuses_ok s"
  shows "\<exists>g. one_changed s g h t \<and> gap_change (kinds s) False g h"
  using assms unfolding update_gap_def Let_def
  apply (clarsimp simp only: ebind_eq_Inr prod.inject sum.inject)
  apply (erule changed_by, assumption)
   apply (drule (1) update_facts)
   apply (erule (2) patched_change)
  apply (drule (1) update_facts)
  apply (erule (2) patched_change)
  done

section \<open>A new gap\<close>

definition gap_added :: "gap_register \<Rightarrow> gap \<Rightarrow> gap_register \<Rightarrow> bool" where
  "gap_added s h t \<longleftrightarrow> gr_gaps t = gr_gaps s @ [h] \<and> db_vocab (gr_db t) = db_vocab (gr_db s) \<and>
    db_next (gr_db s) \<le> gp_id h \<and> gp_id h < db_next (gr_db t) \<and> unasked h \<and> kinds s (gp_status h) = GAP_OPEN"

lemma same_kinds: "db_vocab (gr_db t) = db_vocab (gr_db s) \<Longrightarrow> kinds t i = kinds s i"
  by (simp add: kind_of_status_def)

lemma same_statuses: "db_vocab (gr_db t) = db_vocab (gr_db s) \<Longrightarrow> statuses_ok t = statuses_ok s"
  by (simp add: statuses_ok_def same_kinds [of t s])

lemma only_row_Inr: "(case xs of [v] \<Rightarrow> f v | _ \<Rightarrow> Inl e) = Inr y \<longleftrightarrow> (\<exists>v. xs = [v] \<and> f v = Inr y)"
  by (auto split: list.splits)

lemma ensure_entry_effect:
  "ensure_register_entry tenant obligation actr s = Inr (en, s1) \<Longrightarrow>
    gr_gaps s1 = gr_gaps s \<and> db_vocab (gr_db s1) = db_vocab (gr_db s) \<and> db_next (gr_db s) \<le> db_next (gr_db s1)"
  by (auto simp: ensure_register_entry_def inr_simps only_row_Inr new_entry_def gr_record_def frame_simps Let_def
      split: option.splits)

lemma inserted_and_recorded:
  "insert_gap g s = Inr s1 \<Longrightarrow> gp_id g = db_next (gr_db s) \<Longrightarrow> unasked g \<Longrightarrow> kinds s (gp_status g) = GAP_OPEN \<Longrightarrow>
    gap_added s g (gr_record e s1)"
  by (auto simp: insert_gap_def gap_added_def gr_record_def frame_simps split: if_splits)

lemma added_later:
  "ensure_register_entry tenant obligation actr s = Inr (en, s1) \<Longrightarrow> gap_added s1 h t \<Longrightarrow> gap_added s h t"
  by (auto simp: gap_added_def same_kinds [of s1 s] dest!: ensure_entry_effect)

lemma fresh_gap_simps [simp]:
  "gp_id (fresh_gap tenant en o' body sv sr st own u d) = db_next (gr_db d)" "unasked (fresh_gap tenant en o' body sv sr st own u d)"
  "gp_status (fresh_gap tenant en o' body sv sr st own u d) = st"
  by (simp_all add: fresh_gap_def unasked_def)

lemma open_row_later:
  "ensure_register_entry tenant obligation actr s = Inr (en, s1) \<Longrightarrow> statuses_ok s \<Longrightarrow> category_row tenant c s1 = Inr i \<Longrightarrow>
    kinds s1 i = gap_category_value c"
  by (rule category_row_Inr) (simp_all add: same_statuses [of s1 s] ensure_entry_effect)

lemma create_effect:
  assumes "create_gap tenant actr obligation body s = Inr (h, t)" and "statuses_ok s"
  shows "gap_added s h t"
  using assms unfolding create_gap_def Let_def
  apply (clarsimp simp only: ebind_eq_Inr prod.inject sum.inject prod.case)
  apply (rule added_later, assumption)
  apply (erule inserted_and_recorded)
    apply (simp_all only: fresh_gap_simps open_row_later)
  done

section \<open>Every route as one of the rules\<close>

lemma gap_step_effect:
  assumes "gap_step s t" and ok: "statuses_ok s"
  shows "(\<exists>b g h. one_changed s g h t \<and> gap_change (kinds s) b g h) \<or> (\<exists>h. gap_added s h t) \<or> gaps_elsewhere s t"
  using assms(1)
proof cases
  case recorded
  then show ?thesis using create_effect [OF _ ok]
    by (fastforce simp: create_gap_route_def requires_permission_def inr_simps split: if_splits)
next
  case amended
  then show ?thesis using update_effect [OF _ ok]
    by (fastforce simp: update_gap_route_def requires_permission_def inr_simps split: if_splits)
next
  case requested
  then show ?thesis using request_effect
    by (fastforce simp: request_risk_acceptance_route_def requires_permission_def inr_simps split: if_splits)
next
  case approved
  then show ?thesis using approve_effect [OF _ ok]
    by (fastforce simp: approve_risk_acceptance_route_def requires_permission_def inr_simps split: if_splits)
next
  case reopened
  then show ?thesis using reopen_effect [OF _ ok]
    by (fastforce simp: reopen_gap_route_def requires_permission_def inr_simps split: if_splits)
next
  case other
  then show ?thesis by blast
qed

section \<open>The invariant\<close>

text \<open>A gap is risk-accepted exactly when somebody accepted it, and then another person asked, with a reason; a request
  has its reason and its time; a closed gap asks for nothing.\<close>

definition gap_ok :: "(uuid \<Rightarrow> string) \<Rightarrow> gap \<Rightarrow> bool" where
  "gap_ok kind g \<longleftrightarrow> (kind (gp_status g) = accepted_kind \<longleftrightarrow> gp_accepted_by g \<noteq> None) \<and>
    (gp_accepted_by g \<noteq> None \<longrightarrow> gp_requested_by g \<noteq> None \<and> gp_accepted_by g \<noteq> gp_requested_by g \<and> gp_accepted_at g \<noteq> None) \<and>
    (gp_requested_by g \<noteq> None \<longrightarrow> gp_reason g \<noteq> None \<and> gp_requested_at g \<noteq> None) \<and>
    (kind (gp_status g) = closed_kind \<longrightarrow> unasked g) \<and>
    kind (gp_status g) \<in> open_kinds \<union> {accepted_kind, closed_kind}"

definition gaps_ok :: "gap_register \<Rightarrow> bool" where
  "gaps_ok s \<longleftrightarrow> statuses_ok s \<and> distinct (map gp_id (gr_gaps s)) \<and> (\<forall>g\<in>set (gr_gaps s). gp_id g < db_next (gr_db s)) \<and>
    (\<forall>g\<in>set (gr_gaps s). gap_ok (kinds s) g)"

definition gap_init :: "gap_register \<Rightarrow> bool" where
  "gap_init s \<longleftrightarrow> gr_gaps s = [] \<and> statuses_ok s"

lemma open_is_neither: "k \<in> open_kinds \<Longrightarrow> k \<noteq> accepted_kind \<and> k \<noteq> closed_kind"
  by (auto simp: MOVABLE_def)

lemma change_keeps_ok:
  assumes "gap_change kind b g h" and "gap_ok kind g"
  shows "gap_ok kind h"
  using assms
proof (cases rule: gap_change.cases)
  case Amend
  then show ?thesis using assms(2) open_is_neither by (auto simp: gap_ok_def gap_parts)
next
  case Edit
  then show ?thesis using assms(2) open_is_neither by (auto simp: gap_ok_def gap_parts)
next
  case Close
  then show ?thesis by (simp add: gap_ok_def gap_parts)
next
  case Request
  then show ?thesis using assms(2) open_is_neither by (simp add: gap_ok_def gap_parts)
next
  case Approve
  then show ?thesis using assms(2) by (simp add: gap_ok_def gap_parts)
next
  case Reopen
  then show ?thesis by (simp add: gap_ok_def gap_parts MOVABLE_def)
qed

lemma step_keeps_gaps_ok:
  assumes "gap_step s t" and ok: "gaps_ok s"
  shows "gaps_ok t"
proof -
  have st: "statuses_ok s" using ok by (simp add: gaps_ok_def)
  from gap_step_effect [OF assms(1) st] show ?thesis
  proof (elim disjE exE conjE)
    fix b g h assume c: "one_changed s g h t" "gap_change (kinds s) b g h"
    have "gap_ok (kinds s) h" using c ok change_keeps_ok by (auto simp: one_changed_def gaps_ok_def)
    moreover have "\<forall>x\<in>set (gr_gaps s). gp_id x < db_next (gr_db t)"
      using c(1) ok by (fastforce simp: one_changed_def gaps_ok_def)
    ultimately show ?thesis using c(1) ok
      by (auto simp: one_changed_def gaps_ok_def same_kinds [of t s] same_statuses [of t s] in_set_put_row)
  next
    fix h assume a: "gap_added s h t"
    have "gap_ok (kinds s) h" using a by (simp add: gap_added_def gap_ok_def gap_parts MOVABLE_def)
    then show ?thesis using a ok
      by (auto simp: gap_added_def gaps_ok_def same_kinds [of t s] same_statuses [of t s])
  next
    assume "gaps_elsewhere s t"
    then show ?thesis using ok by (auto simp: gaps_elsewhere_def gaps_ok_def gap_ok_def)
  qed
qed

interpretation gap_sys: invariant_system gap_init gap_step gaps_ok
  by unfold_locales (simp add: gap_init_def gaps_ok_def, rule step_keeps_gaps_ok)

section \<open>Later states\<close>

lemma gap_one: "gaps_ok s \<Longrightarrow> x \<in> set (gr_gaps s) \<Longrightarrow> y \<in> set (gr_gaps s) \<Longrightarrow> gp_id x = gp_id y \<Longrightarrow> x = y"
  by (simp add: gaps_ok_def distinct_map inj_on_def)

text \<open>What a step leaves of the gaps: each is still there, changed at most once, and is either new or was there.\<close>

lemma gap_step_rows:
  assumes "gap_step s t" and ok: "gaps_ok s" and g: "g \<in> set (gr_gaps s)"
  shows "g \<in> set (gr_gaps t) \<or> (\<exists>b h. h \<in> set (gr_gaps t) \<and> gp_id h = gp_id g \<and> gap_change (kinds s) b g h)"
proof -
  have st: "statuses_ok s" using ok by (simp add: gaps_ok_def)
  have one: "x = g" if "x \<in> set (gr_gaps s)" "gp_id x = gp_id g" for x
    by (rule gap_one [OF ok that(1) g that(2)])
  from gap_step_effect [OF assms(1) st] show ?thesis
  proof (elim disjE exE conjE)
    fix b x h assume c: "one_changed s x h t" "gap_change (kinds s) b x h"
    show ?thesis
    proof (cases "gp_id x = gp_id g")
      case True
      then have "x = g" using one c(1) by (simp add: one_changed_def)
      then show ?thesis using c by (auto simp: one_changed_def in_set_put_row)
    next
      case False
      then show ?thesis using c g by (auto simp: one_changed_def in_set_put_row)
    qed
  next
    fix h assume "gap_added s h t"
    then show ?thesis using g by (simp add: gap_added_def)
  next
    assume "gaps_elsewhere s t"
    then show ?thesis using g by (simp add: gaps_elsewhere_def)
  qed
qed

text \<open>A request for acceptance, from the time it is made until it is dropped.\<close>

definition still_asked :: "uuid \<Rightarrow> gap_register \<Rightarrow> bool" where
  "still_asked i s \<longleftrightarrow> (\<exists>g\<in>set (gr_gaps s). gp_id g = i \<and> gp_requested_by g \<noteq> None)"

definition while_asked :: "uuid \<Rightarrow> gap_register \<Rightarrow> gap_register \<Rightarrow> bool" where
  "while_asked i s t \<longleftrightarrow> gap_step s t \<and> still_asked i t"

definition request_stands :: "gap \<Rightarrow> gap \<Rightarrow> bool" where
  "request_stands g h \<longleftrightarrow> gp_id h = gp_id g \<and> same_facts g h \<and> same_request g h \<and>
    (gp_accepted_by g \<noteq> None \<longrightarrow> same_acceptance g h)"

lemma request_stands_refl [simp]: "request_stands g g"
  by (simp add: request_stands_def gap_parts)

lemma request_stands_trans: "request_stands g h \<Longrightarrow> request_stands h k \<Longrightarrow> request_stands g k"
  by (auto simp: request_stands_def gap_parts)

lemma asked_change:
  "gap_change kind b g h \<Longrightarrow> gp_requested_by g \<noteq> None \<Longrightarrow> gp_requested_by h \<noteq> None \<Longrightarrow> request_stands g h"
  by (erule gap_change.cases) (simp_all add: request_stands_def gap_parts)

lemma asked_step:
  assumes "while_asked i s t" and ok: "gaps_ok s" and g: "g \<in> set (gr_gaps s)" "gp_id g = i" "gp_requested_by g \<noteq> None"
  shows "\<exists>h\<in>set (gr_gaps t). request_stands g h"
proof -
  have st: "gap_step s t" and asked: "still_asked i t" using assms(1) by (simp_all add: while_asked_def)
  from asked obtain k where k: "k \<in> set (gr_gaps t)" "gp_id k = i" "gp_requested_by k \<noteq> None" by (auto simp: still_asked_def)
  have "gaps_ok t" by (rule step_keeps_gaps_ok [OF st ok])
  then have one: "x = k" if "x \<in> set (gr_gaps t)" "gp_id x = i" for x
    using that k gap_one [OF \<open>gaps_ok t\<close>] by simp
  from gap_step_rows [OF st ok g(1)] show ?thesis
  proof (elim disjE exE conjE)
    assume "g \<in> set (gr_gaps t)"
    then show ?thesis by (intro bexI [where x = g]) simp_all
  next
    fix b h assume h: "h \<in> set (gr_gaps t)" "gp_id h = gp_id g" "gap_change (kinds s) b g h"
    then have "h = k" using one g(2) by simp
    then show ?thesis using asked_change h g(3) k(3) by blast
  qed
qed

lemma asked_run:
  assumes "(while_asked i)\<^sup>*\<^sup>* s t" and "gaps_ok s" and "g \<in> set (gr_gaps s)" "gp_id g = i" "gp_requested_by g \<noteq> None"
  shows "gaps_ok t \<and> (\<exists>h\<in>set (gr_gaps t). request_stands g h)"
  using assms(1)
proof (induction rule: rtranclp_induct)
  case base
  then show ?case using assms by (intro conjI bexI [where x = g]) simp_all
next
  case (step t u)
  then obtain h where h: "h \<in> set (gr_gaps t)" "request_stands g h" by blast
  then have "gp_id h = i" "gp_requested_by h \<noteq> None" using assms(4,5) by (simp_all add: request_stands_def same_request_def)
  then obtain k where "k \<in> set (gr_gaps u)" "request_stands h k" using asked_step [OF step.hyps(2) _ h(1)] step.IH by blast
  then have "\<exists>h\<in>set (gr_gaps u). request_stands g h" using h(2) request_stands_trans by blast
  then show ?case using step step_keeps_gaps_ok by (auto simp: while_asked_def)
qed

section \<open>Where an acceptance comes from\<close>

text \<open>The approval that was answered for a gap and its person.\<close>

definition approval_of :: "gap \<Rightarrow> gap_register \<Rightarrow> gap_register \<Rightarrow> bool" where
  "approval_of h s t \<longleftrightarrow> (\<exists>freshness p g. approve_risk_acceptance_route freshness p (gp_id h) s = Inr (g, t) \<and>
    gp_accepted_by h = Some (p_subject p) \<and> same_acceptance g h \<and> same_request g h)"

lemma acceptance_kept:
  "gap_change kind False g h \<Longrightarrow> gp_accepted_by h \<noteq> None \<Longrightarrow> gap_ok kind g \<Longrightarrow>
    same_acceptance g h \<and> same_request g h"
  by (erule gap_change.cases) (auto simp: gap_parts gap_ok_def)

lemma acceptance_step:
  assumes st: "gap_step s t" and ok: "gaps_ok s" and h: "h \<in> set (gr_gaps t)" "gp_accepted_by h \<noteq> None"
  shows "(\<exists>g\<in>set (gr_gaps s). gp_id g = gp_id h \<and> same_acceptance g h \<and> same_request g h) \<or> approval_of h s t"
proof -
  have stat: "statuses_ok s" and rows: "\<And>g. g \<in> set (gr_gaps s) \<Longrightarrow> gap_ok (kinds s) g" using ok by (simp_all add: gaps_ok_def)
  have same: ?thesis if "h \<in> set (gr_gaps s)" using that by (auto simp: gap_parts)
  have changed: ?thesis if "one_changed s g h' t" "gap_change (kinds s) False g h'" for g h'
  proof (cases "h = h'")
    case True
    then show ?thesis using that acceptance_kept [OF that(2)] h(2) rows by (auto simp: one_changed_def)
  next
    case False
    then show ?thesis using that h(1) same by (auto simp: one_changed_def in_set_put_row)
  qed
  from st show ?thesis
  proof cases
    case (recorded p obligation body g)
    then have "gap_added s g t" using create_effect [OF _ stat]
      by (fastforce simp: create_gap_route_def requires_permission_def inr_simps split: if_splits)
    then show ?thesis using h same by (auto simp: gap_added_def unasked_def)
  next
    case amended
    then show ?thesis using update_effect [OF _ stat] changed
      by (fastforce simp: update_gap_route_def requires_permission_def inr_simps split: if_splits)
  next
    case requested
    then show ?thesis using request_effect changed
      by (fastforce simp: request_risk_acceptance_route_def requires_permission_def inr_simps split: if_splits)
  next
    case reopened
    then show ?thesis using reopen_effect [OF _ stat] changed
      by (fastforce simp: reopen_gap_route_def requires_permission_def inr_simps split: if_splits)
  next
    case (approved freshness p i g)
    then obtain tenant assertion where a: "approve_risk_acceptance tenant (actor_for p) i assertion s = Inr (g, t)"
      by (auto simp: approve_risk_acceptance_route_def requires_permission_def inr_simps split: if_splits)
    then have id: "gp_id g = i" "gp_accepted_by g = Some (p_subject p)"
      unfolding approve_risk_acceptance_def Let_def
      by (auto simp: inr_simps who_def actor_for_def dest: locked_gap_Inr)
    from approve_effect [OF a stat] obtain x where x: "one_changed s x g t" by blast
    show ?thesis
    proof (cases "h = g")
      case True
      have "approval_of g s t" unfolding approval_of_def
        by (rule exI [of _ freshness], rule exI [of _ p], rule exI [of _ g]) (use approved id in \<open>simp add: gap_parts\<close>)
      then show ?thesis using True by blast
    next
      case False
      then show ?thesis using x h(1) same by (auto simp: one_changed_def in_set_put_row)
    qed
  next
    case other
    then show ?thesis using h same by (simp add: gaps_elsewhere_def)
  qed
qed

lemma acceptance_run:
  assumes "gap_step\<^sup>*\<^sup>* s0 t" and "gap_init s0" and "h \<in> set (gr_gaps t)" "gp_accepted_by h \<noteq> None"
  shows "\<exists>u v. gap_step\<^sup>*\<^sup>* s0 u \<and> approval_of h u v \<and> gap_step\<^sup>*\<^sup>* v t"
  using assms(1,3,4)
proof (induction arbitrary: h rule: rtranclp_induct)
  case base
  then show ?case using assms(2) by (simp add: gap_init_def)
next
  case (step t u)
  have ok: "gaps_ok t" using gap_sys.inv_reachable [OF assms(2) step.hyps(1)] .
  from acceptance_step [OF step.hyps(2) ok step.prems] show ?case
  proof (elim disjE bexE conjE)
    fix g assume g: "g \<in> set (gr_gaps t)" "gp_id g = gp_id h" "same_acceptance g h" "same_request g h"
    then have "gp_accepted_by g \<noteq> None" using step.prems by (simp add: same_acceptance_def)
    from step.IH [OF g(1) this] obtain a b where ab: "gap_step\<^sup>*\<^sup>* s0 a" "approval_of g a b" "gap_step\<^sup>*\<^sup>* b t" by blast
    have "approval_of h a b" using ab(2) g by (auto simp: approval_of_def gap_parts)
    then show ?thesis using ab step.hyps(2) by (meson rtranclp.rtrancl_into_rtrancl)
  next
    assume "approval_of h t u"
    then show ?thesis using step.hyps(1) by blast
  qed
qed

end
