(* ===== verification/Gap_Theorems.thy ===== *)
theory Gap_Theorems
  imports Gap_System
begin

text \<open>
  What the four eyes on a risk acceptance guarantee, for every order of the routes, with a bank whose Ann records a gap
  and asks for its acceptance, and whose Bo approves it.
\<close>

section \<open>A bank with a gap\<close>

definition ex_status :: "uuid \<Rightarrow> string \<Rightarrow> string \<Rightarrow> string \<Rightarrow> vocab_row" where
  "ex_status i l k kind = \<lparr>v_id = i, v_list = l, v_tenant = Some 1, v_key = k, v_kind = kind, v_active = True, v_default = True\<rparr>"

definition ex_register :: gap_register where
  "ex_register = \<lparr>gr_db = \<lparr>db_next = 20, db_now = 5, db_tenants = [], db_members = [],
      db_vocab = [ex_status 1 ''gap_status'' ''open'' ''open'', ex_status 2 ''gap_status'' ''fixing'' ''remediating'',
        ex_status 3 ''gap_status'' ''accepted'' ''risk_accepted'', ex_status 4 ''gap_status'' ''closed'' ''closed'',
        ex_status 5 ''risk_rating'' ''high'' ''high'', ex_status 6 ''gap_source'' ''audit'' ''audit'',
        ex_status 7 ''risk_acceptance_reason'' ''cost'' ''cost'', ex_status 8 ''compliance_status'' ''unknown'' ''unknown''],
      db_taxonomy = \<lparr>tx_dimensions = [], tx_terms = [], tx_footprint = [], tx_jurisdictions = []\<rparr>,
      db_changes = [], db_obligations = [], db_tenant_obligations = [], db_tenant_agents = [], db_cases = [], db_links = [],
      db_assessments = [], db_actions = [], db_transitions = [], db_evidence = [], db_notifications = [], db_storage = [],
      db_scan_queue = [], db_audit = [], db_outbox = []\<rparr>,
     gr_obligations = [(9, None, ''Art. 5'')], gr_entities = [], gr_system = [1, 2, 3, 4], gr_entries = [], gr_scopes = [],
     gr_units = [], gr_gaps = []\<rparr>"

definition ex_editor :: principal where
  "ex_editor = \<lparr>p_kind = P_USER, p_subject = 1, p_name = ''Ann'', p_tenant = Some 1, p_permissions = [GAPS_EDIT],
     p_scopes = [], p_step_up_at = None, p_step_up_assertion = None\<rparr>"

definition ex_approver :: principal where
  "ex_approver = \<lparr>p_kind = P_USER, p_subject = 2, p_name = ''Bo'', p_tenant = Some 1, p_permissions = [RISK_ACCEPT_APPROVE],
     p_scopes = [], p_step_up_at = Some 4, p_step_up_assertion = Some 11\<rparr>"

definition ex_body :: gap_body where
  "ex_body = \<lparr>gb_title = ''No test'', gb_description = None, gb_severity = ''high'', gb_source = ''audit'', gb_org_unit = None,
     gb_unit = None, gb_owner = None, gb_owner_team = None, gb_target_date = None, gb_remediation = None\<rparr>"

definition ex_fixing :: gap_patch where
  "ex_fixing = \<lparr>gq_title = None, gq_description = None, gq_severity = None, gq_status = Some ''fixing'', gq_owner = None,
     gq_owner_team = None, gq_target_date = None, gq_remediation = None\<rparr>"

abbreviation state_after :: "error + 'a \<times> gap_register \<Rightarrow> gap_register" where
  "state_after r \<equiv> snd (projr r)"

definition ex_recorded :: gap_register where
  "ex_recorded = state_after (create_gap_route ex_editor 9 ex_body ex_register)"

definition ex_asked :: gap_register where
  "ex_asked = state_after (request_risk_acceptance_route ex_editor 23 \<lparr>ra_reason = ''cost'', ra_note = None\<rparr> ex_recorded)"

definition ex_moved :: gap_register where
  "ex_moved = state_after (update_gap_route ex_editor (Some ''2'') 23 ex_fixing ex_asked)"

definition ex_accepted :: gap_register where
  "ex_accepted = state_after (approve_risk_acceptance_route 1 ex_approver 23 ex_moved)"

lemma ex_register_init: "gap_init ex_register"
  by (simp add: gap_init_def statuses_ok_def ex_register_def ex_status_def kind_of_status_def)

lemma gap_answered: "\<not> isl r \<Longrightarrow> r = Inr (fst (projr r), state_after r)"
  by (cases r) auto

lemma ex_gap_answers:
  "\<not> isl (create_gap_route ex_editor 9 ex_body ex_register)"
  "\<not> isl (request_risk_acceptance_route ex_editor 23 \<lparr>ra_reason = ''cost'', ra_note = None\<rparr> ex_recorded)"
  "\<not> isl (update_gap_route ex_editor (Some ''2'') 23 ex_fixing ex_asked)"
  "\<not> isl (approve_risk_acceptance_route 1 ex_approver 23 ex_moved)"
  by code_simp+

lemma ex_steps: "gap_step ex_register ex_recorded" "gap_step ex_recorded ex_asked" "gap_step ex_asked ex_moved" "gap_step ex_moved ex_accepted"
  using gap_step.recorded [OF gap_answered [OF ex_gap_answers(1)]] gap_step.requested [OF gap_answered [OF ex_gap_answers(2)]]
    gap_step.amended [OF gap_answered [OF ex_gap_answers(3)]] gap_step.approved [OF gap_answered [OF ex_gap_answers(4)]]
  by (simp_all only: ex_recorded_def ex_asked_def ex_moved_def ex_accepted_def)

lemma ex_runs: "gap_step\<^sup>*\<^sup>* ex_register ex_asked" "gap_step\<^sup>*\<^sup>* ex_register ex_accepted"
  using ex_steps by (meson r_into_rtranclp rtranclp.rtrancl_into_rtrancl)+

lemma ex_facts:
  "length (gr_gaps ex_asked) = 1" "map gp_requested_by (gr_gaps ex_asked) = [Some 1]" "map gp_id (gr_gaps ex_asked) = [23]"
  "length (gr_gaps ex_accepted) = 1" "map gp_accepted_by (gr_gaps ex_accepted) = [Some 2]"
  "map gp_requested_by (gr_gaps ex_moved) = [Some 1]" "map gp_id (gr_gaps ex_moved) = [23]"
  "map gp_requested_by (gr_gaps ex_accepted) = [Some 1]" "map gp_id (gr_gaps ex_accepted) = [23]"
  by code_simp+

section \<open>Four eyes\<close>

lemma approval_of_answered:
  assumes "approval_of h s t"
  shows "\<exists>freshness p g assertion. approve_risk_acceptance_route freshness p (gp_id h) s = Inr (g, t) \<and>
    gp_accepted_by h = Some (p_subject p) \<and> has_permission p RISK_ACCEPT_APPROVE \<and> enforce_step_up freshness p (gr_db s) = Inr assertion \<and>
    same_acceptance g h \<and> same_request g h"
proof -
  from assms obtain freshness p g where a: "approve_risk_acceptance_route freshness p (gp_id h) s = Inr (g, t)"
    "gp_accepted_by h = Some (p_subject p)" "same_acceptance g h" "same_request g h" by (auto simp: approval_of_def)
  moreover from a(1) obtain assertion where "has_permission p RISK_ACCEPT_APPROVE" "enforce_step_up freshness p (gr_db s) = Inr assertion"
    by (auto simp: approve_risk_acceptance_route_def requires_permission_def inr_simps split: if_splits)
  ultimately show ?thesis by blast
qed

lemma accepted_gap_ok:
  assumes "gap_init s0" and "gap_step\<^sup>*\<^sup>* s0 s" and "h \<in> set (gr_gaps s)"
  shows "gap_ok (kinds s) h"
  using gap_sys.inv_reachable [OF assms(1,2)] assms(3) by (simp add: gaps_ok_def)


abbreviation "ex_gap \<equiv> hd (gr_gaps ex_accepted)"



lemma ex_asked_run: "(while_asked 23)\<^sup>*\<^sup>* ex_asked ex_accepted"
proof -
  have asked: "still_asked 23 s" if "map gp_requested_by (gr_gaps s) = [Some 1]" "map gp_id (gr_gaps s) = [23]" for s
    using that by (auto simp: still_asked_def)
  have "while_asked 23 ex_asked ex_moved" "while_asked 23 ex_moved ex_accepted"
    using ex_steps(3,4) asked ex_facts by (simp_all add: while_asked_def)
  then show ?thesis by (meson r_into_rtranclp rtranclp.rtrancl_into_rtrancl)
qed


end
