(* ===== verification/Reminders.thy ===== *)
theory Reminders
  imports Escalation Calendar
begin

text \<open>
  Reminders before and after a due date, and the mails that follow them: \<^verbatim>\<open>backend/apps/collab/reminders.py\<close>,
  the context and the queueing of a mail (\<^verbatim>\<open>collab/mail.py\<close>), its delivery and the hourly beat
  (\<^verbatim>\<open>collab/tasks.py\<close>), \<^verbatim>\<open>week_of\<close> of \<^verbatim>\<open>collab/digest.py\<close>.  Time zones and the text of a mail are parameters; the
  lock that makes overlapping runs wait is the order of the steps.
\<close>

section \<open>Rows and settings\<close>

datatype mail_template = M_DUE_SOON | M_OVERDUE | M_REVIEW_DUE | M_ESCALATION | M_WEEKLY_DIGEST

fun template_value :: "mail_template \<Rightarrow> string" where
  "template_value M_DUE_SOON = ''due_soon''"
| "template_value M_OVERDUE = ''overdue''"
| "template_value M_REVIEW_DUE = ''review_due''"
| "template_value M_ESCALATION = ''escalation''"
| "template_value M_WEEKLY_DIGEST = ''weekly_digest''"

text \<open>\<^verbatim>\<open>NotificationKind(template)\<close>\<close>

fun template_kind :: "mail_template \<Rightarrow> notification_kind option" where
  "template_kind M_DUE_SOON = Some DUE_SOON"
| "template_kind M_OVERDUE = Some OVERDUE"
| "template_kind M_REVIEW_DUE = Some REVIEW_DUE"
| "template_kind M_ESCALATION = Some ESCALATION"
| "template_kind M_WEEKLY_DIGEST = None"

record mail_context =
  mc_title :: "string option"
  mc_date :: "day option"
  mc_count :: "nat option"
  mc_name :: "string option"
  mc_link :: "string option"

datatype email_status = MAIL_QUEUED | MAIL_SENT | MAIL_DELIVERED | MAIL_BOUNCED | MAIL_FAILED

fun email_status_value :: "email_status \<Rightarrow> string" where
  "email_status_value MAIL_QUEUED = ''queued''"
| "email_status_value MAIL_SENT = ''sent''"
| "email_status_value MAIL_DELIVERED = ''delivered''"
| "email_status_value MAIL_BOUNCED = ''bounced''"
| "email_status_value MAIL_FAILED = ''failed''"

text \<open>The unique key of a mail: bank, person, template, record, day.\<close>

record mail_key =
  mk_tenant :: uuid
  mk_user :: uuid
  mk_template :: mail_template
  mk_subject_type :: "string option"
  mk_subject_id :: "uuid option"
  mk_sent_on :: day

record email_message =
  em_id :: uuid
  em_key :: mail_key
  em_to :: string
  em_subject :: string
  em_status :: email_status
  em_sent_at :: "instant option"
  em_error :: string

text \<open>The arguments of \<^verbatim>\<open>deliver_mail\<close>.\<close>

record queued_mail =
  qm_tenant :: uuid
  qm_user :: uuid
  qm_template :: mail_template
  qm_context :: mail_context
  qm_subject_type :: "string option"
  qm_subject_id :: "uuid option"

text \<open>When a register entry, or its row for a legal entity, is reviewed next, and by whom.  The entry itself is in
  \<open>db_tenant_obligations\<close>.\<close>

record review_columns =
  rw_entry :: uuid
  rw_next_review :: "day option"
  rw_owner :: "uuid option"
  rw_team :: "uuid option"

record lead_days =
  ld_reminder :: "nat list"
  ld_review :: "nat list"

text \<open>The clock of a bank: its local hour and date at an instant, and the instant of a local day and hour.\<close>

record bank_clock =
  bk_send_hour :: nat
  bk_hour :: "uuid \<Rightarrow> instant \<Rightarrow> nat"
  bk_at :: "uuid \<Rightarrow> day \<Rightarrow> nat \<Rightarrow> instant"
  bk_date :: "uuid \<Rightarrow> instant \<Rightarrow> day"
  bk_base_url :: string

text \<open>\<open>rm_created\<close> and \<open>rm_emailed\<close>: the columns \<^verbatim>\<open>created_at\<close> and \<^verbatim>\<open>emailed_at\<close> of the notifications.  \<open>rm_queue\<close>: the mails
  handed on when the transaction commits.  \<open>rm_relayed\<close>: what the relay took.\<close>

record reminder_state =
  rm_db :: db
  rm_org :: organisation
  rm_leads :: "(uuid \<times> lead_days) list"
  rm_entries :: "review_columns list"
  rm_scopes :: "review_columns list"
  rm_created :: "(uuid \<times> instant) list"
  rm_emailed :: "(uuid \<times> instant) list"
  rm_mails :: "email_message list"
  rm_queue :: "queued_mail list"
  rm_relayed :: "(mail_key \<times> string \<times> string \<times> string) list"

abbreviation rm_today :: "uuid \<Rightarrow> reminder_state \<Rightarrow> day" where
  "rm_today tenant s \<equiv> today_for tenant (rm_db s)"

abbreviation rm_now :: "reminder_state \<Rightarrow> instant" where
  "rm_now s \<equiv> db_now (rm_db s)"

definition leads_of :: "uuid \<Rightarrow> reminder_state \<Rightarrow> lead_days" where
  "leads_of tenant s = (case map_of (rm_leads s) tenant of None \<Rightarrow> \<lparr>ld_reminder = [], ld_review = []\<rparr> | Some l \<Rightarrow> l)"

section \<open>What a mail says\<close>

text \<open>\<^verbatim>\<open>" ".join(value.split())\<close>\<close>

fun space_words :: "string \<Rightarrow> string \<Rightarrow> string list" where
  "space_words w [] = (if w = [] then [] else [rev w])"
| "space_words w (c # cs) =
    (if is_space (of_char c) then (if w = [] then space_words [] cs else rev w # space_words [] cs)
     else space_words (c # w) cs)"

fun join_words :: "string list \<Rightarrow> string" where
  "join_words [] = []"
| "join_words [w] = w"
| "join_words (w # ws) = w @ '' '' @ join_words ws"

definition fold_line :: "string \<Rightarrow> string" where
  "fold_line t = join_words (space_words [] t)"

definition strip_slashes :: "string \<Rightarrow> string" where
  "strip_slashes u = rev (dropWhile (\<lambda>c. c = CHR ''/'') (rev u))"

definition page_link :: "bank_clock \<Rightarrow> string \<Rightarrow> string" where
  "page_link bk path = strip_slashes (bk_base_url bk) @ ''/'' @ path"

text \<open>The context of a reminder, folded as it is made; its title may come later.\<close>

definition reminder_context :: "string option \<Rightarrow> day \<Rightarrow> string \<Rightarrow> mail_context" where
  "reminder_context title date page =
    \<lparr>mc_title = map_option fold_line title, mc_date = Some date, mc_count = None, mc_name = None, mc_link = Some page\<rparr>"

section \<open>What is due\<close>

text \<open>\<^verbatim>\<open>_already\<close>: a mail sent on the bank's day, or a notification written since its midnight.\<close>

definition already :: "bank_clock \<Rightarrow> uuid \<Rightarrow> string \<Rightarrow> reminder_state \<Rightarrow> mail_template \<Rightarrow> uuid \<Rightarrow> bool" where
  "already bk tenant subject_type s template i \<longleftrightarrow>
    (\<exists>e\<in>set (rm_mails s). mk_tenant (em_key e) = tenant \<and> mk_sent_on (em_key e) = rm_today tenant s \<and>
      mk_subject_type (em_key e) = Some subject_type \<and> mk_subject_id (em_key e) = Some i \<and> mk_template (em_key e) = template) \<or>
    (\<exists>n\<in>set (db_notifications (rm_db s)). n_tenant n = tenant \<and> n_subject_type n = subject_type \<and> n_subject_id n = i \<and>
      n_kind n = template_value template \<and>
      (\<exists>(k, t)\<in>set (rm_created s). k = n_id n \<and> bk_at bk tenant (rm_today tenant s) 0 \<le> t))"

text \<open>One reminder that is owed, before anybody is told.\<close>

record due_reminder =
  du_template :: mail_template
  du_type :: string
  du_id :: uuid
  du_candidates :: "(uuid \<times> string) list"
  du_context :: mail_context

definition team_members :: "organisation \<Rightarrow> uuid \<Rightarrow> uuid \<Rightarrow> uuid list" where
  "team_members og tenant team = map (\<lambda>(_, _, u). u) (filter (\<lambda>(t, k, _). t = tenant \<and> k = team) (og_team_members og))"

definition in_team :: "organisation \<Rightarrow> uuid \<Rightarrow> uuid list \<Rightarrow> (uuid \<times> string) list" where
  "in_team og tenant teams = concat (map (\<lambda>team. map (\<lambda>u. (u, ''team'')) (team_members og tenant team)) teams)"

subsection \<open>Triage\<close>

definition send_moment :: "bank_clock \<Rightarrow> uuid \<Rightarrow> day \<Rightarrow> instant" where
  "send_moment bk tenant day = bk_at bk tenant day (bk_send_hour bk)"

definition triage_due :: "bank_clock \<Rightarrow> uuid \<Rightarrow> reminder_state \<Rightarrow> change_case \<Rightarrow> bool" where
  "triage_due bk tenant s c \<longleftrightarrow> c_tenant c = tenant \<and> c_status c = NEW \<and>
    (case c_triage_due_at c of None \<Rightarrow> False
     | Some due \<Rightarrow>
         (send_moment bk tenant (rm_today tenant s - 1) < due \<and> due \<le> send_moment bk tenant (rm_today tenant s)) \<or>
         (\<exists>lead\<in>set (ld_reminder (leads_of tenant s)). bk_at bk tenant (rm_today tenant s + int lead) 0 \<le> due \<and>
           due < bk_at bk tenant (rm_today tenant s + int lead + 1) 0))"

definition triagers :: "uuid \<Rightarrow> db \<Rightarrow> (uuid \<times> string) list" where
  "triagers tenant d = map (\<lambda>u. (u, ''triage''))
    (remdups (map m_user (filter (\<lambda>m. m_tenant m = tenant \<and> active_member m \<and> holds_permission m CASES_TRIAGE) (db_members d))))"

definition triage_reminder :: "bank_clock \<Rightarrow> uuid \<Rightarrow> reminder_state \<Rightarrow> change_case \<Rightarrow> due_reminder" where
  "triage_reminder bk tenant s c =
    (let due = the (c_triage_due_at c) in
     \<lparr>du_template = (if due \<le> send_moment bk tenant (rm_today tenant s) then M_OVERDUE else M_DUE_SOON), du_type = ''change_case'',
      du_id = c_id c, du_candidates = triagers tenant (rm_db s),
      du_context = reminder_context (Some (change_title (rm_db s) (c_change c))) (bk_date bk tenant due)
        (page_link bk (''watch/'' @ show_nat (c_change c)))\<rparr>)"

text \<open>The reminders not sent yet today.\<close>

definition outstanding :: "bank_clock \<Rightarrow> uuid \<Rightarrow> reminder_state \<Rightarrow> due_reminder list \<Rightarrow> due_reminder list" where
  "outstanding bk tenant s = filter (\<lambda>u. \<not> already bk tenant (du_type u) s (du_template u) (du_id u))"

definition triage_reminders :: "bank_clock \<Rightarrow> uuid \<Rightarrow> reminder_state \<Rightarrow> due_reminder list" where
  "triage_reminders bk tenant s = outstanding bk tenant s
    (map (triage_reminder bk tenant s) (sort_key c_id (filter (triage_due bk tenant s) (db_cases (rm_db s)))))"

subsection \<open>Actions\<close>

definition action_due :: "uuid \<Rightarrow> reminder_state \<Rightarrow> case_action \<Rightarrow> bool" where
  "action_due tenant s a \<longleftrightarrow> a_tenant a = tenant \<and> a_done_at a = None \<and> a_removed_at a = None \<and>
    (a_due_date a = rm_today tenant s - 1 \<or> (\<exists>lead\<in>set (ld_reminder (leads_of tenant s)). a_due_date a = rm_today tenant s + int lead))"

definition action_reminder :: "bank_clock \<Rightarrow> uuid \<Rightarrow> reminder_state \<Rightarrow> case_action \<Rightarrow> due_reminder" where
  "action_reminder bk tenant s a =
    \<lparr>du_template = (if a_due_date a = rm_today tenant s - 1 then M_OVERDUE else M_DUE_SOON), du_type = ''action'', du_id = a_id a,
     du_candidates = (a_owner a, ''owner'') # in_team (rm_org s) tenant (owner_teams (rm_org s) tenant (a_owner a)),
     du_context = reminder_context (Some (action_title a (rm_db s))) (a_due_date a)
       (page_link bk (''watch/'' @ show_nat (case find (\<lambda>c. c_id c = a_case a) (db_cases (rm_db s)) of None \<Rightarrow> 0 | Some c \<Rightarrow> c_change c)))\<rparr>"

definition action_reminders :: "bank_clock \<Rightarrow> uuid \<Rightarrow> reminder_state \<Rightarrow> due_reminder list" where
  "action_reminders bk tenant s = outstanding bk tenant s
    (map (action_reminder bk tenant s) (sort_key a_id (filter (action_due tenant s) (db_actions (rm_db s)))))"

subsection \<open>Reviews\<close>

text \<open>The bank's entries and entity rows whose review is due on a lead day, entries first.\<close>

definition review_rows :: "uuid \<Rightarrow> reminder_state \<Rightarrow> (uuid \<times> uuid \<times> day \<times> uuid option \<times> uuid option) list" where
  "review_rows tenant s =
    List.map_filter (\<lambda>r.
      case (find (\<lambda>(k, _). k = rw_entry r) (db_tenant_obligations (rm_db s)), rw_next_review r) of
        (Some (k, t, ob), Some day) \<Rightarrow>
          if t = tenant \<and> (\<exists>lead\<in>set (ld_review (leads_of tenant s)). day = rm_today tenant s + int lead)
          then Some (rw_entry r, ob, day, rw_owner r, rw_team r) else None
      | _ \<Rightarrow> None) (rm_entries s @ rm_scopes s)"

definition review_reminder ::
    "bank_clock \<Rightarrow> uuid \<Rightarrow> reminder_state \<Rightarrow> (uuid \<times> uuid \<times> day \<times> uuid option \<times> uuid option) list \<Rightarrow> uuid \<Rightarrow> due_reminder" where
  "review_reminder bk tenant s rows i =
    (let own = filter (\<lambda>(k, _). k = i) rows;
         people = remdups (List.map_filter (\<lambda>(_, _, _, owner, _). owner) own);
         teams = remdups (List.map_filter (\<lambda>(_, _, _, _, team). team) own);
         obligation = (case own of [] \<Rightarrow> 0 | r # rs \<Rightarrow> fst (snd (last (r # rs))));
         day = (case own of [] \<Rightarrow> 0 | r # rs \<Rightarrow> Min (set (map (\<lambda>(_, _, day, _). day) (r # rs))))
     in \<lparr>du_template = M_REVIEW_DUE, du_type = ''tenant_obligation'', du_id = i,
         du_candidates = map (\<lambda>u. (u, ''owner'')) people @ in_team (rm_org s) tenant teams,
         du_context = reminder_context None day (page_link bk (''inventory/obligations/'' @ show_nat obligation))\<rparr>)"

definition review_reminders :: "bank_clock \<Rightarrow> uuid \<Rightarrow> reminder_state \<Rightarrow> due_reminder list" where
  "review_reminders bk tenant s =
    (let rows = review_rows tenant s in
     outstanding bk tenant s (map (review_reminder bk tenant s rows) (sort (remdups (map fst rows)))))"

section \<open>Telling\<close>

type_synonym sending = "notification \<times> mail_template \<times> mail_context"

text \<open>\<^verbatim>\<open>_notify\<close> for each in turn.\<close>

fun notify_each :: "uuid \<Rightarrow> due_reminder list \<Rightarrow> reminder_state \<Rightarrow> error + sending list \<times> reminder_state" where
  "notify_each tenant [] s = Inr ([], s)"
| "notify_each tenant (u # us) s =
    ebind (or_else (template_kind (du_template u)) Server_error) (\<lambda>kind.
    ebind (notify tenant kind (du_type u) (du_id u) (du_candidates u) None (rm_db s)) (\<lambda>(d1, rows).
    ebind (notify_each tenant us (s\<lparr>rm_db := d1, rm_created := rm_created s @ map (\<lambda>n. (n_id n, rm_now s)) rows\<rparr>)) (\<lambda>(more, s2).
    Inr (map (\<lambda>n. (n, du_template u, du_context u)) rows @ more, s2))))"

text \<open>\<^verbatim>\<open>mail.send\<close>, for each in turn; a context without a title takes the one the person's notification has.\<close>

fun queue_mails :: "uuid \<Rightarrow> sending list \<Rightarrow> db \<Rightarrow> error + queued_mail list" where
  "queue_mails tenant [] d = Inr []"
| "queue_mails tenant ((n, template, context) # xs) d =
    ebind (or_else (find (\<lambda>m. m_tenant m = tenant \<and> m_user m = n_user n) (db_members d)) Server_error) (\<lambda>m.
    ebind (queue_mails tenant xs d) (\<lambda>more.
    Inr (\<lparr>qm_tenant = tenant, qm_user = n_user n, qm_template = template,
          qm_context = (if mc_title context = None then context\<lparr>mc_title := Some (fold_line (n_title n))\<rparr> else context),
          qm_subject_type = Some (n_subject_type n), qm_subject_id = Some (n_subject_id n)\<rparr> # more)))"

definition send_mails :: "uuid \<Rightarrow> sending list \<Rightarrow> reminder_state \<Rightarrow> error + reminder_state" where
  "send_mails tenant sends s = ebind (queue_mails tenant sends (rm_db s)) (\<lambda>qs.
    Inr (s\<lparr>rm_queue := rm_queue s @ qs, rm_emailed := rm_emailed s @ map (\<lambda>(n, _). (n_id n, rm_now s)) sends\<rparr>))"

definition send_reminders :: "bank_clock \<Rightarrow> uuid \<Rightarrow> reminder_state \<Rightarrow> error + notification list \<times> reminder_state" where
  "send_reminders bk tenant s =
    ebind (notify_each tenant (triage_reminders bk tenant s) s) (\<lambda>(x1, s1).
    ebind (notify_each tenant (action_reminders bk tenant s1) s1) (\<lambda>(x2, s2).
    ebind (notify_each tenant (review_reminders bk tenant s2) s2) (\<lambda>(x3, s3).
    ebind (send_mails tenant (x1 @ x2 @ x3) s3) (\<lambda>s4.
    Inr (map fst (x1 @ x2 @ x3), s4)))))"

text \<open>\<^verbatim>\<open>tenants_at_send_hour\<close>: whom the hourly beat hands on.\<close>

definition tenants_at_send_hour :: "bank_clock \<Rightarrow> instant \<Rightarrow> db \<Rightarrow> uuid list" where
  "tenants_at_send_hour bk now d =
    sort (map tn_id (filter (\<lambda>t. tn_active t \<and> bk_hour bk (tn_id t) now = bk_send_hour bk) (db_tenants d)))"

section \<open>Delivering a mail\<close>

text \<open>The text of a mail (receiver, subject and body), and of a digest, which may have nothing to say.\<close>

record mail_settings =
  ml_compose :: "membership \<Rightarrow> mail_template \<Rightarrow> mail_context \<Rightarrow> string \<times> string \<times> string"
  ml_digest :: "membership \<Rightarrow> db \<Rightarrow> (string \<times> string \<times> string) option"

definition week_of :: "day \<Rightarrow> day" where
  "week_of day = day - weekday day"

definition unsent :: "email_status \<Rightarrow> bool" where
  "unsent st \<longleftrightarrow> st = MAIL_QUEUED \<or> st = MAIL_FAILED"

text \<open>Insert the day's row unless it is there.\<close>

definition ensure_mail :: "mail_key \<Rightarrow> string \<Rightarrow> string \<Rightarrow> reminder_state \<Rightarrow> email_message \<times> reminder_state" where
  "ensure_mail k receiver subj s =
    (case find (\<lambda>e. em_key e = k) (rm_mails s) of
       Some e \<Rightarrow> (e, s)
     | None \<Rightarrow>
         (let e = \<lparr>em_id = db_next (rm_db s), em_key = k, em_to = receiver, em_subject = subj, em_status = MAIL_QUEUED,
                   em_sent_at = None, em_error = []\<rparr>
          in (e, s\<lparr>rm_db := (rm_db s)\<lparr>db_next := Suc (db_next (rm_db s))\<rparr>, rm_mails := rm_mails s @ [e]\<rparr>)))"

definition mail_entry :: "email_message \<Rightarrow> audit_entry" where
  "mail_entry e =
    entry (''mail.'' @ email_status_value (em_status e)) (system_actor ''collab mail'') ''email_message'' (Some (em_id e))
      (template_value (mk_template (em_key e)))
      (''A '' @ template_value (mk_template (em_key e)) @ '' mail to a member was '' @ email_status_value (em_status e) @ ''.'')
      (Some (mk_tenant (em_key e))) []
      [(''template'', JStr (template_value (mk_template (em_key e)))), (''status'', JStr (email_status_value (em_status e))),
       (''userId'', JId (mk_user (em_key e))), (''sentOn'', JDay (mk_sent_on (em_key e)))]"

text \<open>What a mail says and on which day it counts as sent; \<open>None\<close>: nothing to send.\<close>

definition composed :: "mail_settings \<Rightarrow> queued_mail \<Rightarrow> membership \<Rightarrow> reminder_state \<Rightarrow> ((string \<times> string \<times> string) \<times> day) option" where
  "composed ms q m s =
    (if qm_template q = M_WEEKLY_DIGEST
     then map_option (\<lambda>out. (out, week_of (rm_today (qm_tenant q) s))) (ml_digest ms m (rm_db s))
     else Some (ml_compose ms m (qm_template q) (qm_context q), rm_today (qm_tenant q) s))"

text \<open>\<open>refusal\<close>: the kind of the relay's error, if it refuses.\<close>

definition deliver_mail :: "mail_settings \<Rightarrow> queued_mail \<Rightarrow> string option \<Rightarrow> reminder_state \<Rightarrow> reminder_state" where
  "deliver_mail ms q refusal s =
    (case find (\<lambda>m. m_tenant m = qm_tenant q \<and> m_user m = qm_user q \<and> active_member m) (db_members (rm_db s)) of
       None \<Rightarrow> s
     | Some m \<Rightarrow>
         (case composed ms q m s of
            None \<Rightarrow> s
          | Some ((receiver, subj, body), day) \<Rightarrow>
              (let k = \<lparr>mk_tenant = qm_tenant q, mk_user = qm_user q, mk_template = qm_template q,
                        mk_subject_type = qm_subject_type q, mk_subject_id = qm_subject_id q, mk_sent_on = day\<rparr>;
                   (e, s1) = ensure_mail k receiver subj s in
               if \<not> unsent (em_status e) then s1
               else let e1 = (case refusal of
                                Some kind \<Rightarrow> e\<lparr>em_to := receiver, em_subject := subj, em_status := MAIL_FAILED, em_error := kind\<rparr>
                              | None \<Rightarrow> e\<lparr>em_to := receiver, em_subject := subj, em_status := MAIL_SENT, em_error := [],
                                          em_sent_at := Some (rm_now s)\<rparr>);
                        s2 = s1\<lparr>rm_mails := put_row em_id e1 (rm_mails s1)\<rparr>;
                        s3 = (if refusal = None then s2\<lparr>rm_relayed := rm_relayed s2 @ [(k, receiver, subj, body)]\<rparr> else s2)
                    in s3\<lparr>rm_db := record_event (mail_entry e1) (rm_db s3)\<rparr>)))"

end
