(* ===== verification/Reminder_Laws.thy ===== *)
theory Reminder_Laws
  imports Reminders
begin

text \<open>
  What a run of the reminders does to the database, where its notifications come from, that it is always answered, and
  the mails as a system in which no key reaches the relay twice.
\<close>

section \<open>A run only tells\<close>

lemma template_kind_value: "template_kind tm = Some k \<Longrightarrow> kind_value k = template_value tm"
  by (cases tm) auto

lemma template_value_inj [simp]: "template_value a = template_value b \<longleftrightarrow> a = b"
  by (cases a; cases b) auto

definition only_told :: "reminder_state \<Rightarrow> reminder_state \<Rightarrow> bool" where
  "only_told s t \<longleftrightarrow> (\<exists>n ns cs. t = s\<lparr>rm_db := (rm_db s)\<lparr>db_next := db_next (rm_db s) + n,
     db_notifications := db_notifications (rm_db s) @ ns\<rparr>, rm_created := rm_created s @ cs\<rparr>)"

lemma only_told_facts:
  assumes "only_told s t"
  shows "rm_today tenant t = rm_today tenant s" "rm_now t = rm_now s" "db_cases (rm_db t) = db_cases (rm_db s)"
    "db_actions (rm_db t) = db_actions (rm_db s)" "db_members (rm_db t) = db_members (rm_db s)" "rm_org t = rm_org s"
    "db_tenants (rm_db t) = db_tenants (rm_db s)" "leads_of tenant t = leads_of tenant s" "rm_mails t = rm_mails s"
    "rm_queue t = rm_queue s" "rm_relayed t = rm_relayed s" "db_next (rm_db s) \<le> db_next (rm_db t)"
    "set (db_notifications (rm_db s)) \<subseteq> set (db_notifications (rm_db t))" "set (rm_created s) \<subseteq> set (rm_created t)"
  using assms by (auto simp: only_told_def today_for_def leads_of_def)

lemma only_told_refl: "only_told s s"
  unfolding only_told_def by (rule exI [of _ 0], rule exI [of _ "[]"], rule exI [of _ "[]"]) simp

lemma only_told_trans: "only_told s t \<Longrightarrow> only_told t u \<Longrightarrow> only_told s u"
  unfolding only_told_def by (elim exE) (simp add: add.assoc, blast)

text \<open>A notification that tells of a reminder.\<close>

definition tells :: "uuid \<Rightarrow> due_reminder \<Rightarrow> notification \<Rightarrow> bool" where
  "tells tenant u n \<longleftrightarrow> n_tenant n = tenant \<and> n_kind n = template_value (du_template u) \<and> n_subject_type n = du_type u \<and>
    n_subject_id n = du_id u"

lemma written_rows:
  assumes "notify tenant k st si cs ac d = Inr (d1, rows)"
  shows "db_notifications d1 = db_notifications d @ rows"
    and "n \<in> set rows \<Longrightarrow> n_tenant n = tenant \<and> n_kind n = kind_value k \<and> n_subject_type n = st \<and> n_subject_id n = si"
  using assms
  by (auto simp: notify_def Let_def inr_simps notification_row_def set_zip split: option.splits if_splits prod.splits)

text \<open>What was told, and when.\<close>

definition told :: "uuid \<Rightarrow> due_reminder list \<Rightarrow> sending list \<Rightarrow> instant \<Rightarrow> reminder_state \<Rightarrow> bool" where
  "told tenant us xs now t \<longleftrightarrow> (\<forall>n\<in>fst ` set xs. (\<exists>u\<in>set us. tells tenant u n) \<and> n \<in> set (db_notifications (rm_db t)) \<and>
    (n_id n, now) \<in> set (rm_created t))"

lemma told_later: "told tenant us xs now s \<Longrightarrow> only_told s t \<Longrightarrow> told tenant us xs now t"
  using only_told_facts(13,14) unfolding told_def by blast

lemma notify_each_tells:
  "notify_each tenant us s = Inr (xs, t) \<Longrightarrow> only_told s t \<and> told tenant us xs (rm_now s) t"
proof (induction us arbitrary: s xs)
  case Nil
  then show ?case by (simp add: only_told_refl told_def)
next
  case (Cons u us)
  from Cons.prems obtain k d1 rows more where k: "template_kind (du_template u) = Some k"
    and n: "notify tenant k (du_type u) (du_id u) (du_candidates u) None (rm_db s) = Inr (d1, rows)"
    and rest: "notify_each tenant us (s\<lparr>rm_db := d1, rm_created := rm_created s @ map (\<lambda>n. (n_id n, rm_now s)) rows\<rparr>) = Inr (more, t)"
    and xs: "xs = map (\<lambda>n. (n, du_template u, du_context u)) rows @ more"
    by (auto simp: inr_simps)
  let ?m = "s\<lparr>rm_db := d1, rm_created := rm_created s @ map (\<lambda>n. (n_id n, rm_now s)) rows\<rparr>"
  have first: "only_told s ?m"
    using notify_Inr_frame [OF n] unfolding only_told_def by auto
  have now: "rm_now ?m = rm_now s" using only_told_facts(2) [OF first] .
  note IH = Cons.IH [OF rest, unfolded now]
  have here: "tells tenant u r \<and> r \<in> set (db_notifications (rm_db t)) \<and> (r_id, rm_now s) \<in> set (rm_created t)"
    if "r \<in> set rows" "r_id = n_id r" for r r_id
  proof -
    have "tells tenant u r" using written_rows(2) [OF n that(1)] template_kind_value [OF k] by (simp add: tells_def)
    moreover have "r \<in> set (db_notifications (rm_db ?m))" using written_rows(1) [OF n] that(1) by simp
    moreover have "(r_id, rm_now s) \<in> set (rm_created ?m)" using that by simp
    ultimately show ?thesis using only_told_facts(13,14) IH by blast
  qed
  have "told tenant (u # us) xs (rm_now s) t"
    using IH here unfolding told_def xs by (auto simp: image_Un image_image)
  then show ?case using IH only_told_trans [OF first] by blast
qed

text \<open>New rows have new keys.\<close>

lemma written_ids: "notify tenant k st si cs ac d = Inr (d1, rows) \<Longrightarrow> n \<in> set rows \<Longrightarrow> db_next d \<le> n_id n"
  by (auto simp: notify_def Let_def inr_simps notification_row_def dest!: set_zip_leftD
      split: option.splits if_splits prod.splits)

lemma notify_each_new:
  "notify_each tenant us s = Inr (xs, t) \<Longrightarrow> set (db_notifications (rm_db t)) = set (db_notifications (rm_db s)) \<union> fst ` set xs \<and>
    (\<forall>x\<in>set (rm_created t). x \<in> set (rm_created s) \<or> db_next (rm_db s) \<le> fst x)"
proof (induction us arbitrary: s xs)
  case Nil
  then show ?case by simp
next
  case (Cons u us)
  from Cons.prems obtain k d1 rows more where
    n: "notify tenant k (du_type u) (du_id u) (du_candidates u) None (rm_db s) = Inr (d1, rows)"
    and rest: "notify_each tenant us (s\<lparr>rm_db := d1, rm_created := rm_created s @ map (\<lambda>n. (n_id n, rm_now s)) rows\<rparr>) = Inr (more, t)"
    and xs: "xs = map (\<lambda>n. (n, du_template u, du_context u)) rows @ more"
    by (auto simp: inr_simps)
  let ?m = "s\<lparr>rm_db := d1, rm_created := rm_created s @ map (\<lambda>n. (n_id n, rm_now s)) rows\<rparr>"
  note IH = Cons.IH [OF rest]
  have next_id: "db_next (rm_db s) \<le> db_next (rm_db ?m)" using notify_frame [OF n] by simp
  have "set (db_notifications (rm_db t)) = set (db_notifications (rm_db s)) \<union> fst ` set xs"
    using conjunct1 [OF IH] written_rows(1) [OF n] by (simp add: xs image_Un image_image Un_assoc)
  moreover have "x \<in> set (rm_created s) \<or> db_next (rm_db s) \<le> fst x" if "x \<in> set (rm_created t)" for x
  proof (cases "x \<in> set (rm_created ?m)")
    case True
    then show ?thesis using written_ids [OF n] by auto
  next
    case False
    then have "db_next (rm_db ?m) \<le> fst x" using bspec [OF conjunct2 [OF IH] that] by blast
    then show ?thesis using next_id by linarith
  qed
  ultimately show ?case by blast
qed

section \<open>Where the notifications of a run come from\<close>

lemma outstanding_are: "u \<in> set (outstanding bk tenant s us) \<longleftrightarrow> u \<in> set us \<and> \<not> already bk tenant (du_type u) s (du_template u) (du_id u)"
  by (auto simp: outstanding_def)

abbreviation all_reminders :: "bank_clock \<Rightarrow> uuid \<Rightarrow> reminder_state \<Rightarrow> due_reminder list" where
  "all_reminders bk tenant s \<equiv> triage_reminders bk tenant s @ action_reminders bk tenant s @ review_reminders bk tenant s"

lemma send_mails_frame:
  "send_mails tenant xs s = Inr t \<Longrightarrow> \<exists>q e. t = s\<lparr>rm_queue := rm_queue s @ q, rm_emailed := rm_emailed s @ e\<rparr>"
  by (auto simp: send_mails_def inr_simps)

lemma send_reminders_rows:
  assumes run: "send_reminders bk tenant s = Inr (rows, t)"
  shows "n \<in> set rows \<Longrightarrow> \<exists>r u. only_told s r \<and> u \<in> set (all_reminders bk tenant r) \<and> tells tenant u n"
    and "n \<in> set rows \<Longrightarrow> n \<in> set (db_notifications (rm_db t)) \<and> (n_id n, rm_now s) \<in> set (rm_created t)"
proof -
  from run obtain x1 s1 x2 s2 x3 s3 where
    b: "notify_each tenant (triage_reminders bk tenant s) s = Inr (x1, s1)"
    "notify_each tenant (action_reminders bk tenant s1) s1 = Inr (x2, s2)"
    "notify_each tenant (review_reminders bk tenant s2) s2 = Inr (x3, s3)"
    and m: "send_mails tenant (x1 @ x2 @ x3) s3 = Inr t" and rows: "rows = map fst (x1 @ x2 @ x3)"
    by (auto simp: send_reminders_def inr_simps)
  note e1 = notify_each_tells [OF b(1)] and e2 = notify_each_tells [OF b(2)] and e3 = notify_each_tells [OF b(3)]
  have o2: "only_told s s2" using e1 e2 only_told_trans by blast
  have now: "rm_now s1 = rm_now s" "rm_now s2 = rm_now s" using only_told_facts(2) e1 o2 by blast+
  assume n: "n \<in> set rows"
  then consider "n \<in> fst ` set x1" | "n \<in> fst ` set x2" | "n \<in> fst ` set x3" by (auto simp: rows)
  then show "\<exists>r u. only_told s r \<and> u \<in> set (all_reminders bk tenant r) \<and> tells tenant u n"
  proof cases
    case 1
    then obtain u where "u \<in> set (triage_reminders bk tenant s)" "tells tenant u n" using e1 unfolding told_def by blast
    then show ?thesis using only_told_refl by (intro exI [of _ s] exI [of _ u]) simp
  next
    case 2
    then obtain u where "u \<in> set (action_reminders bk tenant s1)" "tells tenant u n" using e2 unfolding told_def by blast
    then show ?thesis using e1 by (intro exI [of _ s1] exI [of _ u]) simp
  next
    case 3
    then obtain u where "u \<in> set (review_reminders bk tenant s2)" "tells tenant u n" using e3 unfolding told_def by blast
    then show ?thesis using o2 by (intro exI [of _ s2] exI [of _ u]) simp
  qed
  have "told tenant (triage_reminders bk tenant s) x1 (rm_now s) s3" "told tenant (action_reminders bk tenant s1) x2 (rm_now s) s3"
    "told tenant (review_reminders bk tenant s2) x3 (rm_now s) s3"
    using e1 e2 e3 told_later only_told_trans unfolding now by blast+
  then have "n \<in> set (db_notifications (rm_db s3)) \<and> (n_id n, rm_now s) \<in> set (rm_created s3)"
    using n unfolding told_def rows by auto
  then show "n \<in> set (db_notifications (rm_db t)) \<and> (n_id n, rm_now s) \<in> set (rm_created t)"
    using send_mails_frame [OF m] by auto
qed

section \<open>A run is answered, and tells everybody who is to be told\<close>

lemma written_users:
  assumes n: "notify tenant k st si cs ac d = Inr (d1, rows)" and sub: "map_of SUBJECTS st = Some (perm, lookup)"
    and l: "lookup d tenant si = Some title" and cs: "cs \<noteq> []"
  shows "n_user ` set rows = fst ` set (recipients_of tenant k perm (remdups (map fst cs)) ac d)"
proof -
  let ?R = "recipients_of tenant k perm (remdups (map fst cs)) ac d"
  have "remdups (map fst cs) \<noteq> []" using cs by simp
  then obtain ids where rows: "rows = map2 (notification_row tenant k st si title) ids (sort_key fst ?R)" "length ids = length ?R"
    using n sub l by (auto simp: notify_def subject_def Let_def inr_simps split: if_splits)
  have "n_user ` set rows = set (map n_user rows)" by simp
  also have "map n_user rows = map fst (sort_key fst ?R)"
    by (rule nth_equalityI) (auto simp: rows notification_row_def split: prod.splits)
  finally show ?thesis by simp
qed

lemma written_nobody: "notify tenant k st si cs ac d = Inr (d1, rows) \<Longrightarrow> map_of SUBJECTS st = Some (perm, lookup) \<Longrightarrow>
    lookup d tenant si = None \<or> cs = [] \<Longrightarrow> rows = []"
  by (auto simp: notify_def subject_def Let_def inr_simps split: if_splits option.splits)

definition in_bank :: "uuid \<Rightarrow> db \<Rightarrow> uuid \<Rightarrow> bool" where
  "in_bank tenant d u \<longleftrightarrow> (\<exists>m\<in>set (db_members d). m_tenant m = tenant \<and> m_user m = u)"

definition has_tenant :: "uuid \<Rightarrow> db \<Rightarrow> bool" where
  "has_tenant tenant d \<longleftrightarrow> find (\<lambda>t. tn_id t = tenant) (db_tenants d) \<noteq> None"

lemma notify_is_answered:
  assumes "map_of SUBJECTS st \<noteq> None" and "has_tenant tenant d"
  shows "\<exists>d1 rows. notify tenant k st si cs ac d = Inr (d1, rows) \<and> (\<forall>n\<in>set rows. in_bank tenant d (n_user n))"
proof -
  obtain perm lookup where sub: "map_of SUBJECTS st = Some (perm, lookup)" using assms(1) by auto
  have "\<exists>r. notify tenant k st si cs ac d = Inr r"
    using assms(2) sub by (auto simp: notify_def subject_def has_tenant_def Let_def split: option.split)
  then obtain d1 rows where n: "notify tenant k st si cs ac d = Inr (d1, rows)" by auto
  have "in_bank tenant d u" if "u \<in> n_user ` set rows" for u
  proof (cases "lookup d tenant si = None \<or> cs = []")
    case True
    then show ?thesis using written_nobody [OF n sub] that by simp
  next
    case False
    then obtain title where "lookup d tenant si = Some title" "cs \<noteq> []" by auto
    from written_users [OF n sub this] that
    have "u \<in> fst ` set (recipients_of tenant k perm (remdups (map fst cs)) ac d)" by simp
    then show ?thesis using recipients_ok [of d tenant perm k "remdups (map fst cs)" ac] by (fastforce simp: told_ok_def in_bank_def)
  qed
  then show ?thesis using n by blast
qed

definition well_typed :: "due_reminder \<Rightarrow> bool" where
  "well_typed u \<longleftrightarrow> template_kind (du_template u) \<noteq> None \<and> map_of SUBJECTS (du_type u) \<noteq> None"

lemma all_well_typed: "u \<in> set (all_reminders bk tenant s) \<Longrightarrow> well_typed u"
  by (auto simp: triage_reminders_def action_reminders_def review_reminders_def outstanding_are triage_reminder_def
      action_reminder_def review_reminder_def well_typed_def SUBJECTS_def Let_def)

lemma branches_well_typed:
  "\<forall>u\<in>set (triage_reminders bk tenant s). well_typed u" "\<forall>u\<in>set (action_reminders bk tenant s). well_typed u"
  "\<forall>u\<in>set (review_reminders bk tenant s). well_typed u"
  using all_well_typed [of _ bk tenant s] by simp_all

lemma notify_each_is_answered:
  "\<forall>u\<in>set us. well_typed u \<Longrightarrow> has_tenant tenant (rm_db s) \<Longrightarrow>
    \<exists>xs t. notify_each tenant us s = Inr (xs, t) \<and> (\<forall>n\<in>fst ` set xs. in_bank tenant (rm_db s) (n_user n))"
proof (induction us arbitrary: s)
  case Nil
  then show ?case by simp
next
  case (Cons u us)
  obtain k where k: "template_kind (du_template u) = Some k" using Cons.prems(1) by (auto simp: well_typed_def)
  obtain d1 rows where n: "notify tenant k (du_type u) (du_id u) (du_candidates u) None (rm_db s) = Inr (d1, rows)"
    and m: "\<forall>n\<in>set rows. in_bank tenant (rm_db s) (n_user n)"
    using notify_is_answered Cons.prems by (metis list.set_intros(1) well_typed_def)
  let ?m = "s\<lparr>rm_db := d1, rm_created := rm_created s @ map (\<lambda>n. (n_id n, rm_now s)) rows\<rparr>"
  have same: "has_tenant tenant (rm_db ?m)" "in_bank tenant (rm_db ?m) = in_bank tenant (rm_db s)"
    using notify_frame [OF n] Cons.prems(2) by (simp_all add: has_tenant_def in_bank_def fun_eq_iff)
  obtain xs t where "notify_each tenant us ?m = Inr (xs, t)" "\<forall>n\<in>fst ` set xs. in_bank tenant (rm_db s) (n_user n)"
    using Cons.IH [of ?m] Cons.prems(1) same by auto
  then show ?case using k n m by (auto simp: image_Un image_image)
qed

lemma queue_mails_is_answered:
  "\<forall>n\<in>fst ` set xs. in_bank tenant d (n_user n) \<Longrightarrow> \<exists>qs. queue_mails tenant xs d = Inr qs \<and>
    (\<forall>(n, tm, c)\<in>set xs. \<exists>q\<in>set qs. qm_user q = n_user n \<and> qm_template q = tm \<and> qm_subject_id q = Some (n_subject_id n))"
proof (induction xs)
  case Nil
  then show ?case by simp
next
  case (Cons x xs)
  obtain n tm c where x: "x = (n, tm, c)" by (cases x)
  obtain m where "find (\<lambda>m. m_tenant m = tenant \<and> m_user m = n_user n) (db_members d) = Some m"
    using Cons.prems by (cases "find (\<lambda>m. m_tenant m = tenant \<and> m_user m = n_user n) (db_members d)")
      (auto simp: x in_bank_def find_None_iff)
  then show ?case using Cons by (auto simp: x)
qed

text \<open>Who reads the subject of a reminder and keeps its kind on is told, or the delegate of the absence.\<close>

definition reached :: "db \<Rightarrow> uuid \<Rightarrow> uuid \<Rightarrow> bool" where
  "reached d u v \<longleftrightarrow> v = u \<or> (\<exists>x\<in>set (db_members d). m_user x = u \<and> m_delegate x = Some v)"

lemma notify_each_reaches:
  assumes run: "notify_each tenant us s = Inr (xs, t)" and u: "u \<in> set us"
    and sub: "map_of SUBJECTS (du_type u) = Some (perm, lookup)"
    and l: "\<And>r. only_told s r \<Longrightarrow> lookup (rm_db r) tenant (du_id u) \<noteq> None"
    and m: "m \<in> set (db_members (rm_db s))" "m_tenant m = tenant" "m_user m \<in> fst ` set (du_candidates u)" "active_member m"
      "holds_permission m perm" "''reminders'' \<notin> set (m_prefs m)"
    and kind: "template_kind (du_template u) \<noteq> Some ESCALATION"
  shows "\<exists>n\<in>fst ` set xs. tells tenant u n \<and> reached (rm_db s) (m_user m) (n_user n) \<and> (n, du_template u, du_context u) \<in> set xs"
  using run u l m(1)
proof (induction us arbitrary: s xs)
  case Nil
  then show ?case by simp
next
  case (Cons v us)
  from Cons.prems(1) obtain k d1 rows more where k: "template_kind (du_template v) = Some k"
    and n: "notify tenant k (du_type v) (du_id v) (du_candidates v) None (rm_db s) = Inr (d1, rows)"
    and rest: "notify_each tenant us (s\<lparr>rm_db := d1, rm_created := rm_created s @ map (\<lambda>n. (n_id n, rm_now s)) rows\<rparr>) = Inr (more, t)"
    and xs: "xs = map (\<lambda>n. (n, du_template v, du_context v)) rows @ more"
    by (auto simp: inr_simps)
  let ?m = "s\<lparr>rm_db := d1, rm_created := rm_created s @ map (\<lambda>n. (n_id n, rm_now s)) rows\<rparr>"
  have first: "only_told s ?m" using notify_Inr_frame [OF n] unfolding only_told_def by auto
  show ?case
  proof (cases "u = v")
    case True
    have cs: "du_candidates v \<noteq> []" using m(3) True by auto
    obtain title where "lookup (rm_db s) tenant (du_id v) = Some title"
      using Cons.prems(3) [OF only_told_refl] True by auto
    note users = written_users [OF n sub [unfolded True] this cs]
    have "m \<in> set (readers tenant (remdups (map fst (du_candidates v))) perm (rm_db s))"
      using m(2-5) Cons.prems(4) True by (simp add: readers_are)
    moreover have "case MUTABLE_KINDS k of None \<Rightarrow> True | Some sw \<Rightarrow> sw \<notin> set (m_prefs m)"
      using k kind m(6) True by (cases "du_template v") auto
    ultimately obtain w where "w \<in> fst ` set (recipients_of tenant k perm (remdups (map fst (du_candidates v))) None (rm_db s))"
      "reached (rm_db s) (m_user m) w"
      using recipients_complete [of m tenant _ perm "rm_db s" k None] unfolding reached_def by metis
    then obtain r where r: "r \<in> set rows" "reached (rm_db s) (m_user m) (n_user r)" using users by (metis imageE)
    have "tells tenant u r" using written_rows(2) [OF n r(1)] template_kind_value [OF k] True by (simp add: tells_def)
    then show ?thesis using r True by (intro bexI [of _ r]) (auto simp: xs image_Un image_image)
  next
    case False
    then have u: "u \<in> set us" using Cons.prems(2) by simp
    have l: "lookup (rm_db r) tenant (du_id u) \<noteq> None" if "only_told ?m r" for r
      using Cons.prems(3) only_told_trans [OF first that] by blast
    have mem: "db_members (rm_db ?m) = db_members (rm_db s)" using only_told_facts(5) [OF first] .
    from Cons.IH [OF rest u l] Cons.prems(4) obtain n where "n \<in> fst ` set more" "tells tenant u n"
      "reached (rm_db ?m) (m_user m) (n_user n)" "(n, du_template u, du_context u) \<in> set more" unfolding mem by blast
    then show ?thesis using mem by (auto simp: xs reached_def image_Un)
  qed
qed

lemma send_reminders_is_answered:
  assumes ten: "has_tenant tenant (rm_db s)"
  obtains x1 s1 x2 s2 x3 s3 qs t where "notify_each tenant (triage_reminders bk tenant s) s = Inr (x1, s1)"
    "notify_each tenant (action_reminders bk tenant s1) s1 = Inr (x2, s2)"
    "notify_each tenant (review_reminders bk tenant s2) s2 = Inr (x3, s3)"
    "send_reminders bk tenant s = Inr (map fst (x1 @ x2 @ x3), t)" "only_told s s1" "only_told s s2" "only_told s s3"
    "rm_queue t = rm_queue s @ qs" "\<forall>(n, tm, c)\<in>set (x1 @ x2 @ x3). \<exists>q\<in>set qs. qm_user q = n_user n \<and> qm_template q = tm \<and>
      qm_subject_id q = Some (n_subject_id n)"
proof -
  have kept: "has_tenant tenant (rm_db r)" "in_bank tenant (rm_db r) = in_bank tenant (rm_db s)" if "only_told s r" for r
    using only_told_facts(5,7) [OF that] ten by (simp_all add: has_tenant_def in_bank_def fun_eq_iff)
  have one: "\<exists>xs r'. notify_each tenant us r = Inr (xs, r') \<and> (\<forall>n\<in>fst ` set xs. in_bank tenant (rm_db s) (n_user n)) \<and> only_told s r'"
    if "only_told s r" "\<forall>u\<in>set us. well_typed u" for us r
    using notify_each_is_answered [OF that(2) kept(1) [OF that(1)]] kept(2) [OF that(1)] notify_each_tells only_told_trans [OF that(1)]
    by metis
  obtain x1 s1 where 1: "notify_each tenant (triage_reminders bk tenant s) s = Inr (x1, s1)"
    "\<forall>n\<in>fst ` set x1. in_bank tenant (rm_db s) (n_user n)" "only_told s s1"
    using one [OF only_told_refl branches_well_typed(1)] by blast
  obtain x2 s2 where 2: "notify_each tenant (action_reminders bk tenant s1) s1 = Inr (x2, s2)"
    "\<forall>n\<in>fst ` set x2. in_bank tenant (rm_db s) (n_user n)" "only_told s s2"
    using one [OF 1(3) branches_well_typed(2)] by blast
  obtain x3 s3 where 3: "notify_each tenant (review_reminders bk tenant s2) s2 = Inr (x3, s3)"
    "\<forall>n\<in>fst ` set x3. in_bank tenant (rm_db s) (n_user n)" "only_told s s3"
    using one [OF 2(3) branches_well_typed(3)] by blast
  have "\<forall>n\<in>fst ` set (x1 @ x2 @ x3). in_bank tenant (rm_db s3) (n_user n)"
    using 1(2) 2(2) 3(2) kept(2) [OF 3(3)] by auto
  from queue_mails_is_answered [OF this] obtain qs where q: "queue_mails tenant (x1 @ x2 @ x3) (rm_db s3) = Inr qs"
    "\<forall>(n, tm, c)\<in>set (x1 @ x2 @ x3). \<exists>q\<in>set qs. qm_user q = n_user n \<and> qm_template q = tm \<and> qm_subject_id q = Some (n_subject_id n)"
    by blast
  let ?t = "s3\<lparr>rm_queue := rm_queue s3 @ qs, rm_emailed := rm_emailed s3 @ map (\<lambda>(n, _). (n_id n, rm_now s3)) (x1 @ x2 @ x3)\<rparr>"
  have "send_reminders bk tenant s = Inr (map fst (x1 @ x2 @ x3), ?t)"
    by (simp add: send_reminders_def 1 2 3 send_mails_def q(1))
  then show thesis using that [OF 1(1) 2(1) 3(1) _ 1(3) 2(3) 3(3) _ q(2), of ?t] only_told_facts(10) [OF 3(3)] by simp
qed

section \<open>Mails as a system\<close>

text \<open>The rest of the program, as the mails see it: it hands nothing to the relay, keeps every row under its key, and a
  mail that went out stays so, whatever the provider reports of it.\<close>

definition mails_elsewhere :: "reminder_state \<Rightarrow> reminder_state \<Rightarrow> bool" where
  "mails_elsewhere s t \<longleftrightarrow> rm_relayed t = rm_relayed s \<and> db_next (rm_db s) \<le> db_next (rm_db t) \<and>
    map (\<lambda>e. (em_id e, em_key e, unsent (em_status e))) (rm_mails t) =
      map (\<lambda>e. (em_id e, em_key e, unsent (em_status e))) (rm_mails s)"

inductive mail_step :: "mail_settings \<Rightarrow> bank_clock \<Rightarrow> reminder_state \<Rightarrow> reminder_state \<Rightarrow> bool" for ms bk where
  delivered: "mail_step ms bk s (deliver_mail ms q refusal s)"
| reminded: "send_reminders bk tenant s = Inr (rows, t) \<Longrightarrow> mail_step ms bk s t"
| elsewhere: "mails_elsewhere s t \<Longrightarrow> mail_step ms bk s t"

text \<open>Every mail the relay took has its row, which is not waiting any more, and no two have one key.\<close>

definition mails_ok :: "reminder_state \<Rightarrow> bool" where
  "mails_ok s \<longleftrightarrow> distinct (map em_id (rm_mails s)) \<and> distinct (map em_key (rm_mails s)) \<and>
    (\<forall>e\<in>set (rm_mails s). em_id e < db_next (rm_db s)) \<and> distinct (map fst (rm_relayed s)) \<and>
    (\<forall>k\<in>fst ` set (rm_relayed s). \<exists>e\<in>set (rm_mails s). em_key e = k \<and> \<not> unsent (em_status e))"

definition mail_init :: "reminder_state \<Rightarrow> bool" where
  "mail_init s \<longleftrightarrow> rm_mails s = [] \<and> rm_relayed s = []"

lemma ensure_mail_ok:
  assumes "ensure_mail k r subj s = (e, s1)" and "mails_ok s"
  shows "mails_ok s1" "e \<in> set (rm_mails s1)" "em_key e = k" "rm_relayed s1 = rm_relayed s"
proof -
  show "mails_ok s1"
  proof (cases "find (\<lambda>e. em_key e = k) (rm_mails s)")
    case (Some x)
    then show ?thesis using assms by (simp add: ensure_mail_def)
  next
    case None
    then have new: "k \<notin> em_key ` set (rm_mails s)" by (auto simp: find_None_iff)
    have "db_next (rm_db s) \<notin> em_id ` set (rm_mails s)" using assms(2) by (fastforce simp: mails_ok_def)
    moreover have "s1 = s\<lparr>rm_db := (rm_db s)\<lparr>db_next := Suc (db_next (rm_db s))\<rparr>, rm_mails := rm_mails s @ [e]\<rparr>"
      "em_id e = db_next (rm_db s)" "em_key e = k"
      using assms(1) None by (auto simp: ensure_mail_def Let_def)
    ultimately show ?thesis using assms(2) new unfolding mails_ok_def by (simp add: less_Suc_eq)
  qed
  show "e \<in> set (rm_mails s1)" "em_key e = k" "rm_relayed s1 = rm_relayed s"
    using assms(1) by (auto simp: ensure_mail_def Let_def split: option.splits dest: find_Some_in)
qed

lemma sent_ok:
  assumes ok: "mails_ok s" and e: "e \<in> set (rm_mails s)" "unsent (em_status e)" and e1: "em_id e1 = em_id e" "em_key e1 = em_key e"
    and went: "relayed = rm_relayed s \<or> (relayed = rm_relayed s @ [(em_key e, out)] \<and> \<not> unsent (em_status e1))"
    and n: "db_next (rm_db s) \<le> db_next d"
  shows "mails_ok (s\<lparr>rm_db := d, rm_mails := put_row em_id e1 (rm_mails s), rm_relayed := relayed\<rparr>)"
proof -
  have one: "x = e" if "x \<in> set (rm_mails s)" "em_id x = em_id e" for x
    using ok e(1) that by (simp add: mails_ok_def distinct_map inj_on_def)
  have key: "x = e" if "x \<in> set (rm_mails s)" "em_key x = em_key e" for x
    using ok e(1) that by (simp add: mails_ok_def distinct_map inj_on_def)
  have "map em_key (put_row em_id e1 (rm_mails s)) = map em_key (rm_mails s)"
    using one e1 by (auto simp: put_row_def)
  moreover have fresh: "em_key e \<notin> fst ` set (rm_relayed s)"
    using ok key e(2) by (auto simp: mails_ok_def)
  moreover have "\<exists>x\<in>set (put_row em_id e1 (rm_mails s)). em_key x = k \<and> \<not> unsent (em_status x)"
    if k: "k \<in> fst ` set (rm_relayed s)" for k
  proof -
    obtain x where x: "x \<in> set (rm_mails s)" "em_key x = k" "\<not> unsent (em_status x)" using ok k unfolding mails_ok_def by blast
    then have "em_id x \<noteq> em_id e1" using one e(2) e1(1) by auto
    then show ?thesis using x by (intro bexI [of _ x]) (auto simp: in_set_put_row)
  qed
  moreover have "e1 \<in> set (put_row em_id e1 (rm_mails s))" using e(1) e1(1) by (auto simp: in_set_put_row)
  moreover have "\<forall>x\<in>set (put_row em_id e1 (rm_mails s)). em_id x < db_next d"
    using ok n e(1) e1(1) by (fastforce simp: mails_ok_def in_set_put_row)
  moreover from calculation went e1(2)
  have "\<forall>k\<in>fst ` set relayed. \<exists>x\<in>set (put_row em_id e1 (rm_mails s)). em_key x = k \<and> \<not> unsent (em_status x)"
    by (elim disjE) (auto 0 3)
  moreover have "distinct (map fst relayed)" using went fresh ok by (auto simp: mails_ok_def)
  ultimately show ?thesis using ok by (simp add: mails_ok_def)
qed

lemma deliver_keeps_ok:
  assumes ok: "mails_ok s"
  shows "mails_ok (deliver_mail ms q refusal s)"
proof (cases "find (\<lambda>m. m_tenant m = qm_tenant q \<and> m_user m = qm_user q \<and> active_member m) (db_members (rm_db s))")
  case None
  then show ?thesis using ok by (simp add: deliver_mail_def)
next
  case (Some m)
  show ?thesis
  proof (cases "composed ms q m s")
    case None
    then show ?thesis using ok Some by (simp add: deliver_mail_def)
  next
    case c: (Some c)
    obtain r subj body day where out: "c = ((r, subj, body), day)" by (metis prod.exhaust)
    let ?k = "\<lparr>mk_tenant = qm_tenant q, mk_user = qm_user q, mk_template = qm_template q,
      mk_subject_type = qm_subject_type q, mk_subject_id = qm_subject_id q, mk_sent_on = day\<rparr>"
    obtain e s1 where en: "ensure_mail ?k r subj s = (e, s1)" by (cases "ensure_mail ?k r subj s")
    note e = ensure_mail_ok [OF en ok]
    show ?thesis
    proof (cases "unsent (em_status e)")
      case False
      then show ?thesis using e(1) by (simp add: deliver_mail_def Some c out en)
    next
      case True
      let ?e1 = "case refusal of Some kind \<Rightarrow> e\<lparr>em_to := r, em_subject := subj, em_status := MAIL_FAILED, em_error := kind\<rparr>
        | None \<Rightarrow> e\<lparr>em_to := r, em_subject := subj, em_status := MAIL_SENT, em_error := [], em_sent_at := Some (rm_now s)\<rparr>"
      let ?l = "if refusal = None then rm_relayed s1 @ [(em_key e, r, subj, body)] else rm_relayed s1"
      have "deliver_mail ms q refusal s =
          s1\<lparr>rm_db := record_event (mail_entry ?e1) (rm_db s1), rm_mails := put_row em_id ?e1 (rm_mails s1), rm_relayed := ?l\<rparr>"
        using True by (simp add: deliver_mail_def Some c out en e(3) Let_def)
      moreover have "mails_ok (s1\<lparr>rm_db := record_event (mail_entry ?e1) (rm_db s1), rm_mails := put_row em_id ?e1 (rm_mails s1), rm_relayed := ?l\<rparr>)"
        by (rule sent_ok [OF e(1,2) True]) (auto simp: unsent_def frame_simps split: option.splits)
      ultimately show ?thesis by simp
    qed
  qed
qed

lemma send_reminders_mails:
  assumes "send_reminders bk tenant s = Inr (rows, t)"
  shows "rm_mails t = rm_mails s \<and> rm_relayed t = rm_relayed s \<and> db_next (rm_db s) \<le> db_next (rm_db t)"
proof -
  from assms obtain x1 s1 x2 s2 x3 s3 where
    b: "notify_each tenant (triage_reminders bk tenant s) s = Inr (x1, s1)"
    "notify_each tenant (action_reminders bk tenant s1) s1 = Inr (x2, s2)"
    "notify_each tenant (review_reminders bk tenant s2) s2 = Inr (x3, s3)"
    and m: "send_mails tenant (x1 @ x2 @ x3) s3 = Inr t"
    by (auto simp: send_reminders_def inr_simps)
  have "only_told s s3" using notify_each_tells b only_told_trans by metis
  then show ?thesis using only_told_facts(9,11,12) send_mails_frame [OF m] by auto
qed

lemma step_keeps_mails_ok: "mail_step ms bk s t \<Longrightarrow> mails_ok s \<Longrightarrow> mails_ok t"
proof (induction rule: mail_step.induct)
  case delivered
  then show ?case by (rule deliver_keeps_ok)
next
  case (reminded tenant s rows t)
  then show ?case using send_reminders_mails [OF reminded.hyps] by (fastforce simp: mails_ok_def)
next
  case (elsewhere s t)
  let ?f = "\<lambda>e. (em_id e, em_key e, unsent (em_status e))"
  have eq: "map ?f (rm_mails t) = map ?f (rm_mails s)" using elsewhere.hyps by (simp add: mails_elsewhere_def)
  have cols: "map em_id (rm_mails t) = map em_id (rm_mails s)" "map em_key (rm_mails t) = map em_key (rm_mails s)"
    using arg_cong [OF eq, of "map fst"] arg_cong [OF eq, of "map (fst \<circ> snd)"] by (simp_all add: comp_def)
  have sets: "?f ` set (rm_mails t) = ?f ` set (rm_mails s)" using arg_cong [OF eq, of set] by simp
  have "\<exists>e\<in>set (rm_mails t). em_key e = k \<and> \<not> unsent (em_status e)" if "k \<in> fst ` set (rm_relayed s)" for k
  proof -
    have "\<forall>k\<in>fst ` set (rm_relayed s). \<exists>e\<in>set (rm_mails s). em_key e = k \<and> \<not> unsent (em_status e)"
      using elsewhere.prems unfolding mails_ok_def by (elim conjE)
    from bspec [OF this that] obtain e where e: "e \<in> set (rm_mails s)" "em_key e = k" "\<not> unsent (em_status e)" by blast
    have "?f e \<in> ?f ` set (rm_mails t)" unfolding sets by (rule imageI [OF e(1)])
    then obtain x where "?f e = ?f x" "x \<in> set (rm_mails t)" by (rule imageE)
    then show ?thesis using e(2,3) by (intro bexI [of _ x]) simp_all
  qed
  moreover have "em_id e < db_next (rm_db t)" if "e \<in> set (rm_mails t)" for e
  proof -
    have "?f e \<in> ?f ` set (rm_mails s)" unfolding sets [symmetric] by (rule imageI [OF that])
    then obtain x where "?f e = ?f x" "x \<in> set (rm_mails s)" by (rule imageE)
    then show ?thesis using elsewhere by (auto simp: mails_elsewhere_def mails_ok_def)
  qed
  ultimately show ?case using elsewhere cols by (simp add: mails_ok_def mails_elsewhere_def)
qed

interpretation mail_sys: invariant_system mail_init "mail_step ms bk" mails_ok
  by unfold_locales (simp add: mail_init_def mails_ok_def, rule step_keeps_mails_ok)

end
