(* ===== verification/Reminder_Theorems.thy ===== *)
theory Reminder_Theorems
  imports Reminder_Laws Case_Example
begin

text \<open>
  Reminders come once, whoever answers for the record hears of it, and no mail goes out twice.
\<close>

section \<open>A bank with an action due in two days\<close>

text \<open>An instant is an hour; the bank sends at five, and it is five on day 0.\<close>

definition ex_clock :: bank_clock where
  "ex_clock = \<lparr>bk_send_hour = 5, bk_hour = (\<lambda>_ now. nat (now mod 24)), bk_at = (\<lambda>_ day hour. day * 24 + int hour),
     bk_date = (\<lambda>_ now. now div 24), bk_base_url = ''https://grc/''\<rparr>"

definition ex_deed :: "uuid \<Rightarrow> case_action" where
  "ex_deed i = \<lparr>a_id = i, a_tenant = 1, a_case = 20, a_title = ''do it'', a_owner = 2, a_due_date = 2, a_done_at = None,
     a_done_by = None, a_created_by = 2, a_created_at = 5, a_removed_at = None, a_removed_by = None, a_version = 1\<rparr>"

definition ex_start :: reminder_state where
  "ex_start = \<lparr>rm_db = ex_db\<lparr>db_next := 50, db_cases := [ex_case], db_actions := [ex_deed 39]\<rparr>,
     rm_org = \<lparr>og_teams = [], og_team_members = [(1, 1, 2)], og_role_keys = []\<rparr>,
     rm_leads = [(1, \<lparr>ld_reminder = [2, 1], ld_review = [30]\<rparr>)], rm_entries = [], rm_scopes = [], rm_created = [], rm_emailed = [],
     rm_mails = [], rm_queue = [], rm_relayed = []\<rparr>"

definition ex_run :: "error + notification list \<times> reminder_state" where
  "ex_run = send_reminders ex_clock 1 ex_start"

abbreviation "ex_rows \<equiv> fst (projr ex_run)"
abbreviation "ex_told \<equiv> snd (projr ex_run)"

text \<open>Somebody adds another action, and the beat comes again.\<close>

definition ex_more :: reminder_state where
  "ex_more = ex_told\<lparr>rm_db := (rm_db ex_told)\<lparr>db_actions := [ex_deed 39, ex_deed 40]\<rparr>\<rparr>"

definition ex_rerun :: "error + notification list \<times> reminder_state" where
  "ex_rerun = send_reminders ex_clock 1 ex_more"

abbreviation "ex_rows2 \<equiv> fst (projr ex_rerun)"

lemma ex_run_facts: "\<not> isl ex_run" "map (\<lambda>n. (n_user n, n_subject_id n)) ex_rows = [(2, 39)]"
  "\<not> isl ex_rerun" "map (\<lambda>n. (n_user n, n_subject_id n)) ex_rows2 = [(2, 40)]"
  "map qm_user (rm_queue ex_told) = [2]"
  by code_simp+

lemma run_answered: "\<not> isl r \<Longrightarrow> r = Inr (fst (projr r), snd (projr r))"
  by (cases r) auto

lemma ex_answered: "ex_run = Inr (ex_rows, ex_told)" "ex_rerun = Inr (ex_rows2, snd (projr ex_rerun))"
  using run_answered [OF ex_run_facts(1)] run_answered [OF ex_run_facts(3)] .

section \<open>Reminders come once\<close>

text \<open>What the rest of the program leaves of the notifications between two runs.\<close>

definition notices_kept :: "reminder_state \<Rightarrow> reminder_state \<Rightarrow> bool" where
  "notices_kept s t \<longleftrightarrow> set (db_notifications (rm_db s)) \<subseteq> set (db_notifications (rm_db t)) \<and> set (rm_created s) \<subseteq> set (rm_created t)"

definition same_notice :: "notification \<Rightarrow> notification \<Rightarrow> bool" where
  "same_notice n m \<longleftrightarrow> n_kind m = n_kind n \<and> n_subject_type m = n_subject_type n \<and> n_subject_id m = n_subject_id n"

lemma reminder_facts:
  assumes "u \<in> set (all_reminders bk tenant r)"
  shows "\<not> already bk tenant (du_type u) r (du_template u) (du_id u)"
    and "du_type u = ''action'' \<Longrightarrow> \<exists>a\<in>set (db_actions (rm_db r)). action_due tenant r a \<and> du_id u = a_id a \<and>
      (du_template u = M_OVERDUE \<longleftrightarrow> a_due_date a = rm_today tenant r - 1)"
  using assms
  by (auto simp: triage_reminders_def action_reminders_def review_reminders_def outstanding_are triage_reminder_def
      action_reminder_def review_reminder_def Let_def split: if_splits)

text \<open>A notice written by a run keeps it from being written again that day.\<close>

lemma not_again_today:
  assumes run: "send_reminders bk tenant s = Inr (rows, s1)" and kept: "notices_kept s1 s2"
    and run2: "send_reminders bk tenant s2 = Inr (rows2, s3)" and day: "rm_today tenant s2 = rm_today tenant s"
    and clock: "bk_at bk tenant (rm_today tenant s) 0 \<le> rm_now s" and n: "n \<in> set rows" and m: "m \<in> set rows2"
  shows "\<not> same_notice n m"
proof
  assume same: "same_notice n m"
  obtain r1 u1 where u1: "tells tenant u1 n" using send_reminders_rows(1) [OF run n] by blast
  obtain r u where r: "only_told s2 r" and u: "u \<in> set (all_reminders bk tenant r)" "tells tenant u m"
    using send_reminders_rows(1) [OF run2 m] by blast
  note told = only_told_facts(1,13,14) [OF r]
  have "n \<in> set (db_notifications (rm_db r))" "(n_id n, rm_now s) \<in> set (rm_created r)"
    using send_reminders_rows(2) [OF run n] kept told(2,3) unfolding notices_kept_def by blast+
  moreover have "n_tenant n = tenant" "n_subject_type n = du_type u" "n_subject_id n = du_id u" "n_kind n = template_value (du_template u)"
    using u1 u(2) same by (simp_all add: tells_def same_notice_def)
  ultimately have "already bk tenant (du_type u) r (du_template u) (du_id u)"
    using clock day told(1) [of tenant] unfolding already_def by (intro disjI2 bexI [of _ n]) auto
  then show False using reminder_facts(1) [OF u(1)] by blast
qed

text \<open>C38: between two runs, whatever else happens, no reminder comes again: not on the same day, and an action, as long as it is
  due on the same date, is called overdue by at most one run on whatever days.\<close>

theorem reminders_come_once:
  assumes "send_reminders bk tenant s = Inr (rows, s1)" and "notices_kept s1 s2" and "send_reminders bk tenant s2 = Inr (rows2, s3)"
    and "bk_at bk tenant (rm_today tenant s) 0 \<le> rm_now s" and "n \<in> set rows" and "m \<in> set rows2"
    and "rm_today tenant s2 = rm_today tenant s \<or> (n_kind n = ''overdue'' \<and> n_subject_type n = ''action'' \<and>
      (\<forall>a\<in>set (db_actions (rm_db s)). \<forall>b\<in>set (db_actions (rm_db s2)). a_id a = n_subject_id n \<longrightarrow> a_id b = n_subject_id n \<longrightarrow>
        a_due_date b = a_due_date a))"
  shows "\<not> same_notice n m"
proof
  assume same: "same_notice n m"
  show False
  proof (cases "rm_today tenant s2 = rm_today tenant s")
    case True
    then show False using not_again_today [OF assms(1-3) True assms(4-6)] same by blast
  next
    case False
    obtain r u where r: "only_told s r" and u: "u \<in> set (all_reminders bk tenant r)" "tells tenant u n"
      using send_reminders_rows(1) [OF assms(1,5)] by blast
    obtain r' u' where r': "only_told s2 r'" and u': "u' \<in> set (all_reminders bk tenant r')" "tells tenant u' m"
      using send_reminders_rows(1) [OF assms(3,6)] by blast
    have over: "du_template u = M_OVERDUE" "du_type u = ''action''" "du_template u' = M_OVERDUE" "du_type u' = ''action''"
      "du_id u' = n_subject_id n" "du_id u = n_subject_id n"
      using False assms(7) u(2) u'(2) same template_value_inj [of _ M_OVERDUE] by (auto simp: tells_def same_notice_def)
    obtain a where a: "a \<in> set (db_actions (rm_db s))" "a_id a = n_subject_id n" "a_due_date a = rm_today tenant s - 1"
      using reminder_facts(2) [OF u(1) over(2)] over only_told_facts(1,4) [OF r] by auto
    obtain b where b: "b \<in> set (db_actions (rm_db s2))" "a_id b = n_subject_id n" "a_due_date b = rm_today tenant s2 - 1"
      using reminder_facts(2) [OF u'(1) over(4)] over only_told_facts(1,4) [OF r'] by auto
    show False using assms(7) False a b by auto
  qed
qed

theorem reminders_come_once_witness:
  "map n_subject_id ex_rows = [39] \<and> map n_subject_id ex_rows2 = [40] \<and> \<not> same_notice (hd ex_rows) (hd ex_rows2)"
proof -
  have ids: "map n_subject_id ex_rows = [39]" "map n_subject_id ex_rows2 = [40]"
    using arg_cong [OF ex_run_facts(2), of "map snd"] arg_cong [OF ex_run_facts(4), of "map snd"] by (simp_all add: comp_def)
  have rows: "hd ex_rows \<in> set ex_rows" "hd ex_rows2 \<in> set ex_rows2"
    using ids by auto
  have runs: "send_reminders ex_clock 1 ex_start = Inr (ex_rows, ex_told)"
    "send_reminders ex_clock 1 ex_more = Inr (ex_rows2, snd (projr ex_rerun))"
    using ex_answered by (simp_all only: ex_run_def ex_rerun_def)
  have "\<not> same_notice (hd ex_rows) (hd ex_rows2)"
  proof (rule reminders_come_once [OF runs(1) _ runs(2) _ rows])
    show "notices_kept ex_told ex_more" by (simp add: notices_kept_def ex_more_def)
    show "bk_at ex_clock 1 (rm_today 1 ex_start) 0 \<le> rm_now ex_start" by code_simp
    show "rm_today 1 ex_more = rm_today 1 ex_start \<or> (n_kind (hd ex_rows) = ''overdue'' \<and> n_subject_type (hd ex_rows) = ''action'' \<and>
      (\<forall>a\<in>set (db_actions (rm_db ex_start)). \<forall>b\<in>set (db_actions (rm_db ex_more)). a_id a = n_subject_id (hd ex_rows) \<longrightarrow>
        a_id b = n_subject_id (hd ex_rows) \<longrightarrow> a_due_date b = a_due_date a))"
      by (rule disjI1) code_simp
  qed
  then show ?thesis using ids by blast
qed

section \<open>The owner hears of it\<close>

lemma action_lookup_told: "only_told s r \<Longrightarrow> action_lookup (rm_db r) = action_lookup (rm_db s)"
  using only_told_facts(3,4) [of s r]
  by (auto simp: only_told_def action_lookup_def change_case_lookup_def change_title_def fun_eq_iff split: option.splits)

text \<open>The reminders of cases leave those of actions as they were.\<close>

lemma triage_tells_of_cases:
  assumes b: "notify_each tenant (triage_reminders bk tenant s) s = Inr (xs, s1)"
    and ids: "\<forall>n\<in>set (db_notifications (rm_db s)). n_id n < db_next (rm_db s)" and quiet: "\<not> already bk tenant ''action'' s tm i"
  shows "\<not> already bk tenant ''action'' s1 tm i"
proof
  note e = notify_each_tells [OF b] and new = notify_each_new [OF b]
  note same = only_told_facts(1,9) [OF conjunct1 [OF e]]
  assume "already bk tenant ''action'' s1 tm i"
  then obtain n k c where n: "n \<in> set (db_notifications (rm_db s1))" "n_tenant n = tenant" "n_subject_type n = ''action''"
    "n_subject_id n = i" "n_kind n = template_value tm" "(k, c) \<in> set (rm_created s1)" "k = n_id n"
    "bk_at bk tenant (rm_today tenant s) 0 \<le> c"
    using quiet by (auto simp: already_def same)
  have "n \<notin> fst ` set xs"
  proof
    assume "n \<in> fst ` set xs"
    then obtain u where "u \<in> set (triage_reminders bk tenant s)" "tells tenant u n" using e unfolding told_def by blast
    then show False using n(3) by (auto simp: tells_def triage_reminders_def outstanding_are triage_reminder_def Let_def)
  qed
  then have old: "n \<in> set (db_notifications (rm_db s))" using new n(1) by blast
  then have "n_id n < db_next (rm_db s)" using ids by blast
  then have "(k, c) \<in> set (rm_created s)" using bspec [OF conjunct2 [OF new] n(6)] n(7) by simp
  then have "already bk tenant ''action'' s tm i"
    unfolding already_def using n old by (intro disjI2 bexI [of _ n]) auto
  then show False using quiet by blast
qed

lemma action_reminder_in:
  assumes "a \<in> set (db_actions (rm_db s))" and "action_due tenant s a"
    and "\<not> already bk tenant ''action'' s (du_template (action_reminder bk tenant s a)) (a_id a)"
  shows "action_reminder bk tenant s a \<in> set (action_reminders bk tenant s)"
proof -
  have "du_type (action_reminder bk tenant s a) = ''action''" "du_id (action_reminder bk tenant s a) = a_id a"
    by (simp_all add: action_reminder_def)
  then show ?thesis using assms by (simp add: action_reminders_def outstanding_are)
qed



section \<open>No mail goes out twice\<close>

text \<open>C40: over any run of deliveries, of reminders and of the rest of the program, in any order and however often a task is
  retried, the relay takes at most one mail per bank, person, template, record and day (or week, for a digest), and
  each one it took has its row, which is not waiting.\<close>

theorem mails_go_out_once:
  assumes "mail_init s0" and "(mail_step ms bk)\<^sup>*\<^sup>* s0 s"
  shows "distinct (map fst (rm_relayed s)) \<and>
    (\<forall>k\<in>fst ` set (rm_relayed s). \<exists>e\<in>set (rm_mails s). em_key e = k \<and> \<not> unsent (em_status e))"
  using mail_sys.inv_reachable [OF assms] unfolding mails_ok_def by (intro conjI) (elim conjE, assumption)+

text \<open>The mail of the first run is delivered, and the task is run again.\<close>

definition ex_mailer :: mail_settings where
  "ex_mailer = \<lparr>ml_compose = (\<lambda>_ _ _. (''ann'', ''due'', ''text'')), ml_digest = (\<lambda>_ _. None)\<rparr>"

definition ex_delivered :: reminder_state where
  "ex_delivered = deliver_mail ex_mailer (hd (rm_queue ex_told)) None (deliver_mail ex_mailer (hd (rm_queue ex_told)) None ex_told)"

theorem mails_go_out_once_witness:
  "length (rm_relayed ex_delivered) = 1 \<and> distinct (map fst (rm_relayed ex_delivered)) \<and>
    (\<exists>e\<in>set (rm_mails ex_delivered). em_key e = fst (hd (rm_relayed ex_delivered)) \<and> \<not> unsent (em_status e))"
proof -
  have run: "mail_step ex_mailer ex_clock ex_start ex_told" using ex_answered(1) mail_step.reminded by (metis ex_run_def)
  have steps: "(mail_step ex_mailer ex_clock)\<^sup>*\<^sup>* ex_start ex_delivered" unfolding ex_delivered_def
    by (rule rtranclp.rtrancl_into_rtrancl, rule rtranclp.rtrancl_into_rtrancl, rule r_into_rtranclp, rule run) (rule mail_step.delivered)+
  have one: "length (rm_relayed ex_delivered) = 1" by code_simp
  have "mail_init ex_start" by (simp add: mail_init_def ex_start_def)
  note out = mails_go_out_once [OF this steps]
  have "hd (rm_relayed ex_delivered) \<in> set (rm_relayed ex_delivered)" using one by (cases "rm_relayed ex_delivered") auto
  then show ?thesis using out one by blast
qed

section \<open>A mail delivered late\<close>

text \<open>A mail counts as sent on the day it is delivered, not on the day it was asked for: delivered after midnight, the reminder
  of one day takes the place of the next day's.\<close>

definition next_day :: "reminder_state \<Rightarrow> reminder_state" where
  "next_day s = s\<lparr>rm_db := (rm_db s)\<lparr>db_now := db_now (rm_db s) + 24, db_tenants := map (\<lambda>t. t\<lparr>tn_today := tn_today t + 1\<rparr>) (db_tenants (rm_db s))\<rparr>\<rparr>"

lemma late_mail_silences_the_next_day:
  "map n_subject_id (fst (projr (send_reminders ex_clock 1 (next_day ex_told)))) = [39]"
  "send_reminders ex_clock 1 (deliver_mail ex_mailer (hd (rm_queue ex_told)) None (next_day ex_told)) =
    Inr ([], deliver_mail ex_mailer (hd (rm_queue ex_told)) None (next_day ex_told))"
  by code_simp+

end
