(* ===== verification/Spec2Isabelle.thy ===== *)
theory Spec2Isabelle
  imports Signoff_Theorems Move_Theorems Route_Theorems Evidence_Theorems Notify_Theorems Library_Theorems
    Outbox_Theorems Recurrence Absence_Theorems Escalation_Theorems Retag_Theorems Session_Theorems
    Gap_Theorems Reminder_Theorems
begin

text \<open>
  A development beside \<^verbatim>\<open>src/backend\<close>: the part of the GRC platform in which a bank works the
  regulatory changes that concern it, what reaches that work from the shared library, and what leaves it
  (notifications, audit rows, the outbox relay, escalation).

  \<^bold>\<open>The program.\<close>  A shared library holds authorities, instruments, obligations and regulatory changes.
  Every bank (tenant) has a footprint of taxonomy terms, and one case per change, which its people move
  through fixed categories: new, assigned, assessing, implementing, sign-off, closed, dismissed.  A move
  goes through one function that checks the drawn edge, the guards of that edge and a version, appends to
  a ledger, audits, and records an outbox event; a relay delivers the events to consumers.  An approval
  needs a second person and a fresh passkey step-up.  Evidence is identified, hashed, stored and scanned
  before it can be downloaded.  The library itself changes by proposals: a batch of re-tags is filed by one
  person, or by an agent within a run, as one previewed row per obligation, and decided row by row by another.

  \<^bold>\<open>The parts and their theories.\<close>  A definition has the name of the function or class it models; what is
  new is said where it stands.

    \<^item> \<open>GRC_Prelude\<close>: the names of the basic types, the error monad (an exception is the left injection of a
      sum), rows as lists, and two interfaces as locales: \<open>keyed_table\<close>, a list of rows in a record that is
      read and updated by key, interpreted for the cases, actions, evidence and assessments in
      \<open>Case_Store\<close>; and \<open>invariant_system\<close>, an initial predicate, a step and an invariant every step keeps,
      interpreted for the abstract machine in \<open>Case_Board\<close> and for the program in \<open>Case_System\<close>.
    \<^item> \<open>GRC_Text\<close> and \<open>Calendar\<close>: what is used of Python's \<^verbatim>\<open>str\<close>, \<^verbatim>\<open>pathlib\<close>, strict UTF-8 and \<^verbatim>\<open>datetime.date\<close>.
    \<^item> \<open>Footprint\<close>: \<^verbatim>\<open>taxonomy/matching.py\<close>, with the SQL functions of \<^verbatim>\<open>taxonomy/migrations/0006\<close> and \<^verbatim>\<open>0008\<close>.
    \<^item> \<open>Case_State\<close>: \<^verbatim>\<open>cases/state.py\<close> and the categories of \<^verbatim>\<open>shared/kinds.py\<close>.
    \<^item> \<open>Case_Store\<close>: the rows of \<^verbatim>\<open>cases/models.py\<close> and the columns read of other apps, the database as a
      record of tables, the CHECK constraints of \<^verbatim>\<open>cases/migrations/0002_case_workflow.py\<close>, \<^verbatim>\<open>shared/audit.py\<close>.
    \<^item> \<open>Notify\<close>: \<^verbatim>\<open>collab/subjects.py\<close> and \<open>notify\<close> of \<^verbatim>\<open>collab/logic.py\<close>.
    \<^item> \<open>Case_Logic\<close>, \<open>Case_Triage\<close>, \<open>Case_Assessment\<close>, \<open>Case_Actions\<close>, \<open>Case_Signoff\<close>, \<open>Case_Evidence\<close>: the modules
      of the same names under \<^verbatim>\<open>cases/\<close>, with \<^verbatim>\<open>cases/responses.py\<close>, \<^verbatim>\<open>cases/tasks.py\<close> and \<^verbatim>\<open>shared/storage.py\<close>.
    \<^item> \<open>Case_Library\<close>: \<^verbatim>\<open>cases/creation.py\<close>, \<^verbatim>\<open>cases/matching.py\<close>, \<^verbatim>\<open>cases/so_what.py\<close>, \<^verbatim>\<open>cases/links.py\<close>, and
      the reads of \<^verbatim>\<open>cases/reading.py\<close> and \<^verbatim>\<open>library/reading.py\<close> they use.
    \<^item> \<open>Case_Routes\<close>: the write routes of \<^verbatim>\<open>cases/api.py\<close>, with the gates of \<^verbatim>\<open>shared/permissions.py\<close>, the
      principal of \<^verbatim>\<open>shared/authentication.py\<close> and the version header of \<^verbatim>\<open>taxonomy/http.py\<close>.
    \<^item> \<open>Case_Board\<close>: the abstract case machine; \<open>Case_Runs\<close>: every handler is a run of it; \<open>Case_System\<close>: the
      whole program as a step relation.  \<open>Case_Example\<close>: the database the witnesses are evaluated on.
    \<^item> \<open>Outbox\<close>: \<^verbatim>\<open>shared/outbox.py\<close>.  \<open>Absence\<close>: \<^verbatim>\<open>tenants/out_of_office.py\<close> and its two routes.
      \<open>Escalation\<close>: \<^verbatim>\<open>collab/escalation.py\<close>.  \<open>Recurrence\<close>: \<^verbatim>\<open>library/recurrence.py\<close>.
    \<^item> \<open>Retag_Store\<close>: what a batch of re-tags reads and writes, the rows and constraints of \<^verbatim>\<open>proposals/models.py\<close>
      and its migrations, the scopes of \<^verbatim>\<open>library/reading.py\<close>, the checks on a run of \<^verbatim>\<open>agents/runs.py\<close>, the standards
      check of \<^verbatim>\<open>proposals/standards.py\<close>.  \<open>Retag\<close>: \<^verbatim>\<open>proposals/batch.py\<close>, the re-tag of \<^verbatim>\<open>proposals/apply.py\<close>, the
      two routes.  \<open>Retag_Laws\<close>: scopes, links and grouped updates.  \<open>Retag_System\<close>: what one request does, and the
      batches as an \<open>invariant_system\<close>.  \<open>Retag_Answers\<close>: when approving is answered.  \<open>Retag_Example\<close>: a library.
    \<^item> \<open>Session_Store\<close>: people, sessions, grants, policies and the security log, with their constraints and the guard
      trigger of a grant, and \<^verbatim>\<open>identity/tokens.py\<close>.  \<open>Support\<close>: \<^verbatim>\<open>tenants/support_access.py\<close>.  \<open>Sessions\<close>:
      \<^verbatim>\<open>identity/session_logic.py\<close>, entering a bank, the routes of support access.  \<open>Session_System\<close>: the machine
      of sessions and grants in nine moves, its invariant, and every handler as a run of it.  \<open>Session_Laws\<close>: what no
      later step undoes, and the texts of tokens (with \<open>Text_Laws\<close>: numbers and split texts).  \<open>Session_Example\<close>: one
      sign-in, one replay, one support visit.
    \<^item> \<open>Gaps\<close>: \<^verbatim>\<open>register/gaps.py\<close>, its rows, constraints and trigger, and the routes of \<^verbatim>\<open>register/api.py\<close>.
      \<open>Gap_System\<close>: what may happen to one gap in six rules, every route as one of them, the invariant, and where an
      acceptance comes from.
    \<^item> \<open>Reminders\<close>: \<^verbatim>\<open>collab/reminders.py\<close>, the queue and the delivery of its mails (\<^verbatim>\<open>collab/mail.py\<close>,
      \<^verbatim>\<open>collab/tasks.py\<close>).  \<open>Reminder_Laws\<close>: where the notifications of a run come from, that it is answered, and the
      mails as an \<open>invariant_system\<close>.

  Who gets in is decided by sessions: a short-lived signed access token, a refresh secret that is exchanged at every
  use, a row behind both that can be revoked; and platform support reads a bank only under a grant the bank approved.
  Beside the cases a bank keeps a register of obligations and the gaps it found in meeting them; a gap is worked off and
  closed, or its risk is accepted by a second person.

  \<^bold>\<open>State.\<close>  The database is one record (\<open>db\<close>) of lists of rows in insertion order, a counter for primary
  keys, and a clock.  A handler takes it and either refuses, which is a rolled back transaction, or answers
  with the database it leaves.  The library of the re-tags is a record around it (\<open>library\<close>), with the tables
  only they use, and so are the records of sessions and grants (\<open>identity\<close>) of gaps (\<open>gap_register\<close>) and of reminders and mails
  (\<open>reminder_state\<close>).  The handlers of sessions that refuse keep
  what they wrote, a revocation or a log row, because their refusal is answered inside the transaction of the request:
  they return the state beside the answer.  Requests are atomic and follow one another in any order: the row lock and
  the transaction of a handler make them so.  A bank's local day is a column, where the code computes it
  from a time zone.

  \<^bold>\<open>What is shown.\<close>
    \<^item> \<open>Signoff_Theorems\<close>: of every reachable state, the gate before sign-off, two people at a signed-off
      closure and its permanence, the ledger as a path and as append-only, rows in the zone of their case.
    \<^item> \<open>Move_Theorems\<close>: no second write at a version already used, guards that imply the CHECKs, offers that
      are exactly what can be answered, refusals that name the failing condition.
    \<^item> \<open>Route_Theorems\<close>: who is answered, isolation of banks, stepped-up approvals, audit rows free of typed
      text.
    \<^item> \<open>Evidence_Theorems\<close>: identification, the round trip through storage, only clean files served, the scan.
    \<^item> \<open>Notify_Theorems\<close>, \<open>Escalation_Theorems\<close>, \<open>Absence_Theorems\<close>: who is told and who stands in.
    \<^item> \<open>Library_Theorems\<close>: the refinement of the machine by the program, the three versions of the scope rule,
      cases opened, verdicts recomputed, drafts.
    \<^item> \<open>Outbox_Theorems\<close>: delivery once and in order, drained backlogs, the merged reads.
    \<^item> \<open>Recurrence\<close>: the shift of years ends and keeps the calendar.
    \<^item> \<open>Retag_Theorems\<close>: a decision writes what was previewed and nothing else, a filed batch can be approved, a
      batch ends with its rows and never by its proposer, a standard keeps its one term, a decision is final, a
      retried request files nothing.

    \<^item> \<open>Session_Theorems\<close>: revoked sessions, spent refresh tokens and revoked grants are out for good, a late replay
      ends its session, sessions end in time, support reads under an approved grant, permissions stay in their zone,
      the handlers refine the machine, and the tokens of a sign-in are read back.
    \<^item> \<open>Gap_Theorems\<close>: an accepted risk was asked for by one person and approved by another, and what was approved is
      what was asked about.
    \<^item> \<open>Reminder_Theorems\<close>: a reminder comes once, the owner of a due action hears of it, no mail goes out twice; and a
      mail delivered after midnight silences the next day's reminder.

  \<^bold>\<open>Parameters.\<close>  Code that is not the program's is an argument: the malware scanner, the listing of a zip
  file, SHA-256 and the URL splitter (fields of \<open>evidence_settings\<close>), dateutil's parser and expansion, the
  settings of the deployment, the link validator and the content screen of a batch (\<open>retag_settings\<close>), the hash, the
  signature, the random secrets and the text of a key behind a token (\<open>token_settings\<close>; that secrets are fresh and
  their hashes differ is \<open>fresh_secrets\<close>, that texts hold no dot and are read back \<open>token_texts\<close>), the clock of a bank's time zone (\<open>bank_clock\<close>), the text of a mail
  (\<open>mail_settings\<close>), and the consumers' handlers (\<open>run\<close> of \<open>Outbox\<close>, together with the rows a handler records).  Characters are those below 256.

  \<^bold>\<open>Bounds.\<close>  The scan loop recurses on the retries left.  The backlog drains within the number of attempts
  the pending rows have left, which every batch that finds one due reduces.  The shift of years is a
  recursion with a measure: it ends within the 400 years of the calendar's cycle.  There is no fuel.

  \<^bold>\<open>Not modelled.\<close>  Request and response schemas (pydantic), labels and read-only views, the case file
  export; the database setting that carries a row-level security zone (the zones themselves are
  modelled); the catalogs of the mails; advisory locks, logging and metrics; the identity ceremonies before a session
  (codes, passkeys, invitations), whose cryptography is a library's; cookies;
  search and Ask, which are calls to a database, an embedder and a model; seeds and factories; the frontend.

  \<^bold>\<open>Next.\<close>  Proposals of one record (\<^verbatim>\<open>proposals/logic.py\<close>, \<^verbatim>\<open>apply.py\<close>): proposing, deciding, applying.
  Then the interpretations, links and statements of the register, the registration and curation of \<^verbatim>\<open>watch\<close>, invitations and rate limits of
  \<^verbatim>\<open>identity\<close> and \<^verbatim>\<open>search/limits.py\<close>.
\<close>

end
